(* ===== verification/Prelude.thy ===== *)
theory Prelude
  imports Main "HOL-Library.Sublist"
begin

text \<open>
  Shared vocabulary of the development: the result type of fallible Rust functions and the
  \<open>?\<close> operator, checked \<open>i64\<close> arithmetic, and the part of Rust's string library the agent
  uses.  A Rust \<open>String\<close> is a sequence of UTF-8 bytes, so it is modelled as a
  \<^typ>\<open>string\<close> whose characters are bytes: \<open>len\<close> is \<^const>\<open>length\<close>, and searching, splitting
  and replacing are exact on bytes because UTF-8 is self-synchronising.
\<close>

named_theorems result_simps \<open>unfolding of the error-propagating combinators\<close>
named_theorems str_simps \<open>evaluation of string helpers\<close>

section \<open>Results\<close>

type_synonym 'a result = "string + 'a"

abbreviation Ok :: "'a \<Rightarrow> 'e + 'a" where "Ok \<equiv> Inr"
abbreviation Err :: "'e \<Rightarrow> 'e + 'a" where "Err \<equiv> Inl"

definition rbind :: "'e + 'a \<Rightarrow> ('a \<Rightarrow> 'e + 'b) \<Rightarrow> 'e + 'b" where
  "rbind r f = (case r of Inl e \<Rightarrow> Inl e | Inr x \<Rightarrow> f x)"

lemma rbind_simps [simp]: "rbind (Inl e) f = Inl e" "rbind (Inr x) f = f x"
  by (simp_all add: rbind_def)

lemma rbind_eq_Ok [result_simps]: "rbind r f = Inr y \<longleftrightarrow> (\<exists>x. r = Inr x \<and> f x = Inr y)"
  by (cases r) auto

lemma rbind_eq_Err [result_simps]:
  "rbind r f = Inl e \<longleftrightarrow> r = Inl e \<or> (\<exists>x. r = Inr x \<and> f x = Inl e)"
  by (cases r) auto

text \<open>The guard \<open>if bad { return Err(e) }\<close>.\<close>

definition reject_if :: "bool \<Rightarrow> 'e \<Rightarrow> 'e + unit" where
  "reject_if b e = (if b then Inl e else Inr ())"

lemma reject_if_Ok [simp]: "reject_if b e = Inr u \<longleftrightarrow> \<not> b"
  by (simp add: reject_if_def)

lemma reject_if_Err [simp]: "reject_if b e = Inl e' \<longleftrightarrow> b \<and> e = e'"
  by (auto simp: reject_if_def)

lemma reject_if_simps [simp]: "reject_if True e = Inl e" "reject_if False e = Inr ()"
  by (simp_all add: reject_if_def)

definition ok_or :: "'e \<Rightarrow> 'a option \<Rightarrow> 'e + 'a" where
  "ok_or e x = (case x of None \<Rightarrow> Inl e | Some y \<Rightarrow> Inr y)"

lemma ok_or_simps [simp]: "ok_or e None = Inl e" "ok_or e (Some y) = Inr y"
  by (simp_all add: ok_or_def)

lemma ok_or_eq_Ok [simp]: "ok_or e x = Inr y \<longleftrightarrow> x = Some y"
  by (cases x) auto

text \<open>\<open>for x in xs { f(x)?; }\<close>: stop at the first error.\<close>

fun forM :: "'a list \<Rightarrow> ('a \<Rightarrow> 'e + unit) \<Rightarrow> 'e + unit" where
  "forM [] f = Inr ()"
| "forM (x # xs) f = (case f x of Inl e \<Rightarrow> Inl e | Inr _ \<Rightarrow> forM xs f)"

lemma forM_Ok [simp]: "forM xs f = Inr u \<longleftrightarrow> (\<forall>x\<in>set xs. f x = Inr ())"
  by (induction xs) (auto split: sum.splits)

text \<open>\<open>iter().map(f).collect::<Result<Vec<_>, _>>()\<close>.\<close>

fun mapM :: "('a \<Rightarrow> 'e + 'b) \<Rightarrow> 'a list \<Rightarrow> 'e + 'b list" where
  "mapM f [] = Inr []"
| "mapM f (x # xs) =
     (case f x of Inl e \<Rightarrow> Inl e
      | Inr y \<Rightarrow> (case mapM f xs of Inl e \<Rightarrow> Inl e | Inr ys \<Rightarrow> Inr (y # ys)))"

lemma mapM_Ok: "mapM f xs = Inr ys \<longleftrightarrow> list_all2 (\<lambda>x y. f x = Inr y) xs ys"
proof (induction xs arbitrary: ys)
  case (Cons x xs)
  show ?case
    by (cases ys) (auto simp: Cons.IH [symmetric] split: sum.splits)
qed auto

lemma mapM_length: "mapM f xs = Inr ys \<Longrightarrow> length ys = length xs"
  by (auto simp: mapM_Ok dest: list_all2_lengthD)

lemma mapM_cong [fundef_cong]:
  "xs = ys \<Longrightarrow> (\<And>x. x \<in> set ys \<Longrightarrow> f x = g x) \<Longrightarrow> mapM f xs = mapM g ys"
  by (induction xs arbitrary: ys) (auto split: sum.splits)

lemma forM_cong [fundef_cong]:
  "xs = ys \<Longrightarrow> (\<And>x. x \<in> set ys \<Longrightarrow> f x = g x) \<Longrightarrow> forM xs f = forM ys g"
  by (induction xs arbitrary: ys) (auto split: sum.splits)

text \<open>\<open>Option::is_some_and\<close> and \<open>Option::is_none_or\<close>.\<close>

definition is_some_and :: "'a option \<Rightarrow> ('a \<Rightarrow> bool) \<Rightarrow> bool" where
  "is_some_and x p = (case x of None \<Rightarrow> False | Some y \<Rightarrow> p y)"

definition is_none_or :: "'a option \<Rightarrow> ('a \<Rightarrow> bool) \<Rightarrow> bool" where
  "is_none_or x p = (case x of None \<Rightarrow> True | Some y \<Rightarrow> p y)"

definition unwrap_or :: "'a \<Rightarrow> 'a option \<Rightarrow> 'a" where
  "unwrap_or d x = (case x of None \<Rightarrow> d | Some y \<Rightarrow> y)"

definition opt_filter :: "('a \<Rightarrow> bool) \<Rightarrow> 'a option \<Rightarrow> 'a option" where
  "opt_filter p x = (case x of None \<Rightarrow> None | Some y \<Rightarrow> if p y then Some y else None)"

lemma option_helpers [simp]:
  "is_some_and None p = False" "is_some_and (Some y) p = p y"
  "is_none_or None p = True" "is_none_or (Some y) p = p y"
  "unwrap_or d None = d" "unwrap_or d (Some y) = y"
  "opt_filter q None = None" "opt_filter q (Some y) = (if q y then Some y else None)"
  by (simp_all add: is_some_and_def is_none_or_def unwrap_or_def opt_filter_def)

lemma opt_filter_eq_Some [simp]: "opt_filter p x = Some y \<longleftrightarrow> x = Some y \<and> p y"
  by (cases x) auto

section \<open>Signed 64-bit integers\<close>

definition i64_min :: int where "i64_min = - (2 ^ 63)"
definition i64_max :: int where "i64_max = 2 ^ 63 - 1"

definition in_i64 :: "int \<Rightarrow> bool" where "in_i64 i \<longleftrightarrow> i64_min \<le> i \<and> i \<le> i64_max"

definition checked_i64 :: "int \<Rightarrow> int option" where
  "checked_i64 i = (if in_i64 i then Some i else None)"

lemma checked_i64_eq_Some [simp]: "checked_i64 i = Some j \<longleftrightarrow> in_i64 i \<and> j = i"
  by (auto simp: checked_i64_def)

text \<open>Unchecked \<open>i64\<close> arithmetic wraps around in a release build.\<close>

definition wrap_i64 :: "int \<Rightarrow> int" where
  "wrap_i64 i = (i + 2 ^ 63) mod 2 ^ 64 - 2 ^ 63"

lemma wrap_i64_id [simp]: "in_i64 i \<Longrightarrow> wrap_i64 i = i"
  by (simp add: wrap_i64_def in_i64_def i64_min_def i64_max_def)

section \<open>Lists\<close>

definition last_n :: "nat \<Rightarrow> 'a list \<Rightarrow> 'a list" where
  "last_n n xs = drop (length xs - n) xs"

lemma length_last_n [simp]: "length (last_n n xs) = min n (length xs)"
  by (simp add: last_n_def)

lemma last_n_all: "length xs \<le> n \<Longrightarrow> last_n n xs = xs"
  by (simp add: last_n_def)

lemma last_n_snoc: "0 < n \<Longrightarrow> last_n n (last_n n xs @ [x]) = last_n n (xs @ [x])"
proof (cases "length xs < n")
  case True
  then show ?thesis by (simp add: last_n_all)
next
  case False
  assume "0 < n"
  moreover from False have "length (last_n n xs) = n" by simp
  moreover from False have "Suc (length xs) - n = Suc (length xs - n)" by simp
  ultimately show ?thesis using False
    by (simp add: last_n_def Suc_diff_le)
qed

lemma set_last_n: "set (last_n n xs) \<subseteq> set xs"
  by (simp add: last_n_def set_drop_subset)

section \<open>Bounded caches\<close>

text \<open>
  Several components keep the newest entries of an ever-growing log: they push at the end and
  trim at the front.  The contract of a trimming routine, and what a client obtains from it.
\<close>

locale recent_cache =
  fixes trim_to :: "'a list \<Rightarrow> 'a list" and cap :: nat
  assumes cap_pos: "0 < cap"
    and trim_to_last: "length xs \<le> Suc cap \<Longrightarrow> trim_to xs = last_n cap xs"
begin

lemma push_keeps:
  assumes "cache = last_n cap full"
  shows "trim_to (cache @ [x]) = last_n cap (full @ [x])"
  using assms by (simp add: trim_to_last last_n_snoc [OF cap_pos])

lemma push_bounded: "length cache \<le> cap \<Longrightarrow> length (trim_to (cache @ [x])) \<le> cap"
  by (simp add: trim_to_last)

lemma push_newest: "length cache \<le> cap \<Longrightarrow> x \<in> set (trim_to (cache @ [x]))"
  using cap_pos by (simp add: trim_to_last last_n_def Suc_diff_le)

end

end
