(* ===== verification/Leases.thy ===== *)
theory Leases
  imports Prelude
begin

text \<open>
  Execution leases (\<^verbatim>\<open>main.rs\<close>).  A worker that executes a session claims its row with a new
  owner and the next fence number; it renews the claim while it works and every commit checks
  owner, fence and expiry.  The statements are modelled on the row they update, with the
  reading of the database clock as an argument (microseconds); a missing row is \<open>None\<close>.

  \<open>fenced\<close> is the interface of a row that is claimed this way: what any number of workers do to
  it, in any order, is an \<open>evolves\<close> derivation.  Session leases are an instance here and the
  leases of commands another one in \<open>Commands\<close>.
\<close>

section \<open>Fenced rows\<close>

inductive evolves :: "(int \<Rightarrow> string \<Rightarrow> 'r \<Rightarrow> (int \<times> 'r) option) \<Rightarrow> ('r \<Rightarrow> 'r \<Rightarrow> bool) \<Rightarrow> 'r \<Rightarrow> (string \<times> int) list \<Rightarrow> 'r \<Rightarrow> bool"
  for claim and other and r where
  start: "evolves claim other r [] r"
| claimed: "evolves claim other r cs r' \<Longrightarrow> claim now w r' = Some (f, r'') \<Longrightarrow> evolves claim other r (cs @ [(w, f)]) r''"
| touched: "evolves claim other r cs r' \<Longrightarrow> other r' r'' \<Longrightarrow> evolves claim other r cs r''"

text \<open>
  \<open>claim\<close> takes the row for a worker, \<open>held\<close> is the check that a claim is still good, \<open>other\<close>
  relates rows by any other update.
\<close>

lemma strict_sorted_last: "sorted_wrt (<) xs \<Longrightarrow> x \<in> set xs \<Longrightarrow> x \<le> last xs" for x :: int
proof (induction xs)
  case (Cons a xs)
  then show ?case by (cases "xs = []") (auto dest: last_in_set less_imp_le)
qed simp

locale fenced =
  fixes fence :: "'r \<Rightarrow> int" and held :: "int \<Rightarrow> string \<Rightarrow> int \<Rightarrow> 'r \<Rightarrow> bool"
    and claim :: "int \<Rightarrow> string \<Rightarrow> 'r \<Rightarrow> (int \<times> 'r) option" and other :: "'r \<Rightarrow> 'r \<Rightarrow> bool"
  assumes held_fence: "held now w f r \<Longrightarrow> fence r = f"
    and held_one: "held now w f r \<Longrightarrow> held now' w' f' r \<Longrightarrow> w = w'"
    and claim_next: "claim now w r = Some (f, r') \<Longrightarrow> fence r < f \<and> fence r' = f"
    and claim_holds: "claim now w r = Some (f, r') \<Longrightarrow> held now w f r'"
    and claim_free: "claim now w r = Some (f, r') \<Longrightarrow> \<not> held now w' f' r"
    and other_fence: "other r r' \<Longrightarrow> fence r' = fence r"
begin

lemma fences_grow:
  "evolves claim other r cs r' \<Longrightarrow>
     sorted_wrt (<) (fence r # map snd cs) \<and> fence r' = last (fence r # map snd cs)"
proof (induction rule: evolves.induct)
  case (claimed cs r' now w f r'')
  note next_fence = claim_next [OF claimed.hyps(2)]
  have "x < f" if "x \<in> set (fence r # map snd cs)" for x
    using strict_sorted_last [OF _ that] claimed.IH next_fence by simp
  then show ?case using claimed.IH next_fence by (auto simp: sorted_wrt_append)
next
  case (touched cs r' r'')
  then show ?case using other_fence by simp
qed simp

lemma stale_claim:
  assumes "held now w f r" "evolves claim other r cs r'" "cs \<noteq> []"
  shows "\<not> held now' w' f r'"
proof -
  have "fence r < fence r'"
    using fences_grow [OF assms(2)] assms(3) by (metis last.simps last_in_set list.map_disc_iff sorted_wrt.simps(2))
  then show ?thesis using held_fence [OF assms(1)] held_fence [of now' w' f r'] by auto
qed

lemma exclusive: "held now w f r \<Longrightarrow> held now' w' f' r \<Longrightarrow> w = w' \<and> f = f'"
  using held_fence held_one by metis

lemma claims_distinct: "evolves claim other r cs r' \<Longrightarrow> distinct (map snd cs)"
  using fences_grow strict_sorted_iff by fastforce

end

section \<open>Session leases\<close>

record lease =
  le_owner :: "string option"
  le_fence :: int
  le_expires_at :: "int option"

definition lease_span :: int where "lease_span = 30 * 1000000"

definition lease_conflict :: string where
  "lease_conflict = ''session ownership conflict: lease held by another worker''"

definition lease_lost :: string where "lease_lost = ''lease lost: owner or fence changed''"

definition out_of_range :: string where "out_of_range = ''bigint out of range''"

text \<open>\<open>lease_expires_at <= clock_timestamp()\<close> and \<open>>\<close>; both are not true when it is \<open>NULL\<close>.\<close>

definition expired :: "int \<Rightarrow> int option \<Rightarrow> bool" where
  "expired now e \<longleftrightarrow> (case e of None \<Rightarrow> False | Some t \<Rightarrow> t \<le> now)"

definition unexpired :: "int \<Rightarrow> int option \<Rightarrow> bool" where
  "unexpired now e \<longleftrightarrow> (case e of None \<Rightarrow> False | Some t \<Rightarrow> now < t)"

definition lease_available :: "int \<Rightarrow> lease \<Rightarrow> bool" where
  "lease_available now l \<longleftrightarrow> le_owner l = None \<or> expired now (le_expires_at l)"

definition lease_held :: "int \<Rightarrow> string \<Rightarrow> int \<Rightarrow> lease \<Rightarrow> bool" where
  "lease_held now owner fence l \<longleftrightarrow>
     le_owner l = Some owner \<and> le_fence l = fence \<and> unexpired now (le_expires_at l)"

definition acquire_execution_lease ::
  "int \<Rightarrow> string \<Rightarrow> lease option \<Rightarrow> (string \<times> int) result \<times> lease option" where
  "acquire_execution_lease now owner row =
     (case row of
        None \<Rightarrow> (Err lease_conflict, row)
      | Some l \<Rightarrow>
          if \<not> lease_available now l then (Err lease_conflict, row)
          else if i64_max \<le> le_fence l then (Err out_of_range, row)
          else (Ok (owner, le_fence l + 1),
                Some (l\<lparr>le_owner := Some owner, le_fence := le_fence l + 1, le_expires_at := Some (now + lease_span)\<rparr>)))"

definition renew_execution_lease :: "int \<Rightarrow> string \<Rightarrow> int \<Rightarrow> lease option \<Rightarrow> unit result \<times> lease option" where
  "renew_execution_lease now owner fence row =
     (case row of
        None \<Rightarrow> (Err lease_lost, row)
      | Some l \<Rightarrow>
          if lease_held now owner fence l then (Ok (), Some (l\<lparr>le_expires_at := Some (now + lease_span)\<rparr>))
          else (Err lease_lost, row))"

definition release_execution_lease :: "string \<Rightarrow> int \<Rightarrow> lease option \<Rightarrow> lease option" where
  "release_execution_lease owner fence row =
     (case row of
        None \<Rightarrow> None
      | Some l \<Rightarrow> Some (if le_owner l = Some owner \<and> le_fence l = fence
                        then l\<lparr>le_owner := None, le_expires_at := None\<rparr> else l))"

text \<open>The heartbeat renews at each wake-up and stops at the first failure.\<close>

fun start_execution_heartbeat :: "string \<Rightarrow> int \<Rightarrow> int list \<Rightarrow> lease option \<Rightarrow> lease option" where
  "start_execution_heartbeat owner fence [] row = row"
| "start_execution_heartbeat owner fence (now # later) row =
     (case renew_execution_lease now owner fence row of
        (Inl _, row') \<Rightarrow> row'
      | (Inr _, row') \<Rightarrow> start_execution_heartbeat owner fence later row')"

section \<open>Any interleaving of workers\<close>

definition acquire_row :: "int \<Rightarrow> string \<Rightarrow> lease \<Rightarrow> (int \<times> lease) option" where
  "acquire_row now owner l =
     (case acquire_execution_lease now owner (Some l) of
        (Inr (_, f), Some l') \<Rightarrow> Some (f, l') | _ \<Rightarrow> None)"

inductive lease_update :: "lease \<Rightarrow> lease \<Rightarrow> bool" where
  renewed: "renew_execution_lease now owner fence (Some l) = (r, Some l') \<Longrightarrow> lease_update l l'"
| released: "release_execution_lease owner fence (Some l) = Some l' \<Longrightarrow> lease_update l l'"

lemma acquire_row_Some:
  "acquire_row now owner l = Some (f, l') \<longleftrightarrow>
     lease_available now l \<and> le_fence l < i64_max \<and> f = le_fence l + 1
     \<and> l' = l\<lparr>le_owner := Some owner, le_fence := le_fence l + 1, le_expires_at := Some (now + lease_span)\<rparr>"
  by (auto simp: acquire_row_def acquire_execution_lease_def)

interpretation session_lease: fenced le_fence lease_held acquire_row lease_update
proof unfold_locales
  show "le_fence l' = le_fence l" if "lease_update l l'" for l l'
    using that by cases (auto simp: renew_execution_lease_def release_execution_lease_def split: if_splits)
qed (auto simp: lease_held_def acquire_row_Some lease_available_def expired_def unexpired_def lease_span_def
      split: option.splits)

lemma heartbeat_keeps:
  assumes "lease_held now owner fence l" "sorted_wrt (<) (now # wakeups)"
    "\<forall>(a, b)\<in>set (zip (now # wakeups) wakeups). b < a + lease_span"
    and "le_expires_at l = Some (now + lease_span)"
  shows "start_execution_heartbeat owner fence wakeups (Some l)
    = Some (l\<lparr>le_expires_at := Some (last (now # wakeups) + lease_span)\<rparr>)"
  using assms
proof (induction wakeups arbitrary: now l)
  case (Cons t ts)
  let ?l = "l\<lparr>le_expires_at := Some (t + lease_span)\<rparr>"
  have "lease_held t owner fence l" using Cons.prems by (auto simp: lease_held_def unexpired_def)
  then have "renew_execution_lease t owner fence (Some l) = (Ok (), Some ?l)" by (simp add: renew_execution_lease_def)
  moreover have "lease_held t owner fence ?l" using Cons.prems by (simp add: lease_held_def unexpired_def lease_span_def)
  then have "start_execution_heartbeat owner fence ts (Some ?l) = Some (?l\<lparr>le_expires_at := Some (last (t # ts) + lease_span)\<rparr>)"
    using Cons.prems by (intro Cons.IH) auto
  ultimately show ?case by simp
qed simp

end
