(* ===== verification/Json.thy ===== *)
theory Json
  imports Decimal
begin

text \<open>
  The JSON values the agent computes with (\<open>serde_json::Value\<close> with the \<open>preserve_order\<close>
  feature), the accessors the source uses on them, and the comparisons of \<^verbatim>\<open>engine.rs\<close>:
  \<open>contains\<close>, \<open>typed_equal\<close> and \<open>value_at_path\<close>.  An object is an association list in
  insertion order.  A number is an unsigned or negative integer or a finite double, kept as
  its sign bit and magnitude.

  Functions of third-party crates are fields of the record \<open>lib\<close>, passed to the definitions
  that use them: the shortest decimal text of a double, the JSON text of a value, the event
  tree the JSON reader hands to a visitor, SHA-256 in hexadecimal, regular-expression search,
  escaping and captures (end of each match and text of its first group; an error when the
  pattern does not compile), the \<open>Debug\<close> rendering of a value, and the two string functions of
  the standard library that rest on Unicode tables (lower-casing and the \<open>Debug\<close> rendering).
\<close>

section \<open>Values\<close>

datatype f64 = F64 (f64_neg: bool) (f64_mag: rat)

datatype jnum = PosInt nat | NegInt int | Float f64

datatype json = JNull | JBool bool | JNum jnum | JStr string
  | JArr "json list" | JObj "(string \<times> json) list"

text \<open>The calls a JSON reader makes on a visitor, one node per call.\<close>

datatype raw = RUnit | RBool bool | RI64 int | RU64 nat | RF64 f64 | RStr string
  | RSeq "raw list" | RMap "(string \<times> raw) list"

record lib =
  f64_text :: "f64 \<Rightarrow> string"
  json_text :: "json \<Rightarrow> string"
  read_json :: "string \<Rightarrow> raw result"
  sha256_hex :: "string \<Rightarrow> string"
  regex_search :: "string \<Rightarrow> string \<Rightarrow> bool result"
  lowercase :: "string \<Rightarrow> string"
  debug_text :: "string \<Rightarrow> string"
  regex_escape :: "string \<Rightarrow> string"
  regex_captures :: "string \<Rightarrow> string \<Rightarrow> (nat \<times> string) list result"
  json_debug :: "json \<Rightarrow> string"

definition f64_val :: "f64 \<Rightarrow> rat" where
  "f64_val f = (if f64_neg f then - f64_mag f else f64_mag f)"

section \<open>Accessors\<close>

fun as_str :: "json \<Rightarrow> string option" where
  "as_str (JStr s) = Some s" | "as_str _ = None"

fun as_array :: "json \<Rightarrow> json list option" where
  "as_array (JArr xs) = Some xs" | "as_array _ = None"

fun as_object :: "json \<Rightarrow> (string \<times> json) list option" where
  "as_object (JObj kvs) = Some kvs" | "as_object _ = None"

fun as_bool :: "json \<Rightarrow> bool option" where
  "as_bool (JBool b) = Some b" | "as_bool _ = None"

fun as_i64 :: "json \<Rightarrow> int option" where
  "as_i64 (JNum (PosInt n)) = (if int n \<le> i64_max then Some (int n) else None)"
| "as_i64 (JNum (NegInt i)) = Some i"
| "as_i64 _ = None"

fun as_u64 :: "json \<Rightarrow> nat option" where
  "as_u64 (JNum (PosInt n)) = Some n" | "as_u64 _ = None"

definition is_null :: "json \<Rightarrow> bool" where "is_null v \<longleftrightarrow> v = JNull"
definition is_object :: "json \<Rightarrow> bool" where "is_object v \<longleftrightarrow> as_object v \<noteq> None"
definition is_array :: "json \<Rightarrow> bool" where "is_array v \<longleftrightarrow> as_array v \<noteq> None"
definition is_string :: "json \<Rightarrow> bool" where "is_string v \<longleftrightarrow> as_str v \<noteq> None"
definition is_boolean :: "json \<Rightarrow> bool" where "is_boolean v \<longleftrightarrow> as_bool v \<noteq> None"

fun is_number :: "json \<Rightarrow> bool" where
  "is_number (JNum _) = True" | "is_number _ = False"

text \<open>\<open>u64 as f64\<close>: round to 53 significant bits, ties to even.\<close>

fun bitlen :: "nat \<Rightarrow> nat" where
  "bitlen n = (if n = 0 then 0 else Suc (bitlen (n div 2)))"

declare bitlen.simps [simp del]

definition round53 :: "nat \<Rightarrow> nat" where
  "round53 n =
     (if n < 2 ^ 53 then n
      else (let k = bitlen n - 53; q = n div 2 ^ k; r = n mod 2 ^ k; half = 2 ^ (k - 1)
            in (if r > half \<or> r = half \<and> odd q then q + 1 else q) * 2 ^ k))"

fun num_f64 :: "jnum \<Rightarrow> f64" where
  "num_f64 (PosInt n) = F64 False (of_nat (round53 n))"
| "num_f64 (NegInt i) = F64 True (of_nat (round53 (nat (- i))))"
| "num_f64 (Float f) = f"

fun as_f64 :: "json \<Rightarrow> f64 option" where
  "as_f64 (JNum n) = Some (num_f64 n)" | "as_f64 _ = None"

fun num_text :: "lib \<Rightarrow> jnum \<Rightarrow> string" where
  "num_text L (PosInt n) = show_nat n"
| "num_text L (NegInt i) = show_int i"
| "num_text L (Float f) = f64_text L f"

text \<open>\<open>v.get("key")\<close>, \<open>v.get(index)\<close> and the total \<open>v["key"]\<close>.\<close>

fun get :: "json \<Rightarrow> string \<Rightarrow> json option" where
  "get (JObj kvs) k = map_of kvs k" | "get _ k = None"

fun get_index :: "json \<Rightarrow> nat \<Rightarrow> json option" where
  "get_index (JArr xs) i = (if i < length xs then Some (xs ! i) else None)" | "get_index _ i = None"

definition idx :: "json \<Rightarrow> string \<Rightarrow> json" where
  "idx v k = unwrap_or JNull (get v k)"

definition get_str :: "json \<Rightarrow> string \<Rightarrow> string option" where
  "get_str v k = Option.bind (get v k) as_str"

definition get_arr :: "json \<Rightarrow> string \<Rightarrow> json list" where
  "get_arr v k = unwrap_or [] (Option.bind (get v k) as_array)"

text \<open>\<open>Map::insert\<close> replaces in place or appends; \<open>Map::remove\<close> is a swap-remove.\<close>

fun obj_insert :: "string \<Rightarrow> 'v \<Rightarrow> (string \<times> 'v) list \<Rightarrow> (string \<times> 'v) list" where
  "obj_insert k v [] = [(k, v)]"
| "obj_insert k v ((k', v') # kvs) = (if k' = k then (k, v) # kvs else (k', v') # obj_insert k v kvs)"

definition swap_remove :: "nat \<Rightarrow> 'a list \<Rightarrow> 'a list" where
  "swap_remove i xs =
     (if i < length xs then (if i = length xs - 1 then butlast xs else butlast (xs[i := last xs]))
      else xs)"

definition obj_remove :: "string \<Rightarrow> (string \<times> 'v) list \<Rightarrow> (string \<times> 'v) list" where
  "obj_remove k kvs =
     (if k \<in> fst ` set kvs then swap_remove (length (takeWhile (\<lambda>p. fst p \<noteq> k) kvs)) kvs else kvs)"

text \<open>\<open>v["key"] = x\<close>: a null becomes an object; other non-objects panic and are left alone here.\<close>

fun set_idx :: "json \<Rightarrow> string \<Rightarrow> json \<Rightarrow> json" where
  "set_idx (JObj kvs) k v = JObj (obj_insert k v kvs)"
| "set_idx JNull k v = JObj [(k, v)]"
| "set_idx w k v = w"

text \<open>\<open>json!(i)\<close>, \<open>json!(x)\<close> for a finite double, \<open>json!(opt)\<close>, and \<open>v.pointer("/a/0")\<close>.\<close>

definition json_int :: "int \<Rightarrow> json" where
  "json_int i = JNum (if 0 \<le> i then PosInt (nat i) else NegInt i)"

definition json_nat :: "nat \<Rightarrow> json" where "json_nat n = JNum (PosInt n)"

definition json_rat :: "rat \<Rightarrow> json" where
  "json_rat x = JNum (Float (F64 (x < 0) \<bar>x\<bar>))"

definition json_opt :: "string option \<Rightarrow> json" where
  "json_opt x = (case x of None \<Rightarrow> JNull | Some t \<Rightarrow> JStr t)"

fun pointer :: "json \<Rightarrow> string list \<Rightarrow> json option" where
  "pointer v [] = Some v"
| "pointer (JObj kvs) (t # ts) = (case map_of kvs t of None \<Rightarrow> None | Some w \<Rightarrow> pointer w ts)"
| "pointer (JArr xs) (t # ts) =
     (if t \<noteq> [] \<and> (\<forall>c\<in>set t. is_digit c) \<and> (hd t \<noteq> CHR ''0'' \<or> length t = 1) \<and> digits_val t < length xs
      then pointer (xs ! digits_val t) ts else None)"
| "pointer v (t # ts) = None"

section \<open>Equality and containment\<close>

fun num_eq :: "jnum \<Rightarrow> jnum \<Rightarrow> bool" where
  "num_eq (PosInt m) (PosInt n) = (m = n)"
| "num_eq (NegInt i) (NegInt j) = (i = j)"
| "num_eq (Float f) (Float g) = (f64_val f = f64_val g)"
| "num_eq _ _ = False"

text \<open>\<open>Value == Value\<close>: objects compare as maps.\<close>

fun json_eq :: "json \<Rightarrow> json \<Rightarrow> bool"
  and arr_eq :: "json list \<Rightarrow> json list \<Rightarrow> bool"
  and obj_eq :: "(string \<times> json) list \<Rightarrow> (string \<times> json) list \<Rightarrow> bool" where
  "json_eq JNull JNull = True"
| "json_eq (JBool a) (JBool b) = (a = b)"
| "json_eq (JNum a) (JNum b) = num_eq a b"
| "json_eq (JStr a) (JStr b) = (a = b)"
| "json_eq (JArr a) (JArr b) = arr_eq a b"
| "json_eq (JObj a) (JObj b) = (length a = length b \<and> obj_eq a b)"
| "json_eq _ _ = False"
| "arr_eq [] [] = True"
| "arr_eq (x # xs) (y # ys) = (json_eq x y \<and> arr_eq xs ys)"
| "arr_eq _ _ = False"
| "obj_eq [] b = True"
| "obj_eq ((k, v) # a) b =
     ((case map_of b k of None \<Rightarrow> False | Some w \<Rightarrow> json_eq v w) \<and> obj_eq a b)"

text \<open>\<open>typed_equal\<close>: numbers compare by their decimal texts.\<close>

fun typed_equal :: "lib \<Rightarrow> json \<Rightarrow> json \<Rightarrow> bool"
  and typed_equal_arr :: "lib \<Rightarrow> json list \<Rightarrow> json list \<Rightarrow> bool"
  and typed_equal_obj :: "lib \<Rightarrow> (string \<times> json) list \<Rightarrow> (string \<times> json) list \<Rightarrow> bool" where
  "typed_equal L (JBool x) (JBool y) = (x = y)"
| "typed_equal L (JNum x) (JNum y) = decimal_equal (num_text L x) (num_text L y)"
| "typed_equal L (JArr x) (JArr y) = (length x = length y \<and> typed_equal_arr L x y)"
| "typed_equal L (JObj x) (JObj y) = (length x = length y \<and> typed_equal_obj L x y)"
| "typed_equal L a b = json_eq a b"
| "typed_equal_arr L (x # xs) (y # ys) = (typed_equal L x y \<and> typed_equal_arr L xs ys)"
| "typed_equal_arr L _ _ = True"
| "typed_equal_obj L [] y = True"
| "typed_equal_obj L ((k, v) # x) y =
     ((case map_of y k of None \<Rightarrow> False | Some w \<Rightarrow> typed_equal L v w) \<and> typed_equal_obj L x y)"

text \<open>\<open>contains(a, b)\<close>: the value \<open>a\<close> satisfies the constraint \<open>b\<close>.\<close>

fun contains :: "lib \<Rightarrow> json \<Rightarrow> json \<Rightarrow> bool"
  and contains_obj :: "lib \<Rightarrow> (string \<times> json) list \<Rightarrow> (string \<times> json) list \<Rightarrow> bool"
  and contains_arr :: "lib \<Rightarrow> json list \<Rightarrow> json list \<Rightarrow> bool"
  and contains_any :: "lib \<Rightarrow> json list \<Rightarrow> json \<Rightarrow> bool" where
  "contains L a (JObj m) = (case as_object a of None \<Rightarrow> False | Some x \<Rightarrow> contains_obj L x m)"
| "contains L a (JArr v) = (case as_array a of None \<Rightarrow> False | Some x \<Rightarrow> contains_arr L x v)"
| "contains L a b = typed_equal L a b"
| "contains_obj L x [] = True"
| "contains_obj L x ((k, v) # m) =
     ((case map_of x k of None \<Rightarrow> False | Some q \<Rightarrow> contains L q v) \<and> contains_obj L x m)"
| "contains_arr L x [] = True"
| "contains_arr L x (q # v) = (contains_any L x q \<and> contains_arr L x v)"
| "contains_any L [] q = False"
| "contains_any L (z # x) q = (contains L z q \<or> contains_any L x q)"

text \<open>\<open>value_at_path\<close>: a string part selects a key, an unsigned integer part an index.\<close>

fun path_step :: "json \<Rightarrow> json \<Rightarrow> json option" where
  "path_step v part =
     (case as_str part of
        Some k \<Rightarrow> get v k
      | None \<Rightarrow> (case as_u64 part of None \<Rightarrow> None | Some i \<Rightarrow> get_index v i))"

fun at_parts :: "json \<Rightarrow> json list \<Rightarrow> json option" where
  "at_parts v [] = Some v"
| "at_parts v (p # ps) = (case path_step v p of None \<Rightarrow> None | Some w \<Rightarrow> at_parts w ps)"

definition value_at_path :: "json \<Rightarrow> json list option \<Rightarrow> json option" where
  "value_at_path v path = at_parts v (unwrap_or [] path)"

section \<open>Reading JSON text\<close>

text \<open>\<open>StrictVisitor\<close>: integers above \<open>i64::MAX\<close> and repeated properties are errors.\<close>

fun strict_visit :: "raw \<Rightarrow> json result"
  and strict_seq :: "raw list \<Rightarrow> json list result"
  and strict_map :: "(string \<times> raw) list \<Rightarrow> (string \<times> json) list \<Rightarrow> (string \<times> json) list result" where
  "strict_visit RUnit = Ok JNull"
| "strict_visit (RBool b) = Ok (JBool b)"
| "strict_visit (RI64 i) = Ok (JNum (if 0 \<le> i then PosInt (nat i) else NegInt i))"
| "strict_visit (RU64 n) =
     (if int n > i64_max then Err ''JSON integer exceeds signed 64-bit range'' else Ok (JNum (PosInt n)))"
| "strict_visit (RF64 f) = Ok (JNum (Float f))"
| "strict_visit (RStr s) = Ok (JStr s)"
| "strict_visit (RSeq xs) = (case strict_seq xs of Inl e \<Rightarrow> Err e | Inr vs \<Rightarrow> Ok (JArr vs))"
| "strict_visit (RMap kvs) = (case strict_map kvs [] of Inl e \<Rightarrow> Err e | Inr m \<Rightarrow> Ok (JObj m))"
| "strict_seq [] = Ok []"
| "strict_seq (x # xs) =
     (case strict_visit x of Inl e \<Rightarrow> Err e
      | Inr v \<Rightarrow> (case strict_seq xs of Inl e \<Rightarrow> Err e | Inr vs \<Rightarrow> Ok (v # vs)))"
| "strict_map [] out = Ok out"
| "strict_map ((k, r) # kvs) out =
     (if k \<in> fst ` set out then Err (''duplicate JSON property: '' @ k)
      else (case strict_visit r of Inl e \<Rightarrow> Err e
            | Inr v \<Rightarrow> strict_map kvs (obj_insert k v out)))"

definition parse_strict_json :: "lib \<Rightarrow> string \<Rightarrow> json result" where
  "parse_strict_json L text = rbind (read_json L text) strict_visit"

text \<open>\<open>serde_json::from_str::<Value>\<close>: a repeated property keeps its last value.\<close>

fun plain_visit :: "raw \<Rightarrow> json"
  and plain_seq :: "raw list \<Rightarrow> json list"
  and plain_map :: "(string \<times> raw) list \<Rightarrow> (string \<times> json) list \<Rightarrow> (string \<times> json) list" where
  "plain_visit RUnit = JNull"
| "plain_visit (RBool b) = JBool b"
| "plain_visit (RI64 i) = JNum (if 0 \<le> i then PosInt (nat i) else NegInt i)"
| "plain_visit (RU64 n) = JNum (PosInt n)"
| "plain_visit (RF64 f) = JNum (Float f)"
| "plain_visit (RStr s) = JStr s"
| "plain_visit (RSeq xs) = JArr (plain_seq xs)"
| "plain_visit (RMap kvs) = JObj (plain_map kvs [])"
| "plain_seq [] = []"
| "plain_seq (x # xs) = plain_visit x # plain_seq xs"
| "plain_map [] out = out"
| "plain_map ((k, r) # kvs) out = plain_map kvs (obj_insert k (plain_visit r) out)"

definition from_str :: "lib \<Rightarrow> string \<Rightarrow> json result" where
  "from_str L text = rbind (read_json L text) (\<lambda>r. Ok (plain_visit r))"

section \<open>Updates\<close>

lemma map_of_obj_insert: "map_of (obj_insert k v kvs) = (map_of kvs)(k \<mapsto> v)"
  by (induction kvs) auto

lemma idx_set_idx: "is_object e \<Longrightarrow> idx (set_idx e k v) k' = (if k' = k then v else idx e k')"
  by (cases e) (simp_all add: is_object_def idx_def map_of_obj_insert)

lemma is_object_set_idx [simp]: "is_object e \<Longrightarrow> is_object (set_idx e k v)"
  by (cases e) (simp_all add: is_object_def)

end
