(* ===== verification/Types.thy ===== *)
theory Types
  imports Json
begin

text \<open>
  The data model of \<^verbatim>\<open>engine.rs\<close> and \<^verbatim>\<open>context.rs\<close>: messages, transcript entries, workflow
  state, the session, and the configuration of a profile.  A struct is a record whose fields
  carry the struct's field names behind a short prefix.  Handles of the process (database
  pool, shared acknowledgement cell) are represented by what the code reads through them.
\<close>

section \<open>Messages and transcript\<close>

record message =
  m_message_id :: "string option"
  m_sequence :: "int option"
  m_created_at :: "string option"
  m_role :: string
  m_content :: "string option"
  m_name :: "string option"
  m_tool_call_id :: "string option"
  m_tool_calls :: "json option"

record transcript_entry =
  te_sequence :: int
  te_message_id :: string
  te_kind :: string
  te_payload :: json
  te_run_id :: "string option"
  te_decision_step :: int
  te_created_at :: string

record history_group =
  g_messages :: "message list"
  g_indexes :: "nat list"

record request_budget =
  b_estimated_input_tokens :: int
  b_reserved_output_tokens :: int
  b_safety_margin_tokens :: int
  b_context_window_tokens :: int
  b_fits :: bool
  b_estimator :: string

record ledger =
  l_goal :: string
  l_model_claims :: "string list"
  l_dead_ends :: "string list"
  l_hypothesis :: string
  l_source_sha256 :: string
  l_verification :: string

record diag_record =
  d_family :: string
  d_ordinal :: int
  d_payload :: json

section \<open>Workflow state\<close>

record transition =
  t_from_phase :: string
  t_to_phase :: string
  t_reason :: string

record workflow =
  w_active_phase :: "string option"
  w_completed_phases :: "string list"
  w_observed_evidence :: "string list"
  w_transitions :: "transition list"

text \<open>\<open>CheckpointAck\<close>: what a committed checkpoint reports back.\<close>

record checkpoint_ack =
  ack_needs_reload :: bool
  ack_revision :: int
  ack_next_sequence :: int
  ack_memory :: "message list"
  ack_summaries :: "string set"

section \<open>Session\<close>

record session =
  s_repository :: bool
  s_checkpoint_ack :: "checkpoint_ack option"
  s_committed_summaries :: "string set"
  s_command :: "json option"
  s_run_command_id :: "string option"
  s_attempts_pending :: "json list"
  s_needs_reload :: bool
  s_last_archive_id :: "string option"
  s_retention_pending :: "json option"
  s_id :: string
  s_goal :: string
  s_revision :: int
  s_pending_commit_id :: "string option"
  s_pending_commit_fingerprint :: "string option"
  s_execution_owner :: "string option"
  s_execution_fence :: "int option"
  s_next_transcript_sequence :: int
  s_history_complete :: bool
  s_pending_transcript :: "transcript_entry list"
  s_config_ref :: "string option"
  s_config_sha256 :: "string option"
  s_resolved_config_sha256 :: "string option"
  s_memory :: "message list"
  s_compacted_context :: "string option"
  s_active_ledger_id :: "string option"
  s_compaction_events :: "string list"
  s_compaction_attempts :: "json list"
  s_compaction_decisions :: "json list"
  s_diagnostic_counts :: "(string \<times> int) list"
  s_diagnostics_complete :: bool
  s_diagnostic_history_complete :: bool
  s_diagnostic_rejections :: int
  s_compaction_savings_total :: int
  s_compaction_savings_known :: bool
  s_diagnostics_pending :: "diag_record list"
  s_compaction_provenance :: "json list"
  s_compaction_ledger :: "ledger option"
  s_last_compaction_step :: int
  s_last_compaction_estimated_tokens :: "int option"
  s_last_compaction_attempt_step :: "int option"
  s_last_compaction_attempt_sha256 :: "string option"
  s_request_budget :: "request_budget option"
  s_workflow :: "workflow option"
  s_step_count :: int
  s_run_count :: int
  s_run_id :: "string option"
  s_run_started_at :: "string option"
  s_run_ended_at :: "string option"
  s_run_termination_reason :: "string option"
  s_status :: string
  s_run_status :: string
  s_final_answer :: "string option"
  s_last_error :: "json option"
  s_consecutive_invalid_responses :: nat
  s_model_request_diagnostics :: "json list"
  s_executions :: "json list"
  s_pending_execution_outbox :: "json list"
  s_completion_artifacts :: json
  s_no_progress_steps :: nat
  s_progress_fingerprint :: "string option"
  s_progress_seen_outputs :: "string list"
  s_pending_tool_calls :: "json list"
  s_pending_tool_phase :: "string option"

section \<open>Configuration\<close>

record memory_policy =
  mem_max_tokens :: int
  mem_max_steps :: int
  mem_raw_turns_to_keep :: nat
  mem_hybrid_reflection :: bool
  mem_run_max_steps :: "int option"
  mem_compaction_interval_steps :: "int option"
  mem_context_window_tokens :: int
  mem_reserved_output_tokens :: int
  mem_safety_margin_tokens :: int
  mem_max_summary_tokens :: int
  mem_summary_output_tokens :: int
  mem_compaction_max_attempts :: int
  mem_compaction_max_passes :: int
  mem_compaction_min_growth_tokens :: int
  mem_compaction_min_interval_steps :: int
  mem_optional_min_pressure_ratio :: rat
  mem_optional_min_reclaimable_tokens :: int
  mem_optional_min_reduction_tokens :: int
  mem_optional_min_reduction_ratio :: rat

record llm_config =
  llm_base_url :: string
  llm_api_key_env :: string
  llm_temperature :: rat
  llm_timeout_seconds :: rat
  llm_tool_call_mode :: string
  llm_max_output_tokens :: "int option"

record evidence =
  ev_description :: string
  ev_tool :: string
  ev_required :: bool
  ev_arguments :: json
  ev_result :: json
  ev_content_contains :: "string list"

record edge =
  ed_to :: string
  ed_when :: string
  ed_evidence :: "evidence list"

record phase =
  ph_id :: string
  ph_name :: string
  ph_instruction :: string
  ph_allowed_tools :: "string list option"
  ph_completion :: "evidence list"
  ph_transitions :: "edge list"

record workflow_config =
  wc_entry_phase :: string
  wc_phases :: "phase list"

record tool =
  tl_name :: string
  tl_description :: string
  tl_parameters :: json
  tl_recovery :: "json option"

record config =
  c_name :: string
  c_system_prompt :: string
  c_model :: string
  c_llm :: llm_config
  c_memory :: memory_policy
  c_verbose_setup :: bool
  c_tools :: "tool list"
  c_workflow :: "workflow_config option"
  c_execution :: json
  c_completion :: json

section \<open>Defaults\<close>

text \<open>\<open>Message::default()\<close>, \<open>msg(role, content)\<close> and \<open>Workflow::default()\<close>.\<close>

definition message_default :: message where
  "message_default =
     \<lparr>m_message_id = None, m_sequence = None, m_created_at = None, m_role = [], m_content = None,
      m_name = None, m_tool_call_id = None, m_tool_calls = None\<rparr>"

definition msg :: "string \<Rightarrow> string option \<Rightarrow> message" where
  "msg role cont = message_default\<lparr>m_role := role, m_content := cont\<rparr>"

definition workflow_default :: workflow where
  "workflow_default =
     \<lparr>w_active_phase = None, w_completed_phases = [], w_observed_evidence = [], w_transitions = []\<rparr>"

text \<open>A session as \<open>serde\<close> builds it from \<open>id\<close>, \<open>goal\<close> and \<open>status\<close> alone.\<close>

definition session_default :: "string \<Rightarrow> string \<Rightarrow> string \<Rightarrow> session" where
  "session_default i g st =
     \<lparr>s_repository = False, s_checkpoint_ack = None, s_committed_summaries = {}, s_command = None,
      s_run_command_id = None, s_attempts_pending = [], s_needs_reload = False,
      s_last_archive_id = None, s_retention_pending = None, s_id = i, s_goal = g, s_revision = 0,
      s_pending_commit_id = None, s_pending_commit_fingerprint = None, s_execution_owner = None,
      s_execution_fence = None, s_next_transcript_sequence = 1, s_history_complete = True,
      s_pending_transcript = [], s_config_ref = None, s_config_sha256 = None,
      s_resolved_config_sha256 = None, s_memory = [], s_compacted_context = None,
      s_active_ledger_id = None, s_compaction_events = [], s_compaction_attempts = [],
      s_compaction_decisions = [], s_diagnostic_counts = [], s_diagnostics_complete = True,
      s_diagnostic_history_complete = True, s_diagnostic_rejections = 0,
      s_compaction_savings_total = 0, s_compaction_savings_known = True,
      s_diagnostics_pending = [], s_compaction_provenance = [], s_compaction_ledger = None,
      s_last_compaction_step = 0, s_last_compaction_estimated_tokens = None,
      s_last_compaction_attempt_step = None, s_last_compaction_attempt_sha256 = None,
      s_request_budget = None, s_workflow = None, s_step_count = 0, s_run_count = 0,
      s_run_id = None, s_run_started_at = None, s_run_ended_at = None,
      s_run_termination_reason = None, s_status = st, s_run_status = [], s_final_answer = None,
      s_last_error = None, s_consecutive_invalid_responses = 0, s_model_request_diagnostics = [],
      s_executions = [], s_pending_execution_outbox = [], s_completion_artifacts = JObj [],
      s_no_progress_steps = 0, s_progress_fingerprint = None, s_progress_seen_outputs = [],
      s_pending_tool_calls = [], s_pending_tool_phase = None\<rparr>"

definition memory_default :: "int \<Rightarrow> int \<Rightarrow> nat \<Rightarrow> memory_policy" where
  "memory_default max_tokens max_steps raw_turns =
     \<lparr>mem_max_tokens = max_tokens, mem_max_steps = max_steps, mem_raw_turns_to_keep = raw_turns,
      mem_hybrid_reflection = True, mem_run_max_steps = None, mem_compaction_interval_steps = None,
      mem_context_window_tokens = 32768, mem_reserved_output_tokens = 1024,
      mem_safety_margin_tokens = 256, mem_max_summary_tokens = 4096,
      mem_summary_output_tokens = 512, mem_compaction_max_attempts = 2,
      mem_compaction_max_passes = 3, mem_compaction_min_growth_tokens = 512,
      mem_compaction_min_interval_steps = 0, mem_optional_min_pressure_ratio = 0,
      mem_optional_min_reclaimable_tokens = 0, mem_optional_min_reduction_tokens = 0,
      mem_optional_min_reduction_ratio = 0\<rparr>"

definition llm_default :: "string \<Rightarrow> llm_config" where
  \<comment> \<open>the temperature is the double nearest to 0.1\<close>
  "llm_default base_url =
     \<lparr>llm_base_url = base_url, llm_api_key_env = ''OPENAI_API_KEY'', 
      llm_temperature = 3602879701896397 / 36028797018963968, llm_timeout_seconds = 90,
      llm_tool_call_mode = ''native'', llm_max_output_tokens = None\<rparr>"

end
