(* ===== verification/Encoding.thy ===== *)
theory Encoding
  imports Json "HOL-Library.Char_ord" "HOL-Library.List_Lexorder"
begin

text \<open>
  Renderings of JSON values: the Python-compatible text of \<^verbatim>\<open>tools.rs\<close> (\<open>python_json\<close>) and
  \<^verbatim>\<open>identity.rs\<close> (\<open>python_number\<close>, \<open>python_encoded\<close>), and the canonical text (\<open>canonical\<close>)
  whose SHA-256 identifies commands, actions and payloads.
\<close>

section \<open>Unicode\<close>

text \<open>Decoding of valid UTF-8, and the UTF-16 code units of a string.\<close>

abbreviation byte :: "char \<Rightarrow> nat" where "byte c \<equiv> of_char c"

fun utf8_decode :: "string \<Rightarrow> nat list" where
  "utf8_decode [] = []"
| "utf8_decode (a # s) =
     (let x = byte a in
      if x < 0x80 then x # utf8_decode s
      else if x < 0xE0 then
        (case s of b # t \<Rightarrow> ((x - 0xC0) * 64 + (byte b - 0x80)) # utf8_decode t | _ \<Rightarrow> [])
      else if x < 0xF0 then
        (case s of b # c # t \<Rightarrow>
           ((x - 0xE0) * 4096 + (byte b - 0x80) * 64 + (byte c - 0x80)) # utf8_decode t
         | _ \<Rightarrow> [])
      else
        (case s of b # c # d # t \<Rightarrow>
           ((x - 0xF0) * 262144 + (byte b - 0x80) * 4096 + (byte c - 0x80) * 64 + (byte d - 0x80))
             # utf8_decode t
         | _ \<Rightarrow> []))"

definition utf16 :: "string \<Rightarrow> nat list" where
  "utf16 s = concat (map (\<lambda>c. if c \<le> 0xFFFF then [c]
                             else [0xD800 + (c - 0x10000) div 1024, 0xDC00 + (c - 0x10000) mod 1024])
                         (utf8_decode s))"

definition hex_digit :: "nat \<Rightarrow> char" where
  "hex_digit d = (if d < 10 then digit_char d else char_of (87 + d))"

definition hex4 :: "nat \<Rightarrow> string" where
  "hex4 n = [hex_digit (n div 4096 mod 16), hex_digit (n div 256 mod 16),
             hex_digit (n div 16 mod 16), hex_digit (n mod 16)]"

section \<open>Python's spelling\<close>

definition python_char :: "nat \<Rightarrow> string" where
  "python_char c =
     (if c = 0x22 then [CHR 0x5C, CHR 0x22]
      else if c = 0x5C then [CHR 0x5C, CHR 0x5C]
      else if c = 0x08 then [CHR 0x5C, CHR ''b'']
      else if c = 0x0C then [CHR 0x5C, CHR ''f'']
      else if c = 0x0A then [CHR 0x5C, CHR ''n'']
      else if c = 0x0D then [CHR 0x5C, CHR ''r'']
      else if c = 0x09 then [CHR 0x5C, CHR ''t'']
      else if c < 0x20 then [CHR 0x5C, CHR ''u''] @ hex4 c
      else if c > 0xFFFF then
        [CHR 0x5C, CHR ''u''] @ hex4 (0xD800 + (c - 0x10000) div 1024)
        @ [CHR 0x5C, CHR ''u''] @ hex4 (0xDC00 + (c - 0x10000) mod 1024)
      else if c > 0x7F then [CHR 0x5C, CHR ''u''] @ hex4 c
      else [char_of c])"

definition python_json_string :: "string \<Rightarrow> string" where
  "python_json_string s = [CHR 0x22] @ concat (map python_char (utf8_decode s)) @ [CHR 0x22]"

text \<open>
  The digits of a double's decimal text and the position of its point: leading zeros are
  dropped with the point, trailing zeros are dropped, and at least one digit stays.
\<close>

function drop_leading :: "string \<Rightarrow> int \<Rightarrow> string \<times> int" where
  "drop_leading ds p =
     (if ds \<noteq> [] \<and> hd ds = CHR ''0'' \<and> length ds > 1 then drop_leading (tl ds) (p - 1) else (ds, p))"
  by pat_completeness auto
termination
  by (relation "measure (\<lambda>(ds, p). length ds)") auto

function drop_trailing :: "string \<Rightarrow> string" where
  "drop_trailing ds =
     (if ds \<noteq> [] \<and> last ds = CHR ''0'' \<and> length ds > 1 then drop_trailing (butlast ds) else ds)"
  by pat_completeness auto
termination
  by (relation "measure length") auto

declare drop_leading.simps [simp del] drop_trailing.simps [simp del]

definition digits_and_point :: "string \<Rightarrow> string \<times> int" where
  "digits_and_point raw =
     (let unsigned = dropWhile (\<lambda>c. c = CHR ''-'') raw;
          m = takeWhile (\<lambda>c. \<not> is_exp c) unsigned;
          e = (if m = unsigned then 0
               else unwrap_or 0 (parse_int in_i32 (drop (length m + 1) unsigned)));
          before = length (takeWhile (\<lambda>c. c \<noteq> CHR ''.'') m);
          (ds, p) = drop_leading (filter (\<lambda>c. c \<noteq> CHR ''.'') m) (int before + e)
      in (drop_trailing ds, p))"

definition positional :: "string \<Rightarrow> string \<Rightarrow> int \<Rightarrow> string" where
  "positional int_suffix ds p =
     (if p \<le> 0 then ''0.'' @ replicate (nat (- p)) (CHR ''0'') @ ds
      else if nat p \<ge> length ds then ds @ replicate (nat p - length ds) (CHR ''0'') @ int_suffix
      else take (nat p) ds @ ''.'' @ drop (nat p) ds)"

definition mantissa_text :: "string \<Rightarrow> string" where
  "mantissa_text ds = (if length ds = 1 then ds else take 1 ds @ ''.'' @ drop 1 ds)"

definition raw_sign :: "string \<Rightarrow> string" where
  "raw_sign raw = (if prefix ''-'' raw then ''-'' else [])"

definition pad2 :: "nat \<Rightarrow> string" where
  "pad2 n = (if n < 10 then CHR ''0'' # show_nat n else show_nat n)"

text \<open>The doubles nearest to \<open>1e-4\<close> and \<open>1e-6\<close>.\<close>

definition f64_1e_4 :: rat where "f64_1e_4 = 7378697629483821 / 73786976294838206464"
definition f64_1e_6 :: rat where "f64_1e_6 = 4722366482869645 / 4722366482869645213696"

fun python_number :: "lib \<Rightarrow> jnum \<Rightarrow> string" where
  "python_number L (PosInt n) = show_nat n"
| "python_number L (NegInt i) = show_int i"
| "python_number L (Float f) =
     (if f64_val f = 0 then (if f64_neg f then ''-0.0'' else ''0.0'')
      else (let raw = f64_text L f; (ds, p) = digits_and_point raw
            in if f64_mag f \<ge> f64_1e_4 \<and> f64_mag f < 10 ^ 16 then raw_sign raw @ positional ''.0'' ds p
               else raw_sign raw @ mantissa_text ds @ ''e'' @ (if p - 1 \<ge> 0 then ''+'' else ''-'')
                    @ pad2 (nat \<bar>p - 1\<bar>)))"

fun python_json :: "lib \<Rightarrow> json \<Rightarrow> string"
  and python_items :: "lib \<Rightarrow> json list \<Rightarrow> string list"
  and python_fields :: "lib \<Rightarrow> (string \<times> json) list \<Rightarrow> string list" where
  "python_json L JNull = ''null''"
| "python_json L (JBool b) = (if b then ''true'' else ''false'')"
| "python_json L (JNum n) = python_number L n"
| "python_json L (JStr s) = python_json_string s"
| "python_json L (JArr xs) = ''['' @ join '', '' (python_items L xs) @ '']''"
| "python_json L (JObj kvs) = ''{'' @ join '', '' (python_fields L kvs) @ ''}''"
| "python_items L [] = []"
| "python_items L (x # xs) = python_json L x # python_items L xs"
| "python_fields L [] = []"
| "python_fields L ((k, v) # kvs) =
     (python_json_string k @ '': '' @ python_json L v) # python_fields L kvs"

section \<open>Canonical text and digests\<close>

definition max_safe :: rat where "max_safe = 9007199254740991"

fun canonical_number :: "lib \<Rightarrow> jnum \<Rightarrow> string result" where
  "canonical_number L n =
     (let f = num_f64 n
      in if (case n of Float _ \<Rightarrow> False | _ \<Rightarrow> f64_mag f > max_safe)
         then Err ''number outside I-JSON domain; use a string''
         else if f64_val f = 0 then Ok ''0''
         else (let raw = f64_text L f; (ds, p) = digits_and_point raw
               in if f64_mag f \<ge> f64_1e_6 \<and> f64_mag f < 10 ^ 21
                  then Ok (raw_sign raw @ positional [] ds p)
                  else Ok (raw_sign raw @ mantissa_text ds @ ''e'' @ (if p - 1 \<ge> 0 then ''+'' else [])
                           @ show_int (p - 1))))"

fun canonical :: "lib \<Rightarrow> json \<Rightarrow> string result"
  and canonical_items :: "lib \<Rightarrow> json list \<Rightarrow> string list result"
  and canonical_fields :: "lib \<Rightarrow> (string \<times> json) list \<Rightarrow> (nat list \<times> string) list result" where
  "canonical L JNull = Ok ''null''"
| "canonical L (JBool b) = Ok (if b then ''true'' else ''false'')"
| "canonical L (JStr s) = Ok (json_text L (JStr s))"
| "canonical L (JNum n) = canonical_number L n"
| "canonical L (JArr xs) =
     (case canonical_items L xs of Inl e \<Rightarrow> Err e | Inr ts \<Rightarrow> Ok (''['' @ join '','' ts @ '']''))"
| "canonical L (JObj kvs) =
     (case canonical_fields L kvs of
        Inl e \<Rightarrow> Err e
      | Inr ts \<Rightarrow> Ok (''{'' @ join '','' (map snd (sort_key fst ts)) @ ''}''))"
| "canonical_items L [] = Ok []"
| "canonical_items L (x # xs) =
     (case canonical L x of Inl e \<Rightarrow> Err e
      | Inr t \<Rightarrow> (case canonical_items L xs of Inl e \<Rightarrow> Err e | Inr ts \<Rightarrow> Ok (t # ts)))"
| "canonical_fields L [] = Ok []"
| "canonical_fields L ((k, v) # kvs) =
     (case canonical L v of Inl e \<Rightarrow> Err e
      | Inr t \<Rightarrow> (case canonical_fields L kvs of Inl e \<Rightarrow> Err e
                 | Inr ts \<Rightarrow> Ok ((utf16 k, json_text L (JStr k) @ '':'' @ t) # ts)))"

definition digest :: "lib \<Rightarrow> json \<Rightarrow> string result" where
  "digest L v = rbind (canonical L v) (\<lambda>t. Ok (sha256_hex L t))"

definition action_key :: "lib \<Rightarrow> string \<Rightarrow> string \<Rightarrow> string \<Rightarrow> string result" where
  "action_key L namespace ses execution =
     digest L (JArr [JStr ''agent-action-v1'', JStr namespace, JStr ses, JStr execution])"

definition payload_key :: "lib \<Rightarrow> string \<Rightarrow> string \<Rightarrow> json \<Rightarrow> string result" where
  "payload_key L tool target args =
     digest L (JArr [JStr ''agent-payload-v1'', JStr tool, JStr target, args])"

end
