(* ===== verification/History.thy ===== *)
theory History
  imports Types Encoding
begin

text \<open>
  The wire projection of a message, the byte budget of a request, and the partition of the
  history into interaction groups (\<^verbatim>\<open>context.rs\<close>).  A group is a single message or an
  assistant message with the results of all its tool calls; compaction only ever moves whole
  groups.  The accepted histories are characterised by the inductive predicate
  \<open>correlated\<close>, and the partition is shown to lose and reorder nothing.
\<close>

section \<open>Wire messages and budgets\<close>

definition opt_field :: "string \<Rightarrow> string option \<Rightarrow> (string \<times> json) list" where
  "opt_field k v = (case v of None \<Rightarrow> [] | Some s \<Rightarrow> [(k, JStr s)])"

definition wire_message :: "message \<Rightarrow> json" where
  "wire_message m =
     JObj ([(''role'', JStr (m_role m))]
           @ opt_field ''content'' (m_content m)
           @ opt_field ''name'' (m_name m)
           @ opt_field ''tool_call_id'' (m_tool_call_id m)
           @ (case m_tool_calls m of
                Some v \<Rightarrow> if v \<noteq> JNull \<and> v \<noteq> JArr [] then [(''tool_calls'', v)] else []
              | None \<Rightarrow> []))"

definition estimator_text :: string where
  "estimator_text =
     ''compact UTF-8 JSON bytes + 32 per message; conservative estimate, not provider usage''"

definition estimate_payload :: "lib \<Rightarrow> json \<Rightarrow> memory_policy \<Rightarrow> request_budget" where
  "estimate_payload L payload pol =
     (let bytes = length (json_text L payload);
          messages = length (get_arr payload ''messages'');
          estimate = int bytes + 32 * int messages;
          cap = unwrap_or 0 (Option.bind (get payload ''max_tokens'') as_i64);
          reserve = max (mem_reserved_output_tokens pol) cap
      in \<lparr>b_estimated_input_tokens = estimate,
          b_reserved_output_tokens = reserve,
          b_safety_margin_tokens = mem_safety_margin_tokens pol,
          b_context_window_tokens = mem_context_window_tokens pol,
          b_fits = (estimate + reserve + mem_safety_margin_tokens pol \<le> mem_context_window_tokens pol),
          b_estimator = estimator_text\<rparr>)"

section \<open>Interaction groups\<close>

definition integrity_prefix :: string where "integrity_prefix = ''context_integrity_error: ''"

definition at_index :: "string \<Rightarrow> nat \<Rightarrow> string" where
  "at_index what i = integrity_prefix @ what @ '' at history index '' @ show_nat i"

text \<open>The tool calls of an assistant message, when it has any.\<close>

definition batch_calls :: "message \<Rightarrow> json list option" where
  "batch_calls m =
     opt_filter (\<lambda>calls. m_role m = ''assistant'' \<and> calls \<noteq> [])
       (Option.bind (m_tool_calls m) as_array)"

definition call_id :: "json \<Rightarrow> string option" where
  "call_id c = opt_filter (\<lambda>i. i \<noteq> []) (get_str c ''id'')"

fun batch_ids :: "nat \<Rightarrow> json list \<Rightarrow> string list \<Rightarrow> string list result" where
  "batch_ids index [] ids = Ok ids"
| "batch_ids index (c # calls) ids =
     (case call_id c of
        None \<Rightarrow> Err (at_index ''missing tool-call ID'' index)
      | Some i \<Rightarrow>
          if i \<in> set ids then Err (at_index ''duplicate tool-call ID'' index)
          else batch_ids index calls (ids @ [i]))"

definition result_id :: "message \<Rightarrow> string option" where
  "result_id m = opt_filter (\<lambda>i. i \<noteq> []) (m_tool_call_id m)"

fun batch_results :: "lib \<Rightarrow> nat \<Rightarrow> message list \<Rightarrow> string list \<Rightarrow> string list result" where
  "batch_results L index [] seen = Ok seen"
| "batch_results L index (r # rs) seen =
     (if m_role r \<noteq> ''tool'' then Err (at_index ''incomplete tool-call result group'' index)
      else (case result_id r of
              None \<Rightarrow> Err (at_index ''missing tool result ID'' index)
            | Some i \<Rightarrow>
                if i \<in> set seen
                then Err (integrity_prefix @ ''duplicate tool result ID '' @ debug_text L i)
                else batch_results L index rs (seen @ [i])))"

definition check_batch :: "lib \<Rightarrow> nat \<Rightarrow> json list \<Rightarrow> message list \<Rightarrow> string list result" where
  "check_batch L index calls rest =
     rbind (batch_ids index calls [])
       (\<lambda>ids. if length ids > length rest then Err (at_index ''incomplete tool-call batch'' index)
              else rbind (batch_results L index (take (length ids) rest) [])
                     (\<lambda>results.
                        if length results \<noteq> length ids \<or> (\<exists>i\<in>set ids. i \<notin> set results)
                        then Err (at_index ''tool-call results do not correlate'' index)
                        else Ok ids))"

function groups_from :: "lib \<Rightarrow> nat \<Rightarrow> message list \<Rightarrow> history_group list result" where
  "groups_from L index [] = Ok []"
| "groups_from L index (m # rest) =
     (if m_role m = ''tool''
      then Err (integrity_prefix @ ''orphaned tool result at history index '' @ show_nat index)
      else (case batch_calls m of
              None \<Rightarrow>
                rbind (groups_from L (index + 1) rest)
                  (\<lambda>gs. Ok (\<lparr>g_messages = [m], g_indexes = [index]\<rparr> # gs))
            | Some calls \<Rightarrow>
                (case check_batch L index calls rest of
                   Inl e \<Rightarrow> Err e
                 | Inr ids \<Rightarrow>
                     (let n = length ids
                      in rbind (groups_from L (index + 1 + n) (drop n rest))
                           (\<lambda>gs. Ok (\<lparr>g_messages = m # take n rest,
                                      g_indexes = [index ..< index + 1 + n]\<rparr> # gs))))))"
  by pat_completeness auto
termination
  by (relation "measure (\<lambda>(L, i, ms). length ms)") auto

definition interaction_groups :: "lib \<Rightarrow> message list \<Rightarrow> history_group list result" where
  "interaction_groups L messages = groups_from L 0 messages"

text \<open>Walk back from the newest group until enough messages are kept.\<close>

fun split_boundary :: "history_group list \<Rightarrow> nat \<Rightarrow> nat \<Rightarrow> nat \<Rightarrow> nat" where
  "split_boundary gs minimum 0 count = 0"
| "split_boundary gs minimum (Suc b) count =
     (if count < minimum then split_boundary gs minimum b (count + length (g_messages (gs ! b)))
      else Suc b)"

definition split_history ::
  "lib \<Rightarrow> message list \<Rightarrow> nat \<Rightarrow> (history_group list \<times> history_group list) result" where
  "split_history L messages minimum =
     rbind (interaction_groups L messages)
       (\<lambda>gs. let b = split_boundary gs minimum (length gs) 0 in Ok (take b gs, drop b gs))"

definition flatten :: "history_group list \<Rightarrow> message list" where
  "flatten gs = concat (map g_messages gs)"

section \<open>Summary source\<close>

fun sort_json :: "json \<Rightarrow> json"
  and sort_items :: "json list \<Rightarrow> json list"
  and sort_fields :: "(string \<times> json) list \<Rightarrow> (string \<times> json) list" where
  "sort_json (JArr xs) = JArr (sort_items xs)"
| "sort_json (JObj kvs) = JObj (sort_key fst (sort_fields kvs))"
| "sort_json v = v"
| "sort_items [] = []"
| "sort_items (x # xs) = sort_json x # sort_items xs"
| "sort_fields [] = []"
| "sort_fields ((k, v) # kvs) = (k, sort_json v) # sort_fields kvs"

definition source_text :: "lib \<Rightarrow> string \<Rightarrow> message list \<Rightarrow> string option \<Rightarrow> string" where
  "source_text L goal hist previous =
     ''Goal: '' @ goal @ newline @ ''Previous ledger: ''
     @ unwrap_or ''none'' (opt_filter (\<lambda>x. x \<noteq> []) previous) @ newline
     @ ''Historical prefix:'' @ newline
     @ python_json L (JArr (map (sort_json \<circ> wire_message) hist))"

section \<open>Which histories are accepted\<close>

text \<open>
  The specification: a history is a sequence of plain messages and of assistant batches, each
  batch followed at once by exactly one result per call, in any order.
\<close>

definition plain_message :: "message \<Rightarrow> bool" where
  "plain_message m \<longleftrightarrow> m_role m \<noteq> ''tool'' \<and> batch_calls m = None"

definition answered_batch :: "message \<Rightarrow> message list \<Rightarrow> bool" where
  "answered_batch m rs \<longleftrightarrow>
     (\<exists>calls ids. m_role m \<noteq> ''tool'' \<and> batch_calls m = Some calls \<and> map call_id calls = map Some ids
        \<and> distinct ids \<and> (\<forall>r\<in>set rs. m_role r = ''tool'')
        \<and> (\<exists>rids. map result_id rs = map Some rids \<and> distinct rids \<and> set rids = set ids))"

inductive correlated :: "message list \<Rightarrow> bool" where
  corr_nil: "correlated []"
| corr_plain: "plain_message m \<Longrightarrow> correlated ms \<Longrightarrow> correlated (m # ms)"
| corr_batch: "answered_batch m rs \<Longrightarrow> correlated ms \<Longrightarrow> correlated (m # rs @ ms)"

lemma batch_ids_Ok:
  "batch_ids i calls ids = Inr out \<longleftrightarrow>
     (\<exists>new. map call_id calls = map Some new \<and> out = ids @ new \<and> distinct new \<and> set new \<inter> set ids = {})"
proof (induction calls arbitrary: ids)
  case Nil
  then show ?case by auto
next
  case (Cons c calls)
  show ?case
  proof (cases "call_id c")
    case None
    then show ?thesis by (auto simp: Cons_eq_map_conv)
  next
    case (Some a)
    then show ?thesis using Cons.IH [of "ids @ [a]"]
      by (auto simp: Cons_eq_map_conv; force)
  qed
qed

lemma batch_results_Ok:
  "batch_results L i rs seen = Inr out \<longleftrightarrow>
     (\<forall>r\<in>set rs. m_role r = ''tool'') \<and>
     (\<exists>new. map result_id rs = map Some new \<and> out = seen @ new \<and> distinct new \<and> set new \<inter> set seen = {})"
proof (induction rs arbitrary: seen)
  case Nil
  then show ?case by auto
next
  case (Cons r rs)
  show ?case
  proof (cases "result_id r")
    case None
    then show ?thesis by (auto simp: Cons_eq_map_conv)
  next
    case (Some a)
    then show ?thesis using Cons.IH [of "seen @ [a]"]
      by (auto simp: Cons_eq_map_conv; force)
  qed
qed


lemma flatten_append [simp]: "flatten (xs @ ys) = flatten xs @ flatten ys"
  by (simp add: flatten_def)

lemma flatten_simps [simp]: "flatten [] = []" "flatten (g # gs) = g_messages g @ flatten gs"
  by (simp_all add: flatten_def)

lemma upt_join: "a \<le> b \<Longrightarrow> b \<le> c \<Longrightarrow> [a..<b] @ [b..<c] = [a..<c]"
  by (metis le_Suc_ex upt_add_eq_append)

lemma map_Some_length: "map f xs = map Some ys \<Longrightarrow> length ys = length xs"
  by (metis length_map)

lemma check_batch_Ok:
  assumes "check_batch L i calls rest = Inr ids"
  shows "map call_id calls = map Some ids" "distinct ids" "length ids \<le> length rest"
    "\<forall>r\<in>set (take (length ids) rest). m_role r = ''tool''"
    "\<exists>rids. map result_id (take (length ids) rest) = map Some rids \<and> distinct rids \<and> set rids = set ids"
proof -
  from assms have ids: "map call_id calls = map Some ids" "distinct ids"
    and le: "length ids \<le> length rest"
    and "\<exists>out. batch_results L i (take (length ids) rest) [] = Inr out
           \<and> length out = length ids \<and> set ids \<subseteq> set out"
    by (auto simp: check_batch_def result_simps batch_ids_Ok split: if_splits)
  then obtain out where out: "batch_results L i (take (length ids) rest) [] = Inr out"
    "length out = length ids" "set ids \<subseteq> set out" by auto
  then have "\<forall>r\<in>set (take (length ids) rest). m_role r = ''tool''"
    "map result_id (take (length ids) rest) = map Some out" "distinct out"
    by (auto simp: batch_results_Ok)
  moreover have "set out = set ids"
    using out ids(2) \<open>distinct out\<close> card_subset_eq [of "set out" "set ids"]
    by (simp add: distinct_card)
  ultimately show "map call_id calls = map Some ids" "distinct ids" "length ids \<le> length rest"
    "\<forall>r\<in>set (take (length ids) rest). m_role r = ''tool''"
    "\<exists>rids. map result_id (take (length ids) rest) = map Some rids \<and> distinct rids \<and> set rids = set ids"
    using ids le by auto
qed

lemma check_batch_complete:
  assumes "batch_calls m = Some calls" "answered_batch m rs"
  shows "\<exists>ids. check_batch L i calls (rs @ ms) = Inr ids \<and> length ids = length rs"
proof -
  from assms obtain ids rids where
    ids: "map call_id calls = map Some ids" "distinct ids"
    and rs: "\<forall>r\<in>set rs. m_role r = ''tool''" "map result_id rs = map Some rids"
    and r: "distinct rids" "set rids = set ids"
    by (auto simp: answered_batch_def)
  from ids r have "length rids = length ids" by (metis distinct_card)
  moreover have len: "length rids = length rs" using rs(2) by (rule map_Some_length)
  moreover have "batch_ids i calls [] = Inr ids" using ids by (auto simp: batch_ids_Ok)
  moreover have "batch_results L i rs [] = Inr rids" using rs r by (auto simp: batch_results_Ok)
  ultimately show ?thesis using r by (simp add: check_batch_def)
qed

lemma check_batch_answered:
  assumes "m_role m \<noteq> ''tool''" "batch_calls m = Some calls" "check_batch L i calls rest = Inr ids"
  shows "answered_batch m (take (length ids) rest)"
  using assms check_batch_Ok [OF assms(3)] by (auto simp: answered_batch_def)

lemma groups_from_sound:
  "groups_from L i ms = Inr gs \<Longrightarrow>
     flatten gs = ms \<and> concat (map g_indexes gs) = [i ..< i + length ms] \<and> correlated ms
     \<and> (\<forall>g\<in>set gs. correlated (g_messages g) \<and> g_messages g \<noteq> [])"
proof (induction L i ms arbitrary: gs rule: groups_from.induct)
  case (1 L index)
  then show ?case by (simp add: correlated.intros)
next
  case (2 L index m rest)
  from "2.prems" have role: "m_role m \<noteq> ''tool''" by (auto split: if_splits)
  show ?case
  proof (cases "batch_calls m")
    case None
    with "2.prems" role obtain gs' where gs: "groups_from L (index + 1) rest = Inr gs'"
      "gs = \<lparr>g_messages = [m], g_indexes = [index]\<rparr> # gs'"
      by (auto simp: result_simps)
    have pm: "plain_message m" using None role by (simp add: plain_message_def)
    have ix: "index # [index + 1 ..< index + 1 + length rest] = [index ..< index + length (m # rest)]"
      by (simp add: upt_conv_Cons del: upt_Suc)
    have single: "correlated [m]" using corr_plain [OF pm corr_nil] .
    show ?thesis
      using "2.IH"(1) [OF role None gs(1)] gs(2) ix single corr_plain [OF pm] by (auto simp del: upt_Suc)
  next
    case (Some calls)
    with "2.prems" role obtain ids gs' where
      ids: "check_batch L index calls rest = Inr ids"
      and rec: "groups_from L (index + 1 + length ids) (drop (length ids) rest) = Inr gs'"
      and gs: "gs = \<lparr>g_messages = m # take (length ids) rest,
                     g_indexes = [index ..< index + 1 + length ids]\<rparr> # gs'"
      by (auto simp: result_simps Let_def split: sum.splits)
    note IH = "2.IH"(2) [OF role Some ids refl rec]
    have ans: "answered_batch m (take (length ids) rest)"
      using check_batch_answered [OF role Some ids] .
    have corr: "correlated (m # take (length ids) rest @ drop (length ids) rest)"
      using ans IH by (intro corr_batch) auto
    have single: "correlated (m # take (length ids) rest)"
      using corr_batch [OF ans corr_nil] by simp
    have le: "length ids \<le> length rest" using check_batch_Ok(3) [OF ids] .
    have "[index..<index + 1 + length ids] @ [index + 1 + length ids..<index + 1 + length rest]
          = [index..<index + 1 + length rest]"
      using le by (intro upt_join) auto
    then show ?thesis
      using IH gs corr single le by (auto simp del: upt_Suc)
  qed
qed

lemma groups_from_complete: "correlated ms \<Longrightarrow> \<exists>gs. groups_from L i ms = Inr gs"
proof (induction arbitrary: i rule: correlated.induct)
  case corr_nil
  then show ?case by simp
next
  case (corr_plain m ms)
  then obtain gs where "groups_from L (i + 1) ms = Inr gs" by blast
  with corr_plain show ?case by (simp add: plain_message_def)
next
  case (corr_batch m rs ms)
  then obtain calls where calls: "m_role m \<noteq> ''tool''" "batch_calls m = Some calls"
    by (auto simp: answered_batch_def)
  from check_batch_complete [OF calls(2) corr_batch.hyps(1)] obtain ids where
    "check_batch L i calls (rs @ ms) = Inr ids" "length ids = length rs" by blast
  moreover obtain gs where "groups_from L (i + 1 + length rs) ms = Inr gs"
    using corr_batch.IH by blast
  ultimately show ?case using calls by (simp add: Let_def)
qed

lemma interaction_groups_sound:
  assumes "interaction_groups L ms = Inr gs"
  shows "flatten gs = ms" "concat (map g_indexes gs) = [0 ..< length ms]" "correlated ms"
    "\<forall>g\<in>set gs. correlated (g_messages g)" "\<forall>g\<in>set gs. g_messages g \<noteq> []"
  using groups_from_sound [of L 0 ms gs] assms by (auto simp: interaction_groups_def)

lemma interaction_groups_accepts: "(\<exists>gs. interaction_groups L ms = Inr gs) \<longleftrightarrow> correlated ms"
  using groups_from_complete [of ms L 0] groups_from_sound [of L 0 ms]
  by (auto simp: interaction_groups_def)

lemma correlated_append: "correlated xs \<Longrightarrow> correlated ys \<Longrightarrow> correlated (xs @ ys)"
  by (induction rule: correlated.induct) (auto intro: correlated.intros)

lemma correlated_flatten: "\<forall>g\<in>set gs. correlated (g_messages g) \<Longrightarrow> correlated (flatten gs)"
  by (induction gs) (auto intro: correlated_append corr_nil)

section \<open>The split\<close>

lemma split_boundary_le: "split_boundary gs minimum b count \<le> b"
  by (induction b arbitrary: count) (auto simp: le_SucI)

lemma drop_nth_flatten:
  "b < length gs \<Longrightarrow> flatten (drop b gs) = g_messages (gs ! b) @ flatten (drop (Suc b) gs)"
  by (metis Cons_nth_drop_Suc flatten_simps(2))

lemma split_boundary_keeps:
  assumes "b \<le> length gs" "count = length (flatten (drop b gs))"
  shows "split_boundary gs minimum b count = 0
    \<or> minimum \<le> length (flatten (drop (split_boundary gs minimum b count) gs))"
  using assms
proof (induction b arbitrary: count)
  case (Suc b)
  then show ?case using drop_nth_flatten [of b gs] by (auto simp: add.commute)
qed simp

lemma split_boundary_minimal:
  assumes "b \<le> length gs" "count = length (flatten (drop b gs))"
    and "split_boundary gs minimum b count < b"
  shows "length (flatten (drop (Suc (split_boundary gs minimum b count)) gs)) < minimum"
  using assms
proof (induction b arbitrary: count)
  case (Suc b)
  show ?case
  proof (cases "count < minimum")
    case True
    let ?c = "count + length (g_messages (gs ! b))"
    have c: "?c = length (flatten (drop b gs))" using Suc.prems drop_nth_flatten [of b gs] by simp
    show ?thesis
    proof (cases "split_boundary gs minimum b ?c < b")
      case True
      then show ?thesis using Suc.IH [OF _ c] Suc.prems \<open>count < minimum\<close> by simp
    next
      case False
      then have "split_boundary gs minimum b ?c = b"
        using split_boundary_le [of gs minimum b ?c] by simp
      then show ?thesis using \<open>count < minimum\<close> Suc.prems by simp
    qed
  qed (use Suc.prems in simp)
qed simp

lemma split_history_sound:
  assumes "split_history L ms minimum = Inr (old, tail)"
  shows "flatten old @ flatten tail = ms" "correlated (flatten old)" "correlated (flatten tail)"
    "interaction_groups L ms = Inr (old @ tail)"
    "old \<noteq> [] \<Longrightarrow> minimum \<le> length (flatten tail)"
    "tail \<noteq> [] \<Longrightarrow> length (flatten (tl tail)) < minimum"
proof -
  from assms obtain gs where gs: "interaction_groups L ms = Inr gs"
    and old: "old = take (split_boundary gs minimum (length gs) 0) gs"
    and tail: "tail = drop (split_boundary gs minimum (length gs) 0) gs"
    by (auto simp: split_history_def result_simps Let_def)
  let ?b = "split_boundary gs minimum (length gs) 0"
  note snd = interaction_groups_sound [OF gs]
  have "old @ tail = gs" using old tail by simp
  then show "interaction_groups L ms = Inr (old @ tail)" "flatten old @ flatten tail = ms"
    using gs snd(1) by (auto simp flip: flatten_append)
  show "correlated (flatten old)" "correlated (flatten tail)"
    using snd(4) old tail by (auto intro!: correlated_flatten dest: in_set_takeD in_set_dropD)
  show "minimum \<le> length (flatten tail)" if "old \<noteq> []"
    using split_boundary_keeps [of "length gs" gs 0 minimum] that old tail by auto
  show "length (flatten (tl tail)) < minimum" if "tail \<noteq> []"
  proof -
    have "?b < length gs" using that tail by auto
    then show ?thesis
      using split_boundary_minimal [of "length gs" gs 0 minimum] tail
      by (simp add: drop_Suc tl_drop)
  qed
qed

end
