(* ===== verification/Schema.thy ===== *)
theory Schema
  imports Encoding
begin

text \<open>
  The JSON-schema subset of the agent: \<open>validate_value\<close> of \<^verbatim>\<open>tools.rs\<close>, which checks tool
  arguments and final answers, and \<open>validate_schema\<close> of \<^verbatim>\<open>main.rs\<close>, which checks the schemas
  of a profile.  The checker is shown to accept exactly the values that conform to a
  declarative reading of the schema.
\<close>

section \<open>Checking a value\<close>

definition fract_zero :: "json \<Rightarrow> bool" where
  "fract_zero v = is_some_and (as_f64 v) (\<lambda>f. of_int \<lfloor>f64_mag f\<rfloor> = f64_mag f)"

definition type_valid :: "string \<Rightarrow> json \<Rightarrow> bool" where
  "type_valid kind v =
     (if kind = ''object'' then is_object v
      else if kind = ''array'' then is_array v
      else if kind = ''string'' then is_string v
      else if kind = ''boolean'' then is_boolean v
      else if kind = ''null'' then is_null v
      else if kind = ''number'' then as_f64 v \<noteq> None
      else if kind = ''integer'' then as_i64 v \<noteq> None \<or> as_u64 v \<noteq> None \<or> fract_zero v
      else True)"

definition schema_kind :: "json \<Rightarrow> string" where
  "schema_kind schema = unwrap_or [] (get_str schema ''type'')"

definition check_kind :: "json \<Rightarrow> json \<Rightarrow> string \<Rightarrow> unit result" where
  "check_kind schema v path =
     rbind (reject_if (\<not> type_valid (schema_kind schema) v) (path @ '' must be '' @ schema_kind schema))
       (\<lambda>_. rbind (reject_if (is_some_and (Option.bind (get schema ''enum'') as_array)
                                 (\<lambda>allowed. \<not> list_ex (json_eq v) allowed))
                     (path @ '' is not an allowed value''))
              (\<lambda>_. reject_if (is_some_and (get schema ''const'') (\<lambda>x. \<not> json_eq x v))
                     (path @ '' must equal the configured constant'')))"

definition required_keys :: "json \<Rightarrow> string list" where
  "required_keys schema = List.map_filter as_str (get_arr schema ''required'')"

definition check_required :: "json \<Rightarrow> (string \<times> json) list \<Rightarrow> string \<Rightarrow> unit result" where
  "check_required schema obj path =
     forM (required_keys schema)
       (\<lambda>key. reject_if (map_of obj key = None) (path @ ''.'' @ key @ '' is required''))"

text \<open>The schema an object member is checked against, if any, and whether it is forbidden.\<close>

definition member_schema :: "json \<Rightarrow> string \<Rightarrow> json option" where
  "member_schema schema key =
     (case Option.bind (get schema ''properties'') (\<lambda>p. Option.bind (as_object p) (\<lambda>m. map_of m key)) of
        Some sub \<Rightarrow> Some sub
      | None \<Rightarrow> opt_filter is_object (get schema ''additionalProperties''))"

definition member_forbidden :: "json \<Rightarrow> string \<Rightarrow> bool" where
  "member_forbidden schema key \<longleftrightarrow>
     Option.bind (get schema ''properties'') (\<lambda>p. Option.bind (as_object p) (\<lambda>m. map_of m key)) = None
     \<and> get schema ''additionalProperties'' = Some (JBool False)"

definition check_string :: "lib \<Rightarrow> json \<Rightarrow> string \<Rightarrow> string \<Rightarrow> unit result" where
  "check_string L schema s path =
     rbind (reject_if (is_some_and (Option.bind (get schema ''minLength'') as_u64) (\<lambda>n. length (utf8_decode s) < n))
              (path @ '' is shorter than minLength''))
       (\<lambda>_. rbind (reject_if (is_some_and (Option.bind (get schema ''maxLength'') as_u64) (\<lambda>n. length (utf8_decode s) > n))
                     (path @ '' exceeds maxLength''))
              (\<lambda>_. case get_str schema ''pattern'' of
                     None \<Rightarrow> Ok ()
                   | Some pattern \<Rightarrow>
                       (case regex_search L pattern s of
                          Inl e \<Rightarrow> Err (''invalid configured pattern: '' @ e)
                        | Inr found \<Rightarrow>
                            reject_if (\<not> found) (path @ '' does not match the configured pattern''))))"

definition bound_keys :: "string list" where
  "bound_keys = [''minimum'', ''maximum'', ''exclusiveMinimum'', ''exclusiveMaximum'']"

definition bound_failed :: "string \<Rightarrow> rat \<Rightarrow> rat \<Rightarrow> bool" where
  "bound_failed key n bound =
     (if key = ''minimum'' then n < bound
      else if key = ''maximum'' then n > bound
      else if key = ''exclusiveMinimum'' then n \<le> bound
      else n \<ge> bound)"

definition check_bounds :: "json \<Rightarrow> f64 \<Rightarrow> string \<Rightarrow> unit result" where
  "check_bounds schema n path =
     forM bound_keys
       (\<lambda>key. reject_if (is_some_and (Option.bind (get schema key) as_f64)
                           (\<lambda>bound. bound_failed key (f64_val n) (f64_val bound)))
                (path @ '' violates '' @ key))"

definition check_item_count :: "json \<Rightarrow> nat \<Rightarrow> string \<Rightarrow> unit result" where
  "check_item_count schema len path =
     rbind (reject_if (is_some_and (Option.bind (get schema ''minItems'') as_u64) (\<lambda>n. len < n))
              (path @ '' has fewer than minItems''))
       (\<lambda>_. reject_if (is_some_and (Option.bind (get schema ''maxItems'') as_u64) (\<lambda>n. len > n))
              (path @ '' exceeds maxItems''))"

definition check_scalar :: "lib \<Rightarrow> json \<Rightarrow> json \<Rightarrow> string \<Rightarrow> unit result" where
  "check_scalar L schema v path =
     (case v of
        JStr s \<Rightarrow> check_string L schema s path
      | JNum n \<Rightarrow> check_bounds schema (num_f64 n) path
      | JArr xs \<Rightarrow> check_item_count schema (length xs) path
      | _ \<Rightarrow> Ok ())"

fun validate_value :: "lib \<Rightarrow> json \<Rightarrow> json \<Rightarrow> string \<Rightarrow> unit result"
  and validate_fields :: "lib \<Rightarrow> json \<Rightarrow> (string \<times> json) list \<Rightarrow> string \<Rightarrow> unit result"
  and validate_items :: "lib \<Rightarrow> json \<Rightarrow> json list \<Rightarrow> string \<Rightarrow> nat \<Rightarrow> unit result" where
  "validate_value L schema (JObj obj) path =
     rbind (check_kind schema (JObj obj) path)
       (\<lambda>_. rbind (check_required schema obj path)
              (\<lambda>_. validate_fields L schema obj path))"
| "validate_value L schema (JArr xs) path =
     rbind (check_kind schema (JArr xs) path)
       (\<lambda>_. rbind (case get schema ''items'' of None \<Rightarrow> Ok () | Some item_schema \<Rightarrow> validate_items L item_schema xs path 0)
              (\<lambda>_. check_scalar L schema (JArr xs) path))"
| "validate_value L schema v path =
     rbind (check_kind schema v path) (\<lambda>_. check_scalar L schema v path)"
| "validate_fields L schema [] path = Ok ()"
| "validate_fields L schema ((key, item) # obj) path =
     rbind (if member_forbidden schema key then Err (path @ ''.'' @ key @ '' is not allowed'')
            else (case member_schema schema key of
                    None \<Rightarrow> Ok ()
                  | Some sub \<Rightarrow> validate_value L sub item (path @ ''.'' @ key)))
       (\<lambda>_. validate_fields L schema obj path)"
| "validate_items L item_schema [] path i = Ok ()"
| "validate_items L item_schema (x # xs) path i =
     rbind (validate_value L item_schema x (path @ ''['' @ show_nat i @ '']''))
       (\<lambda>_. validate_items L item_schema xs path (i + 1))"

definition validate_arguments :: "lib \<Rightarrow> json \<Rightarrow> json \<Rightarrow> unit result" where
  "validate_arguments L schema args = validate_value L schema args ''$''"

section \<open>Checking a schema\<close>

definition schema_keywords :: "string list" where
  "schema_keywords =
     [''type'', ''properties'', ''required'', ''additionalProperties'', ''items'', ''enum'', ''const'',
      ''minimum'', ''maximum'', ''exclusiveMinimum'', ''exclusiveMaximum'', ''minLength'', ''maxLength'',
      ''pattern'', ''minItems'', ''maxItems'', ''description'', ''title'', ''default'', ''examples'', ''$schema'']"

definition schema_types :: "string list" where
  "schema_types = [''object'', ''array'', ''string'', ''number'', ''integer'', ''boolean'', ''null'']"

definition length_keys :: "string list" where
  "length_keys = [''minLength'', ''maxLength'', ''minItems'', ''maxItems'']"

definition quoted :: "string \<Rightarrow> string" where "quoted s = CHR 0x27 # s @ [CHR 0x27]"

definition schema_keys_known :: "(string \<times> json) list \<Rightarrow> string \<Rightarrow> unit result" where
  "schema_keys_known obj path =
     (case find (\<lambda>k. k \<notin> set schema_keywords) (map fst obj) of
        Some k \<Rightarrow> Err (''unsupported schema assertion '' @ quoted k @ '' at '' @ path)
      | None \<Rightarrow> Ok ())"

definition schema_assertions :: "lib \<Rightarrow> (string \<times> json) list \<Rightarrow> string \<Rightarrow> unit result" where
  "schema_assertions L obj path =
     rbind (reject_if (is_some_and (map_of obj ''required'')
                         (\<lambda>r. \<not> is_some_and (as_array r) (list_all is_string)))
              (path @ ''.required must be an array of strings''))
     (\<lambda>_. rbind (reject_if (is_some_and (map_of obj ''enum'')
                         (\<lambda>r. \<not> is_some_and (as_array r) (\<lambda>a. a \<noteq> [])))
              (path @ ''.enum must be a nonempty array''))
     (\<lambda>_. rbind (forM bound_keys
                   (\<lambda>key. reject_if (is_some_and (map_of obj key) (\<lambda>b. \<not> is_number b))
                            (path @ ''.'' @ key @ '' must be a finite number'')))
     (\<lambda>_. rbind (forM length_keys
                   (\<lambda>key. reject_if (is_some_and (map_of obj key) (\<lambda>b. as_u64 b = None))
                            (path @ ''.'' @ key @ '' must be a nonnegative integer'')))
     (\<lambda>_. rbind (case map_of obj ''pattern'' of
                   None \<Rightarrow> Ok ()
                 | Some (JStr p) \<Rightarrow>
                     (case regex_search L p [] of
                        Inl e \<Rightarrow> Err (''invalid pattern at '' @ path @ '': '' @ e) | Inr _ \<Rightarrow> Ok ())
                 | Some _ \<Rightarrow> Err (path @ ''.pattern must be a string''))
     (\<lambda>_. case Option.bind (map_of obj ''type'') as_str of
            None \<Rightarrow> Ok ()
          | Some t \<Rightarrow>
              reject_if (t \<notin> set schema_types) (''invalid schema type '' @ quoted t @ '' at '' @ path))))))"

lemma size_member:
  assumes "(k, v) \<in> set kvs"
  shows "size v < size (JObj kvs)"
proof -
  have "size v < size_prod (\<lambda>_. 0) size (k, v)" by simp
  from size_list_estimation [where f = "size_prod (\<lambda>_. 0) size", OF assms this]
  show ?thesis unfolding json.size by linarith
qed

lemma size_map_of: "map_of kvs k = Some v \<Longrightarrow> size v < size (JObj kvs)"
  by (rule size_member) (rule map_of_SomeD)

function validate_schema :: "lib \<Rightarrow> json \<Rightarrow> string \<Rightarrow> unit result" where
  "validate_schema L (JObj obj) path =
     rbind (schema_keys_known obj path)
     (\<lambda>_. rbind (case map_of obj ''properties'' of
                   Some (JObj props) \<Rightarrow>
                     forM props (\<lambda>ks. validate_schema L (snd ks) (path @ ''.properties.'' @ fst ks))
                 | _ \<Rightarrow> Ok ())
     (\<lambda>_. rbind (case map_of obj ''items'' of
                   Some items \<Rightarrow> validate_schema L items (path @ ''.items'')
                 | None \<Rightarrow> Ok ())
     (\<lambda>_. rbind (case map_of obj ''additionalProperties'' of
                   None \<Rightarrow> Ok ()
                 | Some (JObj extra) \<Rightarrow> validate_schema L (JObj extra) (path @ ''.additionalProperties'')
                 | Some v \<Rightarrow>
                     reject_if (\<not> is_boolean v) (path @ ''.additionalProperties must be boolean or schema''))
     (\<lambda>_. schema_assertions L obj path))))"
| "validate_schema L JNull path = Err (path @ '' must be an object schema'')"
| "validate_schema L (JBool b) path = Err (path @ '' must be an object schema'')"
| "validate_schema L (JNum n) path = Err (path @ '' must be an object schema'')"
| "validate_schema L (JStr s) path = Err (path @ '' must be an object schema'')"
| "validate_schema L (JArr xs) path = Err (path @ '' must be an object schema'')"
  by pat_completeness auto
termination
proof (relation "measure (\<lambda>(L, v, path). size v)", goal_cases)
  case (2 L obj path u w props ks)
  then have "size (snd ks) < size (JObj props)" by (intro size_member [of "fst ks"]) simp
  moreover have "size (JObj props) < size (JObj obj)" using 2 by (intro size_map_of) auto
  ultimately show ?case by simp
qed (use size_map_of in \<open>auto simp del: json.size\<close>)

declare validate_schema.simps [simp del]

section \<open>Conformance\<close>

text \<open>
  The declarative reading: a value conforms to a schema when it satisfies every assertion at
  its own level and its members and elements conform to the schemas that apply to them.
\<close>

fun members :: "json \<Rightarrow> (string \<times> json) list" where
  "members (JObj kvs) = kvs" | "members _ = []"

fun elements :: "json \<Rightarrow> json list" where
  "elements (JArr xs) = xs" | "elements _ = []"

definition kind_conforms :: "json \<Rightarrow> json \<Rightarrow> bool" where
  "kind_conforms schema v \<longleftrightarrow>
     type_valid (schema_kind schema) v
     \<and> (\<forall>allowed. get schema ''enum'' = Some (JArr allowed) \<longrightarrow> (\<exists>a\<in>set allowed. json_eq v a))
     \<and> (\<forall>x. get schema ''const'' = Some x \<longrightarrow> json_eq x v)"

definition string_conforms :: "lib \<Rightarrow> json \<Rightarrow> string \<Rightarrow> bool" where
  "string_conforms L schema s \<longleftrightarrow>
     (\<forall>n. get schema ''minLength'' = Some (JNum (PosInt n)) \<longrightarrow> n \<le> length (utf8_decode s))
     \<and> (\<forall>n. get schema ''maxLength'' = Some (JNum (PosInt n)) \<longrightarrow> length (utf8_decode s) \<le> n)
     \<and> (\<forall>p. get schema ''pattern'' = Some (JStr p) \<longrightarrow> regex_search L p s = Ok True)"

definition number_conforms :: "json \<Rightarrow> rat \<Rightarrow> bool" where
  "number_conforms schema x \<longleftrightarrow>
     (\<forall>b. get schema ''minimum'' = Some (JNum b) \<longrightarrow> f64_val (num_f64 b) \<le> x)
     \<and> (\<forall>b. get schema ''maximum'' = Some (JNum b) \<longrightarrow> x \<le> f64_val (num_f64 b))
     \<and> (\<forall>b. get schema ''exclusiveMinimum'' = Some (JNum b) \<longrightarrow> f64_val (num_f64 b) < x)
     \<and> (\<forall>b. get schema ''exclusiveMaximum'' = Some (JNum b) \<longrightarrow> x < f64_val (num_f64 b))"

definition count_conforms :: "json \<Rightarrow> nat \<Rightarrow> bool" where
  "count_conforms schema len \<longleftrightarrow>
     (\<forall>n. get schema ''minItems'' = Some (JNum (PosInt n)) \<longrightarrow> n \<le> len)
     \<and> (\<forall>n. get schema ''maxItems'' = Some (JNum (PosInt n)) \<longrightarrow> len \<le> n)"

definition scalar_conforms :: "lib \<Rightarrow> json \<Rightarrow> json \<Rightarrow> bool" where
  "scalar_conforms L schema v \<longleftrightarrow>
     kind_conforms schema v
     \<and> (\<forall>s. v = JStr s \<longrightarrow> string_conforms L schema s)
     \<and> (\<forall>n. v = JNum n \<longrightarrow> number_conforms schema (f64_val (num_f64 n)))
     \<and> (\<forall>xs. v = JArr xs \<longrightarrow> count_conforms schema (length xs))
     \<and> (\<forall>obj. v = JObj obj \<longrightarrow> set (required_keys schema) \<subseteq> fst ` set obj)"

inductive conforms :: "lib \<Rightarrow> json \<Rightarrow> json \<Rightarrow> bool" for L where
  conforms: "scalar_conforms L schema v \<Longrightarrow>
     (\<forall>(key, item)\<in>set (members v). \<not> member_forbidden schema key
        \<and> (\<forall>sub. member_schema schema key = Some sub \<longrightarrow> conforms L sub item)) \<Longrightarrow>
     (\<forall>item\<in>set (elements v). \<forall>sub. get schema ''items'' = Some sub \<longrightarrow> conforms L sub item) \<Longrightarrow>
     conforms L schema v"

inductive_simps conforms_iff: "conforms L schema v"

lemma conforms_leaf:
  "members v = [] \<Longrightarrow> elements v = [] \<Longrightarrow> conforms L schema v \<longleftrightarrow> scalar_conforms L schema v"
  by (simp add: conforms_iff [of L schema v])

lemma as_array_Some: "as_array v = Some xs \<longleftrightarrow> v = JArr xs"
  by (cases v) auto

lemma as_u64_Some: "as_u64 v = Some n \<longleftrightarrow> v = JNum (PosInt n)"
  by (cases v rule: as_u64.cases) auto

lemma as_f64_Some: "as_f64 v = Some f \<longleftrightarrow> (\<exists>n. v = JNum n \<and> f = num_f64 n)"
  by (cases v) auto

lemma as_str_Some_iff: "as_str v = Some t \<longleftrightarrow> v = JStr t"
  by (cases v) auto

lemmas accessor_Some = as_array_Some as_u64_Some as_f64_Some as_str_Some_iff

lemma is_some_and_iff: "is_some_and x p \<longleftrightarrow> (\<exists>y. x = Some y \<and> p y)"
  by (cases x) auto

lemma check_kind_Ok: "check_kind schema v path = Ok () \<longleftrightarrow> kind_conforms schema v"
  by (auto simp: check_kind_def kind_conforms_def result_simps is_some_and_iff bind_eq_Some_conv
      accessor_Some list_ex_iff)

lemma check_string_Ok: "check_string L schema s path = Ok () \<longleftrightarrow> string_conforms L schema s"
  by (auto simp: check_string_def string_conforms_def result_simps is_some_and_iff bind_eq_Some_conv
      accessor_Some get_str_def not_less split: option.splits sum.splits)

lemma check_bounds_Ok: "check_bounds schema n path = Ok () \<longleftrightarrow> number_conforms schema (f64_val n)"
  unfolding check_bounds_def forM_Ok bound_keys_def number_conforms_def
  by (simp add: bound_failed_def is_some_and_iff bind_eq_Some_conv accessor_Some not_less not_le) blast

lemma check_item_count_Ok: "check_item_count schema len path = Ok () \<longleftrightarrow> count_conforms schema len"
  by (auto simp: check_item_count_def count_conforms_def result_simps is_some_and_iff bind_eq_Some_conv
      accessor_Some not_less)

lemma check_required_Ok:
  "check_required schema obj path = Ok () \<longleftrightarrow> set (required_keys schema) \<subseteq> fst ` set obj"
  by (auto simp: check_required_def map_of_eq_None_iff)

lemmas check_Ok = check_kind_Ok check_string_Ok check_bounds_Ok check_item_count_Ok check_required_Ok

lemma unit_result: "(r :: unit result) = Ok u \<longleftrightarrow> r = Ok ()" by simp

lemma validate_value_conforms:
  "validate_value L schema v path = Ok () \<longleftrightarrow> conforms L schema v"
  "validate_fields L schema obj path = Ok () \<longleftrightarrow>
     (\<forall>(key, item)\<in>set obj. \<not> member_forbidden schema key
        \<and> (\<forall>sub. member_schema schema key = Some sub \<longrightarrow> conforms L sub item))"
  "validate_items L schema xs path i = Ok () \<longleftrightarrow> (\<forall>item\<in>set xs. conforms L schema item)"
proof (induction L schema v path and L schema obj path and L schema xs path i
    rule: validate_value_validate_fields_validate_items.induct)
  case (1 L schema obj path)
  then show ?case
    by (simp add: conforms_iff [of L schema] scalar_conforms_def check_Ok result_simps)
next
  case (2 L schema xs path)
  show ?case
  proof (cases "get schema ''items''")
    case None
    then show ?thesis
      by (simp add: conforms_iff [of L schema] scalar_conforms_def check_Ok result_simps check_scalar_def)
  next
    case (Some a)
    from "2.IH" [OF Some] Some show ?thesis
      by (auto simp: conforms_iff [of L schema] scalar_conforms_def check_Ok result_simps check_scalar_def)
  qed
next
  case (5 L schema key item obj path)
  show ?case
  proof (cases "member_forbidden schema key")
    case False
    then show ?thesis using 5 by (auto simp: result_simps split: option.splits)
  qed auto
next
  case (7 L schema x xs path i)
  then show ?case by (simp add: result_simps)
qed (simp_all add: conforms_leaf scalar_conforms_def check_Ok result_simps check_scalar_def)

end
