(* ===== verification/Session_State.thy ===== *)
theory Session_State
  imports History
begin

text \<open>
  The methods of \<open>Session\<close> (\<^verbatim>\<open>engine.rs\<close>): transcript staging, message append, checkpoint
  acknowledgement and the counters a resume resets.  The UUID and the timestamp a method
  draws are its arguments \<open>u\<close> and \<open>now\<close>.
\<close>

section \<open>Model\<close>

definition acknowledge_message :: "message list \<Rightarrow> message \<Rightarrow> message" where
  "acknowledge_message saved m =
     (case find (\<lambda>x. m_message_id x = m_message_id m) saved of
        None \<Rightarrow> m
      | Some x \<Rightarrow> m\<lparr>m_sequence := m_sequence x, m_created_at := m_created_at x\<rparr>)"

definition acknowledge_checkpoint :: "session \<Rightarrow> session" where
  "acknowledge_checkpoint s =
     (case s_checkpoint_ack s of
        None \<Rightarrow> s
      | Some r \<Rightarrow>
          s\<lparr>s_needs_reload := ack_needs_reload r,
            s_revision := ack_revision r,
            s_next_transcript_sequence := ack_next_sequence r,
            s_memory := map (acknowledge_message (ack_memory r)) (s_memory s),
            s_committed_summaries := ack_summaries r\<rparr>)"

definition clear_outboxes :: "session \<Rightarrow> session" where
  "clear_outboxes s =
     s\<lparr>s_pending_transcript := [], s_pending_execution_outbox := [], s_attempts_pending := [],
       s_diagnostics_pending := []\<rparr>"

definition acknowledge_committed_outboxes :: "session \<Rightarrow> session" where
  "acknowledge_committed_outboxes s = clear_outboxes (acknowledge_checkpoint s)"

definition archive_record :: "string \<Rightarrow> string \<Rightarrow> string \<Rightarrow> json \<Rightarrow> session \<Rightarrow> session" where
  "archive_record u now kind payload s =
     s\<lparr>s_pending_transcript := s_pending_transcript s @
         [\<lparr>te_sequence = s_next_transcript_sequence s, te_message_id = u, te_kind = kind,
           te_payload = payload, te_run_id = s_run_id s, te_decision_step = s_step_count s,
           te_created_at = now\<rparr>],
       s_next_transcript_sequence := s_next_transcript_sequence s + 1\<rparr>"

definition append_message :: "string \<Rightarrow> string \<Rightarrow> message \<Rightarrow> session \<Rightarrow> session" where
  "append_message u now m s =
     (let sequence = max (s_next_transcript_sequence s) 1;
          m' = m\<lparr>m_message_id := Some u, m_sequence := Some sequence, m_created_at := Some now\<rparr>
      in s\<lparr>s_next_transcript_sequence := sequence + 1,
           s_pending_transcript := s_pending_transcript s @
             [\<lparr>te_sequence = sequence, te_message_id = u, te_kind = ''message'',
               te_payload = wire_message m',
               te_run_id = (if s_run_status s = ''running'' then s_run_id s else None),
               te_decision_step = s_step_count s, te_created_at = now\<rparr>],
           s_memory := s_memory s @ [m']\<rparr>)"

definition reset_resume_counters :: "session \<Rightarrow> session" where
  "reset_resume_counters s =
     s\<lparr>s_consecutive_invalid_responses := 0, s_no_progress_steps := 0,
       s_progress_fingerprint := None, s_last_error := None\<rparr>"

definition tool_result_message :: "string \<Rightarrow> string \<Rightarrow> string \<Rightarrow> message" where
  "tool_result_message i name output =
     message_default\<lparr>m_role := ''tool'', m_content := Some output, m_name := Some name,
       m_tool_call_id := Some i\<rparr>"

definition append_correlated_tool_result ::
  "string \<Rightarrow> string \<Rightarrow> string \<Rightarrow> string \<Rightarrow> string \<Rightarrow> session \<Rightarrow> session" where
  "append_correlated_tool_result u now i name output s =
     append_message u now (tool_result_message i name output) s"

section \<open>Transcript numbering\<close>

text \<open>
  The staged entries are numbered without gaps up to the next sequence number, and every
  staged message is the newest copy of a message in memory.
\<close>

definition staged_from :: "int \<Rightarrow> session \<Rightarrow> bool" where
  "staged_from base s \<longleftrightarrow>
     1 \<le> base
     \<and> map te_sequence (s_pending_transcript s) = map (\<lambda>k. base + int k) [0..<length (s_pending_transcript s)]
     \<and> s_next_transcript_sequence s = base + int (length (s_pending_transcript s))"

lemma staged_from_snoc:
  assumes "staged_from base s"
    and "s_pending_transcript s' = s_pending_transcript s @ [e]"
    and "te_sequence e = s_next_transcript_sequence s"
    and "s_next_transcript_sequence s' = s_next_transcript_sequence s + 1"
  shows "staged_from base s'"
  using assms by (simp add: staged_from_def)

lemma staged_from_archive_record:
  "staged_from base s \<Longrightarrow> staged_from base (archive_record u now kind payload s)"
  by (erule staged_from_snoc) (auto simp: archive_record_def)

lemma staged_from_append_message:
  assumes "staged_from base s"
  shows "staged_from base (append_message u now m s)"
proof -
  have "1 \<le> s_next_transcript_sequence s" using assms by (auto simp: staged_from_def)
  then show ?thesis
    by (intro staged_from_snoc [OF assms]) (auto simp: append_message_def Let_def max_def)
qed

lemma staged_from_clear:
  "1 \<le> s_next_transcript_sequence s \<Longrightarrow> staged_from (s_next_transcript_sequence s) (clear_outboxes s)"
  by (simp add: staged_from_def clear_outboxes_def)

section \<open>Frame lemmas\<close>

named_theorems session_frame \<open>fields an operation leaves unchanged\<close>

lemma append_message_frame [session_frame]:
  "s_status (append_message u now m s) = s_status s"
  "s_run_status (append_message u now m s) = s_run_status s"
  "s_step_count (append_message u now m s) = s_step_count s"
  "s_workflow (append_message u now m s) = s_workflow s"
  "s_goal (append_message u now m s) = s_goal s"
  "s_completion_artifacts (append_message u now m s) = s_completion_artifacts s"
  "s_pending_tool_calls (append_message u now m s) = s_pending_tool_calls s"
  "s_pending_tool_phase (append_message u now m s) = s_pending_tool_phase s"
  "s_executions (append_message u now m s) = s_executions s"
  "s_final_answer (append_message u now m s) = s_final_answer s"
  "s_compacted_context (append_message u now m s) = s_compacted_context s"
  by (simp_all add: append_message_def Let_def)

lemma archive_record_frame [session_frame]:
  "s_status (archive_record u now k p s) = s_status s"
  "s_run_status (archive_record u now k p s) = s_run_status s"
  "s_step_count (archive_record u now k p s) = s_step_count s"
  "s_workflow (archive_record u now k p s) = s_workflow s"
  "s_goal (archive_record u now k p s) = s_goal s"
  "s_memory (archive_record u now k p s) = s_memory s"
  "s_completion_artifacts (archive_record u now k p s) = s_completion_artifacts s"
  "s_pending_tool_calls (archive_record u now k p s) = s_pending_tool_calls s"
  "s_pending_tool_phase (archive_record u now k p s) = s_pending_tool_phase s"
  "s_executions (archive_record u now k p s) = s_executions s"
  "s_final_answer (archive_record u now k p s) = s_final_answer s"
  "s_compacted_context (archive_record u now k p s) = s_compacted_context s"
  by (simp_all add: archive_record_def)

lemma acknowledge_checkpoint_frame [session_frame]:
  "s_status (acknowledge_checkpoint s) = s_status s"
  "s_run_status (acknowledge_checkpoint s) = s_run_status s"
  "s_step_count (acknowledge_checkpoint s) = s_step_count s"
  "s_workflow (acknowledge_checkpoint s) = s_workflow s"
  "s_goal (acknowledge_checkpoint s) = s_goal s"
  "s_completion_artifacts (acknowledge_checkpoint s) = s_completion_artifacts s"
  "s_pending_tool_calls (acknowledge_checkpoint s) = s_pending_tool_calls s"
  "s_pending_tool_phase (acknowledge_checkpoint s) = s_pending_tool_phase s"
  "s_executions (acknowledge_checkpoint s) = s_executions s"
  "s_final_answer (acknowledge_checkpoint s) = s_final_answer s"
  "s_compacted_context (acknowledge_checkpoint s) = s_compacted_context s"
  by (auto simp: acknowledge_checkpoint_def split: option.splits)

text \<open>Acknowledging a commit only rewrites storage metadata: the wire history stays.\<close>

lemma wire_acknowledge_message: "wire_message (acknowledge_message saved m) = wire_message m"
  by (simp add: acknowledge_message_def wire_message_def split: option.splits)

lemma acknowledge_message_role:
  "m_role (acknowledge_message saved m) = m_role m"
  "batch_calls (acknowledge_message saved m) = batch_calls m"
  "result_id (acknowledge_message saved m) = result_id m"
  by (simp_all add: acknowledge_message_def batch_calls_def result_id_def split: option.splits)

lemma acknowledge_checkpoint_wire:
  "map wire_message (s_memory (acknowledge_checkpoint s)) = map wire_message (s_memory s)"
  by (simp add: acknowledge_checkpoint_def wire_acknowledge_message split: option.splits)

end
