(* ===== verification/Workflow.thy ===== *)
theory Workflow
  imports Session_State "HOL-Library.List_Lexorder" "HOL-Library.Char_ord"
begin

text \<open>
  The workflow machine of \<^verbatim>\<open>engine.rs\<close>: phases, required evidence, transitions.  After the
  operations come a step relation over workflow states, with the log of executed tool calls
  as a ghost component, and its invariants: the transition history is a path through the
  configured graph, completed phases are the phases left, and every piece of observed
  evidence was produced by an executed call that matches it.
\<close>

section \<open>Model\<close>

definition find_phase :: "config \<Rightarrow> string \<Rightarrow> phase option" where
  "find_phase cfg i = Option.bind (c_workflow cfg) (\<lambda>w. find (\<lambda>p. ph_id p = i) (wc_phases w))"

definition complete_wf :: "config \<Rightarrow> session \<Rightarrow> bool" where
  "complete_wf cfg s \<longleftrightarrow>
     c_workflow cfg = None \<or> is_some_and (s_workflow s) (\<lambda>w. w_active_phase w = None)"

definition active_phase :: "session \<Rightarrow> string option" where
  "active_phase s = Option.bind (s_workflow s) w_active_phase"

definition evidence_key :: "string \<Rightarrow> string \<Rightarrow> nat \<Rightarrow> string" where
  "evidence_key p c i = p @ '':'' @ c @ '':'' @ show_nat i"

text \<open>The scopes of evidence keys: \<open>"completion"\<close> and \<open>format!("transition-{n}")\<close>.\<close>

definition completion_scope :: string where "completion_scope = ''completion''"

definition transition_scope :: "nat \<Rightarrow> string" where
  "transition_scope n = ''transition-'' @ show_nat n"

definition matches :: "lib \<Rightarrow> evidence \<Rightarrow> string \<Rightarrow> (string \<times> json) list \<Rightarrow> string \<Rightarrow> bool" where
  "matches L e n a out \<longleftrightarrow>
     ev_tool e = n
     \<and> contains L (JObj a) (ev_arguments e)
     \<and> list_all (\<lambda>x. contains_str (lowercase L out) (lowercase L x)) (ev_content_contains e)
     \<and> (is_null (ev_result e) \<or> is_some_and (as_object (ev_result e)) (\<lambda>x. x = [])
        \<or> (case from_str L out of Inl _ \<Rightarrow> False | Inr x \<Rightarrow> contains L x (ev_result e)))"

definition observed :: "session \<Rightarrow> string \<Rightarrow> bool" where
  "observed s k \<longleftrightarrow> is_some_and (s_workflow s) (\<lambda>w. k \<in> set (w_observed_evidence w))"

definition missing_evidence :: "session \<Rightarrow> phase \<Rightarrow> evidence list" where
  "missing_evidence s p =
     map snd (filter (\<lambda>(i, e). ev_required e \<and> \<not> observed s (evidence_key (ph_id p) completion_scope i))
                (enumerate 0 (ph_completion p)))"

definition missing_text :: "lib \<Rightarrow> evidence \<Rightarrow> string" where
  "missing_text L e =
     ev_description e @ '' Call '' @ ev_tool e @ ''; required argument constraints: ''
     @ json_text L (ev_arguments e) @ ''; expected result constraints: '' @ json_text L (ev_result e)
     @ ''; required output text: '' @ json_text L (JArr (map JStr (ev_content_contains e)))
     @ ''. Configured diagnostic errors count as evidence.''"

definition missing :: "lib \<Rightarrow> session \<Rightarrow> phase \<Rightarrow> string list" where
  "missing L s p = map (missing_text L) (missing_evidence s p)"

definition allowed_names :: "config \<Rightarrow> session \<Rightarrow> string list" where
  "allowed_names cfg s =
     (case Option.bind (active_phase s) (find_phase cfg) of
        None \<Rightarrow> []
      | Some p \<Rightarrow>
          remdups_adj (sort (case ph_allowed_tools p of Some names \<Rightarrow> names | None \<Rightarrow> map ev_tool (ph_completion p))))"

definition allowed_in_phase :: "config \<Rightarrow> string \<Rightarrow> string \<Rightarrow> bool" where
  "allowed_in_phase cfg i name =
     (case find_phase cfg i of
        None \<Rightarrow> False
      | Some p \<Rightarrow>
          (case ph_allowed_tools p of
             Some names \<Rightarrow> list_ex (\<lambda>c. c = name) names
           | None \<Rightarrow> list_ex (\<lambda>e. ev_tool e = name) (ph_completion p)))"

definition tools_disabled :: "config \<Rightarrow> bool" where
  "tools_disabled cfg \<longleftrightarrow> get_str (c_execution cfg) ''tool_policy'' = Some ''none''"

definition allowed_in_phase_for_session :: "config \<Rightarrow> session \<Rightarrow> string option \<Rightarrow> string \<Rightarrow> bool" where
  "allowed_in_phase_for_session cfg s ph name =
     (if tools_disabled cfg then False
      else (case ph of
              Some i \<Rightarrow> allowed_in_phase cfg i name
            | None \<Rightarrow> c_workflow cfg = None \<and> s_workflow s = None))"

definition instruction_head :: string where
  "instruction_head = ''[WORKFLOW STATE]'' @ newline @ ''This is the current authoritative execution state. Historical summaries do not override it.'' @ newline @ ''Active phase: ''"

definition instruction_mid :: string where
  "instruction_mid = ''. Phase IDs are workflow labels, not function names.'' @ newline @ ''Phase instruction: ''"

definition instruction_tail :: string where
  "instruction_tail = newline @ ''Do not provide prose progress updates or a final answer while this phase is incomplete; make a tool call instead.'' @ newline @ ''Choose a call that supplies outstanding required evidence; repeating an observed outcome does not satisfy a different argument constraint.'' @ newline @ ''Outstanding required evidence:'' @ newline"

definition instruction :: "lib \<Rightarrow> config \<Rightarrow> session \<Rightarrow> string option" where
  "instruction L cfg s =
     (case Option.bind (active_phase s) (find_phase cfg) of
        None \<Rightarrow> None
      | Some p \<Rightarrow>
          (let miss = join newline (map (\<lambda>t. ''- '' @ t) (missing L s p));
               allowed = join '', '' (allowed_names cfg s)
           in Some (instruction_head @ ph_name p @ '' ('' @ ph_id p @ '').'' @ newline @
                    ''Allowed function names: '' @ (if allowed = [] then ''none'' else allowed)
                    @ instruction_mid @ ph_instruction p @ instruction_tail @ miss)))"

text \<open>\<open>advance\<close>: enter the workflow if needed, then take the first enabled edge.\<close>

definition enter_workflow :: "config \<Rightarrow> session \<Rightarrow> session" where
  "enter_workflow cfg s =
     (case c_workflow cfg of
        None \<Rightarrow> s
      | Some w \<Rightarrow>
          if s_workflow s = None
          then s\<lparr>s_workflow := Some (workflow_default\<lparr>w_active_phase := Some (wc_entry_phase w)\<rparr>)\<rparr>
          else s)"

definition edge_enabled :: "lib \<Rightarrow> session \<Rightarrow> phase \<Rightarrow> nat \<Rightarrow> edge \<Rightarrow> bool" where
  "edge_enabled L s p n e =
     (if ed_when e = ''always'' then True
      else if ed_when e = ''phase_complete'' then missing L s p = []
      else list_all (\<lambda>(i, _). observed s (evidence_key (ph_id p) (transition_scope n) i))
             (enumerate 0 (ed_evidence e)))"

definition take_edge :: "phase \<Rightarrow> edge \<Rightarrow> workflow \<Rightarrow> workflow" where
  "take_edge p e w =
     w\<lparr>w_completed_phases := (if ph_id p \<in> set (w_completed_phases w) then w_completed_phases w
                             else w_completed_phases w @ [ph_id p]),
       w_active_phase := (if ed_to e \<noteq> ''complete'' then Some (ed_to e) else None),
       w_transitions := w_transitions w @
         [\<lparr>t_from_phase = ph_id p, t_to_phase = ed_to e, t_reason = ed_when e\<rparr>]\<rparr>"

definition advance :: "lib \<Rightarrow> config \<Rightarrow> session \<Rightarrow> transition option \<times> session" where
  "advance L cfg s =
     (if c_workflow cfg = None then (None, s)
      else
        (let s1 = enter_workflow cfg s
         in case Option.bind (active_phase s1) (find_phase cfg) of
              None \<Rightarrow> (None, s1)
            | Some p \<Rightarrow>
                (case find (\<lambda>(n, e). edge_enabled L s1 p n e) (enumerate 0 (ph_transitions p)) of
                   None \<Rightarrow> (None, s1)
                 | Some (_, e) \<Rightarrow>
                     (Some \<lparr>t_from_phase = ph_id p, t_to_phase = ed_to e, t_reason = ed_when e\<rparr>,
                      s1\<lparr>s_workflow := map_option (take_edge p e) (s_workflow s1)\<rparr>))))"

text \<open>\<open>record\<close>: every piece of evidence of the active phase, with its scope and index.\<close>

definition evidence_items :: "phase \<Rightarrow> (string \<times> nat \<times> evidence) list" where
  "evidence_items p =
     map (\<lambda>(i, e). (completion_scope, i, e)) (enumerate 0 (ph_completion p))
     @ concat (map (\<lambda>(n, t). map (\<lambda>(i, e). (transition_scope n, i, e)) (enumerate 0 (ed_evidence t)))
                 (enumerate 0 (ph_transitions p)))"

definition observe_item ::
  "lib \<Rightarrow> string \<Rightarrow> string \<Rightarrow> (string \<times> json) list \<Rightarrow> string \<Rightarrow> string \<times> nat \<times> evidence \<Rightarrow> workflow \<Rightarrow> workflow" where
  "observe_item L pid name args out item w =
     (case item of (c, i, e) \<Rightarrow>
        let k = evidence_key pid c i
        in if k \<notin> set (w_observed_evidence w) \<and> matches L e name args out
           then w\<lparr>w_observed_evidence := w_observed_evidence w @ [k]\<rparr> else w)"

definition observe_call ::
  "lib \<Rightarrow> phase \<Rightarrow> string \<Rightarrow> (string \<times> json) list \<Rightarrow> string \<Rightarrow> workflow \<Rightarrow> workflow" where
  "observe_call L p name args out w =
     fold (observe_item L (ph_id p) name args out) (evidence_items p) w"

definition record_evidence ::
  "lib \<Rightarrow> config \<Rightarrow> session \<Rightarrow> string \<Rightarrow> (string \<times> json) list \<Rightarrow> string \<Rightarrow> session" where
  "record_evidence L cfg s name args out =
     (case Option.bind (active_phase s) (find_phase cfg) of
        None \<Rightarrow> s
      | Some p \<Rightarrow> s\<lparr>s_workflow := map_option (observe_call L p name args out) (s_workflow s)\<rparr>)"

section \<open>Evidence keys\<close>

lemma last_sep_unique:
  assumes "xs @ x # d = ys @ x # e" "x \<notin> set d" "x \<notin> set e"
  shows "xs = ys \<and> d = e"
proof -
  have r: "rev d @ x # rev xs = rev e @ x # rev ys"
    using arg_cong [OF assms(1), of rev] by simp
  have "takeWhile (\<lambda>c. c \<noteq> x) (rev d @ x # rev xs) = rev d"
    "takeWhile (\<lambda>c. c \<noteq> x) (rev e @ x # rev ys) = rev e"
    using assms(2,3) by (subst takeWhile_append2; auto)+
  then have "d = e" using r by simp
  with assms(1) show ?thesis by simp
qed

lemma show_nat_no_colon [simp]: "CHR '':'' \<notin> set (show_nat n)"
  using show_nat_digits [of n] by (auto simp: is_digit_def)

definition scope_ok :: "string \<Rightarrow> bool" where "scope_ok c \<longleftrightarrow> CHR '':'' \<notin> set c"

lemma scope_ok_simps [simp]: "scope_ok completion_scope" "scope_ok (transition_scope n)"
  by (simp_all add: scope_ok_def completion_scope_def transition_scope_def)

lemma evidence_key_inject:
  assumes "evidence_key p c i = evidence_key p' c' i'" "scope_ok c" "scope_ok c'"
  shows "p = p' \<and> c = c' \<and> i = i'"
proof -
  have "(p @ CHR '':'' # c) @ CHR '':'' # show_nat i = (p' @ CHR '':'' # c') @ CHR '':'' # show_nat i'"
    using assms(1) by (simp add: evidence_key_def)
  then have "p @ CHR '':'' # c = p' @ CHR '':'' # c' \<and> show_nat i = show_nat i'"
    by (rule last_sep_unique) simp_all
  moreover from this have "p = p' \<and> c = c'"
    using assms(2,3) last_sep_unique [of p "CHR '':''" c p' c'] by (simp add: scope_ok_def)
  ultimately show ?thesis by (simp add: show_nat_inj)
qed

lemma completion_scope_neq [simp]: "transition_scope n \<noteq> completion_scope" "completion_scope \<noteq> transition_scope n"
  by (simp_all add: completion_scope_def transition_scope_def)

lemma transition_scope_inj: "transition_scope m = transition_scope n \<longleftrightarrow> m = n"
  by (simp add: transition_scope_def show_nat_inj)

lemma evidence_items_scope: "(c, i, e) \<in> set (evidence_items p) \<Longrightarrow> scope_ok c"
  by (auto simp: evidence_items_def)

lemma in_enumerate: "(i, x) \<in> set (enumerate 0 xs) \<longleftrightarrow> i < length xs \<and> x = xs ! i"
  by (auto simp: in_set_enumerate_eq)

lemma evidence_items_completion:
  "(completion_scope, i, e) \<in> set (evidence_items p) \<longleftrightarrow> i < length (ph_completion p) \<and> e = ph_completion p ! i"
  by (auto simp: evidence_items_def in_enumerate)

lemma evidence_items_transition:
  "(transition_scope n, i, e) \<in> set (evidence_items p) \<longleftrightarrow>
     n < length (ph_transitions p) \<and> i < length (ed_evidence (ph_transitions p ! n))
     \<and> e = ed_evidence (ph_transitions p ! n) ! i"
proof -
  have "(transition_scope n, i, e) \<in> set (evidence_items p) \<longleftrightarrow>
      (\<exists>m t. (m, t) \<in> set (enumerate 0 (ph_transitions p)) \<and> transition_scope n = transition_scope m
         \<and> (i, e) \<in> set (enumerate 0 (ed_evidence t)))"
    by (force simp: evidence_items_def)
  then show ?thesis by (simp only: in_enumerate transition_scope_inj) auto
qed

lemma phase_id: "find_phase cfg i = Some p \<Longrightarrow> ph_id p = i"
  by (auto simp: find_phase_def find_Some_iff bind_eq_Some_conv)

lemma missing_Nil:
  "missing L s p = [] \<longleftrightarrow>
     (\<forall>i<length (ph_completion p). ev_required (ph_completion p ! i)
        \<longrightarrow> observed s (evidence_key (ph_id p) completion_scope i))"
  by (auto simp: missing_def missing_evidence_def filter_empty_conv in_enumerate)

section \<open>Reachable workflow states\<close>

type_synonym call_log = "(string \<times> string \<times> (string \<times> json) list \<times> string) list"

inductive wf_reach :: "lib \<Rightarrow> config \<Rightarrow> session \<Rightarrow> call_log \<Rightarrow> bool" for L cfg where
  start: "s_workflow s = None \<Longrightarrow> wf_reach L cfg s []"
| advance: "wf_reach L cfg s hist \<Longrightarrow> wf_reach L cfg (snd (advance L cfg s)) hist"
| tool_result: "wf_reach L cfg s hist \<Longrightarrow> active_phase s = Some i \<Longrightarrow>
     wf_reach L cfg (record_evidence L cfg s name args out) (hist @ [(i, name, args, out)])"
| frame: "wf_reach L cfg s hist \<Longrightarrow> s_workflow s' = s_workflow s \<Longrightarrow> wf_reach L cfg s' hist"

text \<open>A list of transitions is a path from one phase to another.\<close>

fun path_from :: "string \<Rightarrow> transition list \<Rightarrow> string \<Rightarrow> bool" where
  "path_from a [] b = (a = b)"
| "path_from a (t # ts) b = (t_from_phase t = a \<and> path_from (t_to_phase t) ts b)"

lemma path_from_snoc [simp]:
  "path_from a (ts @ [t]) b \<longleftrightarrow> path_from a ts (t_from_phase t) \<and> t_to_phase t = b"
  by (induction ts arbitrary: a) auto

definition backed :: "lib \<Rightarrow> call_log \<Rightarrow> string \<Rightarrow> evidence \<Rightarrow> bool" where
  "backed L hist i e \<longleftrightarrow> (\<exists>(i', name, args, out)\<in>set hist. i' = i \<and> matches L e name args out)"

definition key_backed :: "lib \<Rightarrow> config \<Rightarrow> call_log \<Rightarrow> string \<Rightarrow> bool" where
  "key_backed L cfg hist k \<longleftrightarrow>
     (\<exists>p. find_phase cfg (ph_id p) = Some p
        \<and> (\<exists>(c, i, e)\<in>set (evidence_items p). k = evidence_key (ph_id p) c i \<and> backed L hist (ph_id p) e))"

definition justified :: "config \<Rightarrow> string set \<Rightarrow> transition \<Rightarrow> bool" where
  "justified cfg keys t \<longleftrightarrow>
     (\<exists>p n. find_phase cfg (t_from_phase t) = Some p \<and> n < length (ph_transitions p)
        \<and> t_to_phase t = ed_to (ph_transitions p ! n) \<and> t_reason t = ed_when (ph_transitions p ! n)
        \<and> (if t_reason t = ''always'' then True
           else if t_reason t = ''phase_complete''
           then \<forall>i<length (ph_completion p). ev_required (ph_completion p ! i)
                  \<longrightarrow> evidence_key (ph_id p) completion_scope i \<in> keys
           else \<forall>i<length (ed_evidence (ph_transitions p ! n)).
                  evidence_key (ph_id p) (transition_scope n) i \<in> keys))"

definition wf_inv :: "lib \<Rightarrow> config \<Rightarrow> workflow_config \<Rightarrow> call_log \<Rightarrow> workflow \<Rightarrow> bool" where
  "wf_inv L cfg wc hist w \<longleftrightarrow>
     (case w_active_phase w of
        Some x \<Rightarrow> path_from (wc_entry_phase wc) (w_transitions w) x
      | None \<Rightarrow> path_from (wc_entry_phase wc) (w_transitions w) ''complete'' \<and> w_transitions w \<noteq> [])
     \<and> list_all (justified cfg (set (w_observed_evidence w))) (w_transitions w)
     \<and> distinct (w_completed_phases w)
     \<and> set (w_completed_phases w) = t_from_phase ` set (w_transitions w)
     \<and> distinct (w_observed_evidence w)
     \<and> list_all (key_backed L cfg hist) (w_observed_evidence w)"

lemma justified_mono: "justified cfg K t \<Longrightarrow> K \<subseteq> K' \<Longrightarrow> justified cfg K' t"
  unfolding justified_def by (smt (verit, best) subsetD)

lemma backed_mono: "backed L hist i e \<Longrightarrow> backed L (hist @ l) i e"
  by (auto simp: backed_def)

lemma key_backed_mono: "key_backed L cfg hist k \<Longrightarrow> key_backed L cfg (hist @ l) k"
  by (fastforce simp: key_backed_def intro: backed_mono)

lemma observe_items_effect:
  assumes "distinct (w_observed_evidence w)" "w' = fold (observe_item L pid name args out) items w"
  shows "distinct (w_observed_evidence w')
      \<and> w_active_phase w' = w_active_phase w \<and> w_transitions w' = w_transitions w
      \<and> w_completed_phases w' = w_completed_phases w
      \<and> set (w_observed_evidence w') = set (w_observed_evidence w) \<union>
           {evidence_key pid c i | c i e. (c, i, e) \<in> set items \<and> matches L e name args out}"
  using assms
proof (induction items arbitrary: w)
  case (Cons item items)
  obtain c i e where item: "item = (c, i, e)" by (cases item)
  let ?w = "observe_item L pid name args out item w"
  have "distinct (w_observed_evidence ?w) \<and> w_active_phase ?w = w_active_phase w
      \<and> w_transitions ?w = w_transitions w \<and> w_completed_phases ?w = w_completed_phases w
      \<and> set (w_observed_evidence ?w) = set (w_observed_evidence w) \<union>
           (if matches L e name args out then {evidence_key pid c i} else {})"
    using Cons.prems by (auto simp: observe_item_def item Let_def)
  with Cons.IH [of ?w] Cons.prems(2) show ?case by (auto simp: item)
qed simp

lemma wf_inv_observe:
  assumes inv: "wf_inv L cfg wc hist w" and p: "find_phase cfg i = Some p"
  shows "wf_inv L cfg wc (hist @ [(i, name, args, out)]) (observe_call L p name args out w)"
proof -
  let ?w = "observe_call L p name args out w"
  have w: "distinct (w_observed_evidence ?w)" "w_active_phase ?w = w_active_phase w"
      "w_transitions ?w = w_transitions w" "w_completed_phases ?w = w_completed_phases w"
      "set (w_observed_evidence ?w) = set (w_observed_evidence w) \<union>
         {evidence_key (ph_id p) c j | c j e. (c, j, e) \<in> set (evidence_items p) \<and> matches L e name args out}"
    using observe_items_effect [OF _ observe_call_def [symmetric, THEN sym], of w L p name args out] inv
    unfolding wf_inv_def by blast+
  have id: "ph_id p = i" using p by (rule phase_id)
  have new: "key_backed L cfg (hist @ [(i, name, args, out)]) (evidence_key (ph_id p) c j)"
    if "(c, j, e) \<in> set (evidence_items p)" "matches L e name args out" for c j e
    unfolding key_backed_def
    using that p id by (intro exI [of _ p] conjI bexI [of _ "(c, j, e)"]) (auto simp: backed_def)
  have old: "key_backed L cfg (hist @ [(i, name, args, out)]) k" if "k \<in> set (w_observed_evidence w)" for k
    using inv that by (intro key_backed_mono) (simp add: wf_inv_def list_all_iff)
  have "\<forall>k\<in>set (w_observed_evidence ?w). key_backed L cfg (hist @ [(i, name, args, out)]) k"
    unfolding w(5) using old new by auto
  moreover have "justified cfg (set (w_observed_evidence ?w)) t" if "t \<in> set (w_transitions w)" for t
  proof (rule justified_mono)
    show "justified cfg (set (w_observed_evidence w)) t"
      using inv that by (simp add: wf_inv_def list_all_iff)
    show "set (w_observed_evidence w) \<subseteq> set (w_observed_evidence ?w)"
      unfolding w(5) by (rule Un_upper1)
  qed
  ultimately show ?thesis
    using inv w(1) unfolding wf_inv_def list_all_iff w(2,3,4) by simp
qed

lemma edge_enabled_justified:
  assumes "edge_enabled L s p n e" "s_workflow s = Some w" "n < length (ph_transitions p)"
    "e = ph_transitions p ! n" "find_phase cfg (ph_id p) = Some p"
  shows "justified cfg (set (w_observed_evidence w))
           \<lparr>t_from_phase = ph_id p, t_to_phase = ed_to e, t_reason = ed_when e\<rparr>"
proof -
  have obs: "observed s k = (k \<in> set (w_observed_evidence w))" for k
    using assms(2) by (simp add: observed_def)
  show ?thesis
    unfolding justified_def
    using assms(1,3,4,5)
    by (intro exI [of _ p] exI [of _ n])
       (auto simp: edge_enabled_def missing_Nil obs list_all_iff in_enumerate split: if_splits)
qed

lemma wf_inv_take_edge:
  assumes inv: "wf_inv L cfg wc hist w" and act: "w_active_phase w = Some (ph_id p)"
    and j: "justified cfg (set (w_observed_evidence w))
           \<lparr>t_from_phase = ph_id p, t_to_phase = ed_to e, t_reason = ed_when e\<rparr>"
  shows "wf_inv L cfg wc hist (take_edge p e w)"
  using inv act j by (auto simp: wf_inv_def take_edge_def)

lemma wf_inv_entry:
  "wf_inv L cfg wc [] (workflow_default\<lparr>w_active_phase := Some (wc_entry_phase wc)\<rparr>)"
  by (simp add: wf_inv_def workflow_default_def)

definition session_wf_inv :: "lib \<Rightarrow> config \<Rightarrow> workflow_config \<Rightarrow> call_log \<Rightarrow> session \<Rightarrow> bool" where
  "session_wf_inv L cfg wc hist s \<longleftrightarrow>
     (case s_workflow s of None \<Rightarrow> hist = [] | Some w \<Rightarrow> wf_inv L cfg wc hist w)"

lemma enter_workflow_inv:
  assumes "session_wf_inv L cfg wc hist s" "c_workflow cfg = Some wc"
  shows "\<exists>w. s_workflow (enter_workflow cfg s) = Some w \<and> wf_inv L cfg wc hist w"
  using assms wf_inv_entry [of L cfg wc] by (auto simp: session_wf_inv_def enter_workflow_def split: option.splits)

lemma find_enumerate:
  "find P (enumerate 0 xs) = Some (n, e) \<Longrightarrow> n < length xs \<and> e = xs ! n \<and> P (n, e)"
  by (auto simp: find_Some_iff nth_enumerate_eq)

lemma advance_inv:
  assumes inv: "session_wf_inv L cfg wc hist s" and c: "c_workflow cfg = Some wc"
  shows "session_wf_inv L cfg wc hist (snd (advance L cfg s))"
proof -
  obtain w where w: "s_workflow (enter_workflow cfg s) = Some w" "wf_inv L cfg wc hist w"
    using enter_workflow_inv [OF inv c] by blast
  let ?s = "enter_workflow cfg s"
  have same: "session_wf_inv L cfg wc hist ?s" using w by (simp add: session_wf_inv_def)
  show ?thesis
  proof (cases "Option.bind (active_phase ?s) (find_phase cfg)")
    case None
    then show ?thesis using same c by (simp add: advance_def Let_def)
  next
    case (Some p)
    then have p: "w_active_phase w = Some (ph_id p)" "find_phase cfg (ph_id p) = Some p"
      using w(1) phase_id by (auto simp: active_phase_def bind_eq_Some_conv)
    show ?thesis
    proof (cases "find (\<lambda>(n, e). edge_enabled L ?s p n e) (enumerate 0 (ph_transitions p))")
      case None
      then show ?thesis using same c Some by (simp add: advance_def Let_def)
    next
      case (Some ne)
      obtain n e where ne: "ne = (n, e)" by (cases ne)
      from find_enumerate [OF Some [unfolded ne]]
      have "n < length (ph_transitions p)" "e = ph_transitions p ! n" "edge_enabled L ?s p n e" by blast+
      then have "justified cfg (set (w_observed_evidence w))
           \<lparr>t_from_phase = ph_id p, t_to_phase = ed_to e, t_reason = ed_when e\<rparr>"
        using edge_enabled_justified w(1) p(2) by blast
      then have "wf_inv L cfg wc hist (take_edge p e w)"
        using wf_inv_take_edge [OF w(2) p(1)] by blast
      then show ?thesis
        using c Some ne w(1) \<open>Option.bind (active_phase ?s) (find_phase cfg) = Some p\<close>
        by (simp add: advance_def Let_def session_wf_inv_def)
    qed
  qed
qed

lemma record_evidence_inv:
  assumes inv: "session_wf_inv L cfg wc hist s" and act: "active_phase s = Some i"
  shows "session_wf_inv L cfg wc (hist @ [(i, name, args, out)]) (record_evidence L cfg s name args out)"
proof -
  obtain w where w: "s_workflow s = Some w" "w_active_phase w = Some i" "wf_inv L cfg wc hist w"
    using inv act by (auto simp: session_wf_inv_def active_phase_def bind_eq_Some_conv split: option.splits)
  show ?thesis
  proof (cases "find_phase cfg i")
    case None
    have "\<forall>k\<in>set (w_observed_evidence w). key_backed L cfg (hist @ [(i, name, args, out)]) k"
      using w(3) key_backed_mono by (fastforce simp: wf_inv_def list_all_iff)
    then have "wf_inv L cfg wc (hist @ [(i, name, args, out)]) w"
      using w(3) by (simp add: wf_inv_def list_all_iff)
    then show ?thesis using None act w by (simp add: record_evidence_def session_wf_inv_def)
  next
    case (Some p)
    then show ?thesis
      using act w wf_inv_observe [OF w(3) Some] by (simp add: record_evidence_def session_wf_inv_def)
  qed
qed

lemma wf_reach_inv:
  "wf_reach L cfg s hist \<Longrightarrow> c_workflow cfg = Some wc \<Longrightarrow> session_wf_inv L cfg wc hist s"
proof (induction rule: wf_reach.induct)
  case (start s)
  then show ?case by (simp add: session_wf_inv_def)
next
  case (frame s hist s')
  then show ?case by (simp add: session_wf_inv_def)
qed (auto intro: advance_inv record_evidence_inv)

text \<open>An observed completion key of a phase is backed by a call executed in that phase.\<close>

lemma key_backed_completion:
  assumes "key_backed L cfg hist (evidence_key (ph_id p) completion_scope i)" "find_phase cfg (ph_id p) = Some p"
  shows "i < length (ph_completion p) \<and> backed L hist (ph_id p) (ph_completion p ! i)"
proof -
  obtain q c j e where q: "find_phase cfg (ph_id q) = Some q" "(c, j, e) \<in> set (evidence_items q)"
      "evidence_key (ph_id p) completion_scope i = evidence_key (ph_id q) c j" "backed L hist (ph_id q) e"
    using assms(1) by (auto simp: key_backed_def)
  have "ph_id p = ph_id q \<and> completion_scope = c \<and> i = j"
    using evidence_key_inject [OF q(3)] evidence_items_scope [OF q(2)] by simp
  with q assms(2) show ?thesis by (auto simp: evidence_items_completion)
qed

lemma complete_wf_evidence:
  assumes "wf_reach L cfg s hist" "c_workflow cfg = Some wc" "complete_wf cfg s"
  shows "\<exists>ts. path_from (wc_entry_phase wc) ts ''complete'' \<and> ts \<noteq> []
    \<and> (\<forall>t\<in>set ts. \<exists>p. find_phase cfg (t_from_phase t) = Some p
        \<and> (t_reason t = ''phase_complete'' \<longrightarrow>
             (\<forall>e\<in>set (ph_completion p). ev_required e \<longrightarrow> backed L hist (ph_id p) e)))"
proof -
  obtain w where w: "s_workflow s = Some w" "w_active_phase w = None" "wf_inv L cfg wc hist w"
    using wf_reach_inv [OF assms(1,2)] assms(2,3)
    by (auto simp: session_wf_inv_def complete_wf_def split: option.splits)
  have "\<exists>p. find_phase cfg (t_from_phase t) = Some p
        \<and> (t_reason t = ''phase_complete'' \<longrightarrow>
             (\<forall>e\<in>set (ph_completion p). ev_required e \<longrightarrow> backed L hist (ph_id p) e))"
    if "t \<in> set (w_transitions w)" for t
  proof -
    have "justified cfg (set (w_observed_evidence w)) t"
      using w(3) that by (simp add: wf_inv_def list_all_iff)
    then obtain p where p: "find_phase cfg (t_from_phase t) = Some p"
      and k: "t_reason t = ''phase_complete'' \<Longrightarrow> \<forall>i<length (ph_completion p). ev_required (ph_completion p ! i)
                  \<longrightarrow> evidence_key (ph_id p) completion_scope i \<in> set (w_observed_evidence w)"
      by (auto simp: justified_def)
    have "find_phase cfg (ph_id p) = Some p" using p phase_id by metis
    then have "backed L hist (ph_id p) (ph_completion p ! i)"
      if "t_reason t = ''phase_complete''" "i < length (ph_completion p)" "ev_required (ph_completion p ! i)" for i
      using k that w(3) key_backed_completion [of L cfg hist p i] by (simp add: wf_inv_def list_all_iff)
    with p show ?thesis by (auto simp: in_set_conv_nth)
  qed
  then show ?thesis
    using w by (intro exI [of _ "w_transitions w"]) (simp add: wf_inv_def)
qed

end
