(* ===== verification/Config_Check.thy ===== *)
theory Config_Check
  imports Schema Workflow
begin

text \<open>
  Validation of a profile (\<open>validate_config\<close> of \<^verbatim>\<open>main.rs\<close>), one definition per group of checks
  in the order of the source, and what an accepted profile guarantees to the engine.  The
  sets \<open>names\<close> and \<open>labels\<close> the source builds up are lists here.
\<close>

section \<open>Model\<close>

definition check_memory :: "memory_policy \<Rightarrow> unit result" where
  "check_memory m =
     reject_if (mem_max_tokens m \<le> 0 \<or> mem_max_steps m \<le> 0 \<or> mem_raw_turns_to_keep m = 0)
       ''memory thresholds must be positive and raw_turns_to_keep must be at least 1''"

definition check_llm :: "llm_config \<Rightarrow> unit result" where
  "check_llm l =
     reject_if (llm_tool_call_mode l \<notin> {''native'', ''single''} \<or> llm_timeout_seconds l \<le> 0
                \<or> is_some_and (llm_max_output_tokens l) (\<lambda>x. x \<le> 0))
       ''invalid llm settings''"

definition check_budgets :: "memory_policy \<Rightarrow> unit result" where
  "check_budgets m =
     reject_if (list_ex (\<lambda>x. x \<le> 0) [mem_context_window_tokens m, mem_reserved_output_tokens m,
                                    mem_max_summary_tokens m, mem_summary_output_tokens m]
                \<or> mem_safety_margin_tokens m < 0
                \<or> mem_reserved_output_tokens m + mem_safety_margin_tokens m \<ge> mem_context_window_tokens m
                \<or> \<not> (1 \<le> mem_compaction_max_attempts m \<and> mem_compaction_max_attempts m \<le> 5)
                \<or> \<not> (1 \<le> mem_compaction_max_passes m \<and> mem_compaction_max_passes m \<le> 10)
                \<or> mem_compaction_min_growth_tokens m < 0
                \<or> mem_compaction_min_interval_steps m < 0
                \<or> list_ex (\<lambda>x. \<not> (0 \<le> x \<and> x \<le> 1))
                     [mem_optional_min_pressure_ratio m, mem_optional_min_reduction_ratio m]
                \<or> list_ex (\<lambda>x. x < 0)
                     [mem_optional_min_reclaimable_tokens m, mem_optional_min_reduction_tokens m])
       ''invalid memory budget or compaction settings''"

definition recovery_modes :: "string list" where
  "recovery_modes = [''read_only'', ''repeatable'', ''idempotent'', ''reconcile'']"

definition check_recovery :: "tool \<Rightarrow> unit result" where
  "check_recovery t =
     (case tl_recovery t of
        None \<Rightarrow> Ok ()
      | Some recovery \<Rightarrow>
          (let mode = unwrap_or ''reconcile'' (get_str recovery ''mode'')
           in rbind (reject_if (mode \<notin> set recovery_modes)
                       (''invalid recovery mode '' @ quoted mode @ '' for tool '' @ quoted (tl_name t)))
                (\<lambda>_. reject_if (is_some_and (Option.bind (get recovery ''max_attempts'') as_i64)
                                  (\<lambda>n. \<not> (1 \<le> n \<and> n \<le> 10)))
                       (''invalid recovery max_attempts for tool '' @ quoted (tl_name t)))))"

fun check_tools :: "lib \<Rightarrow> tool list \<Rightarrow> string list \<Rightarrow> string list result" where
  "check_tools L [] names = Ok names"
| "check_tools L (t # ts) names =
     rbind (reject_if (tl_name t \<in> set names) (''duplicate tool name '' @ quoted (tl_name t)))
       (\<lambda>_. rbind (check_recovery t)
          (\<lambda>_. rbind (validate_schema L (tl_parameters t) (''tools.'' @ tl_name t @ ''.parameters''))
             (\<lambda>_. check_tools L ts (names @ [tl_name t]))))"

definition check_execution :: "json \<Rightarrow> unit result" where
  "check_execution e =
     rbind (reject_if (is_some_and (get_str e ''tool_policy'') (\<lambda>p. p \<notin> {''auto'', ''none''}))
              ''execution.tool_policy must be auto or none'')
       (\<lambda>_. rbind (reject_if (is_some_and (Option.bind (get e ''max_consecutive_invalid_responses'') as_i64)
                                 (\<lambda>x. \<not> (1 \<le> x \<and> x \<le> 50)))
                     ''execution.max_consecutive_invalid_responses must be in 1..50'')
              (\<lambda>_. reject_if (is_some_and (get e ''max_no_progress_steps'')
                                 (\<lambda>v. \<not> is_null v \<and> is_none_or (as_i64 v) (\<lambda>x. x < 2)))
                     ''execution.max_no_progress_steps must be null or at least 2''))"

fun check_result_checks :: "string list \<Rightarrow> json list \<Rightarrow> string list \<Rightarrow> string list result" where
  "check_result_checks names [] labels = Ok labels"
| "check_result_checks names (c # cs) labels =
     (case get_str c ''tool'' of
        None \<Rightarrow> Err ''completion result check requires tool''
      | Some t \<Rightarrow>
          if t \<notin> set names then Err (''completion check references unknown tool '' @ quoted t)
          else (case get_str c ''label'' of
                  None \<Rightarrow> Err ''completion result check requires label''
                | Some l \<Rightarrow>
                    if l \<in> set labels then Err (''duplicate completion result label '' @ quoted l)
                    else check_result_checks names cs (labels @ [l])))"

definition compiles :: "lib \<Rightarrow> string \<Rightarrow> string \<Rightarrow> unit result" where
  "compiles L what p = (case regex_search L p [] of Inl e \<Rightarrow> Err (what @ e) | Inr _ \<Rightarrow> Ok ())"

definition check_completion :: "lib \<Rightarrow> json \<Rightarrow> unit result" where
  "check_completion L c =
     rbind (case get_str c ''pattern'' of
              None \<Rightarrow> Ok () | Some p \<Rightarrow> compiles L ''invalid completion.pattern: '' p)
       (\<lambda>_. rbind (forM (get_arr c ''forbidden_patterns'')
                     (\<lambda>p. case as_str p of
                            None \<Rightarrow> Err ''completion.forbidden_patterns entries must be strings''
                          | Some t \<Rightarrow> compiles L ''invalid forbidden completion pattern: '' t))
              (\<lambda>_. reject_if (is_some_and (get_str c ''exact'') (\<lambda>x. trim x = []))
                     ''completion.exact must not be empty''))"

definition declares :: "tool list \<Rightarrow> string \<Rightarrow> string \<Rightarrow> bool" where
  "declares tools t argument \<longleftrightarrow>
     is_some_and (find (\<lambda>x. tl_name x = t) tools)
       (\<lambda>x. is_some_and (Option.bind (get (tl_parameters x) ''properties'') as_object)
              (\<lambda>p. map_of p argument \<noteq> None))"

fun check_bindings ::
  "tool list \<Rightarrow> string list \<Rightarrow> string list \<Rightarrow> json list \<Rightarrow> (string \<times> string) list \<Rightarrow> unit result" where
  "check_bindings tools names labels [] targets = Ok ()"
| "check_bindings tools names labels (b # bs) targets =
     (case get_str b ''tool'' of
        None \<Rightarrow> Err ''argument binding requires tool''
      | Some t \<Rightarrow>
          (case get_str b ''argument'' of
             None \<Rightarrow> Err ''argument binding requires argument''
           | Some a \<Rightarrow>
               (case get_str b ''source_label'' of
                  None \<Rightarrow> Err ''argument binding requires source_label''
                | Some l \<Rightarrow>
                    if t \<notin> set names then Err (''argument binding references unknown tool '' @ quoted t)
                    else if l \<notin> set labels
                    then Err (''argument binding references unknown result label '' @ quoted l)
                    else if (t, a) \<in> set targets then Err ''argument binding targets must be unique''
                    else if \<not> declares tools t a
                    then Err (''argument binding target '' @ quoted (t @ ''.'' @ a) @ '' is not a declared parameter'')
                    else check_bindings tools names labels bs (targets @ [(t, a)]))))"

definition check_evidence :: "string list \<Rightarrow> evidence list \<Rightarrow> unit result" where
  "check_evidence names es =
     forM es (\<lambda>e. reject_if (ev_tool e \<notin> set names)
                    (''workflow evidence references unknown tool '' @ quoted (ev_tool e)))"

definition check_edge :: "string list \<Rightarrow> string list \<Rightarrow> phase \<Rightarrow> edge \<Rightarrow> unit result" where
  "check_edge names ids p e =
     rbind (reject_if (ed_to e \<noteq> ''complete'' \<and> ed_to e \<notin> set ids)
              (''workflow transition from '' @ ph_id p @ '' targets unknown phase '' @ ed_to e))
       (\<lambda>_. rbind (reject_if (ed_when e = ''evidence'' \<and> ed_evidence e = [])
                     (''workflow evidence transition from '' @ ph_id p @ '' requires evidence''))
          (\<lambda>_. rbind (reject_if (ed_when e \<notin> {''phase_complete'', ''always'', ''evidence''})
                        (''invalid transition type '' @ ed_when e))
             (\<lambda>_. check_evidence names (ed_evidence e))))"

definition check_phase :: "string list \<Rightarrow> string list \<Rightarrow> phase \<Rightarrow> unit result" where
  "check_phase names ids p =
     rbind (forM (unwrap_or [] (ph_allowed_tools p))
              (\<lambda>t. reject_if (t \<notin> set names)
                     (''phase '' @ quoted (ph_id p) @ '' references unknown tool '' @ quoted t)))
       (\<lambda>_. rbind (check_evidence names (ph_completion p))
          (\<lambda>_. forM (ph_transitions p) (check_edge names ids p)))"

definition check_workflow :: "string list \<Rightarrow> workflow_config \<Rightarrow> unit result" where
  "check_workflow names w =
     (let ids = map ph_id (wc_phases w)
      in rbind (reject_if (\<not> distinct ids) ''workflow phase IDs must be unique'')
           (\<lambda>_. rbind (reject_if (wc_entry_phase w \<notin> set ids)
                         ''workflow.entry_phase must name a configured phase'')
              (\<lambda>_. forM (wc_phases w) (check_phase names ids))))"

definition validate_config :: "lib \<Rightarrow> config \<Rightarrow> unit result" where
  "validate_config L c =
     rbind (check_memory (c_memory c))
     (\<lambda>_. rbind (check_llm (c_llm c))
     (\<lambda>_. rbind (check_budgets (c_memory c))
     (\<lambda>_. rbind (check_tools L (c_tools c) [])
     (\<lambda>names. rbind (check_execution (c_execution c))
     (\<lambda>_. rbind (check_result_checks names (get_arr (c_completion c) ''result_checks'') [])
     (\<lambda>labels. rbind (check_completion L (c_completion c))
     (\<lambda>_. rbind (check_bindings (c_tools c) names labels (get_arr (c_execution c) ''argument_bindings'') [])
     (\<lambda>_. case c_workflow c of None \<Rightarrow> Ok () | Some w \<Rightarrow> check_workflow names w))))))))"

section \<open>What an accepted profile guarantees\<close>

lemma check_tools_names:
  "check_tools L ts names = Ok out \<Longrightarrow> distinct names \<Longrightarrow>
     out = names @ map tl_name ts \<and> distinct out"
proof (induction ts arbitrary: names)
  case (Cons t ts)
  then have "check_tools L ts (names @ [tl_name t]) = Ok out" "tl_name t \<notin> set names"
    by (auto simp: result_simps)
  with Cons.IH [of "names @ [tl_name t]"] Cons.prems(2)
  have "out = (names @ [tl_name t]) @ map tl_name ts \<and> distinct out" by (metis distinct_append distinct_singleton empty_set list.simps(15) disjoint_insert(1) inf_bot_right)
  then show ?case by (metis append_assoc append_Cons append_Nil list.map(2))
qed simp

definition workflow_ok :: "string list \<Rightarrow> workflow_config \<Rightarrow> bool" where
  "workflow_ok names w \<longleftrightarrow>
     distinct (map ph_id (wc_phases w)) \<and> wc_entry_phase w \<in> ph_id ` set (wc_phases w)
     \<and> (\<forall>p\<in>set (wc_phases w).
          set (unwrap_or [] (ph_allowed_tools p)) \<subseteq> set names
          \<and> ev_tool ` set (ph_completion p) \<subseteq> set names
          \<and> (\<forall>e\<in>set (ph_transitions p).
               (ed_to e = ''complete'' \<or> ed_to e \<in> ph_id ` set (wc_phases w))
               \<and> ed_when e \<in> {''phase_complete'', ''always'', ''evidence''}
               \<and> (ed_when e = ''evidence'' \<longrightarrow> ed_evidence e \<noteq> [])
               \<and> ev_tool ` set (ed_evidence e) \<subseteq> set names))"

lemma check_evidence_Ok: "check_evidence names es = Ok u \<longleftrightarrow> ev_tool ` set es \<subseteq> set names"
  by (auto simp: check_evidence_def)

lemma check_edge_Ok:
  "check_edge names ids p e = Ok u \<longleftrightarrow>
     (ed_to e = ''complete'' \<or> ed_to e \<in> set ids) \<and> ed_when e \<in> {''phase_complete'', ''always'', ''evidence''}
     \<and> (ed_when e = ''evidence'' \<longrightarrow> ed_evidence e \<noteq> []) \<and> ev_tool ` set (ed_evidence e) \<subseteq> set names"
  unfolding check_edge_def result_simps reject_if_Ok check_evidence_Ok by blast

lemma check_workflow_Ok: "check_workflow names w = Ok u \<longleftrightarrow> workflow_ok names w"
  unfolding check_workflow_def check_phase_def workflow_ok_def Let_def result_simps reject_if_Ok forM_Ok
    check_edge_Ok check_evidence_Ok
  by (simp add: image_set [symmetric] subset_eq)

lemma validate_config_Ok:
  assumes "validate_config L c = Ok u"
  shows "distinct (map tl_name (c_tools c))"
    and "\<And>w. c_workflow c = Some w \<Longrightarrow> workflow_ok (map tl_name (c_tools c)) w"
    and "0 < mem_max_steps (c_memory c)" "0 < mem_raw_turns_to_keep (c_memory c)"
    and "1 \<le> mem_compaction_max_attempts (c_memory c)" "mem_compaction_max_attempts (c_memory c) \<le> 5"
    and "1 \<le> mem_compaction_max_passes (c_memory c)" "mem_compaction_max_passes (c_memory c) \<le> 10"
    and "mem_reserved_output_tokens (c_memory c) + mem_safety_margin_tokens (c_memory c)
         < mem_context_window_tokens (c_memory c)"
proof -
  obtain names where "check_memory (c_memory c) = Ok ()" "check_budgets (c_memory c) = Ok ()"
    and n: "check_tools L (c_tools c) [] = Ok names"
    and w: "(case c_workflow c of None \<Rightarrow> Ok () | Some w \<Rightarrow> check_workflow names w) = Ok u"
    using assms by (auto simp: validate_config_def result_simps)
  then show "0 < mem_max_steps (c_memory c)" "0 < mem_raw_turns_to_keep (c_memory c)"
    "1 \<le> mem_compaction_max_attempts (c_memory c)" "mem_compaction_max_attempts (c_memory c) \<le> 5"
    "1 \<le> mem_compaction_max_passes (c_memory c)" "mem_compaction_max_passes (c_memory c) \<le> 10"
    "mem_reserved_output_tokens (c_memory c) + mem_safety_margin_tokens (c_memory c)
         < mem_context_window_tokens (c_memory c)"
    by (simp_all add: check_memory_def check_budgets_def)
  from check_tools_names [OF n] show "distinct (map tl_name (c_tools c))"
    "\<And>w. c_workflow c = Some w \<Longrightarrow> workflow_ok (map tl_name (c_tools c)) w"
    using w by (auto simp: check_workflow_Ok)
qed

text \<open>With an accepted profile the active phase of every reachable session is a configured one.\<close>

lemma workflow_ok_find:
  assumes "workflow_ok names wc" "c_workflow cfg = Some wc" "x \<in> ph_id ` set (wc_phases wc)"
  shows "\<exists>p. find_phase cfg x = Some p \<and> p \<in> set (wc_phases wc) \<and> ph_id p = x"
proof -
  obtain q where "q \<in> set (wc_phases wc)" "ph_id q = x" using assms(3) by blast
  then have "find (\<lambda>p. ph_id p = x) (wc_phases wc) \<noteq> None" by (auto simp: find_None_iff)
  then obtain p where p: "find (\<lambda>p. ph_id p = x) (wc_phases wc) = Some p" by blast
  then have "p \<in> set (wc_phases wc) \<and> ph_id p = x"
    by (metis (mono_tags, lifting) find_Some_iff nth_mem)
  with p show ?thesis using assms(2) by (simp add: find_phase_def)
qed

definition active_configured :: "config \<Rightarrow> workflow_config \<Rightarrow> session \<Rightarrow> bool" where
  "active_configured cfg wc s \<longleftrightarrow>
     (case s_workflow s of None \<Rightarrow> True
      | Some w \<Rightarrow> (case w_active_phase w of None \<Rightarrow> True | Some x \<Rightarrow> x \<in> ph_id ` set (wc_phases wc)))"

lemma advance_active_configured:
  assumes ok: "workflow_ok names wc" and c: "c_workflow cfg = Some wc" and s: "active_configured cfg wc s"
  shows "active_configured cfg wc (snd (advance L cfg s))"
proof -
  let ?s = "enter_workflow cfg s"
  have e: "active_configured cfg wc ?s"
    using ok c s by (auto simp: active_configured_def enter_workflow_def workflow_ok_def workflow_default_def split: option.splits)
  show ?thesis
  proof (cases "Option.bind (active_phase ?s) (find_phase cfg)")
    case None
    then show ?thesis using e c by (simp add: advance_def Let_def)
  next
    case (Some p)
    then obtain x where "find_phase cfg x = Some p" by (auto simp: bind_eq_Some_conv)
    then have p: "p \<in> set (wc_phases wc)"
      using c by (auto simp: find_phase_def find_Some_iff)
    show ?thesis
    proof (cases "find (\<lambda>(n, e). edge_enabled L ?s p n e) (enumerate 0 (ph_transitions p))")
      case None
      then show ?thesis using e c Some by (simp add: advance_def Let_def)
    next
      case (Some ne)
      obtain n ed where ne: "ne = (n, ed)" by (cases ne)
      have "ed \<in> set (ph_transitions p)" using find_enumerate [OF Some [unfolded ne]] by auto
      then have "ed_to ed = ''complete'' \<or> ed_to ed \<in> ph_id ` set (wc_phases wc)"
        using ok p by (auto simp: workflow_ok_def)
      then show ?thesis
        using c Some ne \<open>Option.bind (active_phase ?s) (find_phase cfg) = Some p\<close>
        by (auto simp: advance_def Let_def active_configured_def take_edge_def split: option.splits)
    qed
  qed
qed

lemma observe_call_active: "w_active_phase (observe_call L p name args out w) = w_active_phase w"
proof -
  have "w_active_phase (fold (observe_item L i name args out) items w) = w_active_phase w" for i items w
    by (induction items arbitrary: w) (auto simp: observe_item_def Let_def split: prod.splits)
  then show ?thesis by (simp add: observe_call_def)
qed

lemma wf_reach_active_configured:
  assumes "wf_reach L cfg s hist" "workflow_ok names wc" "c_workflow cfg = Some wc"
  shows "active_configured cfg wc s"
  using assms(1)
proof (induction rule: wf_reach.induct)
  case (advance s hist)
  then show ?case using advance_active_configured assms(2,3) by blast
next
  case (tool_result s hist i name args out)
  then show ?case
    by (auto simp: active_configured_def record_evidence_def observe_call_active split: option.splits)
qed (auto simp: active_configured_def)

end
