(* ===== verification/Profiles.thy ===== *)
theory Profiles
  imports History Config_Check "HOL-Library.Multiset"
begin

text \<open>
  Loading of profiles (\<^verbatim>\<open>main.rs\<close>): expansion of environment references, the serialized form of
  a profile with its defaults written out, the hash of the resolved profile, the checks on the path of a
  reference, and the listing of the profiles below the root.  The file system, the environment,
  the reader of YAML and the decoder of \<open>Config\<close> are parameters.
\<close>

text \<open>A panic ends the computation of the task.\<close>

datatype 'a outcome = Done 'a | Panic string

fun obind :: "'a outcome \<Rightarrow> ('a \<Rightarrow> 'b outcome) \<Rightarrow> 'b outcome" where
  "obind (Done x) f = f x"
| "obind (Panic m) f = Panic m"

lemma obind_eq_Done: "obind m f = Done y \<longleftrightarrow> (\<exists>x. m = Done x \<and> f x = Done y)"
  by (cases m) auto

section \<open>Expansion\<close>

definition env_char :: "char \<Rightarrow> bool" where
  "env_char c \<longleftrightarrow> (65 \<le> byte c \<and> byte c \<le> 90) \<or> is_digit c \<or> c = CHR ''_''"

definition split_default :: "string \<Rightarrow> string \<times> string" where
  "split_default expression =
     (case find_str '':-'' expression of
        None \<Rightarrow> (expression, [])
      | Some i \<Rightarrow> (take i expression, drop (i + 2) expression))"

definition expand_reference :: "(string \<Rightarrow> string option) \<Rightarrow> string \<Rightarrow> string" where
  "expand_reference env expression =
     (case split_default expression of (key, fallback) \<Rightarrow>
        if key \<noteq> [] \<and> list_all env_char key then unwrap_or fallback (env key)
        else ''${'' @ expression @ ''}'')"

function expand_string :: "(string \<Rightarrow> string option) \<Rightarrow> string \<Rightarrow> string" where
  "expand_string env rest =
     (case find_str ''${'' rest of
        None \<Rightarrow> rest
      | Some start \<Rightarrow>
          (let tail = drop (start + 2) rest
           in case find_str ''}'' tail of
                None \<Rightarrow> rest
              | Some end_ \<Rightarrow>
                  take start rest @ expand_reference env (take end_ tail) @ expand_string env (drop (end_ + 1) tail)))"
  by pat_completeness auto

lemma find_str_length: "find_str p s = Some i \<Longrightarrow> i + length p \<le> length s"
  by (induction p s arbitrary: i rule: find_str.induct) (auto split: if_splits dest: prefix_length_le)

termination expand_string
  by (relation "measure (length \<circ> snd)") (auto dest!: find_str_length)

declare expand_string.simps [simp del]

fun expand :: "(string \<Rightarrow> string option) \<Rightarrow> json \<Rightarrow> json"
  and expand_items :: "(string \<Rightarrow> string option) \<Rightarrow> json list \<Rightarrow> json list"
  and expand_fields :: "(string \<Rightarrow> string option) \<Rightarrow> (string \<times> json) list \<Rightarrow> (string \<times> json) list" where
  "expand env (JStr s) = JStr (expand_string env s)"
| "expand env (JArr xs) = JArr (expand_items env xs)"
| "expand env (JObj kvs) = JObj (expand_fields env kvs)"
| "expand env v = v"
| "expand_items env [] = []"
| "expand_items env (x # xs) = expand env x # expand_items env xs"
| "expand_fields env [] = []"
| "expand_fields env ((k, v) # kvs) = (k, expand env v) # expand_fields env kvs"

section \<open>Serialized profiles\<close>

definition json_strs :: "string list \<Rightarrow> json" where "json_strs xs = JArr (map JStr xs)"

definition json_opt_int :: "int option \<Rightarrow> json" where
  "json_opt_int x = (case x of None \<Rightarrow> JNull | Some i \<Rightarrow> json_int i)"

definition json_opt_value :: "json option \<Rightarrow> json" where "json_opt_value x = unwrap_or JNull x"

definition memory_value :: "memory_policy \<Rightarrow> json" where
  "memory_value m = JObj
     [(''max_tokens'', json_int (mem_max_tokens m)), (''max_steps'', json_int (mem_max_steps m)),
      (''raw_turns_to_keep'', json_nat (mem_raw_turns_to_keep m)), (''hybrid_reflection'', JBool (mem_hybrid_reflection m)),
      (''run_max_steps'', json_opt_int (mem_run_max_steps m)),
      (''compaction_interval_steps'', json_opt_int (mem_compaction_interval_steps m)),
      (''context_window_tokens'', json_int (mem_context_window_tokens m)),
      (''reserved_output_tokens'', json_int (mem_reserved_output_tokens m)),
      (''safety_margin_tokens'', json_int (mem_safety_margin_tokens m)),
      (''max_summary_tokens'', json_int (mem_max_summary_tokens m)),
      (''summary_output_tokens'', json_int (mem_summary_output_tokens m)),
      (''compaction_max_attempts'', json_int (mem_compaction_max_attempts m)),
      (''compaction_max_passes'', json_int (mem_compaction_max_passes m)),
      (''compaction_min_growth_tokens'', json_int (mem_compaction_min_growth_tokens m)),
      (''compaction_min_interval_steps'', json_int (mem_compaction_min_interval_steps m)),
      (''optional_compaction_min_pressure_ratio'', json_rat (mem_optional_min_pressure_ratio m)),
      (''optional_compaction_min_reclaimable_tokens'', json_int (mem_optional_min_reclaimable_tokens m)),
      (''optional_compaction_min_reduction_tokens'', json_int (mem_optional_min_reduction_tokens m)),
      (''optional_compaction_min_reduction_ratio'', json_rat (mem_optional_min_reduction_ratio m))]"

definition llm_value :: "llm_config \<Rightarrow> json" where
  "llm_value l = JObj
     [(''base_url'', JStr (llm_base_url l)), (''api_key_env'', JStr (llm_api_key_env l)),
      (''temperature'', json_rat (llm_temperature l)), (''timeout_seconds'', json_rat (llm_timeout_seconds l)),
      (''tool_call_mode'', JStr (llm_tool_call_mode l)), (''max_output_tokens'', json_opt_int (llm_max_output_tokens l))]"

definition evidence_value :: "evidence \<Rightarrow> json" where
  "evidence_value e = JObj
     [(''description'', JStr (ev_description e)), (''tool'', JStr (ev_tool e)), (''required'', JBool (ev_required e)),
      (''arguments'', ev_arguments e), (''result'', ev_result e), (''content_contains'', json_strs (ev_content_contains e))]"

definition edge_value :: "edge \<Rightarrow> json" where
  "edge_value e = JObj
     [(''to'', JStr (ed_to e)), (''when'', JStr (ed_when e)), (''evidence'', JArr (map evidence_value (ed_evidence e)))]"

definition phase_value :: "phase \<Rightarrow> json" where
  "phase_value p = JObj
     [(''id'', JStr (ph_id p)), (''name'', JStr (ph_name p)), (''instruction'', JStr (ph_instruction p)),
      (''allowed_tools'', json_opt_value (map_option json_strs (ph_allowed_tools p))),
      (''completion'', JArr (map evidence_value (ph_completion p))),
      (''transitions'', JArr (map edge_value (ph_transitions p)))]"

definition workflow_config_value :: "workflow_config \<Rightarrow> json" where
  "workflow_config_value w = JObj
     [(''entry_phase'', JStr (wc_entry_phase w)), (''phases'', JArr (map phase_value (wc_phases w)))]"

definition tool_value :: "tool \<Rightarrow> json" where
  "tool_value t = JObj
     [(''name'', JStr (tl_name t)), (''description'', JStr (tl_description t)), (''parameters'', tl_parameters t),
      (''recovery'', json_opt_value (tl_recovery t))]"

definition config_fields :: "config \<Rightarrow> (string \<times> json) list" where
  "config_fields c =
     [(''name'', JStr (c_name c)), (''system_prompt'', JStr (c_system_prompt c)), (''model'', JStr (c_model c)),
      (''llm'', llm_value (c_llm c)), (''memory'', memory_value (c_memory c)),
      (''output'', JObj [(''verbose_setup'', JBool (c_verbose_setup c))]), (''tools'', JArr (map tool_value (c_tools c))),
      (''workflow'', json_opt_value (map_option workflow_config_value (c_workflow c))),
      (''execution'', c_execution c), (''completion'', c_completion c)]"

section \<open>Completed profiles\<close>

text \<open>\<open>obj.entry(k).or_insert(v)\<close>, and the entries of the objects in an array.\<close>

definition or_insert :: "string \<Rightarrow> json \<Rightarrow> (string \<times> json) list \<Rightarrow> (string \<times> json) list" where
  "or_insert k v kvs = (if map_of kvs k = None then kvs @ [(k, v)] else kvs)"

definition or_inserts :: "(string \<times> json) list \<Rightarrow> (string \<times> json) list \<Rightarrow> (string \<times> json) list" where
  "or_inserts defaults kvs = fold (\<lambda>(k, v). or_insert k v) defaults kvs"

definition map_items :: "string \<Rightarrow> ((string \<times> json) list \<Rightarrow> (string \<times> json) list) \<Rightarrow> (string \<times> json) list \<Rightarrow> (string \<times> json) list" where
  "map_items k f kvs =
     (case Option.bind (map_of kvs k) as_array of
        None \<Rightarrow> kvs
      | Some xs \<Rightarrow> obj_insert k (JArr (map (\<lambda>v. case as_object v of None \<Rightarrow> v | Some o' \<Rightarrow> JObj (f o')) xs)) kvs)"

definition execution_defaults :: "(string \<times> json) list" where
  "execution_defaults =
     [(''argument_bindings'', JArr []), (''tool_policy'', JStr ''auto''), (''max_consecutive_invalid_responses'', json_int 3),
      (''max_no_progress_steps'', JNull)]"

definition completion_defaults :: "(string \<times> json) list" where
  "completion_defaults =
     [(''instructions'', JNull), (''forbidden_patterns'', JArr []), (''result_checks'', JArr []), (''exact'', JNull),
      (''pattern'', JNull), (''json_schema'', JNull)]"

definition check_defaults :: "(string \<times> json) list" where
  "check_defaults = [(''arguments'', JObj []), (''result'', JObj []), (''path'', JArr []), (''answer_path'', JArr [])]"

definition complete_execution :: "(string \<times> json) list \<Rightarrow> (string \<times> json) list" where
  "complete_execution e = map_items ''argument_bindings'' (or_insert ''path'' (JArr [])) (or_inserts execution_defaults e)"

definition complete_completion :: "(string \<times> json) list \<Rightarrow> (string \<times> json) list" where
  "complete_completion c = map_items ''result_checks'' (or_inserts check_defaults) (or_inserts completion_defaults c)"

definition in_object ::
  "string \<Rightarrow> string \<Rightarrow> ((string \<times> json) list \<Rightarrow> (string \<times> json) list) \<Rightarrow> (string \<times> json) list \<Rightarrow> (string \<times> json) list outcome" where
  "in_object k expected f obj =
     (let obj' = or_insert k (JObj []) obj
      in case as_object (idx (JObj obj') k) of
           None \<Rightarrow> Panic expected
         | Some kvs \<Rightarrow> Done (obj_insert k (JObj (f kvs)) obj'))"

definition complete_config_value :: "(string \<times> json) list \<Rightarrow> (string \<times> json) list outcome" where
  "complete_config_value obj =
     obind (in_object ''execution'' ''execution object'' complete_execution obj)
       (in_object ''completion'' ''completion object'' complete_completion)"

section \<open>The hash of a profile\<close>

fun python_encoded :: "lib \<Rightarrow> json \<Rightarrow> string"
  and encoded_items :: "lib \<Rightarrow> json list \<Rightarrow> string list"
  and encoded_fields :: "lib \<Rightarrow> (string \<times> json) list \<Rightarrow> (string \<times> string) list" where
  "python_encoded L (JNum n) = python_number L n"
| "python_encoded L (JArr xs) = ''['' @ join '','' (encoded_items L xs) @ '']''"
| "python_encoded L (JObj kvs) = ''{'' @ join '','' (map snd (sort_key fst (encoded_fields L kvs))) @ ''}''"
| "python_encoded L v = json_text L v"
| "encoded_items L [] = []"
| "encoded_items L (x # xs) = python_encoded L x # encoded_items L xs"
| "encoded_fields L [] = []"
| "encoded_fields L ((k, v) # kvs) = (k, json_text L (JStr k) @ '':'' @ python_encoded L v) # encoded_fields L kvs"

definition canonical_json :: "lib \<Rightarrow> json \<Rightarrow> string" where
  "canonical_json L v = python_encoded L (sort_json v)"

definition remove_when :: "(json \<Rightarrow> bool) \<Rightarrow> string \<Rightarrow> (string \<times> json) list \<Rightarrow> (string \<times> json) list" where
  "remove_when p k kvs = (if is_some_and (map_of kvs k) p then obj_remove k kvs else kvs)"

definition empty_array :: "json \<Rightarrow> bool" where "empty_array v \<longleftrightarrow> as_array v = Some []"

definition memory_defaults :: "(string \<times> json) list" where
  "memory_defaults =
     [(''run_max_steps'', JNull), (''compaction_interval_steps'', JNull), (''context_window_tokens'', json_int 32768),
      (''reserved_output_tokens'', json_int 1024), (''safety_margin_tokens'', json_int 256), (''max_summary_tokens'', json_int 4096),
      (''summary_output_tokens'', json_int 512), (''compaction_max_attempts'', json_int 2), (''compaction_max_passes'', json_int 3),
      (''compaction_min_growth_tokens'', json_int 512), (''compaction_min_interval_steps'', json_int 0),
      (''optional_compaction_min_pressure_ratio'', json_int 0), (''optional_compaction_min_reclaimable_tokens'', json_int 0),
      (''optional_compaction_min_reduction_tokens'', json_int 0), (''optional_compaction_min_reduction_ratio'', json_int 0)]"

definition strip_llm :: "(string \<times> json) list \<Rightarrow> (string \<times> json) list" where
  "strip_llm l = remove_when is_null ''max_output_tokens'' (remove_when (\<lambda>v. as_str v = Some ''native'') ''tool_call_mode'' l)"

definition strip_execution :: "(string \<times> json) list \<Rightarrow> (string \<times> json) list" where
  "strip_execution e =
     remove_when empty_array ''argument_bindings''
       (remove_when is_null ''max_no_progress_steps''
         (remove_when (\<lambda>v. as_str v = Some ''auto'') ''tool_policy'' (or_inserts execution_defaults e)))"

definition strip_completion :: "(string \<times> json) list \<Rightarrow> (string \<times> json) list" where
  "strip_completion c =
     remove_when empty_array ''result_checks''
       (remove_when empty_array ''forbidden_patterns''
         (remove_when is_null ''instructions'' (or_inserts completion_defaults c)))"

definition strip_memory :: "(string \<times> json) list \<Rightarrow> (string \<times> json) list" where
  "strip_memory m =
     (let zero = (\<lambda>v. is_some_and (as_f64 v) (\<lambda>x. f64_val x = 0));
          m' = fold (\<lambda>(k, d). remove_when (json_eq d) k) memory_defaults m
      in remove_when zero ''optional_compaction_min_reduction_ratio'' (remove_when zero ''optional_compaction_min_pressure_ratio'' m'))"

definition strip_tool :: "(string \<times> json) list \<Rightarrow> (string \<times> json) list" where
  "strip_tool t = remove_when is_null ''recovery'' t"

text \<open>\<open>object.get_mut(k).and_then(Value::as_object_mut).ok_or(e)?\<close>.\<close>

definition in_section :: "string \<Rightarrow> string \<Rightarrow> ((string \<times> json) list \<Rightarrow> (string \<times> json) list) \<Rightarrow> (string \<times> json) list \<Rightarrow> (string \<times> json) list result" where
  "in_section k e f obj =
     (case Option.bind (map_of obj k) as_object of None \<Rightarrow> Err e | Some kvs \<Rightarrow> Ok (obj_insert k (JObj (f kvs)) obj))"

definition resolved_value :: "(string \<times> json) list \<Rightarrow> (string \<times> json) list result" where
  "resolved_value obj =
     rbind (in_section ''llm'' ''missing llm'' strip_llm obj)
       (\<lambda>obj. rbind (in_section ''execution'' ''missing execution'' strip_execution obj)
          (\<lambda>obj. rbind (in_section ''completion'' ''missing completion'' strip_completion obj)
             (\<lambda>obj. Ok (map_items ''tools'' strip_tool
                         (case in_section ''memory'' [] strip_memory obj of Inl _ \<Rightarrow> obj | Inr obj' \<Rightarrow> obj')))))"

definition resolved_config_hash :: "lib \<Rightarrow> config \<Rightarrow> (string \<times> string) result outcome" where
  "resolved_config_hash L c =
     obind (complete_config_value (config_fields c))
       (\<lambda>obj. Done (rbind (resolved_value obj)
          (\<lambda>obj'. let t = canonical_json L (JObj obj') in Ok (t, sha256_hex L t))))"

section \<open>References\<close>

text \<open>
  Paths are lists of components.  \<open>fs_canonicalize r\<close> resolves \<open>r\<close> below the configured root,
  \<open>fs_entries\<close> lists a directory below it with the kinds of its entries (\<open>None\<close> when unknown).
\<close>

datatype file_kind = Directory | Other_File

record files =
  fs_root :: "string list result"
  fs_canonicalize :: "string \<Rightarrow> string list result"
  fs_is_file :: "string list \<Rightarrow> bool"
  fs_read :: "string list \<Rightarrow> string result"
  fs_env :: "string \<Rightarrow> string option"
  fs_yaml :: "string \<Rightarrow> json result"
  fs_decode :: "json \<Rightarrow> config result"
  fs_entries :: "string list \<Rightarrow> (string \<times> file_kind option) list option"

definition extension :: "string \<Rightarrow> string option" where
  "extension name =
     (let after = rev (takeWhile (\<lambda>c. c \<noteq> CHR ''.'') (rev name))
      in if name = ''..'' \<or> length after = length name \<or> length after + 1 = length name then None else Some after)"

definition ascii_lower :: "string \<Rightarrow> string" where
  "ascii_lower s = map (\<lambda>c. if 65 \<le> byte c \<and> byte c \<le> 90 then char_of (byte c + 32) else c) s"

definition yaml_file :: "string list \<Rightarrow> bool" where
  "yaml_file p \<longleftrightarrow> p \<noteq> [] \<and> map_option ascii_lower (extension (last p)) \<in> {Some ''yaml'', Some ''yml''}"

definition invalid_profile :: "string \<Rightarrow> string" where
  "invalid_profile e = ''invalid YAML workflow config: '' @ e"

definition profile_path :: "files \<Rightarrow> string \<Rightarrow> string list result" where
  "profile_path F r =
     (if r = [] \<or> hd r = CHR ''/'' then Err ''config_ref must be a non-empty relative YAML path''
      else rbind (fs_root F)
        (\<lambda>root. if ''..'' \<in> set (split_char (CHR ''/'') r) then Err ''config_ref must not contain parent traversal''
           else rbind (fs_canonicalize F r)
             (\<lambda>p. if \<not> prefix root p then Err ''config_ref must remain within AGENT_CONFIG_ROOT''
                  else if \<not> fs_is_file F p \<or> \<not> yaml_file p
                  then Err ''config_ref must identify a YAML file within AGENT_CONFIG_ROOT''
                  else Ok p)))"

definition read_profile :: "lib \<Rightarrow> files \<Rightarrow> string \<Rightarrow> config result" where
  "read_profile L F b =
     rbind (fs_yaml F b)
       (\<lambda>raw. rbind (ok_or ''missing agent mapping'' (get (expand (fs_env F) raw) ''agent''))
          (\<lambda>agent. case fs_decode F agent of
             Inl e \<Rightarrow> Err (invalid_profile e)
           | Inr c \<Rightarrow> (case validate_config L c of Inl e \<Rightarrow> Err (invalid_profile e) | Inr _ \<Rightarrow> Ok c)))"

definition cfg_load :: "lib \<Rightarrow> files \<Rightarrow> string \<Rightarrow> (config \<times> json \<times> string) result outcome" where
  "cfg_load L F r =
     (case profile_path F r of
        Inl e \<Rightarrow> Done (Err e)
      | Inr p \<Rightarrow>
          (case fs_read F p of
             Inl e \<Rightarrow> Done (Err e)
           | Inr b \<Rightarrow>
               (case read_profile L F b of
                  Inl e \<Rightarrow> Done (Err e)
                | Inr c \<Rightarrow>
                    obind (complete_config_value (config_fields c))
                      (\<lambda>obj. Done (Ok (c, JObj obj, sha256_hex L b))))))"

section \<open>Listing\<close>

text \<open>\<open>depth\<close> bounds the nesting of directories, which a file system without cycles has.\<close>

fun collect_yaml :: "files \<Rightarrow> nat \<Rightarrow> string list \<Rightarrow> string list list" where
  "collect_yaml F 0 dir = []"
| "collect_yaml F (Suc depth) dir =
     (case fs_entries F dir of
        None \<Rightarrow> []
      | Some entries \<Rightarrow>
          concat (map (\<lambda>(name, kind).
            case kind of
              None \<Rightarrow> []
            | Some Directory \<Rightarrow> collect_yaml F depth (dir @ [name])
            | Some Other_File \<Rightarrow> if extension name \<in> {Some ''yaml'', Some ''yml''} then [dir @ [name]] else []) entries))"

fun filter_configs :: "lib \<Rightarrow> files \<Rightarrow> string list \<Rightarrow> (string \<times> config \<times> string \<times> string) list outcome" where
  "filter_configs L F [] = Done []"
| "filter_configs L F (r # rs) =
     obind (cfg_load L F r)
       (\<lambda>loaded. obind (case loaded of
                          Inl _ \<Rightarrow> Done []
                        | Inr (c, _, h) \<Rightarrow>
                            obind (resolved_config_hash L c)
                              (\<lambda>resolved. case resolved of Inl _ \<Rightarrow> Done [] | Inr (_, rh) \<Rightarrow> Done [(r, c, h, rh)]))
          (\<lambda>found. obind (filter_configs L F rs) (\<lambda>rest. Done (found @ rest))))"

definition collect_configs :: "lib \<Rightarrow> files \<Rightarrow> nat \<Rightarrow> (string \<times> config \<times> string \<times> string) list outcome" where
  "collect_configs L F depth =
     filter_configs L F (sort (map (\<lambda>p. map (\<lambda>c. if c = CHR 0x5C then CHR ''/'' else c) (join ''/'' p)) (collect_yaml F depth [])))"

section \<open>Properties\<close>

text \<open>A loaded profile lies within the root and is validated.\<close>

lemma profile_path_Ok:
  assumes "profile_path F r = Ok p"
  shows "\<exists>root. fs_root F = Ok root \<and> prefix root p \<and> fs_canonicalize F r = Ok p \<and> fs_is_file F p \<and> yaml_file p
    \<and> ''..'' \<notin> set (split_char (CHR ''/'') r)"
  using assms by (auto simp: profile_path_def result_simps split: if_splits)

lemma read_profile_Ok:
  assumes "read_profile L F b = Ok c"
  shows "validate_config L c = Ok ()"
proof -
  obtain agent where agent: "(case fs_decode F agent of Inl e \<Rightarrow> Err (invalid_profile e)
      | Inr c \<Rightarrow> (case validate_config L c of Inl e \<Rightarrow> Err (invalid_profile e) | Inr _ \<Rightarrow> Ok c)) = Ok c"
    using assms by (auto simp: read_profile_def result_simps)
  then obtain c' where c': "fs_decode F agent = Ok c'" by (cases "fs_decode F agent") simp_all
  then show ?thesis using agent by (cases "validate_config L c'") simp_all
qed

lemma cfg_load_Ok:
  assumes "cfg_load L F r = Done (Ok (c, snapshot, sha))"
  shows "\<exists>p b obj. profile_path F r = Ok p \<and> fs_read F p = Ok b \<and> validate_config L c = Ok () \<and> sha = sha256_hex L b
    \<and> complete_config_value (config_fields c) = Done obj \<and> snapshot = JObj obj"
  using assms read_profile_Ok by (fastforce simp: cfg_load_def obind_eq_Done split: sum.splits)

text \<open>Completing a profile is idempotent.\<close>

lemma map_of_append_None: "map_of xs k = None \<Longrightarrow> map_of (xs @ ys) k = map_of ys k"
  by (simp add: map_add_def)

lemma or_insert_has: "map_of (or_insert k v kvs) k \<noteq> None"
  by (simp add: or_insert_def map_add_def)

lemma or_insert_keeps: "map_of kvs k \<noteq> None \<Longrightarrow> map_of (or_insert k' v kvs) k = map_of kvs k"
  by (auto simp: or_insert_def map_add_def split: option.splits)

lemma or_inserts_keeps: "map_of kvs k \<noteq> None \<Longrightarrow> map_of (or_inserts ds kvs) k = map_of kvs k"
proof (induction ds arbitrary: kvs)
  case (Cons d ds)
  obtain k' v where d: "d = (k', v)" by fastforce
  have "map_of (or_inserts ds (or_insert k' v kvs)) k = map_of (or_insert k' v kvs) k"
    by (rule Cons.IH) (use Cons.prems in \<open>simp add: or_insert_keeps\<close>)
  then show ?case using Cons.prems d by (simp add: or_inserts_def or_insert_keeps)
qed (simp add: or_inserts_def)

lemma or_inserts_has: "k \<in> fst ` set ds \<Longrightarrow> map_of (or_inserts ds kvs) k \<noteq> None"
proof (induction ds arbitrary: kvs)
  case (Cons d ds)
  obtain k' v where d: "d = (k', v)" by fastforce
  show ?case
  proof (cases "k = k'")
    case True
    have "map_of (or_inserts ds (or_insert k v kvs)) k = map_of (or_insert k v kvs) k"
      by (rule or_inserts_keeps [OF or_insert_has])
    then show ?thesis using True d or_insert_has by (simp add: or_inserts_def)
  next
    case False
    then show ?thesis using Cons d by (simp add: or_inserts_def)
  qed
qed simp

lemma or_inserts_same: "\<forall>k\<in>fst ` set ds. map_of kvs k \<noteq> None \<Longrightarrow> or_inserts ds kvs = kvs"
  by (induction ds) (auto simp: or_inserts_def or_insert_def)

lemma obj_insert_twice: "obj_insert k v (obj_insert k w kvs) = obj_insert k v kvs"
  by (induction k w kvs rule: obj_insert.induct) auto

lemma obj_insert_same: "map_of kvs k = Some v \<Longrightarrow> obj_insert k v kvs = kvs"
  by (induction k v kvs rule: obj_insert.induct) (auto split: if_splits)

lemma obj_insert_comm: "map_of kvs k \<noteq> None \<Longrightarrow> k \<noteq> k' \<Longrightarrow> map_of kvs k' \<noteq> None \<Longrightarrow>
    obj_insert k v (obj_insert k' w kvs) = obj_insert k' w (obj_insert k v kvs)"
proof (induction kvs)
  case (Cons p kvs)
  obtain a b where p: "p = (a, b)" by fastforce
  show ?case
  proof (cases "a = k \<or> a = k'")
    case True
    then show ?thesis using Cons.prems p by auto
  next
    case False
    then show ?thesis using Cons p by auto
  qed
qed simp

lemma map_items_has: "map_of (map_items k f kvs) k' = None \<longleftrightarrow> map_of kvs k' = None"
  by (cases "map_of kvs k") (auto simp: map_items_def map_of_obj_insert split: option.splits)

lemma map_items_idem:
  assumes "\<And>o'. f (f o') = f o'"
  shows "map_items k f (map_items k f kvs) = map_items k f kvs"
proof (cases "Option.bind (map_of kvs k) as_array")
  case (Some xs)
  have "(case as_object (case as_object v of None \<Rightarrow> v | Some o' \<Rightarrow> JObj (f o')) of
      None \<Rightarrow> (case as_object v of None \<Rightarrow> v | Some o' \<Rightarrow> JObj (f o')) | Some o' \<Rightarrow> JObj (f o'))
    = (case as_object v of None \<Rightarrow> v | Some o' \<Rightarrow> JObj (f o'))" for v
    by (cases v) (simp_all add: assms)
  then have "map (\<lambda>v. case as_object v of None \<Rightarrow> v | Some o' \<Rightarrow> JObj (f o')) (map (\<lambda>v. case as_object v of None \<Rightarrow> v | Some o' \<Rightarrow> JObj (f o')) xs)
    = map (\<lambda>v. case as_object v of None \<Rightarrow> v | Some o' \<Rightarrow> JObj (f o')) xs" by simp
  then show ?thesis using Some by (simp add: map_items_def map_of_obj_insert obj_insert_twice del: map_map)
qed (simp add: map_items_def)

lemma or_inserts_idem: "or_inserts ds (or_inserts ds kvs) = or_inserts ds kvs"
  by (rule or_inserts_same) (use or_inserts_has in blast)

lemma complete_part_idem:
  assumes "\<And>o'. f (f o') = f o'"
  shows "map_items k f (or_inserts ds (map_items k f (or_inserts ds kvs))) = map_items k f (or_inserts ds kvs)"
proof -
  have "or_inserts ds (map_items k f (or_inserts ds kvs)) = map_items k f (or_inserts ds kvs)"
    by (rule or_inserts_same) (simp add: map_items_has or_inserts_has del: split_paired_Ex not_None_eq)
  then show ?thesis by (simp add: map_items_idem [OF assms])
qed

lemma complete_execution_idem: "complete_execution (complete_execution e) = complete_execution e"
  unfolding complete_execution_def
proof (rule complete_part_idem)
  show "or_insert ''path'' (JArr []) (or_insert ''path'' (JArr []) o') = or_insert ''path'' (JArr []) o'" for o'
    using or_insert_has [of "''path''" "JArr []" o'] by (simp add: or_insert_def)
qed

lemma complete_completion_idem: "complete_completion (complete_completion c) = complete_completion c"
  unfolding complete_completion_def by (rule complete_part_idem) (rule or_inserts_idem)

lemma in_object_Done:
  assumes "in_object k e f obj = Done obj'"
  shows "\<exists>kvs. as_object (idx (JObj (or_insert k (JObj []) obj)) k) = Some kvs
    \<and> obj' = obj_insert k (JObj (f kvs)) (or_insert k (JObj []) obj) \<and> map_of obj' k = Some (JObj (f kvs))"
  using assms by (auto simp: in_object_def Let_def map_of_obj_insert split: option.splits)

lemma in_object_again:
  assumes "map_of obj k = Some (JObj (f kvs))" "\<And>o'. f (f o') = f o'"
  shows "in_object k e f obj = Done obj"
  using assms by (simp add: in_object_def Let_def or_insert_def idx_def obj_insert_same)

lemma complete_config_value_idem:
  assumes "complete_config_value obj = Done obj'"
  shows "complete_config_value obj' = Done obj'"
proof -
  obtain mid where mid: "in_object ''execution'' ''execution object'' complete_execution obj = Done mid"
    "in_object ''completion'' ''completion object'' complete_completion mid = Done obj'"
    using assms by (auto simp: complete_config_value_def obind_eq_Done)
  obtain e where e: "map_of mid ''execution'' = Some (JObj (complete_execution e))" using in_object_Done [OF mid(1)] by blast
  obtain c where c: "obj' = obj_insert ''completion'' (JObj (complete_completion c)) (or_insert ''completion'' (JObj []) mid)"
    "map_of obj' ''completion'' = Some (JObj (complete_completion c))" using in_object_Done [OF mid(2)] by blast
  have "map_of obj' ''execution'' = Some (JObj (complete_execution e))"
    using e c(1) by (simp add: map_of_obj_insert or_insert_keeps)
  then show ?thesis
    using in_object_again [of obj' "''execution''" complete_execution e "''execution object''"]
      in_object_again [of obj' "''completion''" complete_completion c "''completion object''"] c(2)
    by (simp add: complete_config_value_def complete_execution_idem complete_completion_idem)
qed

text \<open>A profile whose sections are objects is completed without a panic; another one is not.\<close>

lemma complete_config_panics:
  "(\<exists>m. complete_config_value (config_fields c) = Panic m) \<longleftrightarrow> \<not> (is_object (c_execution c) \<and> is_object (c_completion c))"
  by (auto simp: complete_config_value_def in_object_def config_fields_def or_insert_def idx_def is_object_def Let_def
      map_of_obj_insert split: option.splits)

section \<open>The text does not depend on the order of members\<close>

text \<open>
  A document store is free to reorder the members of objects.  \<open>reordered\<close> relates such values;
  their canonical text, and with it every digest over it, is the same.
\<close>

inductive reordered :: "json \<Rightarrow> json \<Rightarrow> bool"
  and reordered_fields :: "(string \<times> json) list \<Rightarrow> (string \<times> json) list \<Rightarrow> bool" where
  same: "reordered v v"
| arrays: "list_all2 reordered xs ys \<Longrightarrow> reordered (JArr xs) (JArr ys)"
| objects: "reordered_fields kvs mid \<Longrightarrow> mset mid = mset kvs' \<Longrightarrow> distinct (map fst kvs) \<Longrightarrow> reordered (JObj kvs) (JObj kvs')"
| no_fields: "reordered_fields [] []"
| fields: "reordered v v' \<Longrightarrow> reordered_fields kvs kvs' \<Longrightarrow> reordered_fields ((k, v) # kvs) ((k, v') # kvs')"

lemma encoded_items_map: "encoded_items L xs = map (python_encoded L) xs"
  by (induction xs) auto

lemma encoded_fields_map: "encoded_fields L kvs = map (\<lambda>(k, v). (k, json_text L (JStr k) @ '':'' @ python_encoded L v)) kvs"
  by (induction kvs) auto

lemma sort_fields_map: "sort_fields kvs = map (\<lambda>(k, v). (k, sort_json v)) kvs"
  by (induction kvs) auto

lemma sort_items_map: "sort_items xs = map sort_json xs"
  by (induction xs) auto

lemma sort_key_unique: "mset xs = mset ys \<Longrightarrow> distinct (map fst xs) \<Longrightarrow> sort_key fst xs = sort_key fst ys"
  by (rule sort_key_inj_key_eq) (simp_all add: distinct_map)

lemma sort_key_sorted: "sort_key f (sort_key f xs) = sort_key f xs"
  by (rule properties_for_sort_key) simp_all

lemma insort_key_map: "(\<And>x. fst (g x) = fst x) \<Longrightarrow> insort_key fst (g x) (map g xs) = map g (insort_key fst x xs)"
  by (induction xs) auto

lemma sort_key_map: "(\<And>x. fst (g x) = fst x) \<Longrightarrow> sort_key fst (map g xs) = map g (sort_key fst xs)"
  by (induction xs) (simp_all add: insort_key_map)

lemma encoded_fields_sort: "sort_key fst (encoded_fields L kvs) = encoded_fields L (sort_key fst kvs)"
  unfolding encoded_fields_map by (rule sort_key_map) (auto split: prod.splits)

lemma python_encoded_sort:
  "python_encoded L (sort_json v) = python_encoded L v"
  "encoded_items L (sort_items xs) = encoded_items L xs"
  "encoded_fields L (sort_fields kvs) = encoded_fields L kvs"
  by (induction v and xs and kvs rule: sort_json_sort_items_sort_fields.induct)
     (simp_all only: sort_json.simps sort_items.simps sort_fields.simps python_encoded.simps encoded_items.simps encoded_fields.simps
       encoded_fields_sort [symmetric] sort_key_sorted)

lemma canonical_json_encoded: "canonical_json L v = python_encoded L v"
  by (simp add: canonical_json_def python_encoded_sort)

lemma reordered_keys: "reordered_fields kvs kvs' \<Longrightarrow> map fst kvs' = map fst kvs"
  by (induction rule: reordered_reordered_fields.inducts(2) [where ?P1.0 = "\<lambda>_ _. True"]) auto

lemma reordered_encoded:
  "reordered v w \<Longrightarrow> python_encoded L v = python_encoded L w"
  "reordered_fields kvs kvs' \<Longrightarrow> encoded_fields L kvs = encoded_fields L kvs'"
proof (induction rule: reordered_reordered_fields.inducts)
  case (arrays xs ys)
  then have "map (python_encoded L) xs = map (python_encoded L) ys"
    by (auto simp: list_all2_conv_all_nth intro!: nth_equalityI)
  then show ?case by (simp add: encoded_items_map)
next
  case (objects kvs mid kvs')
  have "distinct (map fst mid)" using objects reordered_keys by simp
  then have "sort_key fst mid = sort_key fst kvs'" using objects by (intro sort_key_unique)
  then have "sort_key fst (encoded_fields L mid) = sort_key fst (encoded_fields L kvs')" by (simp add: encoded_fields_sort)
  then show ?case using objects by simp
qed simp_all

lemma canonical_json_reordered: "reordered v w \<Longrightarrow> canonical_json L v = canonical_json L w"
  by (simp add: canonical_json_encoded reordered_encoded)

end
