(* ===== verification/Commands.thy ===== *)
theory Commands
  imports Leases Profiles
begin

text \<open>
  Durable admission of HTTP commands (\<^verbatim>\<open>commands.rs\<close>).  A \<open>POST\<close> carries an idempotency key; its
  row in the table of commands decides whether it is answered from the recorded response,
  refused, deferred to the worker that executes it, or executed under a fenced lease.

  A statement of the database is one step of a handler: it may fail, and before it other
  workers may have changed the table.  \<open>host\<close> holds what lies outside: the parser of UUIDs,
  random identifiers, the database clock, the outcome of each statement, the sessions and
  profiles that exist, and the routes behind the middleware.
\<close>

section \<open>Requests\<close>

record request =
  rq_method :: string
  rq_keys :: "string option list"
  rq_path :: string
  rq_small :: bool
  rq_text :: "string result"

text \<open>
  The values of the \<open>Idempotency-Key\<close> headers (\<open>None\<close> when a value is not visible ASCII), the path,
  whether the body is within the limit, and the body as text if it is UTF-8.
\<close>

datatype reply_body = Json_Body json | Raw_Body | Broken_Body string

record reply =
  rp_status :: nat
  rp_body :: reply_body
  rp_stream :: bool
  rp_headers :: "(string \<times> string) list"

definition json_reply :: "nat \<Rightarrow> json \<Rightarrow> reply" where
  "json_reply status body = \<lparr>rp_status = status, rp_body = Json_Body body, rp_stream = False, rp_headers = []\<rparr>"

definition reject :: "nat \<Rightarrow> string \<Rightarrow> string \<Rightarrow> reply" where
  "reject status code message = json_reply status (JObj [(''code'', JStr code), (''detail'', JStr message)])"

definition valid_key :: "string \<Rightarrow> nat \<Rightarrow> bool" where
  "valid_key key n \<longleftrightarrow>
     n = 1 \<and> key \<noteq> [] \<and> length key \<le> 255 \<and> list_all (\<lambda>c. 33 \<le> byte c \<and> byte c \<le> 126) key"

definition route_fields :: "string \<Rightarrow> string list" where
  "route_fields route =
     (if route = ''/sessions'' then [''user_prompt'', ''config_ref'']
      else if ends_with route ''/messages'' then [''content'']
      else if ends_with route ''/cancel'' then [''run_id'']
      else if ends_with route ''/resume'' then [''content'', ''max_steps'']
      else [''max_steps''])"

definition nonempty_str :: "json option \<Rightarrow> bool" where
  "nonempty_str v \<longleftrightarrow> is_some_and (Option.bind v as_str) (\<lambda>t. t \<noteq> [])"

definition normalize_create :: "(string \<times> json) list \<Rightarrow> (string \<times> json) list result" where
  "normalize_create obj =
     (if \<not> nonempty_str (map_of obj ''user_prompt'') then Err ''user_prompt is required''
      else (let obj' = or_insert ''config_ref'' (JStr ''log-analysis.yaml'') obj
            in if \<not> nonempty_str (map_of obj' ''config_ref'') then Err ''config_ref must be nonempty'' else Ok obj'))"

definition normalize_cancel :: "(string \<Rightarrow> string option) \<Rightarrow> (string \<times> json) list \<Rightarrow> (string \<times> json) list result" where
  "normalize_cancel parse_uuid obj =
     (case Option.bind (map_of obj ''run_id'') as_str of
        None \<Rightarrow> Err ''run_id required''
      | Some t \<Rightarrow> (case parse_uuid t of
                    None \<Rightarrow> Err ''run_id must be UUID''
                  | Some i \<Rightarrow> Ok (obj_insert ''run_id'' (JStr i) obj)))"

definition steps_in_range :: "json \<Rightarrow> bool" where
  "steps_in_range v \<longleftrightarrow> v = JNull \<or> is_some_and (as_u64 v) (\<lambda>n. 0 < n \<and> n \<le> 50)"

definition normalize_run :: "string \<Rightarrow> (string \<times> json) list \<Rightarrow> (string \<times> json) list result" where
  "normalize_run route obj =
     (let obj' = or_insert ''max_steps'' JNull obj
      in if \<not> steps_in_range (idx (JObj obj') ''max_steps'') then Err ''max_steps must be a positive integer''
         else if ends_with route ''/resume''
         then (let obj'' = or_insert ''content'' JNull obj'; v = idx (JObj obj'') ''content''
               in if v \<noteq> JNull \<and> \<not> nonempty_str (Some v) then Err ''content must be nonempty or null'' else Ok obj'')
         else Ok obj')"

definition normalize_fields ::
  "(string \<Rightarrow> string option) \<Rightarrow> string \<Rightarrow> (string \<times> json) list \<Rightarrow> (string \<times> json) list result" where
  "normalize_fields parse_uuid route obj =
     (if \<exists>k\<in>fst ` set obj. k \<notin> set (route_fields route) then Err ''Unknown request field''
      else if route = ''/sessions'' then normalize_create obj
      else if ends_with route ''/messages''
      then (if nonempty_str (map_of obj ''content'') then Ok obj else Err ''content must be nonempty'')
      else if ends_with route ''/cancel'' then normalize_cancel parse_uuid obj
      else normalize_run route obj)"

definition normalize :: "lib \<Rightarrow> (string \<Rightarrow> string option) \<Rightarrow> string \<Rightarrow> json \<Rightarrow> json result" where
  "normalize L parse_uuid route body =
     rbind (ok_or ''JSON body must be an object'' (as_object body))
       (\<lambda>obj. rbind (normalize_fields parse_uuid route obj)
          (\<lambda>obj'. rbind (canonical L (JObj obj')) (\<lambda>_. Ok (JObj obj'))))"

section \<open>The table of commands\<close>

record command_row =
  cm_id :: string
  cm_namespace :: string
  cm_key :: string
  cm_route :: string
  cm_request :: json
  cm_sha256 :: string
  cm_session :: "string option"
  cm_status :: string
  cm_owner :: "string option"
  cm_fence :: int
  cm_expires_at :: "int option"
  cm_response :: "(nat \<times> json) option"

text \<open>An \<open>UPDATE\<close> whose condition selects the row by its identifier.\<close>

definition update_command ::
  "string \<Rightarrow> (command_row \<Rightarrow> bool) \<Rightarrow> (command_row \<Rightarrow> command_row) \<Rightarrow> command_row list \<Rightarrow> command_row list" where
  "update_command i p f rows = map (\<lambda>r. if cm_id r = i \<and> p r then f r else r) rows"

definition find_command :: "string \<Rightarrow> string \<Rightarrow> command_row list \<Rightarrow> command_row option" where
  "find_command namespace key rows = find (\<lambda>r. cm_namespace r = namespace \<and> cm_key r = key) rows"

definition duplicate_error :: string where
  "duplicate_error = ''duplicate key value violates unique constraint''"

definition insert_command :: "command_row \<Rightarrow> command_row list \<Rightarrow> command_row list result" where
  "insert_command row rows =
     (if find_command (cm_namespace row) (cm_key row) rows \<noteq> None then Ok rows
      else if \<exists>r\<in>set rows. cm_id r = cm_id row then Err duplicate_error
      else Ok (rows @ [row]))"

definition claimable :: "int \<Rightarrow> command_row \<Rightarrow> bool" where
  "claimable now r \<longleftrightarrow>
     cm_status r \<in> {''pending'', ''started''} \<and> (cm_owner r = None \<or> expired now (cm_expires_at r))"

definition take_row :: "int \<Rightarrow> string \<Rightarrow> command_row \<Rightarrow> command_row" where
  "take_row now owner r =
     r\<lparr>cm_owner := Some owner, cm_fence := cm_fence r + 1, cm_expires_at := Some (now + lease_span), cm_status := ''started''\<rparr>"

definition claim_command ::
  "int \<Rightarrow> string \<Rightarrow> string \<Rightarrow> command_row list \<Rightarrow> (int option \<times> command_row list) result" where
  "claim_command now i owner rows =
     (case find (\<lambda>r. cm_id r = i) rows of
        None \<Rightarrow> Ok (None, rows)
      | Some r \<Rightarrow>
          if \<not> claimable now r then Ok (None, rows)
          else if i64_max \<le> cm_fence r then Err out_of_range
          else Ok (Some (cm_fence r + 1), update_command i (claimable now) (take_row now owner) rows))"

text \<open>The condition shared by the statements of a worker that holds the command.\<close>

definition command_held :: "int \<Rightarrow> string \<Rightarrow> int \<Rightarrow> command_row \<Rightarrow> bool" where
  "command_held now owner fence r \<longleftrightarrow>
     cm_owner r = Some owner \<and> cm_fence r = fence \<and> cm_status r = ''started'' \<and> unexpired now (cm_expires_at r)"

definition renew_row :: "int \<Rightarrow> command_row \<Rightarrow> command_row" where
  "renew_row now r = r\<lparr>cm_expires_at := Some (now + lease_span)\<rparr>"

definition outcome_status :: "nat \<Rightarrow> string" where
  "outcome_status status = (if 400 \<le> status then ''failed'' else ''succeeded'')"

definition finish_row :: "nat \<Rightarrow> json \<Rightarrow> command_row \<Rightarrow> command_row" where
  "finish_row status body r =
     r\<lparr>cm_status := outcome_status status, cm_response := Some (status, body), cm_owner := None, cm_expires_at := None\<rparr>"

definition stop_row :: "string \<Rightarrow> command_row \<Rightarrow> command_row" where
  "stop_row status r = r\<lparr>cm_status := status, cm_owner := None, cm_expires_at := None\<rparr>"

definition renew_command :: "int \<Rightarrow> string \<Rightarrow> string \<Rightarrow> int \<Rightarrow> command_row list \<Rightarrow> command_row list" where
  "renew_command now i owner fence = update_command i (command_held now owner fence) (renew_row now)"

text \<open>What the middleware records of a response.\<close>

definition settle_command ::
  "lib \<Rightarrow> int \<Rightarrow> string \<Rightarrow> string \<Rightarrow> int \<Rightarrow> nat \<Rightarrow> json \<Rightarrow> command_row list \<Rightarrow> command_row list" where
  "settle_command L now i owner fence status body =
     update_command i (command_held now owner fence)
       (if 500 \<le> status \<or> contains_str (json_text L body) ''lease lost'' then stop_row ''uncertain''
        else finish_row status body)"

text \<open>\<open>guard\<close> and \<open>finish\<close>, which run inside the transaction of a commit.\<close>

definition command_ident :: "json \<Rightarrow> (string \<times> string \<times> int) option" where
  "command_ident c =
     (case (as_str (idx c ''id''), as_str (idx c ''owner''), as_i64 (idx c ''fence'')) of
        (Some i, Some owner, Some fence) \<Rightarrow> Some (i, owner, fence)
      | _ \<Rightarrow> None)"

definition guard_lost :: string where "guard_lost = ''command lease lost''"

definition guard :: "int \<Rightarrow> json \<Rightarrow> command_row list \<Rightarrow> unit result" where
  "guard now c rows =
     (case command_ident c of
        None \<Rightarrow> Err guard_lost
      | Some (i, owner, fence) \<Rightarrow>
          if \<exists>r\<in>set rows. cm_id r = i \<and> command_held now owner fence r then Ok () else Err guard_lost)"

definition finish :: "int \<Rightarrow> json \<Rightarrow> nat \<Rightarrow> json \<Rightarrow> command_row list \<Rightarrow> command_row list result" where
  "finish now c status body rows =
     (case command_ident c of
        None \<Rightarrow> Err guard_lost
      | Some (i, owner, fence) \<Rightarrow>
          rbind (guard now c rows)
            (\<lambda>_. Ok (update_command i (\<lambda>r. cm_owner r = Some owner \<and> cm_fence r = fence) (finish_row status body) rows)))"

section \<open>Admission\<close>

record 'w host =
  h_parse_uuid :: "string \<Rightarrow> string option"
  h_uuid :: "'w \<Rightarrow> string \<times> 'w"
  h_clock :: "'w \<Rightarrow> int \<times> 'w"
  h_statement :: "'w \<Rightarrow> string option \<times> 'w"
  h_commands :: "'w \<Rightarrow> command_row list"
  h_set_commands :: "command_row list \<Rightarrow> 'w \<Rightarrow> 'w"
  h_session_exists :: "string \<Rightarrow> 'w \<Rightarrow> bool"
  h_files :: files
  h_namespace :: "string option"
  h_next :: "string \<Rightarrow> json \<Rightarrow> 'w \<Rightarrow> reply \<times> 'w"

type_synonym ('w, 'a) act = "'w \<Rightarrow> 'a result \<times> 'w"

definition aret :: "'a \<Rightarrow> ('w, 'a) act" where "aret x = (\<lambda>w. (Ok x, w))"

definition abind :: "('w, 'a) act \<Rightarrow> ('a \<Rightarrow> ('w, 'b) act) \<Rightarrow> ('w, 'b) act" where
  "abind m f = (\<lambda>w. case m w of (Inl e, w') \<Rightarrow> (Err e, w') | (Inr x, w') \<Rightarrow> f x w')"

definition draw_uuid :: "'w host \<Rightarrow> ('w, string) act" where
  "draw_uuid H = (\<lambda>w. case h_uuid H w of (u, w') \<Rightarrow> (Ok u, w'))"

text \<open>One statement: it may fail, and otherwise reads the clock and maps the table atomically.\<close>

definition statement :: "'w host \<Rightarrow> (int \<Rightarrow> command_row list \<Rightarrow> ('a \<times> command_row list) result) \<Rightarrow> ('w, 'a) act" where
  "statement H f =
     (\<lambda>w. case h_statement H w of
        (Some e, w1) \<Rightarrow> (Err e, w1)
      | (None, w1) \<Rightarrow>
          (case h_clock H w1 of (now, w2) \<Rightarrow>
             (case f now (h_commands H w2) of
                Inl e \<Rightarrow> (Err e, w2)
              | Inr (x, rows) \<Rightarrow> (Ok x, h_set_commands H rows w2))))"

definition select :: "'w host \<Rightarrow> (command_row list \<Rightarrow> 'a) \<Rightarrow> ('w, 'a) act" where
  "select H f = statement H (\<lambda>now rows. Ok (f rows, rows))"

text \<open>Components of the path, with the session identifier in its canonical spelling.\<close>

definition canonical_route :: "(string \<Rightarrow> string option) \<Rightarrow> string \<Rightarrow> (string \<times> string option) option" where
  "canonical_route parse_uuid path =
     (let parts = split_char (CHR ''/'') path
      in if length parts > 2 \<and> parts ! 1 = ''sessions''
         then (case parse_uuid (parts ! 2) of
                 None \<Rightarrow> None
               | Some i \<Rightarrow> Some (join ''/'' (parts[2 := i]), Some i))
         else Some (join ''/'' parts, None))"

definition request_sha256 :: "lib \<Rightarrow> string \<Rightarrow> json \<Rightarrow> string result" where
  "request_sha256 L route body = digest L (JArr [JStr ''agent-command-v1'', JStr ''POST'', JStr route, body])"

definition supported_tools :: "string list" where
  "supported_tools =
     [''fixture_idempotent_write'', ''inspect_log'', ''analyze_500_ips'', ''validate_top_offending_ip'',
      ''inspect_sql_schema'', ''query_chicago_q1_revenue'', ''validate_chicago_q1_revenue'',
      ''inspect_employee_audit_schema'', ''audit_employee_phase_1'', ''calculate_new_york_median_salary'',
      ''generate_employee_phase_3_report'', ''validate_employee_audit'']"

definition is_supported :: "string \<Rightarrow> bool" where
  "is_supported name \<longleftrightarrow> name \<in> set supported_tools"

text \<open>
  The admission data of a new command: \<open>Inl\<close> is a refusal.  A panic of the loader ends the request;
  it appears as an error of the action.
\<close>

definition admission_data ::
  "lib \<Rightarrow> 'w host \<Rightarrow> bool \<Rightarrow> string \<Rightarrow> json \<Rightarrow> string option \<Rightarrow> ('w, reply + json) act" where
  "admission_data L H new_command route body sid =
     (if new_command \<and> route = ''/sessions''
      then (case cfg_load L (h_files H) (unwrap_or [] (as_str (idx body ''config_ref''))) of
              Panic m \<Rightarrow> (\<lambda>w. (Err (''panicked: '' @ m), w))
            | Done (Inl e) \<Rightarrow> aret (Inl (reject 422 ''invalid_config'' e))
            | Done (Inr (c, snapshot, sha)) \<Rightarrow>
                if \<exists>t\<in>set (c_tools c). \<not> is_supported (tl_name t)
                then aret (Inl (reject 422 ''invalid_config'' ''Unavailable tool''))
                else abind (draw_uuid H)
                       (\<lambda>u. aret (Inr (JObj [(''session_id'', JStr u), (''config'', snapshot), (''source_sha256'', JStr sha)]))))
      else aret (Inr (JObj [(''session_id'', json_opt sid)])))"

definition new_row ::
  "string \<Rightarrow> string \<Rightarrow> string \<Rightarrow> string \<Rightarrow> json \<Rightarrow> string \<Rightarrow> string option \<Rightarrow> command_row" where
  "new_row i namespace key route request sha sid =
     \<lparr>cm_id = i, cm_namespace = namespace, cm_key = key, cm_route = route, cm_request = request, cm_sha256 = sha,
      cm_session = sid, cm_status = ''pending'', cm_owner = None, cm_fence = 0, cm_expires_at = None, cm_response = None\<rparr>"

definition replay_reply :: "command_row \<Rightarrow> nat \<Rightarrow> json \<Rightarrow> reply" where
  "replay_reply row status body =
     (json_reply status body)\<lparr>rp_headers := [(''Idempotency-Replayed'', ''true''), (''Idempotency-Command-Id'', cm_id row)]\<rparr>"

definition accepted_reply :: "command_row \<Rightarrow> reply" where
  "accepted_reply row =
     (json_reply 202 (JObj [(''command_id'', JStr (cm_id row)), (''session_id'', json_opt (cm_session row)),
                            (''status'', JStr (cm_status row)), (''status_uri'', JStr (''/commands/'' @ cm_id row))]))
       \<lparr>rp_headers := [(''Retry-After'', ''1''), (''Idempotency-Command-Id'', cm_id row)]\<rparr>"

definition reused_reply :: reply where
  "reused_reply = reject 409 ''idempotency_key_reused'' ''Key already identifies different content or route''"

definition inject_command :: "json \<Rightarrow> command_row \<Rightarrow> string \<Rightarrow> int \<Rightarrow> string \<Rightarrow> string \<Rightarrow> json" where
  "inject_command body row owner fence namespace route =
     set_idx body ''_command''
       (JObj [(''id'', JStr (cm_id row)), (''owner'', JStr owner), (''fence'', json_int fence),
              (''namespace'', JStr namespace), (''route'', JStr route), (''admission'', idx (cm_request row) ''admission'')])"

text \<open>Execute a claimed command and record its response, unless it is a stream.\<close>

definition execute_command ::
  "lib \<Rightarrow> 'w host \<Rightarrow> command_row \<Rightarrow> string \<Rightarrow> int \<Rightarrow> string \<Rightarrow> string \<Rightarrow> json \<Rightarrow> ('w, reply) act" where
  "execute_command L H row owner fence namespace route body =
     abind (\<lambda>w. case h_next H route (inject_command body row owner fence namespace route) w of (r, w') \<Rightarrow> (Ok r, w'))
       (\<lambda>r. abind (if rp_stream r then aret ()
                   else (case rp_body r of
                           Broken_Body e \<Rightarrow> (\<lambda>w. (Err e, w))
                         | Raw_Body \<Rightarrow> aret ()
                         | Json_Body v \<Rightarrow>
                             statement H (\<lambda>now rows. Ok ((), settle_command L now (cm_id row) owner fence (rp_status r) v rows))))
          (\<lambda>_. aret (r\<lparr>rp_headers := rp_headers r @ [(''Idempotency-Command-Id'', cm_id row)]\<rparr>)))"

text \<open>What happens to a command whose row is in the table.\<close>

definition handle_row ::
  "lib \<Rightarrow> 'w host \<Rightarrow> string \<Rightarrow> string \<Rightarrow> string \<Rightarrow> json \<Rightarrow> command_row \<Rightarrow> ('w, reply) act" where
  "handle_row L H namespace route sha body row =
     (if cm_sha256 row \<noteq> sha \<or> cm_route row \<noteq> route then aret reused_reply
      else (case cm_response row of
              Some (status, recorded) \<Rightarrow> aret (replay_reply row status recorded)
            | None \<Rightarrow>
                abind (draw_uuid H)
                  (\<lambda>owner. abind (statement H (\<lambda>now rows. claim_command now (cm_id row) owner rows))
                     (\<lambda>fence. case fence of
                        None \<Rightarrow> aret (accepted_reply row)
                      | Some f \<Rightarrow> execute_command L H row owner f namespace route body))))"

definition row_missing :: string where
  "row_missing = ''no rows returned by a query that expected to return at least one row''"

definition register_command ::
  "lib \<Rightarrow> 'w host \<Rightarrow> string \<Rightarrow> string \<Rightarrow> string \<Rightarrow> string option \<Rightarrow> string \<Rightarrow> json \<Rightarrow> json \<Rightarrow> ('w, reply) act" where
  "register_command L H namespace key route sid sha body admission =
     abind (draw_uuid H)
       (\<lambda>i. abind (statement H (\<lambda>now rows.
               rbind (insert_command
                        (new_row i namespace key route (JObj [(''input'', body), (''admission'', admission)]) sha sid) rows)
                 (\<lambda>rows'. Ok ((), rows'))))
          (\<lambda>_. abind (statement H (\<lambda>now rows. rbind (ok_or row_missing (find_command namespace key rows)) (\<lambda>r. Ok (r, rows))))
             (\<lambda>row. handle_row L H namespace route sha body row)))"

definition admit_body ::
  "lib \<Rightarrow> 'w host \<Rightarrow> string \<Rightarrow> string \<Rightarrow> string option \<Rightarrow> json \<Rightarrow> ('w, reply) act" where
  "admit_body L H key route sid body =
     (case request_sha256 L route body of
        Inl e \<Rightarrow> (\<lambda>w. (Err e, w))
      | Inr sha \<Rightarrow>
          (case h_namespace H of
             None \<Rightarrow> (\<lambda>w. (Err ''AGENT_DEPLOYMENT_NAMESPACE is required'', w))
           | Some namespace \<Rightarrow>
               abind (select H (find_command namespace key))
                 (\<lambda>existing. abind (case (existing, sid) of
                                      (None, Some i) \<Rightarrow> abind (select H (\<lambda>_. ())) (\<lambda>_ w. (Ok (h_session_exists H i w), w))
                                    | _ \<Rightarrow> aret True)
                    (\<lambda>found. if \<not> found then aret (reject 404 ''not_found'' ''Session not found'')
                       else abind (admission_data L H (existing = None) route body sid)
                              (\<lambda>a. case a of
                                 Inl refusal \<Rightarrow> aret refusal
                               | Inr admission \<Rightarrow> register_command L H namespace key route sid sha body admission)))))"

definition admit :: "lib \<Rightarrow> 'w host \<Rightarrow> request \<Rightarrow> ('w, reply) act" where
  "admit L H q =
     (case rq_keys q of
        [] \<Rightarrow> aret (reject 422 ''idempotency_key_required'' ''Idempotency-Key is required'')
      | k # _ \<Rightarrow>
          (let key = unwrap_or [] k
           in if \<not> valid_key key (length (rq_keys q))
              then aret (reject 422 ''idempotency_key_invalid'' ''Invalid Idempotency-Key'')
              else (case canonical_route (h_parse_uuid H) (rq_path q) of
                      None \<Rightarrow> aret (reject 422 ''invalid_session_id'' ''Session ID must be UUID'')
                    | Some (route, sid) \<Rightarrow>
                        if \<not> rq_small q then aret (reject 422 ''invalid_request'' ''Request body too large'')
                        else (case rbind (rq_text q)
                                     (\<lambda>t. rbind (parse_strict_json L t) (normalize L (h_parse_uuid H) route)) of
                                Inl e \<Rightarrow> aret (reject 422 ''invalid_request'' e)
                              | Inr body \<Rightarrow> admit_body L H key route sid body))))"

definition admission :: "lib \<Rightarrow> 'w host \<Rightarrow> request \<Rightarrow> 'w \<Rightarrow> reply \<times> 'w" where
  "admission L H q w =
     (if rq_method q \<noteq> ''POST''
      then h_next H (rq_path q) (case rq_text q of Inr t \<Rightarrow> JStr t | Inl _ \<Rightarrow> JNull) w
      else (case admit L H q w of
              (Inr r, w') \<Rightarrow> (r, w')
            | (Inl e, w') \<Rightarrow> (reject 500 ''persistence_error'' e, w')))"

text \<open>A handler keeps the command in its session, with a fresh cell for acknowledgements.\<close>

definition attach :: "session \<Rightarrow> json \<Rightarrow> session" where
  "attach s q =
     s\<lparr>s_command := get q ''_command'',
       s_checkpoint_ack := Some \<lparr>ack_needs_reload = False, ack_revision = 0, ack_next_sequence = 0, ack_memory = [], ack_summaries = {}\<rparr>\<rparr>"

text \<open>Commands of the operator are inserted as started, with a lease of five minutes.\<close>

definition administrative_row ::
  "int \<Rightarrow> string \<Rightarrow> string \<Rightarrow> string \<Rightarrow> json \<Rightarrow> string \<Rightarrow> string \<Rightarrow> string \<Rightarrow> command_row" where
  "administrative_row now i namespace route input sha sid owner =
     (new_row i namespace i route (JObj [(''input'', input), (''admission'', JObj [(''session_id'', JStr sid)])]) sha (Some sid))
       \<lparr>cm_status := ''started'', cm_owner := Some owner, cm_fence := 1, cm_expires_at := Some (now + 300 * 1000000)\<rparr>"

definition insert_started :: "command_row \<Rightarrow> command_row list \<Rightarrow> command_row list result" where
  "insert_started row rows =
     (if find_command (cm_namespace row) (cm_key row) rows \<noteq> None \<or> (\<exists>r\<in>set rows. cm_id r = cm_id row)
      then Err duplicate_error else Ok (rows @ [row]))"

definition administrative :: "lib \<Rightarrow> 'w host \<Rightarrow> string \<Rightarrow> string \<Rightarrow> json \<Rightarrow> ('w, json) act" where
  "administrative L H sid route input =
     (case h_namespace H of
        None \<Rightarrow> (\<lambda>w. (Err ''environment variable not found'', w))
      | Some namespace \<Rightarrow>
          abind (draw_uuid H)
            (\<lambda>i. abind (draw_uuid H)
               (\<lambda>owner. case request_sha256 L route input of
                  Inl e \<Rightarrow> (\<lambda>w. (Err e, w))
                | Inr sha \<Rightarrow>
                    abind (statement H (\<lambda>now rows.
                             rbind (insert_started (administrative_row now i namespace route input sha sid owner) rows) (\<lambda>rows'. Ok ((), rows'))))
                      (\<lambda>_. aret (JObj [(''id'', JStr i), (''owner'', JStr owner), (''fence'', json_int 1),
                                       (''namespace'', JStr namespace), (''route'', JStr route)])))))"

section \<open>Updates by other parts of the program\<close>

text \<open>
  The updates of the table that \<^verbatim>\<open>main.rs\<close> makes: a commit attaches the session to its guarded
  command or blocks it, takes an abandoned command away from its worker, and an unresolved
  commit ends its command as uncertain.
\<close>

definition attach_command :: "int \<Rightarrow> json \<Rightarrow> string \<Rightarrow> command_row list \<Rightarrow> command_row list result" where
  "attach_command now c sid rows =
     (case command_ident c of
        None \<Rightarrow> Err guard_lost
      | Some (i, _) \<Rightarrow>
          rbind (guard now c rows) (\<lambda>_. Ok (update_command i (\<lambda>_. True) (\<lambda>r. r\<lparr>cm_session := Some sid\<rparr>) rows)))"

definition block_command :: "int \<Rightarrow> json \<Rightarrow> command_row list \<Rightarrow> command_row list result" where
  "block_command now c rows =
     (case command_ident c of
        None \<Rightarrow> Err guard_lost
      | Some (i, _) \<Rightarrow> rbind (guard now c rows) (\<lambda>_. Ok (update_command i (\<lambda>_. True) (stop_row ''blocked'') rows)))"

definition interrupt_command :: "int \<Rightarrow> string \<Rightarrow> command_row list \<Rightarrow> command_row list" where
  "interrupt_command now i =
     update_command i
       (\<lambda>r. cm_status r \<in> {''pending'', ''started''} \<and> (cm_expires_at r = None \<or> expired now (cm_expires_at r)))
       (stop_row ''uncertain'')"

definition abandon_command :: "json \<Rightarrow> command_row list \<Rightarrow> command_row list" where
  "abandon_command c rows =
     (case command_ident c of
        None \<Rightarrow> rows
      | Some (i, owner, fence) \<Rightarrow>
          update_command i (\<lambda>r. cm_owner r = Some owner \<and> cm_fence r = fence \<and> cm_status r = ''started'') (stop_row ''uncertain'') rows)"

section \<open>Any interleaving of workers\<close>

text \<open>One statement of some worker.\<close>

inductive table_step :: "lib \<Rightarrow> command_row list \<Rightarrow> command_row list \<Rightarrow> bool" for L where
  inserted: "insert_command (new_row i namespace key route q sha sid) rows = Ok rows' \<Longrightarrow> table_step L rows rows'"
| administered: "insert_started (administrative_row now i namespace route input sha sid owner) rows = Ok rows' \<Longrightarrow> table_step L rows rows'"
| claimed: "claim_command now i owner rows = Ok (f, rows') \<Longrightarrow> table_step L rows rows'"
| renewed: "table_step L rows (renew_command now i owner fence rows)"
| settled: "table_step L rows (settle_command L now i owner fence status body rows)"
| finished: "finish now c status body rows = Ok rows' \<Longrightarrow> table_step L rows rows'"
| attached: "attach_command now c sid rows = Ok rows' \<Longrightarrow> table_step L rows rows'"
| blocked: "block_command now c rows = Ok rows' \<Longrightarrow> table_step L rows rows'"
| interrupted: "table_step L rows (interrupt_command now i rows)"
| abandoned: "table_step L rows (abandon_command c rows)"

abbreviation table_steps :: "lib \<Rightarrow> command_row list \<Rightarrow> command_row list \<Rightarrow> bool" where
  "table_steps L \<equiv> (table_step L)\<^sup>*\<^sup>*"

text \<open>What holds of a row and of the table at all times.\<close>

definition row_ok :: "command_row \<Rightarrow> bool" where
  "row_ok r \<longleftrightarrow>
     (cm_response r \<noteq> None \<longrightarrow> cm_owner r = None \<and> cm_expires_at r = None \<and> cm_status r \<in> {''succeeded'', ''failed''})"

definition table_ok :: "command_row list \<Rightarrow> bool" where
  "table_ok rows \<longleftrightarrow>
     distinct (map cm_id rows) \<and> distinct (map (\<lambda>r. (cm_namespace r, cm_key r)) rows) \<and> (\<forall>r\<in>set rows. row_ok r)"

text \<open>What a statement may make of one row.\<close>

definition claim_row :: "int \<Rightarrow> string \<Rightarrow> command_row \<Rightarrow> (int \<times> command_row) option" where
  "claim_row now owner r =
     (if claimable now r \<and> cm_fence r < i64_max then Some (cm_fence r + 1, take_row now owner r) else None)"

inductive row_update :: "command_row \<Rightarrow> command_row \<Rightarrow> bool" where
  same: "row_update r r"
| renew: "cm_status r = ''started'' \<Longrightarrow> cm_owner r \<noteq> None \<Longrightarrow> row_update r (renew_row now r)"
| finish: "cm_owner r \<noteq> None \<Longrightarrow> row_update r (finish_row status body r)"
| stop: "cm_status r \<in> {''pending'', ''started''} \<Longrightarrow> st \<notin> {''succeeded'', ''failed''} \<Longrightarrow> row_update r (stop_row st r)"
| attach: "cm_status r = ''started'' \<Longrightarrow> row_update r (r\<lparr>cm_session := Some sid\<rparr>)"

lemmas row_defs = take_row_def renew_row_def finish_row_def stop_row_def

interpretation command_lease: fenced cm_fence command_held claim_row row_update
proof unfold_locales
  show "cm_fence r' = cm_fence r" if "row_update r r'" for r r' using that by cases (simp_all add: row_defs)
qed (auto simp: command_held_def claim_row_def claimable_def take_row_def expired_def unexpired_def lease_span_def
      split: option.splits if_splits)

lemma row_update_ident:
  "row_update r r' \<Longrightarrow> cm_id r' = cm_id r \<and> cm_namespace r' = cm_namespace r \<and> cm_key r' = cm_key r"
  by (induction rule: row_update.induct) (simp_all add: row_defs)

lemma row_update_ok: "row_update r r' \<Longrightarrow> row_ok r \<Longrightarrow> row_ok r'"
  by (induction rule: row_update.induct) (auto simp: row_ok_def row_defs outcome_status_def)

lemma row_update_final: "row_update r r' \<Longrightarrow> row_ok r \<Longrightarrow> cm_response r \<noteq> None \<Longrightarrow> r' = r"
  by (induction rule: row_update.induct) (auto simp: row_ok_def)

definition row_step :: "command_row \<Rightarrow> command_row \<Rightarrow> bool" where
  "row_step r r' \<longleftrightarrow> row_update r r' \<or> (\<exists>now owner f. claim_row now owner r = Some (f, r'))"

lemma row_step_same [simp]: "row_step r r"
  by (simp add: row_step_def row_update.same)

lemma row_step_ident: "row_step r r' \<Longrightarrow> cm_id r' = cm_id r \<and> cm_namespace r' = cm_namespace r \<and> cm_key r' = cm_key r"
  by (auto simp: row_step_def claim_row_def take_row_def dest: row_update_ident split: if_splits)

lemma row_step_ok: "row_step r r' \<Longrightarrow> row_ok r \<Longrightarrow> row_ok r'"
  by (auto simp: row_step_def claim_row_def claimable_def take_row_def row_ok_def dest: row_update_ok split: if_splits)

lemma row_step_final: "row_step r r' \<Longrightarrow> row_ok r \<Longrightarrow> cm_response r \<noteq> None \<Longrightarrow> r' = r"
  by (auto simp: row_step_def claim_row_def claimable_def row_ok_def dest: row_update_final split: if_splits)

lemma row_step_fence: "row_step r r' \<Longrightarrow> cm_fence r \<le> cm_fence r'"
  using command_lease.other_fence command_lease.claim_next by (fastforce simp: row_step_def)

lemma update_command_steps:
  "(\<And>r. r \<in> set rows \<Longrightarrow> cm_id r = i \<Longrightarrow> p r \<Longrightarrow> row_step r (f r)) \<Longrightarrow> list_all2 row_step rows (update_command i p f rows)"
  by (auto simp: update_command_def list_all2_conv_all_nth)

lemma held_started: "command_held now owner fence r \<Longrightarrow> cm_status r = ''started'' \<and> cm_owner r \<noteq> None"
  by (simp add: command_held_def)

lemma guard_row:
  assumes "guard now c rows = Ok ()" "table_ok rows" "r \<in> set rows" "command_ident c = Some (cm_id r, d)"
  shows "cm_status r = ''started'' \<and> cm_owner r \<noteq> None"
proof -
  obtain r' where "r' \<in> set rows" "cm_id r' = cm_id r" "cm_status r' = ''started''" "cm_owner r' \<noteq> None"
    using assms(1,4) held_started by (fastforce simp: guard_def split: prod.splits if_splits)
  moreover have "r' = r" using calculation assms(2,3) by (auto simp: table_ok_def distinct_map inj_on_def)
  ultimately show ?thesis by simp
qed

lemma find_id_unique:
  assumes "table_ok rows" "find (\<lambda>r. cm_id r = i) rows = Some r" "x \<in> set rows" "cm_id x = i"
  shows "x = r"
  using assms by (auto simp: table_ok_def distinct_map inj_on_def find_Some_iff)

text \<open>A statement steps every row and may append a new one.\<close>

definition row_key :: "command_row \<Rightarrow> string \<times> string" where
  "row_key r = (cm_namespace r, cm_key r)"

definition table_grows :: "command_row list \<Rightarrow> command_row list \<Rightarrow> bool" where
  "table_grows rows rows' \<longleftrightarrow>
     list_all2 row_step rows rows'
     \<or> (\<exists>r. rows' = rows @ [r] \<and> cm_response r = None \<and> cm_id r \<notin> cm_id ` set rows \<and> row_key r \<notin> row_key ` set rows)"

lemma table_grows_steps: "list_all2 row_step rows rows' \<Longrightarrow> table_grows rows rows'"
  by (simp add: table_grows_def)

lemma table_grows_refl: "table_grows rows rows"
  by (rule table_grows_steps) (simp add: list_all2_refl)

lemma table_step_rows:
  assumes "table_step L rows rows'" "table_ok rows"
  shows "table_grows rows rows'"
  using assms
proof (induction rule: table_step.induct)
  case (inserted i namespace key route q sha sid rows rows')
  show ?case
  proof (cases "find_command namespace key rows")
    case None
    then have "rows' = rows @ [new_row i namespace key route q sha sid]" "i \<notin> cm_id ` set rows"
      using inserted by (auto simp: insert_command_def new_row_def split: if_splits)
    then show ?thesis using None
      by (auto simp: table_grows_def new_row_def row_key_def find_command_def find_None_iff)
  next
    case (Some r)
    then show ?thesis using inserted by (simp add: insert_command_def new_row_def table_grows_refl)
  qed
next
  case (administered now i namespace route input sha sid owner rows rows')
  then show ?case
    by (auto simp: insert_started_def administrative_row_def new_row_def table_grows_def row_key_def find_command_def
        find_None_iff split: if_splits)
next
  case (claimed now i owner rows f rows')
  show ?case
  proof (cases "find (\<lambda>r. cm_id r = i) rows")
    case None
    then show ?thesis using claimed by (simp add: claim_command_def table_grows_refl)
  next
    case (Some r)
    have "list_all2 row_step rows (update_command i (claimable now) (take_row now owner) rows)" if "cm_fence r < i64_max"
    proof (rule update_command_steps)
      show "row_step x (take_row now owner x)" if "x \<in> set rows" "cm_id x = i" "claimable now x" for x
        using find_id_unique [OF claimed(2) Some that(1,2)] that(3) \<open>cm_fence r < i64_max\<close>
        by (auto simp: row_step_def claim_row_def)
    qed
    then show ?thesis using claimed Some
      by (auto simp: claim_command_def table_grows_refl table_grows_steps split: if_splits)
  qed
next
  case (renewed rows now i owner fence)
  have "list_all2 row_step rows (renew_command now i owner fence rows)"
    unfolding renew_command_def
    by (rule update_command_steps) (auto simp: row_step_def dest: held_started intro: row_update.renew)
  then show ?case by (rule table_grows_steps)
next
  case (settled rows now i owner fence status body)
  have "list_all2 row_step rows (settle_command L now i owner fence status body rows)"
    unfolding settle_command_def
    by (rule update_command_steps)
       (auto simp: row_step_def dest: held_started intro: row_update.finish row_update.stop)
  then show ?case by (rule table_grows_steps)
next
  case (finished now c status body rows rows')
  then obtain i owner fence where i: "command_ident c = Some (i, owner, fence)"
    "rows' = update_command i (\<lambda>r. cm_owner r = Some owner \<and> cm_fence r = fence) (finish_row status body) rows"
    by (auto simp: finish_def result_simps split: option.splits)
  have "list_all2 row_step rows rows'"
    unfolding i(2) by (rule update_command_steps) (auto simp: row_step_def intro: row_update.finish)
  then show ?case by (rule table_grows_steps)
next
  case (attached now c sid rows rows')
  then obtain i d where g: "guard now c rows = Ok ()" "command_ident c = Some (i, d)" and r:
    "rows' = update_command i (\<lambda>_. True) (\<lambda>r. r\<lparr>cm_session := Some sid\<rparr>) rows"
    by (auto simp: attach_command_def result_simps split: option.splits)
  have "list_all2 row_step rows rows'"
    unfolding r by (rule update_command_steps)
      (use guard_row [OF g(1) attached(2)] g(2) in \<open>auto simp: row_step_def intro: row_update.attach\<close>)
  then show ?case by (rule table_grows_steps)
next
  case (blocked now c rows rows')
  then obtain i d where g: "guard now c rows = Ok ()" "command_ident c = Some (i, d)" and r:
    "rows' = update_command i (\<lambda>_. True) (stop_row ''blocked'') rows"
    by (auto simp: block_command_def result_simps split: option.splits)
  have "list_all2 row_step rows rows'"
    unfolding r by (rule update_command_steps)
      (use guard_row [OF g(1) blocked(2)] g(2) in \<open>auto simp: row_step_def intro: row_update.stop\<close>)
  then show ?case by (rule table_grows_steps)
next
  case (interrupted rows now i)
  have "list_all2 row_step rows (interrupt_command now i rows)"
    unfolding interrupt_command_def
    by (rule update_command_steps) (auto simp: row_step_def intro: row_update.stop)
  then show ?case by (rule table_grows_steps)
next
  case (abandoned rows c)
  have "list_all2 row_step rows (abandon_command c rows)"
    by (auto simp: abandon_command_def row_step_def list_all2_refl intro!: update_command_steps row_update.stop split: option.split)
  then show ?case by (rule table_grows_steps)
qed

lemma row_steps_ident: "list_all2 row_step rows old \<Longrightarrow> map cm_id old = map cm_id rows \<and> map row_key old = map row_key rows"
  by (induction rule: list_all2_induct) (auto simp: row_key_def dest: row_step_ident)

lemma row_steps_ok: "list_all2 row_step rows old \<Longrightarrow> \<forall>r\<in>set rows. row_ok r \<Longrightarrow> \<forall>r\<in>set old. row_ok r"
  by (induction rule: list_all2_induct) (auto dest: row_step_ok)

lemma table_step_ok: "table_step L rows rows' \<Longrightarrow> table_ok rows \<Longrightarrow> table_ok rows'"
proof -
  assume ok: "table_ok rows" and "table_step L rows rows'"
  then consider "list_all2 row_step rows rows'"
    | r where "rows' = rows @ [r]" "cm_response r = None" "cm_id r \<notin> cm_id ` set rows" "row_key r \<notin> row_key ` set rows"
    using table_step_rows unfolding table_grows_def by blast
  then show "table_ok rows'"
  proof cases
    case 1
    then show ?thesis using ok row_steps_ident [OF 1] row_steps_ok [OF 1] by (simp add: table_ok_def row_key_def [abs_def])
  next
    case (2 r)
    then show ?thesis using ok by (auto simp: table_ok_def row_key_def row_ok_def)
  qed
qed

lemma table_step_row:
  assumes "table_step L rows rows'" "table_ok rows" "r \<in> set rows"
  shows "\<exists>r'\<in>set rows'. row_step r r'"
  using table_step_rows [OF assms(1,2)] unfolding table_grows_def
proof
  assume steps: "list_all2 row_step rows rows'"
  obtain k where "k < length rows" "r = rows ! k" using assms(3) by (metis in_set_conv_nth)
  then show ?thesis using steps by (auto simp: list_all2_conv_all_nth intro!: bexI [of _ "rows' ! k"])
qed (use assms(3) in \<open>auto intro: bexI [of _ r]\<close>)

lemma table_steps_row:
  assumes "table_steps L rows rows'" "table_ok rows" "r \<in> set rows"
  shows "table_ok rows' \<and> (\<exists>r'\<in>set rows'. cm_id r' = cm_id r \<and> cm_fence r \<le> cm_fence r' \<and> (cm_response r \<noteq> None \<longrightarrow> r' = r))"
  using assms
proof (induction rule: rtranclp_induct)
  case (step b c)
  then obtain r' where r': "r' \<in> set b" "cm_id r' = cm_id r" "cm_fence r \<le> cm_fence r'" "cm_response r \<noteq> None \<longrightarrow> r' = r" "table_ok b"
    by blast
  obtain r'' where r'': "r'' \<in> set c" "row_step r' r''" using table_step_row [OF step(2) r'(5,1)] by blast
  have "row_ok r'" using r'(1,5) by (simp add: table_ok_def)
  then have "r'' = r" if "cm_response r \<noteq> None" using r'(4) row_step_final [OF r''(2)] that by simp
  then show ?case using r' r'' row_step_ident [OF r''(2)] row_step_fence [OF r''(2)] table_step_ok [OF step(2) r'(5)] by force
qed auto

text \<open>A worker that was passed over never passes the guard again.\<close>

lemma guard_holder:
  assumes "guard now c rows = Ok ()" "command_ident c = Some (i, owner, fence)"
  shows "\<exists>r\<in>set rows. cm_id r = i \<and> cm_fence r = fence"
  using assms by (auto simp: guard_def command_held_def split: if_splits)

lemma guard_stale:
  assumes ok: "table_ok rows0" and g0: "guard now0 c rows0 = Ok ()"
    and s1: "table_steps L rows0 rows1" and g1: "guard now1 c' rows1 = Ok ()"
    and c: "command_ident c = Some (i, owner, fence)" and c': "command_ident c' = Some (i, owner', fence')" and other: "fence' \<noteq> fence"
    and s2: "table_steps L rows1 rows2"
  shows "guard now2 c rows2 = Err guard_lost"
proof -
  have unique: "r = r'" if "table_ok rows" "r \<in> set rows" "r' \<in> set rows" "cm_id r = cm_id r'" for rows r r'
    using that by (auto simp: table_ok_def distinct_map inj_on_def)
  obtain r0 where r0: "r0 \<in> set rows0" "cm_id r0 = i" "cm_fence r0 = fence" using guard_holder [OF g0 c] by blast
  obtain r1 where r1: "r1 \<in> set rows1" "cm_id r1 = i" "cm_fence r1 = fence'" using guard_holder [OF g1 c'] by blast
  have ok1: "table_ok rows1" and "\<exists>r\<in>set rows1. cm_id r = cm_id r0 \<and> cm_fence r0 \<le> cm_fence r"
    using table_steps_row [OF s1 ok r0(1)] by auto
  then have lt: "cm_fence r0 < cm_fence r1" using unique [OF ok1 _ r1(1)] r0 r1 other by fastforce
  have ok2: "table_ok rows2" and "\<exists>r\<in>set rows2. cm_id r = cm_id r1 \<and> cm_fence r1 \<le> cm_fence r"
    using table_steps_row [OF s2 ok1 r1(1)] by auto
  then obtain r2 where r2: "r2 \<in> set rows2" "cm_id r2 = cm_id r1" "cm_fence r1 \<le> cm_fence r2" by blast
  show ?thesis
  proof (rule ccontr)
    assume "guard now2 c rows2 \<noteq> Err guard_lost"
    then have "guard now2 c rows2 = Ok ()" using c by (auto simp: guard_def split: if_splits)
    then obtain r where "r \<in> set rows2" "cm_id r = i" "cm_fence r = fence" using guard_holder c by blast
    then show False using unique [OF ok2 _ r2(1)] r2 r1 r0 lt by fastforce
  qed
qed

section \<open>Normal forms of requests\<close>

lemma map_of_snoc: "map_of (kvs @ [(k, v)]) k' = (if map_of kvs k' = None \<and> k' = k then Some v else map_of kvs k')"
  by (induction kvs) auto

lemma or_insert_idem [simp]: "or_insert k v (or_insert k v' kvs) = or_insert k v' kvs"
  by (auto simp: or_insert_def map_of_snoc)

lemma or_insert_other [simp]: "map_of kvs k \<noteq> None \<Longrightarrow> or_insert k v kvs = kvs"
  by (auto simp: or_insert_def)

lemma map_of_or_insert: "map_of (or_insert k v kvs) k' = (if k' = k \<and> map_of kvs k = None then Some v else map_of kvs k')"
  by (auto simp: or_insert_def map_of_snoc simp del: map_of_append)

lemma keys_or_insert: "fst ` set (or_insert k v kvs) = insert k (fst ` set kvs)"
  by (auto simp: or_insert_def map_of_eq_None_iff)

lemma keys_obj_insert: "fst ` set (obj_insert k v kvs) = insert k (fst ` set kvs)"
  by (induction k v kvs rule: obj_insert.induct) auto

text \<open>The canonical text of a UUID is read back as itself.\<close>

definition uuid_canonical :: "(string \<Rightarrow> string option) \<Rightarrow> bool" where
  "uuid_canonical parse_uuid \<longleftrightarrow> (\<forall>t i. parse_uuid t = Some i \<longrightarrow> parse_uuid i = Some i)"

lemma normalize_fields_keys:
  assumes "normalize_fields P route obj = Ok obj'"
  shows "fst ` set obj' \<subseteq> set (route_fields route)"
proof -
  have keys: "fst ` set obj \<subseteq> set (route_fields route)"
    using assms by (auto simp: normalize_fields_def split: if_splits)
  have create: "fst ` set obj' = insert ''config_ref'' (fst ` set obj)" if "normalize_create obj = Ok obj'"
  proof -
    have "obj' = or_insert ''config_ref'' (JStr ''log-analysis.yaml'') obj"
      using that by (simp add: normalize_create_def Let_def split: if_splits)
    then show ?thesis by (simp add: keys_or_insert)
  qed
  have cancel: "fst ` set obj' = insert ''run_id'' (fst ` set obj)" if n: "normalize_cancel P obj = Ok obj'"
  proof -
    obtain i where "obj' = obj_insert ''run_id'' (JStr i) obj"
      using n by (auto simp: normalize_cancel_def split: option.splits)
    then show ?thesis by (simp add: keys_obj_insert)
  qed
  have run: "fst ` set obj' = (if ends_with route ''/resume'' then {''content''} else {}) \<union> insert ''max_steps'' (fst ` set obj)"
    if "normalize_run route obj = Ok obj'"
  proof -
    have "obj' = (if ends_with route ''/resume'' then or_insert ''content'' JNull (or_insert ''max_steps'' JNull obj)
        else or_insert ''max_steps'' JNull obj)"
      using that by (simp add: normalize_run_def Let_def split: if_splits)
    then show ?thesis by (auto simp only: keys_or_insert split: if_splits)
  qed
  show ?thesis
    using assms keys create cancel run
    by (simp add: normalize_fields_def route_fields_def split: if_splits)
qed

lemma normalize_create_idem: "normalize_create obj = Ok obj' \<Longrightarrow> normalize_create obj' = Ok obj'"
  by (auto simp: normalize_create_def Let_def map_of_or_insert split: if_splits)

lemma normalize_cancel_idem:
  "uuid_canonical P \<Longrightarrow> normalize_cancel P obj = Ok obj' \<Longrightarrow> normalize_cancel P obj' = Ok obj'"
  by (auto simp: normalize_cancel_def uuid_canonical_def map_of_obj_insert obj_insert_same split: option.splits)

lemma normalize_run_idem: "normalize_run route obj = Ok obj' \<Longrightarrow> normalize_run route obj' = Ok obj'"
  by (auto simp: normalize_run_def Let_def map_of_or_insert idx_def split: if_splits)

lemma normalize_fields_idem:
  assumes "uuid_canonical P" "normalize_fields P route obj = Ok obj'"
  shows "normalize_fields P route obj' = Ok obj'"
proof -
  have keys: "\<not> (\<exists>k\<in>fst ` set obj'. k \<notin> set (route_fields route))"
    using normalize_fields_keys [OF assms(2)] by auto
  consider "route = ''/sessions''" | "route \<noteq> ''/sessions''" "ends_with route ''/messages''"
    | "route \<noteq> ''/sessions''" "\<not> ends_with route ''/messages''" "ends_with route ''/cancel''"
    | "route \<noteq> ''/sessions''" "\<not> ends_with route ''/messages''" "\<not> ends_with route ''/cancel''" by blast
  then show ?thesis
  proof cases
    case 1
    then show ?thesis using assms(2) keys normalize_create_idem by (simp add: normalize_fields_def split: if_splits)
  next
    case 2
    then show ?thesis using assms(2) keys by (simp add: normalize_fields_def split: if_splits)
  next
    case 3
    then show ?thesis using assms keys normalize_cancel_idem by (simp add: normalize_fields_def split: if_splits)
  next
    case 4
    then show ?thesis using assms(2) keys normalize_run_idem by (simp add: normalize_fields_def split: if_splits)
  qed
qed

lemma normalize_idem:
  assumes "uuid_canonical P" "normalize L P route body = Ok body'"
  shows "normalize L P route body' = Ok body'"
proof -
  obtain obj obj' t where "as_object body = Some obj" "normalize_fields P route obj = Ok obj'"
    "canonical L (JObj obj') = Ok t" "body' = JObj obj'"
    using assms(2) by (auto simp: normalize_def result_simps simp del: canonical.simps)
  then show ?thesis using normalize_fields_idem [OF assms(1)] by (simp add: normalize_def del: canonical.simps)
qed

section \<open>Replays\<close>

text \<open>
  What the host guarantees: between two statements of a handler the table only changes by
  statements of other workers, the table is a cell, and clock and identifiers do not touch it.
\<close>

definition database :: "lib \<Rightarrow> 'w host \<Rightarrow> bool" where
  "database L H \<longleftrightarrow>
     (\<forall>w. table_steps L (h_commands H w) (h_commands H (snd (h_statement H w)))
        \<and> h_commands H (snd (h_clock H w)) = h_commands H w
        \<and> h_commands H (snd (h_uuid H w)) = h_commands H w)
     \<and> (\<forall>rows w. h_commands H (h_set_commands H rows w) = rows)"

text \<open>\<open>quiet H P\<close>: only the routes behind the middleware end the property \<open>P\<close> of the world.\<close>

definition quiet :: "'w host \<Rightarrow> ('w \<Rightarrow> bool) \<Rightarrow> bool" where
  "quiet H P \<longleftrightarrow>
     (\<forall>w. P w \<longrightarrow> P (snd (h_statement H w)) \<and> P (snd (h_clock H w)) \<and> P (snd (h_uuid H w)) \<and> (\<forall>rows. P (h_set_commands H rows w)))"

text \<open>The row of a finished command is in the table, and \<open>P\<close> holds.\<close>

definition recorded :: "'w host \<Rightarrow> ('w \<Rightarrow> bool) \<Rightarrow> command_row \<Rightarrow> 'w \<Rightarrow> bool" where
  "recorded H P row w \<longleftrightarrow> table_ok (h_commands H w) \<and> row \<in> set (h_commands H w) \<and> P w"

lemma find_recorded:
  assumes "table_ok rows" "row \<in> set rows"
  shows "find_command (cm_namespace row) (cm_key row) rows = Some row"
proof -
  have "\<exists>r. find_command (cm_namespace row) (cm_key row) rows = Some r"
    using assms(2) by (auto simp: find_command_def find_None_iff simp flip: not_None_eq)
  then obtain r where r: "find_command (cm_namespace row) (cm_key row) rows = Some r" by blast
  then have "r \<in> set rows" "cm_namespace r = cm_namespace row" "cm_key r = cm_key row"
    by (auto simp: find_command_def find_Some_iff)
  then show ?thesis using assms r by (auto simp: table_ok_def distinct_map inj_on_def)
qed

lemma recorded_statement:
  assumes db: "database L H" and q: "quiet H P" and fin: "cm_response row \<noteq> None" and w: "recorded H P row w"
    and f: "\<And>now rows x rows'. table_ok rows \<Longrightarrow> row \<in> set rows \<Longrightarrow> f now rows = Ok (x, rows') \<Longrightarrow> rows' = rows \<and> R x"
    and run: "statement H f w = (r, w')"
  shows "recorded H P row w' \<and> (\<forall>x. r = Ok x \<longrightarrow> R x)"
proof -
  obtain e w1 where s: "h_statement H w = (e, w1)" by fastforce
  have w1: "recorded H P row w1"
  proof -
    have "table_steps L (h_commands H w) (h_commands H w1)" using db s unfolding database_def by (metis snd_conv)
    moreover have "P w1" using q w s by (metis quiet_def recorded_def snd_conv)
    ultimately show ?thesis using table_steps_row fin w unfolding recorded_def by blast
  qed
  obtain now w2 where c: "h_clock H w1 = (now, w2)" by fastforce
  have w2: "recorded H P row w2" using w1 c db q unfolding recorded_def database_def quiet_def by (metis snd_conv)
  show ?thesis
  proof (cases e)
    case (Some m)
    then show ?thesis using run s w1 by (auto simp: statement_def)
  next
    case None
    show ?thesis
    proof (cases "f now (h_commands H w2)")
      case (Inl m)
      then show ?thesis using run s c None w2 by (auto simp: statement_def)
    next
      case (Inr y)
      obtain x rows' where y: "y = (x, rows')" by fastforce
      have "rows' = h_commands H w2" "R x" using f [of "h_commands H w2" now x rows'] w2 Inr y by (auto simp: recorded_def)
      moreover have "w' = h_set_commands H rows' w2" "r = Ok x" using run s c None Inr y by (auto simp: statement_def)
      ultimately show ?thesis using w2 db q unfolding recorded_def database_def quiet_def by auto
    qed
  qed
qed

lemma recorded_uuid:
  "database L H \<Longrightarrow> quiet H P \<Longrightarrow> recorded H P row w \<Longrightarrow> draw_uuid H w = (r, w') \<Longrightarrow> recorded H P row w' \<and> (\<exists>u. r = Ok u)"
  unfolding recorded_def database_def quiet_def draw_uuid_def by (auto split: prod.splits) (metis snd_conv)+

text \<open>
  An operation on the world in which the finished row is recorded: it stays recorded, and the
  result of the operation is as given.
\<close>

definition answers_with :: "('w \<Rightarrow> bool) \<Rightarrow> ('w, 'a) act \<Rightarrow> ('a \<Rightarrow> bool) \<Rightarrow> bool" where
  "answers_with Q m R \<longleftrightarrow> (\<forall>w r w'. Q w \<longrightarrow> m w = (r, w') \<longrightarrow> Q w' \<and> (\<forall>x. r = Ok x \<longrightarrow> R x))"

lemma answers_aret: "R x \<Longrightarrow> answers_with Q (aret x) R"
  by (simp add: answers_with_def aret_def)

lemma answers_abind:
  assumes "answers_with Q m S" "\<And>x. S x \<Longrightarrow> answers_with Q (f x) R"
  shows "answers_with Q (abind m f) R"
  unfolding answers_with_def
proof (intro allI impI)
  fix w r w'
  assume Q: "Q w" and run: "abind m f w = (r, w')"
  obtain r1 w1 where m: "m w = (r1, w1)" by fastforce
  have w1: "Q w1" "\<And>x. r1 = Ok x \<Longrightarrow> S x" using assms(1) Q m by (auto simp: answers_with_def)
  show "Q w' \<and> (\<forall>x. r = Ok x \<longrightarrow> R x)"
  proof (cases r1)
    case (Inl e)
    then show ?thesis using run m w1 by (auto simp: abind_def)
  next
    case (Inr x)
    then show ?thesis using run m w1 assms(2) [of x] by (auto simp: abind_def answers_with_def)
  qed
qed

lemma answers_statement:
  assumes "database L H" "quiet H P" "cm_response row \<noteq> None"
    and f: "\<And>now rows x rows'. table_ok rows \<Longrightarrow> row \<in> set rows \<Longrightarrow> f now rows = Ok (x, rows') \<Longrightarrow> rows' = rows \<and> R x"
  shows "answers_with (recorded H P row) (statement H f) R"
  unfolding answers_with_def
proof (intro allI impI)
  show "recorded H P row w' \<and> (\<forall>x. r = Ok x \<longrightarrow> R x)"
    if Q: "recorded H P row w" and run: "statement H f w = (r, w')" for w r w'
    by (rule recorded_statement [OF assms(1-3) Q _ run]) (rule f)
qed

lemma admit_body_replays:
  assumes db: "database L H" and q: "quiet H P" and row: "cm_response row = Some (status, body')"
    and ident: "h_namespace H = Some (cm_namespace row)" "request_sha256 L route body = Ok sha"
  shows "answers_with (recorded H P row) (admit_body L H (cm_key row) route sid body)
     (\<lambda>r. r = (if cm_sha256 row = sha \<and> cm_route row = route then replay_reply row status body' else reused_reply))"
proof -
  let ?Q = "recorded H P row"
  have fin: "cm_response row \<noteq> None" using row by simp
  note stmt = answers_statement [OF db q fin]
  have uuid: "answers_with ?Q (draw_uuid H) (\<lambda>_. True)"
    unfolding answers_with_def using recorded_uuid [OF db q] by blast
  have handle: "answers_with ?Q (handle_row L H (cm_namespace row) route sha body row)
      (\<lambda>r. r = (if cm_sha256 row = sha \<and> cm_route row = route then replay_reply row status body' else reused_reply))"
    unfolding handle_row_def using row by (auto intro: answers_aret)
  have register: "answers_with ?Q (register_command L H (cm_namespace row) (cm_key row) route sid sha body adm)
      (\<lambda>r. r = (if cm_sha256 row = sha \<and> cm_route row = route then replay_reply row status body' else reused_reply))" for adm
    unfolding register_command_def
  proof (rule answers_abind [OF uuid], rule answers_abind [where S = "\<lambda>_. True"])
    fix i
    let ?r = "new_row i (cm_namespace row) (cm_key row) route (JObj [(''input'', body), (''admission'', adm)]) sha sid"
    show "answers_with ?Q (statement H (\<lambda>now rows. rbind (insert_command ?r rows) (\<lambda>rows'. Ok ((), rows')))) (\<lambda>_. True)"
      by (rule stmt) (auto simp: insert_command_def new_row_def find_recorded)
    show "answers_with ?Q (abind (statement H (\<lambda>now rows. rbind (ok_or row_missing (find_command (cm_namespace row) (cm_key row) rows))
        (\<lambda>r. Ok (r, rows)))) (handle_row L H (cm_namespace row) route sha body))
        (\<lambda>r. r = (if cm_sha256 row = sha \<and> cm_route row = route then replay_reply row status body' else reused_reply))"
      by (rule answers_abind [where S = "\<lambda>r. r = row"], rule stmt) (auto simp: find_recorded handle)
  qed
  define R where "R = (\<lambda>r. r = (if cm_sha256 row = sha \<and> cm_route row = route then replay_reply row status body' else reused_reply))"
  have "answers_with ?Q (abind (aret True)
      (\<lambda>found. if \<not> found then aret (reject 404 ''not_found'' ''Session not found'')
         else abind (admission_data L H False route body sid)
                (\<lambda>a. case a of Inl refusal \<Rightarrow> aret refusal
                   | Inr adm \<Rightarrow> register_command L H (cm_namespace row) (cm_key row) route sid sha body adm))) R"
  proof (rule answers_abind [OF answers_aret [where R = "\<lambda>b. b"]], simp_all)
    show "answers_with ?Q (abind (admission_data L H False route body sid)
        (\<lambda>a. case a of Inl refusal \<Rightarrow> aret refusal
           | Inr adm \<Rightarrow> register_command L H (cm_namespace row) (cm_key row) route sid sha body adm)) R"
      by (rule answers_abind [where S = "\<lambda>a. \<exists>adm. a = Inr adm"], simp add: admission_data_def answers_aret)
         (elim exE, simp only: sum.case register [folded R_def])
  qed
  then have "answers_with ?Q (abind (case (existing, sid) of
                                      (None, Some i) \<Rightarrow> abind (select H (\<lambda>_. ())) (\<lambda>_ w. (Ok (h_session_exists H i w), w))
                                    | _ \<Rightarrow> aret True)
      (\<lambda>found. if \<not> found then aret (reject 404 ''not_found'' ''Session not found'')
         else abind (admission_data L H (existing = None) route body sid)
                (\<lambda>a. case a of Inl refusal \<Rightarrow> aret refusal
                   | Inr adm \<Rightarrow> register_command L H (cm_namespace row) (cm_key row) route sid sha body adm))) R"
    if "existing = Some row" for existing
    unfolding that by (simp cong: if_cong)
  then show ?thesis
    unfolding R_def [symmetric] admit_body_def ident option.case sum.case select_def
    by (intro answers_abind [where S = "\<lambda>x. x = Some row"] stmt) (auto simp: find_recorded)
qed

end
