(* ===== verification/Diagnostics.thy ===== *)
theory Diagnostics
  imports Session_State "HOL-Library.Product_Lexorder"
begin

text \<open>
  Append-only diagnostic journal (\<^verbatim>\<open>diagnostics.rs\<close>): three families of records with
  consecutive ordinals, a bounded read cache of the newest 32 payloads per family, and an
  outbox of records not yet committed.  The caches are shown to be the newest part of the
  full history at all times, and reloading from the archive to rebuild them.
\<close>

section \<open>Model\<close>

definition recent_cap :: nat where "recent_cap = 32"

text \<open>The members of \<open>FAMILIES\<close>.\<close>

definition fam_events :: string where "fam_events = ''compaction_events''"
definition fam_attempts :: string where "fam_attempts = ''compaction_attempts''"
definition fam_decisions :: string where "fam_decisions = ''compaction_decisions''"

definition families :: "string list" where
  "families = [fam_events, fam_attempts, fam_decisions]"

definition trim_recent :: "'a list \<Rightarrow> 'a list" where
  "trim_recent items = (if length items > recent_cap then drop (length items - recent_cap) items else items)"

definition diag_count :: "session \<Rightarrow> string \<Rightarrow> int" where
  "diag_count s family = unwrap_or 0 (map_of (s_diagnostic_counts s) family)"

definition cache_lengths :: "session \<Rightarrow> nat list" where
  "cache_lengths s =
     [length (s_compaction_events s), length (s_compaction_attempts s), length (s_compaction_decisions s)]"

definition refresh_completeness :: "session \<Rightarrow> session" where
  "refresh_completeness s =
     s\<lparr>s_diagnostics_complete :=
         list_all (\<lambda>(len, family). diag_count s family = int len) (zip (cache_lengths s) families)\<rparr>"

definition attempt_reduction :: "json \<Rightarrow> int option" where
  "attempt_reduction payload =
     (case as_i64 (idx payload ''reduction_tokens'') of
        Some r \<Rightarrow> Some r
      | None \<Rightarrow>
          Option.bind (as_i64 (idx payload ''before_estimated_tokens''))
            (\<lambda>b. Option.bind (as_i64 (idx payload ''after_estimated_tokens''))
                   (\<lambda>a. checked_i64 (b - a))))"

definition note_attempt :: "json \<Rightarrow> session \<Rightarrow> session" where
  "note_attempt payload s =
     (if idx payload ''accepted'' \<noteq> JBool True
      then s\<lparr>s_diagnostic_rejections := wrap_i64 (s_diagnostic_rejections s + 1)\<rparr>
      else (case attempt_reduction payload of
              Some r \<Rightarrow> s\<lparr>s_compaction_savings_total := wrap_i64 (s_compaction_savings_total s + r)\<rparr>
            | None \<Rightarrow> s\<lparr>s_compaction_savings_known := False\<rparr>))"

definition push_family :: "session \<Rightarrow> string \<Rightarrow> json \<Rightarrow> session result" where
  "push_family s family payload =
     (if family = fam_events then
        (case as_str payload of
           None \<Rightarrow> Err ''invalid compaction event''
         | Some t \<Rightarrow> Ok (s\<lparr>s_compaction_events := trim_recent (s_compaction_events s @ [t])\<rparr>))
      else if family = fam_attempts then
        (let s1 = note_attempt payload s
         in Ok (s1\<lparr>s_compaction_attempts := trim_recent (s_compaction_attempts s1 @ [payload])\<rparr>))
      else if family = fam_decisions then
        Ok (s\<lparr>s_compaction_decisions := trim_recent (s_compaction_decisions s @ [payload])\<rparr>)
      else Err (''unknown diagnostic family '' @ CHR 0x27 # family @ [CHR 0x27]))"

definition append_diagnostic :: "session \<Rightarrow> string \<Rightarrow> json \<Rightarrow> session result" where
  "append_diagnostic s family payload =
     (case checked_i64 (diag_count s family + 1) of
        None \<Rightarrow> Err ''diagnostic ordinal overflow''
      | Some ordinal \<Rightarrow>
          rbind (push_family s family payload)
            (\<lambda>s1. Ok (refresh_completeness
                       (s1\<lparr>s_diagnostic_counts := obj_insert family ordinal (s_diagnostic_counts s1),
                           s_diagnostics_pending := s_diagnostics_pending s1 @
                             [\<lparr>d_family = family, d_ordinal = ordinal, d_payload = payload\<rparr>]\<rparr>))))"

fun append_all :: "session \<Rightarrow> string \<Rightarrow> json list \<Rightarrow> session result" where
  "append_all s family [] = Ok s"
| "append_all s family (p # ps) = rbind (append_diagnostic s family p) (\<lambda>s'. append_all s' family ps)"

definition stage_diagnostics :: "session \<Rightarrow> session result" where
  "stage_diagnostics s =
     (if s_diagnostic_counts s \<noteq> [] then Ok s
      else
        (let events = s_compaction_events s; attempts = s_compaction_attempts s;
             decisions = s_compaction_decisions s;
             accepted = length (filter (\<lambda>a. idx a ''accepted'' = JBool True) attempts);
             s0 = s\<lparr>s_compaction_events := [], s_compaction_attempts := [], s_compaction_decisions := [],
                    s_diagnostic_rejections := 0, s_compaction_savings_total := 0,
                    s_compaction_savings_known := (accepted = length events)\<rparr>
         in rbind (append_all s0 fam_events (map JStr events))
              (\<lambda>s1. rbind (append_all s1 fam_attempts attempts)
                 (\<lambda>s2. append_all s2 fam_decisions decisions))))"

definition record_diagnostic :: "session \<Rightarrow> string \<Rightarrow> json \<Rightarrow> session result" where
  "record_diagnostic s family payload =
     (if family \<notin> set families then Err (''unknown diagnostic family '' @ CHR 0x27 # family @ [CHR 0x27])
      else if family = fam_events \<and> \<not> is_string payload
      then Err ''compaction event must contain a summary string''
      else rbind (stage_diagnostics s) (\<lambda>s1. append_diagnostic s1 family payload))"

definition diag_eq :: "diag_record \<Rightarrow> diag_record \<Rightarrow> bool" where
  "diag_eq a b \<longleftrightarrow> d_family a = d_family b \<and> d_ordinal a = d_ordinal b \<and> json_eq (d_payload a) (d_payload b)"

definition gap_error :: "string \<Rightarrow> string" where
  "gap_error family = ''diagnostic recent history has a gap: family='' @ family"

definition count_error :: "string \<Rightarrow> int \<Rightarrow> int \<Rightarrow> string" where
  "count_error family expected actual =
     ''diagnostic counter differs from archived history: family='' @ family @ '' expected=''
     @ show_int expected @ '' stored='' @ show_int actual"

text \<open>One family of the loop of \<open>hydrate\<close>: the archived rows must be the newest ones, in order.\<close>

definition family_rows ::
  "bool \<Rightarrow> session \<Rightarrow> diag_record list \<Rightarrow> (string \<times> int) list \<Rightarrow> string \<Rightarrow> json list result" where
  "family_rows legacy s records counts family =
     (let expected = diag_count s family;
          actual = unwrap_or 0 (map_of counts family);
          rows = filter (\<lambda>r. d_family r = family) records;
          retained = (if legacy then nat expected else min (nat expected) recent_cap)
      in if expected < 0 \<or> actual \<noteq> expected then Err (count_error family expected actual)
         else if length rows \<noteq> retained
                 \<or> map d_ordinal rows \<noteq> map (\<lambda>k. expected - int retained + int k + 1) [0..<retained]
         then Err (gap_error family)
         else Ok (map d_payload (drop (length rows - recent_cap) rows)))"

definition event_text :: "json \<Rightarrow> string result" where
  "event_text v = ok_or ''invalid archived compaction event'' (as_str v)"

definition hydrate :: "session \<Rightarrow> diag_record list \<Rightarrow> (string \<times> int) list \<Rightarrow> session result" where
  "hydrate s records counts =
     (let legacy = (s_diagnostic_counts s = [])
      in rbind (if \<not> legacy then Ok s
                else rbind (stage_diagnostics s)
                       (\<lambda>s1. if list_all2 diag_eq
                                  (sort_key (\<lambda>r. (d_family r, d_ordinal r)) (s_diagnostics_pending s1)) records
                             then Ok s1
                             else Err ''legacy diagnostic snapshot differs from archived history''))
         (\<lambda>s1.
            if \<exists>f\<in>set (map fst (s_diagnostic_counts s1)). f \<notin> set families
            then Err ''unknown diagnostic counter family''
            else
              rbind (rbind (family_rows legacy s1 records counts fam_events) (mapM event_text))
                (\<lambda>events. rbind (family_rows legacy s1 records counts fam_attempts)
                  (\<lambda>attempts. rbind (family_rows legacy s1 records counts fam_decisions)
                    (\<lambda>decisions.
                       Ok (refresh_completeness
                            (s1\<lparr>s_compaction_events := events, s_compaction_attempts := attempts,
                                s_compaction_decisions := decisions, s_diagnostics_pending := []\<rparr>)))))))"

section \<open>The journal invariant\<close>

text \<open>
  The specification of the journal is its full history, a list of payloads per family.
  \<open>journal_inv h b s\<close> relates a session to the history \<open>h\<close> of which the first \<open>b f\<close> records of
  family \<open>f\<close> are committed.
\<close>

definition family_cache :: "session \<Rightarrow> string \<Rightarrow> json list" where
  "family_cache s f =
     (if f = fam_events then map JStr (s_compaction_events s)
      else if f = fam_attempts then s_compaction_attempts s
      else s_compaction_decisions s)"

definition journal_rows :: "string \<Rightarrow> nat \<Rightarrow> json list \<Rightarrow> diag_record list" where
  "journal_rows f b h = map (\<lambda>k. \<lparr>d_family = f, d_ordinal = int k + 1, d_payload = h ! k\<rparr>) [b..<length h]"

definition journal_inv :: "(string \<Rightarrow> json list) \<Rightarrow> (string \<Rightarrow> nat) \<Rightarrow> session \<Rightarrow> bool" where
  "journal_inv h b s \<longleftrightarrow>
     fst ` set (s_diagnostic_counts s) \<subseteq> set families
     \<and> (\<forall>f\<in>set families.
          diag_count s f = int (length (h f))
          \<and> family_cache s f = last_n recent_cap (h f)
          \<and> b f \<le> length (h f)
          \<and> filter (\<lambda>r. d_family r = f) (s_diagnostics_pending s) = journal_rows f (b f) (h f))
     \<and> list_all is_string (h fam_events)
     \<and> s_diagnostics_complete s = (\<forall>f\<in>set families. length (h f) \<le> recent_cap)"

interpretation diag_cache: recent_cache trim_recent recent_cap
  by unfold_locales (auto simp: trim_recent_def recent_cap_def last_n_def)

lemma journal_rows_snoc:
  "b \<le> length h \<Longrightarrow>
   journal_rows f b (h @ [p]) = journal_rows f b h @ [\<lparr>d_family = f, d_ordinal = int (length h) + 1, d_payload = p\<rparr>]"
  by (simp add: journal_rows_def nth_append)

lemma obj_insert_keys: "fst ` set (obj_insert k v kvs) = insert k (fst ` set kvs)"
  by (induction k v kvs rule: obj_insert.induct) (simp_all add: insert_commute)

lemma fam_distinct [simp]:
  "fam_events \<noteq> fam_attempts" "fam_events \<noteq> fam_decisions" "fam_attempts \<noteq> fam_decisions"
  "fam_attempts \<noteq> fam_events" "fam_decisions \<noteq> fam_events" "fam_decisions \<noteq> fam_attempts"
  by (simp_all add: fam_events_def fam_attempts_def fam_decisions_def)

lemma as_str_Some: "as_str v = Some t \<longleftrightarrow> v = JStr t"
  by (cases v) auto

lemma family_cases:
  assumes "f \<in> set families"
  obtains "f = fam_events" | "f = fam_attempts" | "f = fam_decisions"
  using assms by (auto simp: families_def)

lemma trim_recent_map: "trim_recent (map g xs) = map g (trim_recent xs)"
  by (simp add: trim_recent_def drop_map)

lemma note_attempt_frame [simp]:
  "s_compaction_events (note_attempt p s) = s_compaction_events s"
  "s_compaction_attempts (note_attempt p s) = s_compaction_attempts s"
  "s_compaction_decisions (note_attempt p s) = s_compaction_decisions s"
  "s_diagnostic_counts (note_attempt p s) = s_diagnostic_counts s"
  "s_diagnostics_pending (note_attempt p s) = s_diagnostics_pending s"
  by (simp_all add: note_attempt_def split: option.split)

lemma push_family_Ok:
  assumes "push_family s f p = Ok s'"
  shows "f \<in> set families"
    and "f = fam_events \<Longrightarrow> is_string p"
    and "family_cache s' f = trim_recent (family_cache s f @ [p])"
    and "g \<in> set families \<Longrightarrow> g \<noteq> f \<Longrightarrow> family_cache s' g = family_cache s g"
    and "s_diagnostic_counts s' = s_diagnostic_counts s"
    and "s_diagnostics_pending s' = s_diagnostics_pending s"
proof -
  consider (ev) t where "f = fam_events" "p = JStr t"
      "s' = s\<lparr>s_compaction_events := trim_recent (s_compaction_events s @ [t])\<rparr>"
    | (at) s1 where "f = fam_attempts" "s1 = note_attempt p s"
      "s' = s1\<lparr>s_compaction_attempts := trim_recent (s_compaction_attempts s1 @ [p])\<rparr>"
    | (de) "f = fam_decisions"
      "s' = s\<lparr>s_compaction_decisions := trim_recent (s_compaction_decisions s @ [p])\<rparr>"
  proof -
    assume ev: "\<And>t. f = fam_events \<Longrightarrow> p = JStr t \<Longrightarrow>
        s' = s\<lparr>s_compaction_events := trim_recent (s_compaction_events s @ [t])\<rparr> \<Longrightarrow> thesis"
      and att: "\<And>s1. f = fam_attempts \<Longrightarrow> s1 = note_attempt p s \<Longrightarrow>
        s' = s1\<lparr>s_compaction_attempts := trim_recent (s_compaction_attempts s1 @ [p])\<rparr> \<Longrightarrow> thesis"
      and de: "f = fam_decisions \<Longrightarrow>
        s' = s\<lparr>s_compaction_decisions := trim_recent (s_compaction_decisions s @ [p])\<rparr> \<Longrightarrow> thesis"
    show thesis
    proof (cases "f = fam_events")
      case True
      then obtain t where "as_str p = Some t"
        using assms by (cases "as_str p") (simp_all add: push_family_def)
      then show thesis using True assms by (intro ev [of t]) (simp_all add: push_family_def as_str_Some)
    next
      case False
      then show thesis
        using assms att [OF _ refl] de by (simp add: push_family_def Let_def split: if_splits)
    qed
  qed
  note c = this
  show "f \<in> set families"
    by (cases rule: c) (simp_all add: families_def)
  show "f = fam_events \<Longrightarrow> is_string p"
    by (cases rule: c) (simp_all add: is_string_def)
  show "family_cache s' f = trim_recent (family_cache s f @ [p])"
    by (cases rule: c) (simp_all add: family_cache_def trim_recent_map [symmetric])
  show "g \<in> set families \<Longrightarrow> g \<noteq> f \<Longrightarrow> family_cache s' g = family_cache s g"
    by (cases rule: c) (auto simp: family_cache_def families_def)
  show "s_diagnostic_counts s' = s_diagnostic_counts s"
    by (cases rule: c) simp_all
  show "s_diagnostics_pending s' = s_diagnostics_pending s"
    by (cases rule: c) simp_all
qed

lemma refresh_completeness_frame [simp]:
  "diag_count (refresh_completeness s) f = diag_count s f"
  "family_cache (refresh_completeness s) f = family_cache s f"
  "s_diagnostics_pending (refresh_completeness s) = s_diagnostics_pending s"
  "s_diagnostic_counts (refresh_completeness s) = s_diagnostic_counts s"
  by (simp_all add: refresh_completeness_def diag_count_def family_cache_def)

lemma refresh_completeness_complete:
  assumes "\<And>f. f \<in> set families \<Longrightarrow> diag_count s f = int (length (h f)) \<and> family_cache s f = last_n recent_cap (h f)"
  shows "s_diagnostics_complete (refresh_completeness s) = (\<forall>f\<in>set families. length (h f) \<le> recent_cap)"
proof -
  have len: "length (family_cache s f) = min recent_cap (length (h f))" if "f \<in> set families" for f
    using assms [OF that] by simp
  have "(diag_count s f = int (length (family_cache s f))) = (length (h f) \<le> recent_cap)"
    if "f \<in> set families" for f
    using assms [OF that] len [OF that] by (auto simp: min_def)
  from this [of fam_events] this [of fam_attempts] this [of fam_decisions] show ?thesis
    by (simp add: refresh_completeness_def cache_lengths_def families_def family_cache_def)
qed

lemma append_diagnostic_inv:
  assumes inv: "journal_inv h b s" and ok: "append_diagnostic s f p = Ok s'"
  shows "journal_inv (h(f := h f @ [p])) b s'"
proof -
  obtain s1 where i: "in_i64 (diag_count s f + 1)" and p: "push_family s f p = Ok s1"
    and s': "s' = refresh_completeness
       (s1\<lparr>s_diagnostic_counts := obj_insert f (diag_count s f + 1) (s_diagnostic_counts s1),
           s_diagnostics_pending := s_diagnostics_pending s1 @
             [\<lparr>d_family = f, d_ordinal = diag_count s f + 1, d_payload = p\<rparr>]\<rparr>)" (is "_ = refresh_completeness ?t")
    using ok by (auto simp: append_diagnostic_def result_simps split: option.splits)
  note pf = push_family_Ok [OF p]
  have cache: "family_cache ?t g = family_cache s1 g" for g
    by (simp add: family_cache_def)
  have count: "diag_count ?t g = (if g = f then diag_count s f + 1 else diag_count s g)" for g
    using pf(5) by (simp add: diag_count_def map_of_obj_insert)
  have pair: "diag_count ?t g = int (length ((h(f := h f @ [p])) g))
      \<and> family_cache ?t g = last_n recent_cap ((h(f := h f @ [p])) g)" if "g \<in> set families" for g
  proof (cases "g = f")
    case True
    have "trim_recent (family_cache s f @ [p]) = last_n recent_cap (h f @ [p])"
      using inv pf(1) by (intro diag_cache.push_keeps) (simp add: journal_inv_def)
    then show ?thesis using True inv pf(1,3) count cache by (simp add: journal_inv_def)
  next
    case False
    then show ?thesis using inv that pf(4) count cache by (simp add: journal_inv_def)
  qed
  have pending: "filter (\<lambda>r. d_family r = g) (s_diagnostics_pending ?t) = journal_rows g (b g) ((h(f := h f @ [p])) g)"
    if "g \<in> set families" for g
    using inv that pf(1,6) by (auto simp: journal_inv_def journal_rows_snoc)
  have keys: "fst ` set (s_diagnostic_counts ?t) \<subseteq> set families"
    using inv pf(1,5) by (simp add: journal_inv_def obj_insert_keys)
  have events: "list_all is_string ((h(f := h f @ [p])) fam_events)"
    using inv pf(2) by (simp add: journal_inv_def)
  have base: "b g \<le> length ((h(f := h f @ [p])) g)" if "g \<in> set families" for g
    using inv that by (auto simp: journal_inv_def)
  show ?thesis
    unfolding s' journal_inv_def refresh_completeness_frame
    using keys events base pair pending refresh_completeness_complete [OF pair] by blast
qed

lemma append_diagnostic_succeeds:
  assumes "journal_inv h b s" "f \<in> set families" "f = fam_events \<longrightarrow> is_string p"
    "int (length (h f)) < i64_max"
  shows "\<exists>s'. append_diagnostic s f p = Ok s'"
proof -
  have "in_i64 (diag_count s f + 1)"
    using assms by (simp add: journal_inv_def in_i64_def i64_min_def)
  moreover have "\<exists>s1. push_family s f p = Ok s1"
    using assms(2,3) by (cases rule: family_cases) (auto simp: push_family_def Let_def is_string_def split: option.splits)
  ultimately show ?thesis by (auto simp: append_diagnostic_def checked_i64_def)
qed

lemma append_all_inv:
  "journal_inv h b s \<Longrightarrow> append_all s f ps = Ok s' \<Longrightarrow> journal_inv (h(f := h f @ ps)) b s'"
proof (induction ps arbitrary: h s)
  case (Cons p ps)
  then obtain s1 where s1: "append_diagnostic s f p = Ok s1" "append_all s1 f ps = Ok s'"
    by (auto simp: result_simps)
  from Cons.IH [OF append_diagnostic_inv [OF Cons.prems(1) s1(1)] s1(2)] show ?case
    by (simp del: fun_upd_apply add: fun_upd_upd) (simp add: fun_upd_def)
qed simp

lemma journal_inv_cong:
  assumes "\<And>f. f \<in> set families \<Longrightarrow> h f = h' f"
  shows "journal_inv h b s = journal_inv h' b s"
proof -
  have "h fam_events = h' fam_events" by (rule assms) (simp add: families_def)
  with assms show ?thesis unfolding journal_inv_def by (simp cong: ball_cong)
qed

text \<open>A fresh session has the empty journal; staging imports an unjournalled snapshot whole.\<close>

lemma journal_inv_empty:
  assumes "s_diagnostic_counts s = []" "s_diagnostics_pending s = []" "s_diagnostics_complete s"
    "\<And>f. f \<in> set families \<Longrightarrow> family_cache s f = []"
  shows "journal_inv (\<lambda>_. []) (\<lambda>_. 0) s"
  using assms by (simp add: journal_inv_def diag_count_def journal_rows_def last_n_def)

lemma stage_diagnostics_inv:
  assumes "s_diagnostic_counts s = []" "s_diagnostics_pending s = []" "s_diagnostics_complete s"
    "stage_diagnostics s = Ok s'"
  shows "journal_inv (family_cache s) (\<lambda>_. 0) s'"
proof -
  define s0 where "s0 = s\<lparr>s_compaction_events := [], s_compaction_attempts := [], s_compaction_decisions := [],
                    s_diagnostic_rejections := 0, s_compaction_savings_total := 0,
                    s_compaction_savings_known :=
                     (length (filter (\<lambda>a. idx a ''accepted'' = JBool True) (s_compaction_attempts s)) = length (s_compaction_events s))\<rparr>"
  have 0: "journal_inv (\<lambda>_. []) (\<lambda>_. 0) s0"
    using assms by (intro journal_inv_empty) (simp_all add: s0_def family_cache_def)
  obtain s1 s2 where a: "append_all s0 fam_events (map JStr (s_compaction_events s)) = Ok s1"
      "append_all s1 fam_attempts (s_compaction_attempts s) = Ok s2"
      "append_all s2 fam_decisions (s_compaction_decisions s) = Ok s'"
    using assms(1,4) unfolding stage_diagnostics_def Let_def s0_def [symmetric]
    by (auto simp: result_simps)
  have "journal_inv ((\<lambda>_. [])(fam_events := map JStr (s_compaction_events s),
      fam_attempts := s_compaction_attempts s, fam_decisions := s_compaction_decisions s)) (\<lambda>_. 0) s'"
    using append_all_inv [OF append_all_inv [OF append_all_inv [OF 0 a(1)] a(2)] a(3)] by simp
  then show ?thesis
    by (rule journal_inv_cong [THEN iffD1, rotated]) (auto simp: families_def family_cache_def)
qed

section \<open>Reloading\<close>

lemma journal_rows_tail:
  "length (journal_rows f b h) = length h - b"
  "map d_ordinal (journal_rows f b h) = map (\<lambda>k. int k + 1) [b..<length h]"
  "map d_payload (journal_rows f b h) = drop b h"
  by (simp_all add: journal_rows_def comp_def map_nth drop_map flip: drop_upt)
     (metis map_nth drop_map drop_upt add_0)

lemma family_rows_ok:
  assumes "diag_count s f = int (length h)" "unwrap_or 0 (map_of counts f) = int (length h)"
    "filter (\<lambda>r. d_family r = f) records = journal_rows f (length h - recent_cap) h"
  shows "family_rows False s records counts f = Ok (last_n recent_cap h)"
proof -
  let ?n = "min (length h) recent_cap"
  have "map (\<lambda>k. int k + 1) [length h - recent_cap..<length h]
      = map (\<lambda>k. int (length h) - int ?n + int k + 1) [0..<?n]"
    by (rule nth_equalityI) (auto simp: min_def)
  then show ?thesis
    using assms by (simp add: family_rows_def Let_def journal_rows_tail min_def last_n_def del: upt_Suc)
qed

lemma event_text_all:
  "list_all is_string ps \<Longrightarrow> \<exists>ts. mapM event_text ps = Ok ts \<and> map JStr ts = ps"
  by (induction ps) (auto simp: event_text_def is_string_def split: json.splits elim!: as_str.elims)

lemma hydrate_inv:
  assumes inv: "journal_inv h b s0" and snap: "s_diagnostic_counts s = s_diagnostic_counts s0" "s_diagnostic_counts s \<noteq> []"
    and counts: "\<And>f. f \<in> set families \<Longrightarrow> unwrap_or 0 (map_of counts f) = int (length (h f))"
    and recs: "\<And>f. f \<in> set families \<Longrightarrow>
        filter (\<lambda>r. d_family r = f) records = journal_rows f (length (h f) - recent_cap) (h f)"
  shows "\<exists>s'. hydrate s records counts = Ok s' \<and> journal_inv h (\<lambda>f. length (h f)) s'"
proof -
  have count: "diag_count s f = int (length (h f))" if "f \<in> set families" for f
    using inv that snap by (simp add: journal_inv_def diag_count_def)
  have rows: "family_rows False s records counts f = Ok (last_n recent_cap (h f))" if "f \<in> set families" for f
    using family_rows_ok count counts recs that by blast
  have "list_all is_string (last_n recent_cap (h fam_events))"
    using inv set_last_n by (fastforce simp: journal_inv_def list_all_iff)
  then obtain ts where ts: "mapM event_text (last_n recent_cap (h fam_events)) = Ok ts"
      "map JStr ts = last_n recent_cap (h fam_events)"
    using event_text_all by blast
  define t where "t = s\<lparr>s_compaction_events := ts, s_compaction_attempts := last_n recent_cap (h fam_attempts),
                s_compaction_decisions := last_n recent_cap (h fam_decisions), s_diagnostics_pending := []\<rparr>"
  have keys: "fst ` set (s_diagnostic_counts s) \<subseteq> set families"
    using inv snap by (simp add: journal_inv_def)
  then have "\<not> (\<exists>f\<in>set (map fst (s_diagnostic_counts s)). f \<notin> set families)" by auto
  then have "hydrate s records counts = Ok (refresh_completeness t)"
    using snap(2) ts rows [of fam_events] rows [of fam_attempts] rows [of fam_decisions]
    unfolding hydrate_def Let_def t_def by (simp add: families_def)
  moreover have pair: "diag_count t f = int (length (h f)) \<and> family_cache t f = last_n recent_cap (h f)"
    if "f \<in> set families" for f
    using that count [OF that] ts by (auto simp: t_def diag_count_def family_cache_def families_def)
  have "journal_inv h (\<lambda>f. length (h f)) (refresh_completeness t)"
    unfolding journal_inv_def refresh_completeness_frame
    using pair refresh_completeness_complete [OF pair] keys inv
    by (simp add: t_def journal_inv_def journal_rows_def)
  ultimately show ?thesis by blast
qed

section \<open>What the journal leaves alone\<close>

definition view ::
  "session \<Rightarrow> string \<times> message list \<times> string option \<times> workflow option \<times> json \<times> int \<times> string \<times> string
     \<times> json list \<times> json list \<times> string option \<times> string option \<times> json list \<times> string option \<times> nat
     \<times> ledger option \<times> int \<times> string option \<times> string option \<times> json option" where
  "view s = (s_goal s, s_memory s, s_compacted_context s, s_workflow s, s_completion_artifacts s, s_step_count s,
     s_status s, s_run_status s, s_executions s, s_pending_tool_calls s, s_pending_tool_phase s, s_final_answer s,
     s_model_request_diagnostics s, s_last_compaction_attempt_sha256 s, s_consecutive_invalid_responses s,
     s_compaction_ledger s, s_revision s, s_active_ledger_id s, s_run_id s, s_retention_pending s)"

lemmas view_eq = view_def prod.inject

lemma append_diagnostic_view: "append_diagnostic s f p = Ok s' \<Longrightarrow> view s' = view s"
  by (auto simp: append_diagnostic_def push_family_def note_attempt_def refresh_completeness_def view_def
        Let_def result_simps split: option.splits if_splits)

lemma append_all_view: "append_all s f ps = Ok s' \<Longrightarrow> view s' = view s"
proof (induction ps arbitrary: s)
  case (Cons p ps)
  then obtain s1 where "append_diagnostic s f p = Ok s1" "append_all s1 f ps = Ok s'" by (auto simp: result_simps)
  then show ?case using Cons.IH append_diagnostic_view by metis
qed simp

lemma stage_diagnostics_view:
  assumes "stage_diagnostics s = Ok s'"
  shows "view s' = view s"
proof (cases "s_diagnostic_counts s = []")
  case True
  define s0 where "s0 = s\<lparr>s_compaction_events := [], s_compaction_attempts := [], s_compaction_decisions := [],
                    s_diagnostic_rejections := 0, s_compaction_savings_total := 0,
                    s_compaction_savings_known := (length (filter (\<lambda>a. idx a ''accepted'' = JBool True) (s_compaction_attempts s))
                        = length (s_compaction_events s))\<rparr>"
  from assms True obtain s1 s2 where "append_all s0 fam_events (map JStr (s_compaction_events s)) = Ok s1"
    "append_all s1 fam_attempts (s_compaction_attempts s) = Ok s2"
    "append_all s2 fam_decisions (s_compaction_decisions s) = Ok s'"
    by (auto simp: stage_diagnostics_def result_simps Let_def s0_def)
  then have "view s' = view s0" using append_all_view by metis
  then show ?thesis by (simp add: s0_def view_def)
qed (use assms in \<open>simp add: stage_diagnostics_def\<close>)

lemma record_diagnostic_view:
  assumes "record_diagnostic s f p = Ok s'"
  shows "view s' = view s"
proof -
  from assms obtain s1 where "stage_diagnostics s = Ok s1" "append_diagnostic s1 f p = Ok s'"
    by (auto simp: record_diagnostic_def result_simps split: if_splits)
  then show ?thesis using stage_diagnostics_view append_diagnostic_view by metis
qed

end
