(* ===== verification/Timestamp.thy ===== *)
theory Timestamp
  imports Rust_Strings
begin

text \<open>
  The timestamps of transcript entries (\<open>transcript_timestamp\<close> of \<^verbatim>\<open>main.rs\<close>): the civil date of a
  number of seconds since 1970, computed with years that begin in March.  The reference is the
  Gregorian calendar, by leap years and lengths of months.
\<close>

section \<open>The computation\<close>

definition year_of_era :: "int \<Rightarrow> int" where
  "year_of_era doe = (doe - doe div 1460 + doe div 36524 - doe div 146096) div 365"

definition year_start :: "int \<Rightarrow> int" where
  "year_start yoe = 365 * yoe + yoe div 4 - yoe div 100"

definition month_day :: "int \<Rightarrow> int \<times> int" where
  "month_day doy =
     (let mp = (5 * doy + 2) div 153; day = doy - (153 * mp + 2) div 5 + 1
      in (mp + (if mp < 10 then 3 else -9), day))"

text \<open>\<open>seconds\<close> is unsigned, so the shift for negative day numbers is never taken.\<close>

definition civil_date :: "int \<Rightarrow> int \<times> int \<times> int" where
  "civil_date days =
     (let z = days + 719468; era = (if z \<ge> 0 then z else z - 146096) div 146097; doe = z - era * 146097;
          yoe = year_of_era doe; doy = doe - year_start yoe; (month, day) = month_day doy
      in (yoe + era * 400 + (if month \<le> 2 then 1 else 0), month, day))"

definition pad :: "nat \<Rightarrow> int \<Rightarrow> string" where
  "pad n i = (let t = show_int i in replicate (n - length t) (CHR ''0'') @ t)"

definition transcript_timestamp :: "nat \<Rightarrow> string" where
  "transcript_timestamp seconds =
     (case civil_date (int (seconds div 86400)) of (year, month, day) \<Rightarrow>
        let rest = int (seconds mod 86400)
        in pad 4 year @ ''-'' @ pad 2 month @ ''-'' @ pad 2 day @ ''T'' @ pad 2 (rest div 3600) @ '':''
           @ pad 2 (rest mod 3600 div 60) @ '':'' @ pad 2 (rest mod 60) @ ''Z'')"

section \<open>The calendar\<close>

definition leap :: "int \<Rightarrow> bool" where
  "leap y \<longleftrightarrow> y mod 4 = 0 \<and> y mod 100 \<noteq> 0 \<or> y mod 400 = 0"

definition month_length :: "int \<Rightarrow> int \<Rightarrow> int" where
  "month_length y m = (if m = 2 then (if leap y then 29 else 28) else if m \<in> {4, 6, 9, 11} then 30 else 31)"

text \<open>Days from the beginning of year 1 to the beginning of a year, and to a date.\<close>

definition year_days :: "int \<Rightarrow> int" where
  "year_days y = 365 * (y - 1) + (y - 1) div 4 - (y - 1) div 100 + (y - 1) div 400"

definition date_days :: "int \<Rightarrow> int \<Rightarrow> int \<Rightarrow> int" where
  "date_days y m d = year_days y + sum_list (map (month_length y) [1..m - 1]) + d - 1"

definition valid_date :: "int \<times> int \<times> int \<Rightarrow> bool" where
  "valid_date date = (case date of (y, m, d) \<Rightarrow> 1 \<le> m \<and> m \<le> 12 \<and> 1 \<le> d \<and> d \<le> month_length y m)"

lemma div_pred: "0 < n \<Longrightarrow> y div n = (y - 1) div n + (if y mod n = 0 then 1 else 0)" for y n :: int
proof -
  assume n: "0 < n"
  define q r where "q = y div n" and "r = y mod n"
  have y: "y = n * q + r" "0 \<le> r" "r < n" using n by (simp_all add: q_def r_def)
  show ?thesis
  proof (cases "r = 0")
    case True
    have "(n * q - 1) div n = q - 1" using n by (intro int_div_pos_eq [of _ _ _ "n - 1"]) (auto simp: algebra_simps)
    then show ?thesis using True y by (simp add: q_def [symmetric] r_def [symmetric])
  next
    case False
    have "(n * q + r - 1) div n = q" using y False by (intro int_div_pos_eq [of _ _ _ "r - 1"]) auto
    then show ?thesis using False y by (simp add: q_def [symmetric] r_def [symmetric])
  qed
qed

lemma year_days_Suc: "year_days (y + 1) = year_days y + (if leap y then 366 else 365)"
proof -
  have m: "y mod 100 = 0 \<Longrightarrow> y mod 4 = 0" "y mod 400 = 0 \<Longrightarrow> y mod 100 = 0"
    using mod_mod_cancel [of 4 100 y] mod_mod_cancel [of 100 400 y] by simp_all
  define a b c where "a = (y - 1) div 4" and "b = (y - 1) div 100" and "c = (y - 1) div 400"
  have "y div 4 = a + (if y mod 4 = 0 then 1 else 0)" "y div 100 = b + (if y mod 100 = 0 then 1 else 0)"
    "y div 400 = c + (if y mod 400 = 0 then 1 else 0)"
    unfolding a_def b_def c_def by (rule div_pred; simp)+
  then have "year_days (y + 1) = 365 * y + (a + (if y mod 4 = 0 then 1 else 0)) - (b + (if y mod 100 = 0 then 1 else 0))
      + (c + (if y mod 400 = 0 then 1 else 0))"
    by (simp only: year_days_def add_diff_cancel_right')
  moreover have "year_days y = 365 * (y - 1) + a - b + c" by (simp add: year_days_def a_def b_def c_def)
  ultimately show ?thesis using m by (auto simp: leap_def)
qed

section \<open>Correctness\<close>

text \<open>Within an era the year is found: checked at both ends of each of its 400 years.\<close>

definition pre_year :: "int \<Rightarrow> int" where
  "pre_year doe = doe - doe div 1460 + doe div 36524 - doe div 146096"

definition year_end :: "int \<Rightarrow> int" where
  "year_end y = (if y = 399 then 146097 else year_start (y + 1))"

lemma div_step: "0 < c \<Longrightarrow> 0 \<le> k \<Longrightarrow> (a + k) div c \<le> a div c + k" for a :: int
proof -
  assume c: "0 < c" "0 \<le> k"
  then have "k \<le> c * k" by (simp add: mult_le_cancel_right1)
  then have "(a + k) div c \<le> (a + c * k) div c" using c by (intro zdiv_mono1) auto
  then show ?thesis using c by simp
qed

lemma pre_year_mono:
  assumes "a \<le> b"
  shows "pre_year a \<le> pre_year b"
proof -
  have d: "x div 146096 = x div 36524 div 4" for x :: int by (simp add: zdiv_zmult2_eq [symmetric])
  have "b div 1460 \<le> a div 1460 + (b - a)" using div_step [of 1460 "b - a" a] assms by simp
  moreover have "b div 36524 div 4 \<le> a div 36524 div 4 + (b div 36524 - a div 36524)"
    using div_step [of 4 "b div 36524 - a div 36524" "a div 36524"] zdiv_mono1 [OF assms] by simp
  ultimately show ?thesis by (simp add: pre_year_def d)
qed

lemma era_years:
  "y \<in> {0..399} \<Longrightarrow> 365 * y \<le> pre_year (year_start y) \<and> pre_year (year_end y - 1) < 365 * (y + 1)
     \<and> year_end y - year_start y = (if leap (y + 1) then 366 else 365)"
proof -
  have "list_all (\<lambda>y. 365 * y \<le> pre_year (year_start y) \<and> pre_year (year_end y - 1) < 365 * (y + 1)
     \<and> year_end y - year_start y = (if leap (y + 1) then 366 else 365)) [0..399]" by code_simp
  then show "y \<in> {0..399} \<Longrightarrow> ?thesis" unfolding list_all_iff set_upto by (rule bspec)
qed

lemma year_of_era_bounds:
  assumes "0 \<le> doe" "doe < 146097"
  shows "year_of_era doe \<in> {0..399} \<and> year_start (year_of_era doe) \<le> doe \<and> doe < year_end (year_of_era doe)"
proof -
  define y where "y = year_of_era doe"
  have y: "y = pre_year doe div 365" by (simp add: y_def year_of_era_def pre_year_def)
  have "pre_year 0 \<le> pre_year doe" "pre_year doe \<le> pre_year 146096" using assms by (auto intro: pre_year_mono)
  moreover have "pre_year 0 = 0" "pre_year 146096 = 145999" by (simp_all add: pre_year_def)
  ultimately have "0 div 365 \<le> y" "y \<le> 145999 div 365" unfolding y by (auto intro: zdiv_mono1)
  then have range: "y \<in> {0..399}" by simp
  have near: "365 * y \<le> pre_year doe" "pre_year doe < 365 * (y + 1)" 
    unfolding y using mult_div_mod_eq [of 365 "pre_year doe"] pos_mod_bound [of 365 "pre_year doe"]
      pos_mod_sign [of 365 "pre_year doe"] by (simp_all add: distrib_left)
  have "year_start y \<le> doe"
  proof (rule ccontr)
    assume less: "\<not> year_start y \<le> doe"
    then have "y \<noteq> 0" using assms by (auto simp: year_start_def)
    then have prev: "y - 1 \<in> {0..399}" "year_end (y - 1) = year_start y" using range by (auto simp: year_end_def)
    then have "pre_year doe \<le> pre_year (year_end (y - 1) - 1)" using less by (intro pre_year_mono) simp
    moreover have "pre_year (year_end (y - 1) - 1) < 365 * y" using era_years [OF prev(1)] by simp
    ultimately show False using near by linarith
  qed
  moreover have "doe < year_end y"
  proof (cases "y = 399")
    case True
    then show ?thesis using assms by (simp add: year_end_def)
  next
    case False
    then have succ: "y + 1 \<in> {0..399}" "year_end y = year_start (y + 1)" using range by (auto simp: year_end_def)
    show ?thesis
    proof (rule ccontr)
      assume "\<not> doe < year_end y"
      then have "pre_year (year_start (y + 1)) \<le> pre_year doe" using succ by (intro pre_year_mono) simp
      moreover have "365 * (y + 1) \<le> pre_year (year_start (y + 1))" using era_years [OF succ(1)] by simp
      ultimately show False using near by linarith
    qed
  qed
  ultimately show ?thesis using range by (simp add: y_def)
qed

text \<open>The months: a year from March on, then January and February.\<close>

definition march_days :: "int \<Rightarrow> int" where
  "march_days m = sum_list (map (month_length 1) [3..m - 1])"

lemma month_table:
  "mp \<in> {0..9} \<Longrightarrow> (153 * mp + 2) div 5 = march_days (mp + 3)
     \<and> (153 * (mp + 1) + 2) div 5 = march_days (mp + 3) + month_length 1 (mp + 3)"
proof -
  have "list_all (\<lambda>mp. (153 * mp + 2) div 5 = march_days (mp + 3)
     \<and> (153 * (mp + 1) + 2) div 5 = march_days (mp + 3) + month_length 1 (mp + 3)) [0..9]" by code_simp
  then show "mp \<in> {0..9} \<Longrightarrow> ?thesis" unfolding list_all_iff set_upto by (rule bspec)
qed

lemma month_index:
  fixes doy :: int
  assumes "mp = (5 * doy + 2) div 153"
  shows "(153 * mp + 2) div 5 \<le> doy \<and> doy < (153 * (mp + 1) + 2) div 5"
proof -
  have "153 * mp \<le> 5 * doy + 2" "5 * doy + 2 < 153 * (mp + 1)" unfolding assms by auto
  then have "(153 * mp + 2) div 5 \<le> (5 * doy + 4) div 5" "(5 * (doy + 1)) div 5 \<le> (153 * (mp + 1) + 2) div 5"
    by (intro zdiv_mono1; simp)+
  then show ?thesis by simp
qed

lemma months:
  assumes "doy \<in> {0..365}" "month_day doy = (m, d)"
  shows "1 \<le> d" "doy < 306 \<Longrightarrow> m \<in> {3..12} \<and> d \<le> month_length 1 m \<and> march_days m + d - 1 = doy"
    "306 \<le> doy \<Longrightarrow> m = 1 \<and> d \<le> 31 \<and> doy = 305 + d \<or> m = 2 \<and> d \<le> 29 \<and> doy = 336 + d"
proof -
  define mp where "mp = (5 * doy + 2) div 153"
  have md: "m = mp + (if mp < 10 then 3 else -9)" "d = doy - (153 * mp + 2) div 5 + 1"
    using assms(2) by (simp_all add: month_day_def mp_def Let_def)
  note mi = month_index [OF mp_def]
  show "1 \<le> d" using mi md by simp
  have "2 div 153 \<le> mp" "mp \<le> (5 * 365 + 2) div 153" unfolding mp_def using assms(1) by (auto intro!: zdiv_mono1)
  then have mp: "0 \<le> mp" "mp \<le> 11" by simp_all
  show "m \<in> {3..12} \<and> d \<le> month_length 1 m \<and> march_days m + d - 1 = doy" if "doy < 306"
  proof -
    have "mp \<le> (5 * 305 + 2) div 153" unfolding mp_def using that by (intro zdiv_mono1) auto
    then have "mp \<in> {0..9}" using mp by simp
    then show ?thesis using month_table [of mp] mi md by auto
  qed
  show "m = 1 \<and> d \<le> 31 \<and> doy = 305 + d \<or> m = 2 \<and> d \<le> 29 \<and> doy = 336 + d" if "306 \<le> doy"
  proof -
    have "(5 * 306 + 2) div 153 \<le> mp" unfolding mp_def using that by (intro zdiv_mono1) auto
    then have "mp = 10 \<or> mp = 11" using mp by auto
    then show ?thesis using mi md assms(1) by auto
  qed
qed

lemma month_length_after_february: "m \<noteq> 2 \<Longrightarrow> month_length y m = month_length 1 m"
  by (simp add: month_length_def)

lemma days_to_month:
  assumes "3 \<le> m"
  shows "sum_list (map (month_length y) [1..m - 1]) = (if leap y then 60 else 59) + march_days m"
proof -
  have "1 \<le> m - 1" "2 \<le> m - 1" using assms by simp_all
  from upto_rec1 [OF this(1)] upto_rec1 [OF this(2)] have "[1..m - 1] = 1 # 2 # [3..m - 1]"
    by (simp only: one_add_one) (simp only: numeral_plus_one add_num_simps)
  moreover have "map (month_length y) [3..m - 1] = map (month_length 1) [3..m - 1]"
    by (rule map_cong, rule refl, rule month_length_after_february) auto
  ultimately show ?thesis by (simp only: march_days_def list.map sum_list.Cons) (simp add: month_length_def)
qed

lemma leap_era: "leap (y + era * 400) = leap y"
proof -
  have "(y + era * 400) mod 4 = y mod 4" "(y + era * 400) mod 100 = y mod 100" "(y + era * 400) mod 400 = y mod 400"
    using mod_mult_self1 [of y "era * 100" 4] mod_mult_self1 [of y "era * 4" 100] mod_mult_self1 [of y era 400]
    by (simp_all only: mult.assoc) simp_all
  then show ?thesis by (simp only: leap_def)
qed

lemma year_days_march:
  assumes "yoe \<in> {0..399}"
  shows "year_days (yoe + era * 400 + 1) = era * 146097 + year_start yoe"
proof -
  have "(yoe + era * 400) div 400 = era" "(yoe + era * 400) div 4 = era * 100 + yoe div 4"
    "(yoe + era * 400) div 100 = era * 4 + yoe div 100"
    using assms by auto
  then show ?thesis by (simp add: year_days_def year_start_def)
qed

lemma civil_date_correct:
  assumes "0 \<le> days" "civil_date days = (y, m, d)"
  shows "valid_date (y, m, d) \<and> date_days y m d - date_days 1970 1 1 = days"
proof -
  define z era doe yoe doy where "z = days + 719468" and "era = z div 146097" and "doe = z - era * 146097"
    and "yoe = year_of_era doe" and "doy = doe - year_start yoe"
  have date: "month_day doy = (m, d)" "y = yoe + era * 400 + (if m \<le> 2 then 1 else 0)"
    using assms by (auto simp: civil_date_def Let_def z_def era_def doe_def yoe_def doy_def split: prod.splits)
  have "0 \<le> doe" "doe < 146097" by (simp_all add: doe_def era_def minus_div_mult_eq_mod)
  from year_of_era_bounds [OF this] have yoe: "yoe \<in> {0..399}" "year_start yoe \<le> doe" "doe < year_end yoe"
    by (simp_all add: yoe_def)
  have len: "year_end yoe - year_start yoe = (if leap (yoe + 1) then 366 else 365)" using era_years [OF yoe(1)] by simp
  then have doy: "doy \<in> {0..365}" "doy = 365 \<Longrightarrow> leap (yoe + 1)" using yoe by (auto simp: doy_def split: if_splits)
  note ms = months [OF doy(1) date(1)]
  have start: "year_days (yoe + era * 400 + 1) + doy = z" using year_days_march [OF yoe(1)] by (simp add: doy_def doe_def)
  have epoch: "date_days 1970 1 1 = 719162" by (simp add: date_days_def year_days_def)
  show ?thesis
  proof (cases "doy < 306")
    case True
    then have m: "m \<in> {3..12}" "d \<le> month_length 1 m" "march_days m + d - 1 = doy" using ms(2) by auto
    then have y: "y = yoe + era * 400" using date(2) by simp
    have "date_days y m d = year_days y + (if leap y then 60 else 59) + doy"
      using m days_to_month [of m y] by (simp add: date_days_def)
    also have "\<dots> = z - 306" using start year_days_Suc [of y] y by (simp split: if_splits)
    finally have "date_days y m d = z - 306" .
    moreover have "d \<le> month_length y m" using m month_length_after_february [of m y] by simp
    ultimately show ?thesis using m ms(1) epoch by (simp add: valid_date_def z_def)
  next
    case False
    then have m: "m = 1 \<and> d \<le> 31 \<and> doy = 305 + d \<or> m = 2 \<and> d \<le> 29 \<and> doy = 336 + d" using ms(3) by simp
    then have y: "y = yoe + era * 400 + 1" using date(2) by auto
    have "yoe + 1 + era * 400 = y" using y by simp
    then have leap: "leap y = leap (yoe + 1)" using leap_era [of "yoe + 1" era] by simp
    have "d \<le> month_length y m"
    proof (cases "m = 2 \<and> d = 29")
      case True
      then have "doy = 365" using m by simp
      then show ?thesis using doy(2) leap True by (simp add: month_length_def)
    next
      case False
      then show ?thesis using m by (auto simp: month_length_def)
    qed
    moreover have "date_days y m d = z - 306"
      using m start y by (auto simp: date_days_def month_length_def)
    ultimately show ?thesis using m ms(1) epoch by (auto simp: valid_date_def z_def)
  qed
qed

end
