(* ===== verification/Storage.thy ===== *)
theory Storage
  imports Commands Diagnostics Session_State Timestamp
begin

text \<open>
  The stored form of a session: the tables that hold its rows, the transactions on them, the
  serialized session and the integrity anchors of a snapshot (\<^verbatim>\<open>main.rs\<close>, \<^verbatim>\<open>integrity.rs\<close>).

  A transaction maps session and tables to a result and new ones.  What lies outside is a \<open>px\<close>:
  the n-th call to the outside finds the n-th random identifier, clock reading and outcome of a
  statement.  A violated constraint of the schema or a value the database rejects is one of the
  faults of a statement.
\<close>

section \<open>Errors\<close>

datatype sql_error =
    Io_Error string | Tls_Error string | Pool_Timed_Out | Row_Not_Found
  | Protocol string | Database_Error string | Panicked string

text \<open>\<open>Panicked\<close> stands for a panic of the task.\<close>

fun transient :: "sql_error \<Rightarrow> bool" where
  "transient (Io_Error _) = True" | "transient (Tls_Error _) = True" | "transient Pool_Timed_Out = True"
| "transient _ = False"

fun protocol :: "'a result \<Rightarrow> sql_error + 'a" where
  "protocol (Inl e) = Inl (Protocol e)" | "protocol (Inr x) = Inr x"

section \<open>Tables\<close>

record transcript_row =
  tr_sequence :: int
  tr_message_id :: string
  tr_kind :: string
  tr_payload :: json
  tr_run_id :: "string option"
  tr_decision_step :: int
  tr_created_at :: string

record session_row =
  sr_state :: json
  sr_config :: json
  sr_config_ref :: "string option"
  sr_config_sha256 :: "string option"
  sr_resolved_config_sha256 :: "string option"
  sr_revision :: int
  sr_last_commit_id :: "string option"
  sr_last_commit_sha256 :: "string option"
  sr_storage_version :: int
  sr_lease :: lease

record context_row =
  cx_revision :: int
  cx_goal_message_id :: string
  cx_ledger_record_id :: "string option"
  cx_raw_message_ids :: "json list"
  cx_ledger_state :: json

record commit_receipt =
  rc_commit_id :: string
  rc_command_id :: string
  rc_fingerprint :: string
  rc_expected_revision :: int
  rc_committed_revision :: int

record event_row =
  eo_event_id :: int
  eo_event :: json
  eo_revision :: int
  eo_commit_id :: string
  eo_command_id :: string
  eo_created_at :: string

record run_row =
  rn_run_id :: string
  rn_owner :: string
  rn_fence :: int
  rn_status :: string
  rn_started_at :: string
  rn_ended_at :: "string option"
  rn_termination_reason :: "string option"
  rn_last_decision_step :: int
  rn_metadata :: json
  rn_command_id :: "string option"
  rn_cancel_requested :: bool

text \<open>
  The rows of one session, with the table of commands.  Rows of executions and attempts are
  objects of their columns, as \<open>to_jsonb\<close> gives them, without the columns for the session and the
  times that the database sets.
\<close>

record store =
  st_session :: "session_row option"
  st_transcript :: "transcript_row list"
  st_calls :: "(string \<times> string) list"
  st_diagnostics :: "diag_record list"
  st_runs :: "run_row list"
  st_executions :: "json list"
  st_attempts :: "json list"
  st_context :: "context_row option"
  st_receipts :: "commit_receipt list"
  st_events :: "event_row list"
  st_archives :: "json list"
  st_commands :: "command_row list"

section \<open>Transactions\<close>

record px =
  px_parse_uuid :: "string \<Rightarrow> string option"
  px_uuid :: "nat \<Rightarrow> string"
  px_stamp :: "nat \<Rightarrow> string"
  px_clock :: "nat \<Rightarrow> int"
  px_fault :: "nat \<Rightarrow> sql_error option"
  px_others :: "nat \<Rightarrow> store \<Rightarrow> store"
  px_commit :: "nat \<Rightarrow> sql_error option \<times> bool"
  px_event_id :: "nat \<Rightarrow> int"
  px_pick :: "string list \<Rightarrow> string option"
  px_time_json :: "string \<Rightarrow> string"
  px_time_text :: "string \<Rightarrow> string"
  px_decode_session :: "json \<Rightarrow> session result"
  px_decode_config :: "json \<Rightarrow> config result"
  px_decode_message :: "json \<Rightarrow> message result"
  px_error_text :: "sql_error \<Rightarrow> string"

text \<open>
  \<open>px_others\<close> is what other transactions commit before the n-th begins, \<open>px_commit\<close> the error of a
  \<open>COMMIT\<close> with whether it took effect all the same, \<open>px_pick\<close> the row a query without order
  returns first, \<open>px_time_json\<close> and \<open>px_time_text\<close> how a stored time is rendered.
\<close>

type_synonym 'a tx = "session \<times> store \<times> nat \<Rightarrow> (sql_error + 'a) \<times> session \<times> store \<times> nat"

definition tret :: "'a \<Rightarrow> 'a tx" where "tret x = (\<lambda>st. (Inr x, st))"

definition tfail :: "sql_error \<Rightarrow> 'a tx" where "tfail e = (\<lambda>st. (Inl e, st))"

definition tbind :: "'a tx \<Rightarrow> ('a \<Rightarrow> 'b tx) \<Rightarrow> 'b tx" where
  "tbind m f = (\<lambda>st. case m st of (Inl e, st') \<Rightarrow> (Inl e, st') | (Inr x, st') \<Rightarrow> f x st')"

definition tlift :: "sql_error + 'a \<Rightarrow> 'a tx" where "tlift r = (\<lambda>st. (r, st))"

definition tgets :: "(session \<Rightarrow> 'a) \<Rightarrow> 'a tx" where "tgets f = (\<lambda>(s, d, n). (Inr (f s), s, d, n))"

definition tmodify :: "(session \<Rightarrow> session) \<Rightarrow> unit tx" where "tmodify f = (\<lambda>(s, d, n). (Inr (), f s, d, n))"

definition tcheck :: "bool \<Rightarrow> string \<Rightarrow> unit tx" where
  "tcheck b e = (if b then tret () else tfail (Protocol e))"

definition tstamp :: "px \<Rightarrow> string tx" where "tstamp P = (\<lambda>(s, d, n). (Inr (px_stamp P n), s, d, Suc n))"

text \<open>One statement, with the reading of the clock it makes.\<close>

definition tstmt :: "px \<Rightarrow> (int \<Rightarrow> store \<Rightarrow> sql_error + 'a \<times> store) \<Rightarrow> 'a tx" where
  "tstmt P f =
     (\<lambda>(s, d, n). case px_fault P n of
        Some e \<Rightarrow> (Inl e, s, d, Suc n)
      | None \<Rightarrow> (case f (px_clock P n) d of
                  Inl e \<Rightarrow> (Inl e, s, d, Suc n)
                | Inr (x, d') \<Rightarrow> (Inr x, s, d', Suc n)))"

definition tselect :: "px \<Rightarrow> (int \<Rightarrow> store \<Rightarrow> 'a) \<Rightarrow> 'a tx" where
  "tselect P f = tstmt P (\<lambda>now d. Inr (f now d, d))"

definition tupdate :: "px \<Rightarrow> (store \<Rightarrow> store) \<Rightarrow> unit tx" where
  "tupdate P f = tstmt P (\<lambda>now d. Inr ((), f d))"

text \<open>\<open>fetch_one\<close>.\<close>

definition tfetch :: "px \<Rightarrow> (store \<Rightarrow> 'a option) \<Rightarrow> 'a tx" where
  "tfetch P f = tstmt P (\<lambda>now d. case f d of None \<Rightarrow> Inl Row_Not_Found | Some x \<Rightarrow> Inr (x, d))"

fun tfor :: "'a list \<Rightarrow> ('a \<Rightarrow> unit tx) \<Rightarrow> unit tx" where
  "tfor [] f = tret ()"
| "tfor (x # xs) f = tbind (f x) (\<lambda>_. tfor xs f)"

text \<open>\<open>Uuid::parse_str(x)\<close> with its error, and with \<open>unwrap\<close>.\<close>

definition uuid_error :: string where "uuid_error = ''invalid UUID''"

definition tuuid :: "px \<Rightarrow> string \<Rightarrow> string tx" where
  "tuuid P x = (case px_parse_uuid P x of None \<Rightarrow> tfail (Protocol uuid_error) | Some i \<Rightarrow> tret i)"

definition tuuid_unwrap :: "px \<Rightarrow> string option \<Rightarrow> string tx" where
  "tuuid_unwrap P x =
     (case Option.bind x (px_parse_uuid P) of None \<Rightarrow> tfail (Panicked uuid_error) | Some i \<Rightarrow> tret i)"

section \<open>Serialized sessions\<close>

definition message_value :: "message \<Rightarrow> json" where
  "message_value m = JObj
     [(''message_id'', json_opt (m_message_id m)), (''sequence'', json_opt_int (m_sequence m)),
      (''created_at'', json_opt (m_created_at m)), (''role'', JStr (m_role m)), (''content'', json_opt (m_content m)),
      (''name'', json_opt (m_name m)), (''tool_call_id'', json_opt (m_tool_call_id m)),
      (''tool_calls'', json_opt_value (m_tool_calls m))]"

definition entry_value :: "transcript_entry \<Rightarrow> json" where
  "entry_value e = JObj
     [(''sequence'', json_int (te_sequence e)), (''message_id'', JStr (te_message_id e)), (''kind'', JStr (te_kind e)),
      (''payload'', te_payload e), (''run_id'', json_opt (te_run_id e)), (''decision_step'', json_int (te_decision_step e)),
      (''created_at'', JStr (te_created_at e))]"

definition ledger_value :: "ledger \<Rightarrow> json" where
  "ledger_value l = JObj
     [(''goal'', JStr (l_goal l)), (''model_claims'', json_strs (l_model_claims l)), (''dead_ends'', json_strs (l_dead_ends l)),
      (''hypothesis'', JStr (l_hypothesis l)), (''source_sha256'', JStr (l_source_sha256 l)), (''verification'', JStr (l_verification l))]"

definition budget_value :: "request_budget \<Rightarrow> json" where
  "budget_value b = JObj
     [(''estimated_input_tokens'', json_int (b_estimated_input_tokens b)), (''reserved_output_tokens'', json_int (b_reserved_output_tokens b)),
      (''safety_margin_tokens'', json_int (b_safety_margin_tokens b)), (''context_window_tokens'', json_int (b_context_window_tokens b)),
      (''fits'', JBool (b_fits b)), (''estimator'', JStr (b_estimator b))]"

definition transition_value :: "transition \<Rightarrow> json" where
  "transition_value t = JObj
     [(''from_phase'', JStr (t_from_phase t)), (''to_phase'', JStr (t_to_phase t)), (''reason'', JStr (t_reason t))]"

definition workflow_value :: "workflow \<Rightarrow> json" where
  "workflow_value w = JObj
     [(''active_phase'', json_opt (w_active_phase w)), (''completed_phases'', json_strs (w_completed_phases w)),
      (''observed_evidence'', json_strs (w_observed_evidence w)), (''transitions'', JArr (map transition_value (w_transitions w)))]"

definition diag_value :: "diag_record \<Rightarrow> json" where
  "diag_value r = JObj [(''family'', JStr (d_family r)), (''ordinal'', json_int (d_ordinal r)), (''payload'', d_payload r)]"

text \<open>The fields of \<open>Session\<close> that are not skipped, under their serialized names.\<close>

definition session_fields :: "session \<Rightarrow> (string \<times> json) list" where
  "session_fields s =
     [(''run_command_id'', json_opt (s_run_command_id s)), (''last_archive_id'', json_opt (s_last_archive_id s)),
      (''id'', JStr (s_id s)), (''goal'', JStr (s_goal s)), (''revision'', json_int (s_revision s)),
      (''next_transcript_sequence'', json_int (s_next_transcript_sequence s)), (''history_complete'', JBool (s_history_complete s)),
      (''transcript_pending'', JArr (map entry_value (s_pending_transcript s))), (''config_ref'', json_opt (s_config_ref s)),
      (''config_sha256'', json_opt (s_config_sha256 s)), (''resolved_config_sha256'', json_opt (s_resolved_config_sha256 s)),
      (''memory'', JArr (map message_value (s_memory s))), (''compacted_context'', json_opt (s_compacted_context s)),
      (''active_ledger_id'', json_opt (s_active_ledger_id s)), (''compaction_events'', json_strs (s_compaction_events s)),
      (''compaction_attempts'', JArr (s_compaction_attempts s)), (''compaction_decisions'', JArr (s_compaction_decisions s)),
      (''diagnostic_counts'', JObj (map (\<lambda>(k, v). (k, json_int v)) (s_diagnostic_counts s))),
      (''diagnostics_complete'', JBool (s_diagnostics_complete s)),
      (''diagnostic_history_complete'', JBool (s_diagnostic_history_complete s)),
      (''diagnostic_rejections'', json_int (s_diagnostic_rejections s)),
      (''compaction_savings_total'', json_int (s_compaction_savings_total s)),
      (''compaction_savings_known'', JBool (s_compaction_savings_known s)),
      (''ledger_state'', json_opt_value (map_option ledger_value (s_compaction_ledger s))),
      (''last_compaction_step'', json_int (s_last_compaction_step s)),
      (''last_compaction_estimated_tokens'', json_opt_int (s_last_compaction_estimated_tokens s)),
      (''last_compaction_attempt_step'', json_opt_int (s_last_compaction_attempt_step s)),
      (''last_compaction_attempt_sha256'', json_opt (s_last_compaction_attempt_sha256 s)),
      (''request_budget'', json_opt_value (map_option budget_value (s_request_budget s))),
      (''workflow'', json_opt_value (map_option workflow_value (s_workflow s))), (''step_count'', json_int (s_step_count s)),
      (''run_count'', json_int (s_run_count s)), (''run_id'', json_opt (s_run_id s)), (''run_started_at'', json_opt (s_run_started_at s)),
      (''run_ended_at'', json_opt (s_run_ended_at s)), (''run_termination_reason'', json_opt (s_run_termination_reason s)),
      (''status'', JStr (s_status s)), (''run_status'', JStr (s_run_status s)), (''final_answer'', json_opt (s_final_answer s)),
      (''last_error'', json_opt_value (s_last_error s)),
      (''consecutive_invalid_responses'', json_nat (s_consecutive_invalid_responses s)),
      (''model_request_diagnostics'', JArr (s_model_request_diagnostics s)), (''completion_artifacts'', s_completion_artifacts s),
      (''no_progress_steps'', json_nat (s_no_progress_steps s)), (''progress_fingerprint'', json_opt (s_progress_fingerprint s)),
      (''progress_seen_outputs'', json_strs (s_progress_seen_outputs s)), (''pending_tool_calls'', JArr (s_pending_tool_calls s)),
      (''pending_tool_phase'', json_opt (s_pending_tool_phase s))]"

definition session_value :: "session \<Rightarrow> json" where "session_value s = JObj (session_fields s)"

section \<open>Integrity anchors\<close>

definition anchor_digest :: "lib \<Rightarrow> json \<Rightarrow> string" where
  "anchor_digest L v = sha256_hex L (canonical_json L v)"

definition projected_keys :: "string list" where
  "projected_keys =
     [''memory'', ''compacted_context'', ''ledger_state'', ''compaction_ledger'', ''compaction_provenance'', ''executions'',
      ''model_request_diagnostics'', ''pending_transcript'', ''transcript_pending'', ''diagnostics_complete'',
      ''compaction_events'', ''compaction_attempts'', ''compaction_decisions'']"

definition context_value :: "session \<Rightarrow> json" where
  "context_value s =
     JArr [JArr (map message_value (s_memory s)), json_opt (s_compacted_context s),
           json_opt_value (map_option ledger_value (s_compaction_ledger s))]"

definition anchor_key :: string where "anchor_key = ''_active_integrity''"

definition hot_fields :: "session \<Rightarrow> (string \<times> json) list" where
  "hot_fields s = fold obj_remove projected_keys (session_fields s)"

definition snapshot :: "lib \<Rightarrow> session \<Rightarrow> json" where
  "snapshot L s =
     set_idx (JObj (hot_fields s)) anchor_key
       (JObj [(''version'', json_int 1), (''snapshot_sha256'', JStr (anchor_digest L (JObj (hot_fields s)))),
              (''context_sha256'', JStr (anchor_digest L (context_value s)))])"

definition validate_snapshot :: "lib \<Rightarrow> json \<Rightarrow> unit result" where
  "validate_snapshot L v =
     rbind (ok_or ''invalid snapshot'' (as_object v))
       (\<lambda>kvs. rbind (ok_or ''missing active integrity anchor'' (map_of kvs anchor_key))
          (\<lambda>anchor. reject_if (\<not> json_eq (idx anchor ''version'') (json_int 1)
                      \<or> \<not> json_eq (idx anchor ''snapshot_sha256'') (JStr (anchor_digest L (JObj (obj_remove anchor_key kvs)))))
                    ''snapshot integrity mismatch''))"

definition validate_context :: "lib \<Rightarrow> json \<Rightarrow> session \<Rightarrow> unit result" where
  "validate_context L v s =
     reject_if (\<not> json_eq (idx (idx v anchor_key) ''context_sha256'') (JStr (anchor_digest L (context_value s))))
       ''active context integrity mismatch''"

end
