(* ===== verification/Commit.thy ===== *)
theory Commit
  imports Storage
begin

text \<open>
  The commit of a checkpoint (\<open>save\<close>, \<open>save_inner\<close> and the writers they call in \<^verbatim>\<open>main.rs\<close>, \<open>write\<close> of
  \<^verbatim>\<open>retention.rs\<close>).  A session is staged, fingerprinted and written with all its outboxes in one
  transaction that checks the command, the revision, the lease and the archived transcript; a
  receipt makes a repeated commit a replay.
\<close>

section \<open>Staging\<close>

definition message_staged :: "message \<Rightarrow> bool" where
  "message_staged m \<longleftrightarrow> m_sequence m \<noteq> None \<and> m_message_id m \<noteq> None \<and> m_created_at m \<noteq> None"

fun stage_messages :: "px \<Rightarrow> message list \<Rightarrow> session \<times> nat \<Rightarrow> message list \<times> session \<times> nat" where
  "stage_messages P [] (s, n) = ([], s, n)"
| "stage_messages P (m # ms) (s, n) =
     (if message_staged m
      then (case stage_messages P ms (s, n) of (ms', r) \<Rightarrow> (m # ms', r))
      else (let i = px_uuid P n; created = px_stamp P (Suc n); seq = s_next_transcript_sequence s;
                m' = m\<lparr>m_message_id := Some i, m_sequence := Some seq, m_created_at := Some created\<rparr>;
                s' = s\<lparr>s_next_transcript_sequence := seq + 1,
                       s_pending_transcript := s_pending_transcript s @
                         [\<lparr>te_sequence = seq, te_message_id = i, te_kind = ''message'', te_payload = wire_message m',
                           te_run_id = None, te_decision_step = s_step_count s, te_created_at = created\<rparr>]\<rparr>
            in case stage_messages P ms (s', Suc (Suc n)) of (ms', r) \<Rightarrow> (m' # ms', r)))"

definition stage_transcript :: "px \<Rightarrow> session \<times> nat \<Rightarrow> session \<times> nat" where
  "stage_transcript P sn =
     (case stage_messages P (s_memory (fst sn)) sn of (ms, s, n) \<Rightarrow> (s\<lparr>s_memory := ms\<rparr>, n))"

definition event_type :: "json \<Rightarrow> string" where "event_type e = unwrap_or [] (as_str (idx e ''type''))"

definition transcript_event_record :: "json \<Rightarrow> session \<Rightarrow> (string \<times> json) option" where
  "transcript_event_record event s =
     (if event_type event = ''run_finished''
      then Some (''run_finished'',
             JObj [(''reason'', JStr (unwrap_or (s_run_status s) (s_run_termination_reason s))), (''status'', JStr (s_run_status s))])
      else if event_type event \<in> {''run_interrupted'', ''run_reconciled''}
      then Some (''run_interrupted'',
             JObj [(''run_id'', json_opt (s_run_id s)), (''reason'', idx event ''reason''), (''status'', JStr (s_run_status s))])
      else None)"

definition summary_entry :: "string \<Rightarrow> string \<Rightarrow> json \<Rightarrow> session \<Rightarrow> session" where
  "summary_entry record created provenance s =
     s\<lparr>s_pending_transcript := s_pending_transcript s @
         [\<lparr>te_sequence = s_next_transcript_sequence s, te_message_id = record, te_kind = ''compaction_summary'',
           te_payload = idx provenance ''transcript_payload'', te_run_id = s_run_id s, te_decision_step = s_step_count s,
           te_created_at = created\<rparr>],
       s_next_transcript_sequence := s_next_transcript_sequence s + 1\<rparr>"

fun stage_summaries :: "px \<Rightarrow> json list \<Rightarrow> session \<times> nat \<Rightarrow> session \<times> nat" where
  "stage_summaries P [] sn = sn"
| "stage_summaries P (p # ps) (s, n) =
     (case opt_filter (\<lambda>i. i \<notin> s_committed_summaries s) (as_str (idx p ''transcript_record_id'')) of
        None \<Rightarrow> stage_summaries P ps (s, n)
      | Some record \<Rightarrow>
          if \<exists>e\<in>set (s_pending_transcript s). te_message_id e = record then stage_summaries P ps (s, n)
          else stage_summaries P ps (summary_entry record (px_stamp P n) p s, Suc n))"

definition stage_commit :: "px \<Rightarrow> json \<Rightarrow> session \<times> nat \<Rightarrow> session \<times> nat" where
  "stage_commit P e sn =
     (if s_pending_commit_id (fst sn) \<noteq> None then sn
      else (case stage_summaries P (s_compaction_provenance (fst sn)) sn of (s, n) \<Rightarrow>
              (case (case transcript_event_record e s of
                       None \<Rightarrow> (s, n)
                     | Some (kind, payload) \<Rightarrow> (archive_record (px_uuid P n) (px_stamp P (Suc n)) kind payload s, Suc (Suc n)))
               of (s', n') \<Rightarrow> (s'\<lparr>s_pending_commit_id := Some (px_uuid P n')\<rparr>, Suc n'))))"

section \<open>The fingerprint of a commit\<close>

definition unstable_fields :: "string list" where
  "unstable_fields =
     [''memory'', ''compacted_context'', ''compaction_ledger'', ''compaction_events'', ''compaction_attempts'',
      ''compaction_decisions'', ''compaction_provenance'', ''executions'', ''pending_transcript'', ''transcript_pending'']"

definition commit_preimage :: "lib \<Rightarrow> session \<Rightarrow> string \<Rightarrow> json \<Rightarrow> json" where
  "commit_preimage L s resolved_hash event =
     JArr [JStr ''agent-commit-v2'', JStr (s_id s), json_opt_value (map_option (\<lambda>c. idx c ''id'') (s_command s)),
           json_int (s_revision s),
           (case snapshot L s of JObj kvs \<Rightarrow> JObj (fold obj_remove unstable_fields kvs) | v \<Rightarrow> v),
           JArr (map message_value (s_memory s)), json_opt (s_compacted_context s),
           json_opt_value (map_option ledger_value (s_compaction_ledger s)), JArr (map entry_value (s_pending_transcript s)),
           JObj [(''executions'', JArr (s_pending_execution_outbox s)), (''attempts'', JArr (s_attempts_pending s))],
           JArr (map diag_value (s_diagnostics_pending s)), json_opt_value (s_retention_pending s), JStr resolved_hash, event]"

definition commit_fingerprint :: "px \<Rightarrow> lib \<Rightarrow> session \<Rightarrow> json \<Rightarrow> json \<Rightarrow> sql_error + string" where
  "commit_fingerprint P L s config event =
     rbind (protocol (px_decode_config P config))
       (\<lambda>c. case resolved_config_hash L c of
          Panic m \<Rightarrow> Inl (Panicked m)
        | Done resolved \<Rightarrow>
            rbind (protocol resolved)
              (\<lambda>(_, resolved_hash).
                 if s_resolved_config_sha256 s \<noteq> Some resolved_hash
                 then Inl (Protocol ''resolved configuration hash differs from immutable session anchor'')
                 else protocol (digest L (commit_preimage L s resolved_hash event))))"

section \<open>Archived transcript\<close>

definition find_message :: "string \<Rightarrow> store \<Rightarrow> transcript_row option" where
  "find_message i d = find (\<lambda>r. tr_message_id r = i) (st_transcript d)"

definition max_sequence :: "store \<Rightarrow> int" where
  "max_sequence d = fold max (map tr_sequence (st_transcript d)) 0"

definition insert_transcript :: "transcript_row \<Rightarrow> store \<Rightarrow> store" where
  "insert_transcript r d = d\<lparr>st_transcript := st_transcript d @ [r]\<rparr>"

text \<open>\<open>a || b\<close> on objects.\<close>

definition json_merge :: "json \<Rightarrow> json \<Rightarrow> json" where
  "json_merge a b =
     (case (a, b) of (JObj xs, JObj ys) \<Rightarrow> JObj (fold (\<lambda>(k, v). obj_insert k v) ys xs) | _ \<Rightarrow> JArr [a, b])"

definition projected_message :: "px \<Rightarrow> transcript_row \<Rightarrow> json" where
  "projected_message P r =
     json_merge (tr_payload r)
       (JObj [(''message_id'', JStr (tr_message_id r)), (''sequence'', json_int (tr_sequence r)),
              (''created_at'', JStr (px_time_text P (tr_created_at r)))])"

definition active_message_ids :: "context_row \<Rightarrow> string list" where
  "active_message_ids c = cx_goal_message_id c # List.map_filter as_str (cx_raw_message_ids c)"

definition drop_fields :: "string list \<Rightarrow> json \<Rightarrow> json" where
  "drop_fields ks v = (case v of JObj kvs \<Rightarrow> JObj (fold obj_remove ks kvs) | _ \<Rightarrow> v)"

definition projected_execution :: "store \<Rightarrow> json \<Rightarrow> json" where
  "projected_execution d e =
     json_merge (json_merge (idx e ''payload'') (drop_fields [''owner'', ''payload''] e))
       (JObj [(''attempt_records'',
               JArr (sort_key (\<lambda>a. unwrap_or 0 (as_i64 (idx a ''attempt_number'')))
                       (filter (\<lambda>a. idx a ''execution_id'' = idx e ''execution_id'') (st_attempts d))))])"

text \<open>The query that rebuilds the active context from the archive.\<close>

definition projection :: "px \<Rightarrow> store \<Rightarrow> (string \<times> json) list option" where
  "projection P d =
     map_option (\<lambda>c.
       let pending = (case st_session d of None \<Rightarrow> [] | Some r \<Rightarrow> map (\<lambda>v. idx v ''id'') (get_arr (sr_state r) ''pending_tool_calls''));
           shown = filter (\<lambda>e. idx e ''call_id'' \<in> set pending) (st_executions d)
       in [(''memory'', JArr (map (projected_message P)
              (List.map_filter (\<lambda>i. opt_filter (\<lambda>r. tr_kind r = ''message'') (find_message i d)) (active_message_ids c)))),
           (''compacted_context'',
              json_opt_value (Option.bind (Option.bind (cx_ledger_record_id c) (\<lambda>i. find_message i d)) (\<lambda>r. get (tr_payload r) ''content''))),
           (''ledger_state'', cx_ledger_state c),
           (''executions'', JArr (map (projected_execution d) (sort_key (\<lambda>e. unwrap_or [] (as_str (idx e ''execution_id''))) shown)))])
       (st_context d)"

definition validate_previous_transcript :: "px \<Rightarrow> lib \<Rightarrow> json \<Rightarrow> int \<Rightarrow> unit tx" where
  "validate_previous_transcript P L state highest =
     tbind (tlift (protocol (validate_snapshot L state)))
       (\<lambda>_. tbind (tcheck (as_i64 (idx state ''next_transcript_sequence'') = Some (highest + 1)) ''transcript counter mismatch'')
          (\<lambda>_. tbind (tfetch P (projection P))
             (\<lambda>active. tbind (tlift (protocol (px_decode_session P (fold (\<lambda>(k, v) w. set_idx w k v) active state))))
                (\<lambda>restored. tbind (tlift (protocol (validate_context L state restored)))
                   (\<lambda>_. case s_memory restored of
                      [] \<Rightarrow> tfail (Protocol ''missing immutable goal message'')
                    | goal # _ \<Rightarrow>
                        tcheck (m_role goal = ''user'' \<and> m_content goal = Some (s_goal restored)) ''goal anchor mismatch'')))))"

section \<open>Writing the transcript\<close>

definition has_id :: "string \<Rightarrow> message \<Rightarrow> bool" where "has_id i m \<longleftrightarrow> m_message_id m = Some i"

fun update_first :: "('a \<Rightarrow> bool) \<Rightarrow> ('a \<Rightarrow> 'a) \<Rightarrow> 'a list \<Rightarrow> 'a list" where
  "update_first p f [] = []"
| "update_first p f (x # xs) = (if p x then f x # xs else x # update_first p f xs)"

definition set_sequence :: "transcript_entry \<Rightarrow> int \<Rightarrow> session \<Rightarrow> session" where
  "set_sequence entry seq s =
     (if te_kind entry = ''message''
      then s\<lparr>s_memory := update_first (has_id (te_message_id entry)) (\<lambda>m. m\<lparr>m_sequence := Some seq\<rparr>) (s_memory s)\<rparr>
      else s)"

definition entry_changed :: "transcript_entry \<Rightarrow> session \<Rightarrow> bool" where
  "entry_changed entry s \<longleftrightarrow>
     te_kind entry = ''message''
     \<and> is_some_and (find (has_id (te_message_id entry)) (s_memory s)) (\<lambda>m. \<not> json_eq (wire_message m) (te_payload entry))"

definition entry_row :: "px \<Rightarrow> transcript_entry \<Rightarrow> string \<Rightarrow> int \<Rightarrow> transcript_row" where
  "entry_row P entry i seq =
     \<lparr>tr_sequence = seq, tr_message_id = i, tr_kind = te_kind entry, tr_payload = te_payload entry,
      tr_run_id = Option.bind (te_run_id entry) (px_parse_uuid P), tr_decision_step = te_decision_step entry,
      tr_created_at = te_created_at entry\<rparr>"

text \<open>The loop over the staged entries; its state is the next sequence number.\<close>

fun write_entries :: "px \<Rightarrow> transcript_entry list \<Rightarrow> int \<Rightarrow> int tx" where
  "write_entries P [] next_seq = tret next_seq"
| "write_entries P (entry # entries) next_seq =
     tbind (tgets (entry_changed entry))
       (\<lambda>changed. tbind (tcheck (\<not> changed) ''transcript message ID reused with changed payload'')
          (\<lambda>_. tbind (tuuid_unwrap P (Some (te_message_id entry)))
             (\<lambda>i. tbind (tselect P (\<lambda>now. find_message i))
                (\<lambda>existing. case existing of
                   Some r \<Rightarrow>
                     tbind (tcheck (tr_kind r = te_kind entry \<and> json_eq (tr_payload r) (te_payload entry)
                               \<and> (tr_sequence r = te_sequence entry \<or> te_kind entry = ''message''))
                             ''transcript immutable identity conflict'')
                       (\<lambda>_. tbind (tmodify (set_sequence entry (tr_sequence r)))
                          (\<lambda>_. write_entries P entries next_seq))
                 | None \<Rightarrow>
                     tbind (tmodify (set_sequence entry next_seq))
                       (\<lambda>_. tbind (tupdate P (insert_transcript (entry_row P entry i next_seq)))
                          (\<lambda>_. write_entries P entries (next_seq + 1)))))))"

section \<open>Summaries\<close>

text \<open>The archived source messages of a summary, in order and without repetition.\<close>

fun summary_sources :: "px \<Rightarrow> json list \<Rightarrow> string list \<Rightarrow> int \<Rightarrow> message list tx" where
  "summary_sources P [] seen previous = tret []"
| "summary_sources P (source # sources) seen previous =
     (case as_str source of
        None \<Rightarrow> tfail (Protocol ''invalid summary source identity'')
      | Some sid \<Rightarrow>
          if sid \<in> set seen then tfail (Protocol ''duplicate summary source identity'')
          else tbind (tuuid P sid)
            (\<lambda>i. tbind (tselect P (\<lambda>now. find_message i))
               (\<lambda>found. case found of
                  None \<Rightarrow> tfail (Protocol ''summary references a missing or cross-session source message'')
                | Some r \<Rightarrow>
                    if tr_kind r \<noteq> ''message'' \<or> tr_sequence r \<le> previous
                    then tfail (Protocol ''summary source messages are not ordered transcript messages'')
                    else tbind (tlift (protocol (px_decode_message P (tr_payload r))))
                      (\<lambda>m. tbind (summary_sources P sources (sid # seen) (tr_sequence r)) (\<lambda>ms. tret (m # ms))))))"

fun summary_retained :: "px \<Rightarrow> json list \<Rightarrow> string list \<Rightarrow> unit tx" where
  "summary_retained P [] seen = tret ()"
| "summary_retained P (v # vs) seen =
     (case as_str v of
        None \<Rightarrow> tfail (Protocol ''invalid retained message identity'')
      | Some sid \<Rightarrow>
          if sid \<in> set seen then tfail (Protocol ''duplicate retained message identity'')
          else tbind (tuuid P sid)
            (\<lambda>i. tbind (tselect P (\<lambda>now. find_message i))
               (\<lambda>found. tbind (tcheck (map_option tr_kind found = Some ''message'') ''summary retained message is missing or cross-session'')
                  (\<lambda>_. summary_retained P vs (sid # seen)))))"

definition previous_content :: "px \<Rightarrow> json \<Rightarrow> string option tx" where
  "previous_content P payload =
     (case get_str payload ''previous_ledger_id'' of
        None \<Rightarrow> tret None
      | Some prior \<Rightarrow>
          tbind (tuuid P prior)
            (\<lambda>i. tbind (tselect P (\<lambda>now. find_message i))
               (\<lambda>row. case row of
                  None \<Rightarrow> tfail (Protocol ''previous summary ledger is missing'')
                | Some r \<Rightarrow>
                    if tr_kind r \<notin> {''compaction_summary'', ''legacy_summary''}
                    then tfail (Protocol ''previous summary ledger is invalid'')
                    else tret (Some (unwrap_or [] (get_str (tr_payload r) ''content''))))))"

definition validate_summary_payload :: "px \<Rightarrow> lib \<Rightarrow> json \<Rightarrow> string \<Rightarrow> unit tx" where
  "validate_summary_payload P L payload goal =
     (case Option.bind (get payload ''source_message_ids'') as_array of
        None \<Rightarrow> tfail (Protocol ''summary source identities are missing'')
      | Some ids \<Rightarrow>
          if ids = [] then tfail (Protocol ''summary source identities are empty'')
          else tbind (summary_sources P ids [] 0)
            (\<lambda>sources. tbind (case Option.bind (get payload ''retained_message_ids'') as_array of
                                None \<Rightarrow> tret () | Some vs \<Rightarrow> summary_retained P vs [])
               (\<lambda>_. tbind (previous_content P payload)
                  (\<lambda>prior. tcheck (get_str payload ''source_sha256'' = Some (sha256_hex L (source_text L goal sources prior)))
                     ''summary source fingerprint differs from archived inputs''))))"

definition summary_row :: "session \<Rightarrow> string \<Rightarrow> json \<Rightarrow> string \<Rightarrow> int \<Rightarrow> transcript_row" where
  "summary_row s i payload created seq =
     \<lparr>tr_sequence = seq, tr_message_id = i, tr_kind = ''compaction_summary'', tr_payload = payload, tr_run_id = None,
      tr_decision_step = s_step_count s, tr_created_at = created\<rparr>"

fun write_summaries :: "px \<Rightarrow> lib \<Rightarrow> json list \<Rightarrow> int \<Rightarrow> int tx" where
  "write_summaries P L [] next_seq = tret next_seq"
| "write_summaries P L (provenance # ps) next_seq =
     (case get_str provenance ''transcript_record_id'' of
        None \<Rightarrow> write_summaries P L ps next_seq
      | Some record \<Rightarrow>
          (let payload = unwrap_or JNull (get provenance ''transcript_payload'')
           in tbind (tuuid P record)
             (\<lambda>i. tbind (tgets s_goal)
                (\<lambda>goal. tbind (validate_summary_payload P L payload goal)
                   (\<lambda>_. tbind (tselect P (\<lambda>now. find_message i))
                      (\<lambda>existing. case existing of
                         Some r \<Rightarrow>
                           tbind (tcheck (tr_kind r = ''compaction_summary'' \<and> json_eq (tr_payload r) payload)
                                    ''immutable compaction summary identity conflict'')
                             (\<lambda>_. write_summaries P L ps next_seq)
                       | None \<Rightarrow>
                           tbind (tstamp P)
                             (\<lambda>created. tbind (tgets (\<lambda>s. summary_row s i payload created next_seq))
                                (\<lambda>row. tbind (tupdate P (insert_transcript row))
                                   (\<lambda>_. write_summaries P L ps (next_seq + 1))))))))))"

section \<open>Writing the outboxes\<close>

definition insert_call :: "string \<Rightarrow> string \<Rightarrow> store \<Rightarrow> store" where
  "insert_call c i d = (if (c, i) \<in> set (st_calls d) then d else d\<lparr>st_calls := st_calls d @ [(c, i)]\<rparr>)"

definition write_call :: "px \<Rightarrow> string \<Rightarrow> json \<Rightarrow> unit tx" where
  "write_call P message_id call =
     (case get_str call ''id'' of
        None \<Rightarrow> tfail (Protocol ''tool call is missing its identity'')
      | Some c \<Rightarrow>
          tbind (tuuid P message_id)
            (\<lambda>i. tbind (tupdate P (insert_call c i))
               (\<lambda>_. tbind (tfetch P (\<lambda>d. px_pick P (map snd (filter (\<lambda>x. fst x = c) (st_calls d)))))
                  (\<lambda>actual. tcheck (actual = i) ''tool call identity collision''))))"

definition write_call_map :: "px \<Rightarrow> transcript_entry list \<Rightarrow> unit tx" where
  "write_call_map P entries =
     tfor (filter (\<lambda>e. te_kind e = ''message'') entries)
       (\<lambda>e. tfor (get_arr (te_payload e) ''tool_calls'') (write_call P (te_message_id e)))"

definition same_diag :: "diag_record \<Rightarrow> diag_record \<Rightarrow> bool" where
  "same_diag r x \<longleftrightarrow> d_family x = d_family r \<and> d_ordinal x = d_ordinal r"

definition diag_conflict :: "lib \<Rightarrow> diag_record \<Rightarrow> json \<Rightarrow> string" where
  "diag_conflict L r stored =
     ''diagnostic ordinal reused with changed payload: family='' @ d_family r @ '' ordinal='' @ show_int (d_ordinal r)
     @ '' proposed_sha256='' @ anchor_digest L (d_payload r) @ '' stored_sha256='' @ anchor_digest L stored"

definition insert_diagnostic :: "diag_record \<Rightarrow> store \<Rightarrow> bool \<times> store" where
  "insert_diagnostic r d =
     (if \<exists>x\<in>set (st_diagnostics d). same_diag r x then (False, d)
      else (True, d\<lparr>st_diagnostics := st_diagnostics d @ [r]\<rparr>))"

definition write_diagnostic :: "px \<Rightarrow> lib \<Rightarrow> diag_record \<Rightarrow> unit tx" where
  "write_diagnostic P L r =
     tbind (tcheck (d_family r \<in> set families \<and> 1 \<le> d_ordinal r) ''invalid pending diagnostic identity'')
       (\<lambda>_. tbind (tstmt P (\<lambda>now d. Inr (insert_diagnostic r d)))
          (\<lambda>inserted. if inserted then tret ()
             else tbind (tfetch P (\<lambda>d. find (same_diag r) (st_diagnostics d)))
               (\<lambda>existing. tcheck (json_eq (d_payload existing) (d_payload r)) (diag_conflict L r (d_payload existing)))))"

definition max_ordinal :: "string \<Rightarrow> store \<Rightarrow> int" where
  "max_ordinal family d = fold max (map d_ordinal (filter (\<lambda>r. d_family r = family) (st_diagnostics d))) 0"

definition check_family :: "px \<Rightarrow> string \<Rightarrow> unit tx" where
  "check_family P family =
     tbind (tgets (\<lambda>s. diag_count s family))
       (\<lambda>expected. tbind (tselect P (\<lambda>now. max_ordinal family))
          (\<lambda>actual. tcheck (0 \<le> expected \<and> actual = expected)
             (''diagnostic counter differs from archived history: family='' @ family @ '' expected='' @ show_int expected
              @ '' stored='' @ show_int actual)))"

definition write_diagnostics :: "px \<Rightarrow> lib \<Rightarrow> unit tx" where
  "write_diagnostics P L =
     tbind (tgets s_diagnostics_pending)
       (\<lambda>records. tbind (tfor records (write_diagnostic P L))
          (\<lambda>_. tbind (tgets s_diagnostic_counts)
             (\<lambda>counts. tbind (tcheck (fst ` set counts \<subseteq> set families) ''unknown diagnostic counter family'')
                (\<lambda>_. tfor families (check_family P)))))"

definition run_record :: "px \<Rightarrow> session \<Rightarrow> string \<Rightarrow> string \<Rightarrow> string option \<Rightarrow> run_row" where
  "run_record P s run started ended =
     \<lparr>rn_run_id = run, rn_owner = unwrap_or (s_id s) (Option.bind (s_execution_owner s) (px_parse_uuid P)),
      rn_fence = unwrap_or 0 (s_execution_fence s), rn_status = (if s_run_status s = [] then ''running'' else s_run_status s),
      rn_started_at = started, rn_ended_at = ended, rn_termination_reason = s_run_termination_reason s,
      rn_last_decision_step = s_step_count s,
      rn_metadata = JObj [(''run_count'', json_int (s_run_count s)), (''step_count'', json_int (s_step_count s))],
      rn_command_id = s_run_command_id s, rn_cancel_requested = False\<rparr>"

definition coalesce :: "'a option \<Rightarrow> 'a option \<Rightarrow> 'a option" where
  "coalesce a b = (if a = None then b else a)"

definition upsert_run :: "run_row \<Rightarrow> store \<Rightarrow> store" where
  "upsert_run r d =
     d\<lparr>st_runs :=
         (if \<exists>x\<in>set (st_runs d). rn_run_id x = rn_run_id r
          then map (\<lambda>x. if rn_run_id x = rn_run_id r
                        then x\<lparr>rn_status := rn_status r, rn_ended_at := coalesce (rn_ended_at x) (rn_ended_at r),
                               rn_termination_reason := coalesce (rn_termination_reason x) (rn_termination_reason r),
                               rn_last_decision_step := rn_last_decision_step r, rn_metadata := rn_metadata r\<rparr>
                        else x) (st_runs d)
          else st_runs d @ [r])\<rparr>"

definition write_run_state :: "px \<Rightarrow> unit tx" where
  "write_run_state P =
     tbind (tgets id)
       (\<lambda>s. case (s_run_id s, s_run_started_at s) of
          (Some run, Some started) \<Rightarrow>
            tbind (tuuid P run)
              (\<lambda>i. tbind (if s_run_status s = ''running'' then tret None
                          else (case s_run_ended_at s of Some t \<Rightarrow> tret (Some t) | None \<Rightarrow> tbind (tstamp P) (\<lambda>t. tret (Some t))))
                 (\<lambda>ended. tupdate P (upsert_run (run_record P s i started ended))))
        | _ \<Rightarrow> tret ())"

text \<open>Executions.\<close>

definition frozen_keys :: "string list" where
  "frozen_keys =
     [''execution_id'', ''run_id'', ''call_id'', ''tool'', ''arguments'', ''policy'', ''idempotency_key'', ''command_id'', ''namespace'',
      ''target'', ''payload_sha256'', ''key_algorithm'']"

definition settled_execution :: "json \<Rightarrow> bool" where
  "settled_execution old \<longleftrightarrow> as_str (idx old ''status'') \<in> {Some ''succeeded'', Some ''failed''}"

definition action_changed :: "json \<Rightarrow> json \<Rightarrow> string option" where
  "action_changed old item =
     (if unwrap_or 0 (as_i64 (idx item ''attempts'')) < unwrap_or 0 (as_i64 (idx old ''attempts''))
         \<or> \<not> rel_option json_eq (get (idx old ''payload'') ''recipient'') (get item ''recipient'')
      then Some ''frozen recipient metadata or dispatch count changed''
      else (case find (\<lambda>k. \<not> json_eq (idx old k) (idx item k)) frozen_keys of
              Some k \<Rightarrow> Some (''frozen action field changed: '' @ k)
            | None \<Rightarrow>
                if settled_execution old
                   \<and> (\<not> json_eq (idx old ''status'') (idx item ''status'') \<or> \<not> json_eq (idx old ''result'') (idx item ''result''))
                then Some ''terminal action changed'' else None))"

definition text_column :: "json \<Rightarrow> string \<Rightarrow> string \<times> json" where
  "text_column item k = (k, json_opt (as_str (idx item k)))"

definition wrap_i32 :: "int \<Rightarrow> int" where "wrap_i32 i = (i + 2 ^ 31) mod 2 ^ 32 - 2 ^ 31"

definition time_column :: "px \<Rightarrow> json \<Rightarrow> string \<Rightarrow> string \<times> json" where
  "time_column P item k = (k, json_opt (map_option (px_time_json P) (as_str (idx item k))))"

definition execution_row :: "px \<Rightarrow> session \<Rightarrow> json \<Rightarrow> json" where
  "execution_row P s item =
     JObj (map (text_column item)
             [''execution_id'', ''run_id'', ''call_id'', ''tool'', ''command_id'', ''namespace'', ''target'', ''idempotency_key'', ''payload_sha256'',
              ''status'', ''result'']
           @ [(''key_algorithm'', JStr ''agent-action-v1''), (''arguments'', idx item ''arguments''), (''policy'', idx item ''policy''),
              (''attempts'', json_int (wrap_i32 (unwrap_or 0 (as_i64 (idx item ''attempts''))))),
              (''owner'', json_opt (s_execution_owner s)), (''fence'', json_opt_int (s_execution_fence s)),
              (''payload'', drop_fields [''attempt_records'', ''payload''] item),
              time_column P item ''started_at'', time_column P item ''finished_at''])"

definition update_columns :: "string list \<Rightarrow> string list \<Rightarrow> json \<Rightarrow> json \<Rightarrow> json" where
  "update_columns replaced kept new old =
     fold (\<lambda>k v. set_idx v k (if is_null (idx old k) then idx new k else idx old k)) kept
       (fold (\<lambda>k v. set_idx v k (idx new k)) replaced old)"

definition same_column :: "string \<Rightarrow> json \<Rightarrow> json \<Rightarrow> bool" where
  "same_column k a b \<longleftrightarrow> idx a k = idx b k"

definition upsert_execution :: "json \<Rightarrow> store \<Rightarrow> store" where
  "upsert_execution row d =
     d\<lparr>st_executions :=
         (if \<exists>x\<in>set (st_executions d). same_column ''execution_id'' x row
          then map (\<lambda>x. if same_column ''execution_id'' x row
                        then update_columns [''attempts'', ''status'', ''result'', ''owner'', ''fence'', ''payload''] [''started_at'', ''finished_at''] row x
                        else x) (st_executions d)
          else st_executions d @ [row])\<rparr>"

definition write_execution :: "px \<Rightarrow> json \<Rightarrow> unit tx" where
  "write_execution P item =
     (case as_i64 (idx item ''attempts'') of
        None \<Rightarrow> tfail (Protocol ''invalid dispatch count'')
      | Some attempts \<Rightarrow>
          tbind (tcheck (0 \<le> attempts \<and> attempts \<le> unwrap_or 2 (as_i64 (idx (idx item ''policy'') ''max_attempts'')))
                   ''action exceeded its frozen dispatch bound'')
            (\<lambda>_. tbind (tselect P (\<lambda>now d. find (\<lambda>x. idx x ''execution_id'' = json_opt (as_str (idx item ''execution_id''))) (st_executions d)))
               (\<lambda>old. tbind (case Option.bind old (\<lambda>o'. action_changed o' item) of
                               None \<Rightarrow> tret () | Some e \<Rightarrow> tfail (Protocol e))
                  (\<lambda>_. tbind (tgets (\<lambda>s. execution_row P s item)) (\<lambda>row. tupdate P (upsert_execution row))))))"

text \<open>Attempts.\<close>

definition attempt_keys :: "string list" where
  "attempt_keys = [''execution_id'', ''command_id'', ''attempt_number'', ''kind'', ''payload_sha256'', ''owner'', ''fence'']"

definition normalized_time :: "json \<Rightarrow> string option" where
  "normalized_time v = map_option (\<lambda>t. replace_str ''.000000Z'' ''Z'' (replace_str ''+00:00'' ''Z'' t)) (as_str v)"

definition attempt_changed :: "json \<Rightarrow> json \<Rightarrow> string option" where
  "attempt_changed old item =
     (if \<exists>k\<in>set attempt_keys. \<not> json_eq (idx old k) (idx item k) then Some ''attempt identity changed''
      else if normalized_time (idx old ''started_at'') \<noteq> normalized_time (idx item ''started_at'') then Some ''attempt start time changed''
      else if idx old ''status'' = JStr ''started'' then None
      else if \<not> json_eq (idx old ''external_reference'') (idx item ''external_reference'')
              \<or> normalized_time (idx old ''finished_at'') \<noteq> normalized_time (idx item ''finished_at'')
      then Some ''settled attempt evidence metadata changed''
      else if \<not> json_eq (idx old ''status'') (idx item ''status'') \<or> \<not> json_eq (idx old ''evidence'') (idx item ''evidence'')
              \<or> \<not> json_eq (idx old ''error'') (idx item ''error'')
      then Some ''settled attempt changed'' else None)"

definition attempt_row :: "px \<Rightarrow> json \<Rightarrow> int \<Rightarrow> json" where
  "attempt_row P item number =
     JObj (map (text_column item) [''attempt_id'', ''execution_id'', ''command_id'', ''kind'', ''status'', ''payload_sha256'', ''owner'', ''external_reference'']
           @ [(''attempt_number'', json_int (wrap_i32 number)), (''fence'', json_opt_int (as_i64 (idx item ''fence''))),
              time_column P item ''started_at'', time_column P item ''finished_at'',
              (''evidence'', idx item ''evidence''), (''error'', idx item ''error'')])"

definition upsert_attempt :: "json \<Rightarrow> store \<Rightarrow> store" where
  "upsert_attempt row d =
     d\<lparr>st_attempts :=
         (if \<exists>x\<in>set (st_attempts d). same_column ''attempt_id'' x row
          then map (\<lambda>x. if same_column ''attempt_id'' x row \<and> idx x ''status'' = JStr ''started''
                        then update_columns [''status'', ''finished_at'', ''evidence'', ''error'', ''external_reference''] [] row x
                        else x) (st_attempts d)
          else st_attempts d @ [row])\<rparr>"

definition write_attempt :: "px \<Rightarrow> json \<Rightarrow> unit tx" where
  "write_attempt P item =
     tbind (tselect P (\<lambda>now d. find (\<lambda>x. idx x ''attempt_id'' = json_opt (as_str (idx item ''attempt_id''))) (st_attempts d)))
       (\<lambda>old. case Option.bind old (\<lambda>o'. attempt_changed o' item) of
          Some e \<Rightarrow> tfail (Protocol e)
        | None \<Rightarrow>
            if is_some_and old (\<lambda>o'. idx o' ''status'' \<noteq> JStr ''started'') then tret ()
            else (case as_i64 (idx item ''attempt_number'') of
                    None \<Rightarrow> tfail (Panicked ''attempt_number'')
                  | Some number \<Rightarrow> tupdate P (upsert_attempt (attempt_row P item number))))"

definition write_tool_executions :: "px \<Rightarrow> unit tx" where
  "write_tool_executions P =
     tbind (tgets s_pending_execution_outbox)
       (\<lambda>items. tbind (tfor items (write_execution P))
          (\<lambda>_. tbind (tgets s_attempts_pending) (\<lambda>attempts. tfor attempts (write_attempt P))))"

section \<open>The active context\<close>

definition upsert_context :: "context_row \<Rightarrow> store \<Rightarrow> store" where
  "upsert_context c d = d\<lparr>st_context := Some c\<rparr>"

definition write_context :: "px \<Rightarrow> unit tx" where
  "write_context P =
     tbind (tgets id)
       (\<lambda>s. case s_memory s of
          [] \<Rightarrow> tfail (Protocol ''active context has no goal message'')
        | goal # rest \<Rightarrow>
            tbind (tcheck (m_role goal = ''user'' \<and> m_content goal = Some (s_goal s)) ''active context lost immutable goal'')
              (\<lambda>_. case m_message_id goal of
                 None \<Rightarrow> tfail (Protocol ''goal message has no identity'')
               | Some g \<Rightarrow>
                   tbind (tuuid P g)
                     (\<lambda>goal_id. tbind (case s_active_ledger_id s of None \<Rightarrow> tret None | Some l \<Rightarrow> tbind (tuuid P l) (\<lambda>i. tret (Some i)))
                        (\<lambda>ledger_id. tupdate P (upsert_context
                           \<lparr>cx_revision = s_revision s, cx_goal_message_id = goal_id, cx_ledger_record_id = ledger_id,
                            cx_raw_message_ids = map (json_opt \<circ> m_message_id) rest,
                            cx_ledger_state = json_opt_value (map_option ledger_value (s_compaction_ledger s))\<rparr>)))))"

text \<open>Sequence and time of every active message are read back from the archive.\<close>

fun parse_ids :: "px \<Rightarrow> message list \<Rightarrow> string list tx" where
  "parse_ids P [] = tret []"
| "parse_ids P (m # ms) =
     (case m_message_id m of
        None \<Rightarrow> tfail (Panicked ''message_id'')
      | Some x \<Rightarrow> tbind (tuuid P x) (\<lambda>i. tbind (parse_ids P ms) (\<lambda>is. tret (i # is))))"

definition active_rows :: "string list \<Rightarrow> store \<Rightarrow> transcript_row list" where
  "active_rows ids d = filter (\<lambda>r. tr_message_id r \<in> set ids \<and> tr_kind r = ''message'') (st_transcript d)"

fun reload_messages :: "px \<Rightarrow> transcript_row list \<Rightarrow> message list \<Rightarrow> sql_error + message list" where
  "reload_messages P rows [] = Inr []"
| "reload_messages P rows (m # ms) =
     (case find (\<lambda>r. Some (tr_message_id r) = m_message_id m) rows of
        None \<Rightarrow> Inl (Protocol ''active message missing from transcript'')
      | Some r \<Rightarrow>
          if \<not> json_eq (wire_message m) (tr_payload r) then Inl (Protocol ''active message payload differs from archive'')
          else rbind (reload_messages P rows ms)
                 (\<lambda>ms'. Inr (m\<lparr>m_sequence := Some (tr_sequence r), m_created_at := Some (px_time_text P (tr_created_at r))\<rparr> # ms')))"

definition reload_active :: "px \<Rightarrow> unit tx" where
  "reload_active P =
     tbind (tgets s_memory)
       (\<lambda>memory. tbind (parse_ids P memory)
          (\<lambda>ids. tbind (tselect P (\<lambda>now. active_rows ids))
             (\<lambda>rows. tbind (tlift (reload_messages P rows memory))
                (\<lambda>memory'. tmodify (\<lambda>s. s\<lparr>s_memory := memory'\<rparr>)))))"

section \<open>Retention\<close>

definition event_json :: "string \<Rightarrow> event_row \<Rightarrow> json" where
  "event_json sid r = JObj
     [(''event_id'', json_int (eo_event_id r)), (''session_id'', JStr sid), (''event'', eo_event r), (''created_at'', JStr (eo_created_at r)),
      (''revision'', json_int (eo_revision r)), (''commit_id'', JStr (eo_commit_id r)), (''command_id'', JStr (eo_command_id r))]"

definition diag_json :: "string \<Rightarrow> diag_record \<Rightarrow> json" where
  "diag_json sid r = JObj
     [(''session_id'', JStr sid), (''family'', JStr (d_family r)), (''ordinal'', json_int (d_ordinal r)), (''payload'', d_payload r)]"

definition archive_line :: "lib \<Rightarrow> json \<Rightarrow> string" where "archive_line L v = canonical_json L v @ newline"

definition table_hash :: "lib \<Rightarrow> string \<Rightarrow> json list \<Rightarrow> string" where
  "table_hash L table rows = sha256_hex L (concat (map (\<lambda>r. archive_line L (JObj [(''table'', JStr table), (''row'', r)])) rows))"

definition covered_events :: "json \<Rightarrow> store \<Rightarrow> event_row list" where
  "covered_events item d =
     sort_key eo_event_id
       (filter (\<lambda>r. is_some_and (as_i64 (idx (idx item ''watermarks'') ''events'')) (\<lambda>w. eo_event_id r \<le> w)) (st_events d))"

definition covered_diagnostics :: "json \<Rightarrow> store \<Rightarrow> diag_record list" where
  "covered_diagnostics item d =
     sort_key (\<lambda>r. (d_family r, d_ordinal r))
       (filter (\<lambda>r. d_ordinal r \<le> unwrap_or 0 (as_i64 (idx (idx (idx item ''watermarks'') ''diagnostics'') (d_family r)))) (st_diagnostics d))"

definition unresolved_work :: "store \<Rightarrow> nat" where
  "unresolved_work d =
     length (filter (\<lambda>r. rn_status r = ''running'') (st_runs d))
     + length (filter (\<lambda>e. as_str (idx e ''status'') \<in> {Some ''pending'', Some ''started'', Some ''uncertain'', Some ''blocked''}) (st_executions d))"

definition insert_archive :: "json \<Rightarrow> store \<Rightarrow> store" where
  "insert_archive item d = d\<lparr>st_archives := st_archives d @ [item]\<rparr>"

definition prune_family :: "string \<Rightarrow> int \<Rightarrow> store \<Rightarrow> store" where
  "prune_family family cutoff d =
     d\<lparr>st_diagnostics := filter (\<lambda>r. \<not> (d_family r = family \<and> d_ordinal r \<le> cutoff)) (st_diagnostics d)\<rparr>"

definition newest_events :: "int \<Rightarrow> store \<Rightarrow> int list" where
  "newest_events k d = take (nat k) (rev (sort (map eo_event_id (st_events d))))"

definition prune_events :: "int \<Rightarrow> int \<Rightarrow> store \<Rightarrow> store" where
  "prune_events w k d =
     d\<lparr>st_events := filter (\<lambda>r. \<not> (eo_event_id r \<le> w \<and> eo_event_id r \<notin> set (newest_events k d))) (st_events d)\<rparr>"

definition prune_step :: "px \<Rightarrow> json \<Rightarrow> string \<Rightarrow> unit tx" where
  "prune_step P item family =
     (case as_i64 (idx item ''keep_diagnostics'') of
        None \<Rightarrow> tfail (Panicked ''keep_diagnostics'')
      | Some keep \<Rightarrow>
          tbind (tgets (\<lambda>s. diag_count s family))
            (\<lambda>total. tupdate P (prune_family family
               (min (unwrap_or 0 (as_i64 (idx (idx (idx item ''watermarks'') ''diagnostics'') family))) (total - keep)))))"

text \<open>The archived rows must be those the archive was made of.\<close>

definition check_archive :: "px \<Rightarrow> lib \<Rightarrow> json \<Rightarrow> string \<Rightarrow> (store \<Rightarrow> json list) \<Rightarrow> unit tx" where
  "check_archive P L item table rows =
     tbind (tselect P (\<lambda>now d. table_hash L table (rows d)))
       (\<lambda>h. tcheck (json_eq (idx (idx item ''table_sha256'') table) (JStr h)) ''archive telemetry digest differs; nothing pruned'')"

definition prune_archived :: "px \<Rightarrow> json \<Rightarrow> unit tx" where
  "prune_archived P item =
     tbind (tfor families (prune_step P item))
       (\<lambda>_. tupdate P (case (as_i64 (idx (idx item ''watermarks'') ''events''), as_i64 (idx item ''keep_events'')) of
              (Some w, Some k) \<Rightarrow> prune_events w k
            | _ \<Rightarrow> id))"

definition retention_item :: "px \<Rightarrow> lib \<Rightarrow> session \<Rightarrow> json \<Rightarrow> unit tx" where
  "retention_item P L s item =
     tbind (tuuid P (s_id s))
       (\<lambda>sid. tbind (tcheck (s_execution_owner s \<noteq> None \<and> s_status s \<noteq> ''active'' \<and> s_pending_tool_calls s = []
                       \<and> as_i64 (idx item ''snapshot_revision'') = Some (s_revision s - 1))
                     ''retention requires terminal owned matching revision'')
          (\<lambda>_. tbind (tselect P (\<lambda>now. unresolved_work))
             (\<lambda>open_work. tbind (tcheck (open_work = 0) ''unresolved recovery evidence prevents pruning'')
                (\<lambda>_. tbind (tupdate P id)
                   (\<lambda>_. tbind (check_archive P L item ''agent_session_events'' (\<lambda>d. map (event_json sid) (covered_events item d)))
                      (\<lambda>_. tbind (check_archive P L item ''agent_session_diagnostics'' (\<lambda>d. map (diag_json sid) (covered_diagnostics item d)))
                         (\<lambda>_. tbind (tupdate P (insert_archive item)) (\<lambda>_. prune_archived P item))))))))"

definition retention_write :: "px \<Rightarrow> lib \<Rightarrow> unit tx" where
  "retention_write P L =
     tbind (tgets id) (\<lambda>s. case s_retention_pending s of None \<Rightarrow> tret () | Some item \<Rightarrow> retention_item P L s item)"

section \<open>The transaction\<close>

text \<open>How the transaction ends: with nothing written because the commit is known, or ready to commit.\<close>

datatype verdict = Replayed | Last_Commit int | Written

definition tguard :: "px \<Rightarrow> json \<Rightarrow> unit tx" where
  "tguard P command = tstmt P (\<lambda>now d. rbind (protocol (guard now command (st_commands d))) (\<lambda>_. Inr ((), d)))"

definition tcommand :: "px \<Rightarrow> (int \<Rightarrow> command_row list \<Rightarrow> command_row list result) \<Rightarrow> unit tx" where
  "tcommand P f = tstmt P (\<lambda>now d. rbind (protocol (f now (st_commands d))) (\<lambda>rows. Inr ((), d\<lparr>st_commands := rows\<rparr>)))"

definition find_receipt :: "string \<Rightarrow> store \<Rightarrow> commit_receipt option" where
  "find_receipt i d = find (\<lambda>r. rc_commit_id r = i) (st_receipts d)"

definition clear_commit :: "session \<Rightarrow> session" where
  "clear_commit s =
     s\<lparr>s_pending_commit_id := None, s_pending_commit_fingerprint := None, s_pending_transcript := [], s_pending_execution_outbox := [],
       s_diagnostics_pending := [], s_attempts_pending := []\<rparr>"

definition replay_commit :: "px \<Rightarrow> string \<Rightarrow> commit_receipt \<Rightarrow> verdict tx" where
  "replay_commit P fingerprint r =
     tbind (tcheck (rc_fingerprint r = fingerprint) ''commit identity reused with changed payload'')
       (\<lambda>_. tbind (tfetch P (\<lambda>d. map_option sr_revision (st_session d)))
          (\<lambda>latest. tbind (tmodify (\<lambda>s. clear_commit
                              (s\<lparr>s_needs_reload := latest \<noteq> rc_committed_revision r, s_revision := rc_committed_revision r\<rparr>)))
             (\<lambda>_. tret Replayed)))"

definition anchor_same :: "session \<Rightarrow> json \<Rightarrow> session_row \<Rightarrow> bool" where
  "anchor_same s c r \<longleftrightarrow>
     get_str (sr_state r) ''id'' = Some (s_id s) \<and> get_str (sr_state r) ''goal'' = Some (s_goal s)
     \<and> get_str (sr_state r) ''config_ref'' = s_config_ref s \<and> get_str (sr_state r) ''config_sha256'' = s_config_sha256 s
     \<and> get_str (sr_state r) ''resolved_config_sha256'' = s_resolved_config_sha256 s
     \<and> sr_config_ref r = s_config_ref s \<and> sr_config_sha256 r = s_config_sha256 s
     \<and> sr_resolved_config_sha256 r = s_resolved_config_sha256 s \<and> json_eq (sr_config r) c"

text \<open>Owner, fence and validity of the lease of the session, as one query reads them.\<close>

definition lease_columns :: "int \<Rightarrow> store \<Rightarrow> (string option \<times> int \<times> bool \<times> bool) option" where
  "lease_columns now d =
     map_option (\<lambda>r. (le_owner (sr_lease r), le_fence (sr_lease r),
         le_expires_at (sr_lease r) = None \<or> unexpired now (le_expires_at (sr_lease r)), unexpired now (le_expires_at (sr_lease r)))) (st_session d)"

definition tlease :: "px \<Rightarrow> (string option \<times> int \<times> bool \<times> bool) tx" where
  "tlease P = tstmt P (\<lambda>now d. case lease_columns now d of None \<Rightarrow> Inl Row_Not_Found | Some x \<Rightarrow> Inr (x, d))"

definition check_owner :: "px \<Rightarrow> unit tx" where
  "check_owner P =
     tbind (tlease P)
       (\<lambda>(owner, fence, lease_valid, _). tbind (tgets id)
          (\<lambda>s. tcheck (owner = Option.bind (s_execution_owner s) (px_parse_uuid P)
                       \<and> (owner = None \<or> s_execution_fence s = Some fence \<and> lease_valid))
                  ''session is owned by a fenced worker''))"

text \<open>The checks against the stored row: \<open>Some\<close> revision when this very commit is the last one.\<close>

definition check_previous :: "px \<Rightarrow> json \<Rightarrow> string \<Rightarrow> string \<Rightarrow> session_row option \<Rightarrow> int option tx" where
  "check_previous P c commit_id fingerprint previous =
     tbind (tgets id)
       (\<lambda>s. case previous of
          None \<Rightarrow>
            tbind (tcheck (s_revision s = 0) (''revision conflict: expected '' @ show_int (s_revision s) @ '', stored 0''))
              (\<lambda>_. tret None)
        | Some r \<Rightarrow>
            if sr_last_commit_id r = Some commit_id
            then tbind (tcheck (sr_last_commit_sha256 r = Some fingerprint) ''commit identity reused with changed content'')
                   (\<lambda>_. tret (Some (sr_revision r)))
            else
              tbind (tcheck (sr_revision r = s_revision s)
                       (''revision conflict: expected '' @ show_int (s_revision s) @ '', stored '' @ show_int (sr_revision r)))
                (\<lambda>_. tbind (tcheck (anchor_same s c r) ''immutable session goal/config anchor changed'')
                   (\<lambda>_. tbind (tcheck (sr_storage_version r = 6) ''unsupported stored session format; automatic migration is disabled'')
                      (\<lambda>_. tbind (check_owner P) (\<lambda>_. tret None)))))"

definition no_lease :: lease where "no_lease = \<lparr>le_owner = None, le_fence = 0, le_expires_at = None\<rparr>"

definition session_row_of :: "lib \<Rightarrow> session \<Rightarrow> json \<Rightarrow> int \<Rightarrow> session_row" where
  "session_row_of L s c revision =
     \<lparr>sr_state = snapshot L s, sr_config = c, sr_config_ref = s_config_ref s, sr_config_sha256 = s_config_sha256 s,
      sr_resolved_config_sha256 = s_resolved_config_sha256 s, sr_revision = revision, sr_last_commit_id = None,
      sr_last_commit_sha256 = None, sr_storage_version = 6, sr_lease = no_lease\<rparr>"

definition insert_session :: "session_row \<Rightarrow> store \<Rightarrow> store" where
  "insert_session r d = (if st_session d = None then d\<lparr>st_session := Some r\<rparr> else d)"

text \<open>The last statement: a conditional update of the row by its revision.\<close>

definition store_session :: "session_row \<Rightarrow> int \<Rightarrow> store \<Rightarrow> nat \<times> store" where
  "store_session new expected d =
     (case st_session d of
        None \<Rightarrow> (1, d\<lparr>st_session := Some new\<rparr>)
      | Some r \<Rightarrow>
          if sr_revision r = expected
          then (1, d\<lparr>st_session := Some (r\<lparr>sr_state := sr_state new, sr_revision := sr_revision new,
                      sr_last_commit_id := sr_last_commit_id new, sr_last_commit_sha256 := sr_last_commit_sha256 new,
                      sr_storage_version := 6\<rparr>)\<rparr>)
          else (0, d))"

definition insert_commit_receipt :: "commit_receipt \<Rightarrow> store \<Rightarrow> store" where
  "insert_commit_receipt r d = d\<lparr>st_receipts := st_receipts d @ [r]\<rparr>"

definition insert_event :: "event_row \<Rightarrow> store \<Rightarrow> store" where
  "insert_event r d = d\<lparr>st_events := st_events d @ [r]\<rparr>"

definition write_event :: "px \<Rightarrow> json \<Rightarrow> json \<Rightarrow> string \<Rightarrow> string \<Rightarrow> unit tx" where
  "write_event P e command commit_id command_id =
     (\<lambda>(s, d, n). tupdate P (insert_event
        \<lparr>eo_event_id = px_event_id P n,
         eo_event = set_idx (set_idx e ''command_id'' (idx command ''id'')) ''run_id'' (json_opt (s_run_id s)),
         eo_revision = s_revision s, eo_commit_id = commit_id, eo_command_id = command_id, eo_created_at = px_stamp P n\<rparr>) (s, d, n))"

text \<open>A commit that ends the execution of a run releases the command that started it.\<close>

definition interrupt_origin :: "px \<Rightarrow> json \<Rightarrow> json \<Rightarrow> unit tx" where
  "interrupt_origin P e command =
     tbind (tgets s_run_command_id)
       (\<lambda>origin. case opt_filter (\<lambda>i. i \<noteq> unwrap_or [] (as_str (idx command ''id''))) origin of
          None \<Rightarrow> tret ()
        | Some i \<Rightarrow>
            if event_type e \<in> {''run_interrupted'', ''run_reconciled''} then tcommand P (\<lambda>now rows. Inr (interrupt_command now i rows))
            else tret ())"

text \<open>The fence is checked once more before the row is written.\<close>

definition final_fence :: "px \<Rightarrow> unit tx" where
  "final_fence P =
     tbind (tgets id)
       (\<lambda>s. case s_execution_owner s of
          None \<Rightarrow> tret ()
        | Some x \<Rightarrow>
            tbind (tuuid P x)
              (\<lambda>owner. tbind (tlease P)
                 (\<lambda>(stored_owner, stored_fence, _, live).
                    tcheck (stored_owner = Some owner \<and> Some stored_fence = s_execution_fence s \<and> live)
                      ''lease lost: final fence check rejected commit'')))"

definition write_session :: "px \<Rightarrow> lib \<Rightarrow> json \<Rightarrow> string \<Rightarrow> string \<Rightarrow> int \<Rightarrow> unit tx" where
  "write_session P L c commit_id fingerprint stored_revision =
     tbind (tgets (\<lambda>s. (session_row_of L (s\<lparr>s_pending_transcript := [], s_pending_commit_id := None\<rparr>) c (s_revision s))
                         \<lparr>sr_last_commit_id := Some commit_id, sr_last_commit_sha256 := Some fingerprint\<rparr>))
       (\<lambda>row. tbind (tstmt P (\<lambda>now d. Inr (store_session row stored_revision d)))
          (\<lambda>affected. tcheck (affected = 1) ''revision conflict during commit''))"

definition response_message :: "string \<Rightarrow> session \<Rightarrow> sql_error + string" where
  "response_message kind s =
     (if kind = ''session_created''
      then (case (s_config_ref s, s_config_sha256 s) of
              (Some r, Some h) \<Rightarrow>
                if length h < 12 then Inl (Panicked ''config_sha256'')
                else Inr (''Session created with immutable config '' @ r @ ''@'' @ take 12 h @ ''.'')
            | _ \<Rightarrow> Inl (Panicked ''config_ref''))
      else if kind = ''user_message_appended'' then Inr ''User input appended to session memory.''
      else Inr (unwrap_or ''Run stopped.'' (s_final_answer s)))"

definition finishing_events :: "string list" where
  "finishing_events = [''session_created'', ''user_message_appended'', ''run_finished'', ''telemetry_archived'', ''run_reconciled'']"

definition finish_command :: "px \<Rightarrow> json \<Rightarrow> json \<Rightarrow> string \<Rightarrow> unit tx" where
  "finish_command P e command command_id =
     tbind (tgets id)
       (\<lambda>s. if event_type e = ''run_finished'' \<and> s_run_status s = ''blocked''
            then tcommand P (\<lambda>now rows. Inr (update_command command_id (\<lambda>_. True) (stop_row ''blocked'') rows))
            else if event_type e \<in> set finishing_events
            then tbind (tlift (response_message (event_type e) s))
                   (\<lambda>text. tcommand P (\<lambda>now. finish now command (if event_type e = ''session_created'' then 201 else 200)
                      (JObj [(''session'', session_value (s\<lparr>s_pending_transcript := []\<rparr>)), (''message'', JStr text)])))
            else tret ())"

definition attach_session :: "px \<Rightarrow> string \<Rightarrow> string \<Rightarrow> unit tx" where
  "attach_session P command_id sid =
     tcommand P (\<lambda>now rows. Inr (update_command command_id (\<lambda>_. True) (\<lambda>r. r\<lparr>cm_session := Some sid\<rparr>) rows))"

text \<open>The archive, then the outboxes, then the row.\<close>

definition write_archive :: "px \<Rightarrow> lib \<Rightarrow> json \<Rightarrow> session_row option \<Rightarrow> int \<Rightarrow> transcript_entry list tx" where
  "write_archive P L c previous stored_revision =
     tbind (tmodify (\<lambda>s. s\<lparr>s_revision := stored_revision + 1\<rparr>))
       (\<lambda>_. tbind (tselect P (\<lambda>now d. (int (length (st_transcript d)), max_sequence d)))
          (\<lambda>(total, highest). tbind (tcheck (total = highest) ''transcript sequence gap detected'')
             (\<lambda>_. tbind (tgets (\<lambda>s. session_row_of L s c stored_revision))
                (\<lambda>row. tbind (tupdate P (insert_session row))
                   (\<lambda>_. tbind (case previous of None \<Rightarrow> tret () | Some r \<Rightarrow> validate_previous_transcript P L (sr_state r) highest)
                      (\<lambda>_. tbind (tgets s_pending_transcript)
                         (\<lambda>staged. tbind (write_entries P staged (highest + 1))
                            (\<lambda>next_seq. tbind (tgets s_compaction_provenance)
                               (\<lambda>provenance. tbind (write_summaries P L provenance next_seq)
                                  (\<lambda>next_seq'. tbind (tmodify (\<lambda>s. s\<lparr>s_next_transcript_sequence := next_seq'\<rparr>))
                                     (\<lambda>_. tret staged)))))))))))"

definition write_outboxes :: "px \<Rightarrow> lib \<Rightarrow> json \<Rightarrow> json \<Rightarrow> string \<Rightarrow> string \<Rightarrow> transcript_entry list \<Rightarrow> unit tx" where
  "write_outboxes P L e command command_id sid staged =
     tbind (write_call_map P staged)
       (\<lambda>_. tbind (write_diagnostics P L)
          (\<lambda>_. tbind (attach_session P command_id sid)
             (\<lambda>_. tbind (interrupt_origin P e command)
                (\<lambda>_. tbind (write_run_state P)
                   (\<lambda>_. tbind (write_tool_executions P)
                      (\<lambda>_. tbind (reload_active P)
                         (\<lambda>_. tbind (write_context P)
                            (\<lambda>_. retention_write P L))))))))"

definition seal_commit :: "px \<Rightarrow> lib \<Rightarrow> json \<Rightarrow> json \<Rightarrow> json \<Rightarrow> string \<Rightarrow> string \<Rightarrow> string \<Rightarrow> string \<Rightarrow> int \<Rightarrow> unit tx" where
  "seal_commit P L c e command command_id sid commit_id fingerprint stored_revision =
     tbind (attach_session P command_id sid)
       (\<lambda>_. tbind (tgets (\<lambda>s. \<lparr>rc_commit_id = commit_id, rc_command_id = command_id, rc_fingerprint = fingerprint,
                               rc_expected_revision = stored_revision, rc_committed_revision = s_revision s\<rparr>))
          (\<lambda>receipt. tbind (tupdate P (insert_commit_receipt receipt))
             (\<lambda>_. tbind (write_event P e command commit_id command_id)
                (\<lambda>_. tbind (final_fence P)
                   (\<lambda>_. tbind (write_session P L c commit_id fingerprint stored_revision)
                      (\<lambda>_. tbind (tguard P command)
                         (\<lambda>_. finish_command P e command command_id)))))))"

definition write_commit :: "px \<Rightarrow> lib \<Rightarrow> json \<Rightarrow> json \<Rightarrow> json \<Rightarrow> string \<Rightarrow> string \<Rightarrow> string \<Rightarrow> string \<Rightarrow> session_row option \<Rightarrow> verdict tx" where
  "write_commit P L c e command command_id sid commit_id fingerprint previous =
     (let stored_revision = (case previous of None \<Rightarrow> 0 | Some r \<Rightarrow> sr_revision r)
      in tbind (write_archive P L c previous stored_revision)
           (\<lambda>staged. tbind (write_outboxes P L e command command_id sid staged)
              (\<lambda>_. tbind (seal_commit P L c e command command_id sid commit_id fingerprint stored_revision)
                 (\<lambda>_. tret Written))))"

text \<open>The advisory lock on the session is the statement without effect here.\<close>

definition fresh_commit :: "px \<Rightarrow> lib \<Rightarrow> json \<Rightarrow> json \<Rightarrow> json \<Rightarrow> string \<Rightarrow> string \<Rightarrow> string \<Rightarrow> string \<Rightarrow> verdict tx" where
  "fresh_commit P L c e command command_id sid commit_id fingerprint =
     tbind (tguard P command)
       (\<lambda>_. tbind (tupdate P id)
          (\<lambda>_. tbind (tselect P (\<lambda>now. st_session))
             (\<lambda>previous. tbind (check_previous P c commit_id fingerprint previous)
                (\<lambda>known. case known of
                   Some revision \<Rightarrow> tret (Last_Commit revision)
                 | None \<Rightarrow> write_commit P L c e command command_id sid commit_id fingerprint previous))))"

definition transaction :: "px \<Rightarrow> lib \<Rightarrow> json \<Rightarrow> json \<Rightarrow> string \<Rightarrow> string \<Rightarrow> string \<Rightarrow> verdict tx" where
  "transaction P L c e sid commit_id fingerprint =
     tbind (tgets s_command)
       (\<lambda>cmd. case cmd of
          None \<Rightarrow> tfail (Protocol ''durable command required'')
        | Some command \<Rightarrow>
            tbind (tuuid_unwrap P (as_str (idx command ''id'')))
              (\<lambda>command_id. tbind (tfetch P (\<lambda>d. find (\<lambda>r. cm_id r = command_id) (st_commands d)))
                 (\<lambda>_. tbind (tselect P (\<lambda>now. find_receipt commit_id))
                    (\<lambda>receipt. case receipt of
                       Some r \<Rightarrow> replay_commit P fingerprint r
                     | None \<Rightarrow> fresh_commit P L c e command command_id sid commit_id fingerprint))))"

section \<open>Saving\<close>

definition prepare_commit :: "px \<Rightarrow> lib \<Rightarrow> json \<Rightarrow> json \<Rightarrow> (string \<times> string \<times> string) tx" where
  "prepare_commit P L c e =
     tbind (\<lambda>(s, d, n). case stage_transcript P (s, n) of (s', n') \<Rightarrow> (Inr (), s', d, n'))
       (\<lambda>_. tbind (tgets id)
          (\<lambda>s. tbind (tuuid_unwrap P (Some (s_id s)))
             (\<lambda>sid. case s_pending_commit_id s of
                None \<Rightarrow> tfail (Panicked ''pending_commit_id'')
              | Some x \<Rightarrow>
                  tbind (tuuid P x)
                    (\<lambda>commit_id. tbind (tlift (commit_fingerprint P L s c e))
                       (\<lambda>fingerprint. tbind (tcheck (is_none_or (s_pending_commit_fingerprint s) (\<lambda>old. old = fingerprint))
                                              ''retained commit proposal changed'')
                          (\<lambda>_. tbind (tmodify (\<lambda>s. s\<lparr>s_pending_commit_fingerprint := Some fingerprint\<rparr>))
                             (\<lambda>_. tret (sid, commit_id, fingerprint))))))))"

text \<open>
  The transaction works on the tables as other transactions have left them; they are unchanged
  unless it commits.
\<close>

definition commit_written :: "px \<Rightarrow> store \<Rightarrow> session \<times> store \<times> nat \<Rightarrow> (sql_error + unit) \<times> session \<times> store \<times> nat" where
  "commit_written P d0 st =
     (case st of (s, d, n) \<Rightarrow>
        (case px_commit P n of
           (None, _) \<Rightarrow> (Inr (), (clear_commit s)\<lparr>s_retention_pending := None\<rparr>, d, Suc n)
         | (Some e, applied) \<Rightarrow> (Inl e, s, if applied then d else d0, Suc n)))"

definition commit_known :: "px \<Rightarrow> int \<Rightarrow> store \<Rightarrow> session \<times> store \<times> nat \<Rightarrow> (sql_error + unit) \<times> session \<times> store \<times> nat" where
  "commit_known P revision d0 st =
     (case st of (s, d, n) \<Rightarrow>
        (case px_commit P n of
           (None, _) \<Rightarrow>
             (Inr (), s\<lparr>s_revision := revision, s_pending_transcript := [], s_pending_execution_outbox := [],
                        s_diagnostics_pending := [], s_pending_commit_id := None\<rparr>, d0, Suc n)
         | (Some e, _) \<Rightarrow> (Inl e, s, d0, Suc n)))"

definition run_transaction :: "px \<Rightarrow> verdict tx \<Rightarrow> unit tx" where
  "run_transaction P body =
     (\<lambda>(s, d, n). let d0 = px_others P n d in
        case px_fault P n of
          Some e \<Rightarrow> (Inl e, s, d0, Suc n)
        | None \<Rightarrow>
            (case body (s, d0, Suc n) of
               (Inl e, s', _, n') \<Rightarrow> (Inl e, s', d0, n')
             | (Inr Replayed, s', _, n') \<Rightarrow> (Inr (), s', d0, n')
             | (Inr (Last_Commit revision), st) \<Rightarrow> commit_known P revision d0 st
             | (Inr Written, st) \<Rightarrow> commit_written P d0 st))"

definition save_inner :: "px \<Rightarrow> lib \<Rightarrow> json \<Rightarrow> json \<Rightarrow> unit tx" where
  "save_inner P L c e =
     tbind (prepare_commit P L c e)
       (\<lambda>(sid, commit_id, fingerprint). run_transaction P (transaction P L c e sid commit_id fingerprint))"

text \<open>Up to two repetitions after an error of the connection, each from the staged proposal.\<close>

fun try_commit :: "px \<Rightarrow> lib \<Rightarrow> json \<Rightarrow> json \<Rightarrow> session \<Rightarrow> nat \<Rightarrow> store \<times> nat \<Rightarrow> (sql_error + unit) \<times> session \<times> store \<times> nat" where
  "try_commit P L c e staged 0 (d, n) = save_inner P L c e (staged, d, n)"
| "try_commit P L c e staged (Suc retries) (d, n) =
     (case save_inner P L c e (staged, d, n) of
        (Inl er, s', d', n') \<Rightarrow>
          if transient er then try_commit P L c e staged retries (d', n') else (Inl er, s', d', n')
      | (Inr u, st') \<Rightarrow> (Inr u, st'))"

definition summary_ids :: "session \<Rightarrow> string set" where
  "summary_ids s = set (List.map_filter (\<lambda>p. as_str (idx p ''transcript_record_id'')) (s_compaction_provenance s))"

definition acknowledged :: "session \<Rightarrow> session" where
  "acknowledged s =
     (let s' = s\<lparr>s_committed_summaries := s_committed_summaries s \<union> summary_ids s\<rparr>
      in if s_checkpoint_ack s' = None then s'
         else s'\<lparr>s_checkpoint_ack := Some \<lparr>ack_needs_reload = s_needs_reload s', ack_revision = s_revision s',
                   ack_next_sequence = s_next_transcript_sequence s', ack_memory = s_memory s', ack_summaries = s_committed_summaries s'\<rparr>\<rparr>)"

definition retained :: "session \<Rightarrow> session \<Rightarrow> session" where
  "retained staged proposal =
     proposal\<lparr>s_revision := s_revision staged, s_next_transcript_sequence := s_next_transcript_sequence staged,
       s_memory := s_memory staged, s_pending_transcript := s_pending_transcript staged,
       s_pending_execution_outbox := s_pending_execution_outbox staged\<rparr>"

definition unresolved :: "px \<Rightarrow> sql_error \<Rightarrow> sql_error" where
  "unresolved P e = (if transient e then Protocol (''commit_outcome_unresolved: '' @ px_error_text P e) else e)"

definition stage_save :: "px \<Rightarrow> json \<Rightarrow> session \<times> nat \<Rightarrow> sql_error + (session \<times> nat)" where
  "stage_save P e sn =
     (case stage_diagnostics (fst sn) of
        Inl er \<Rightarrow> Inl (Protocol er)
      | Inr s \<Rightarrow> Inr (stage_commit P e (stage_transcript P (s, snd sn))))"

definition save :: "px \<Rightarrow> lib \<Rightarrow> json \<Rightarrow> json \<Rightarrow> unit tx" where
  "save P L c e =
     (\<lambda>(s, d, n).
        case stage_save P e (s, n) of
          Inl er \<Rightarrow> (Inl er, s, d, n)
        | Inr (staged, n1) \<Rightarrow>
            if s_needs_reload staged then (Inl (Protocol ''Historical receipt requires reload''), staged, d, n1)
            else (case try_commit P L c e staged 2 (d, n1) of
                    (Inr _, s', d', n') \<Rightarrow> (Inr (), acknowledged s', d', n')
                  | (Inl er, s', d', n') \<Rightarrow> (Inl (unresolved P er), retained staged s', d', n')))"

end
