(* ===== verification/Completion.thy ===== *)
theory Completion
  imports Schema Workflow
begin

text \<open>
  Completion control (\<^verbatim>\<open>engine.rs\<close>): artifacts captured from executed tool results, argument
  bindings to them, and the checks a final answer has to pass.  The soundness lemmas state
  what an accepted answer and an accepted binding guarantee.
\<close>

section \<open>Extracting results\<close>

definition separator_cell :: "string \<Rightarrow> bool" where
  "separator_cell cell =
     (let a = (if prefix '':'' cell then tl cell else cell);
          b = (if ends_with a '':'' then butlast a else a)
      in length b \<ge> 3 \<and> (\<forall>c\<in>set b. c = CHR ''-''))"

definition table_cells :: "string \<Rightarrow> string list" where
  "table_cells line =
     (let cells = map trim (split_char (CHR 0x7C) line);
          cells1 = (if cells \<noteq> [] \<and> hd cells = [] then tl cells else cells)
      in if cells1 \<noteq> [] \<and> last cells1 = [] then butlast cells1 else cells1)"

fun table_rows :: "string list \<Rightarrow> string list list \<Rightarrow> string list list" where
  "table_rows [] rows = rows"
| "table_rows (line # rest) rows =
     (let trimmed = trim line
      in if CHR 0x7C \<in> set trimmed then
           (let cells = table_cells trimmed
            in if cells \<noteq> [] \<and> list_all separator_cell cells then table_rows rest rows
               else if cells \<noteq> [] then table_rows rest (rows @ [cells])
               else table_rows rest rows)
         else if rows \<noteq> [] then rows
         else table_rows rest rows)"

definition parse_markdown_table :: "string \<Rightarrow> json option" where
  "parse_markdown_table text =
     (let rows = table_rows (lines text) []
      in if length rows < 2 \<or> list_ex (\<lambda>row. length row \<noteq> length (rows ! 0)) rows then None
         else if \<not> distinct (map hd (drop 1 rows)) then None
         else Some (JArr (map (\<lambda>row. JArr (map JStr row)) rows)))"

definition check_kind_of :: "json \<Rightarrow> string" where
  "check_kind_of check = unwrap_or [] (get_str check ''kind'')"

definition extract_result :: "lib \<Rightarrow> json \<Rightarrow> string \<Rightarrow> json option" where
  "extract_result L check output =
     (if check_kind_of check = ''markdown_table'' then parse_markdown_table output
      else (case parse_strict_json L output of
              Inl _ \<Rightarrow> None
            | Inr parsed \<Rightarrow>
                (case value_at_path parsed (Option.bind (get check ''path'') as_array) of
                   None \<Rightarrow> None
                 | Some v \<Rightarrow>
                     if check_kind_of check = ''number'' \<and> \<not> is_number v then None else Some v)))"

section \<open>Comparing an answer with an artifact\<close>

definition int_pattern :: string where
  "int_pattern = ''^[-+]?'' @ [CHR 0x5C] @ ''d+$''"

definition remove_commas :: "string \<Rightarrow> string" where
  "remove_commas s = filter (\<lambda>c. c \<noteq> CHR '','') s"

definition numeric_cell_equal :: "lib \<Rightarrow> string \<Rightarrow> string \<Rightarrow> bool" where
  "numeric_cell_equal L actual expected =
     (if regex_search L int_pattern expected = Ok True \<and> regex_search L int_pattern actual \<noteq> Ok True then False
      else decimal_equal (remove_commas actual) (remove_commas expected) \<or> actual = expected)"

text \<open>The closure \<open>rows\<close> of \<open>check_answer\<close>: body rows keyed by their first cell.\<close>

definition strings_of :: "json list \<Rightarrow> string list option" where
  "strings_of vs = (if list_all is_string vs then Some (List.map_filter as_str vs) else None)"

fun keyed_rows :: "json list \<Rightarrow> (string \<times> string list) list \<Rightarrow> (string \<times> string list) list option" where
  "keyed_rows [] out = Some out"
| "keyed_rows (row # rest) out =
     (case as_array row of
        Some (c # cells) \<Rightarrow>
          (case (as_str c, strings_of cells) of
             (Some key, Some value) \<Rightarrow>
               if key \<in> fst ` set out then None else keyed_rows rest (out @ [(key, value)])
           | _ \<Rightarrow> None)
      | _ \<Rightarrow> None)"

definition rows_agree :: "lib \<Rightarrow> (string \<times> string list) list \<Rightarrow> (string \<times> string list) list \<Rightarrow> bool" where
  "rows_agree L actual wanted \<longleftrightarrow>
     length actual = length wanted
     \<and> list_all (\<lambda>(key, expected).
          is_some_and (map_of actual key)
            (\<lambda>found. length found = length expected \<and> list_all2 (numeric_cell_equal L) found expected)) wanted"

definition head_eq :: "json list \<Rightarrow> json list \<Rightarrow> bool" where
  "head_eq xs ys =
     (case (xs, ys) of ([], []) \<Rightarrow> True | (x # _, y # _) \<Rightarrow> json_eq x y | _ \<Rightarrow> False)"

definition check_table :: "lib \<Rightarrow> string \<Rightarrow> json \<Rightarrow> bool" where
  "check_table L answer artifact =
     (case Option.bind (parse_markdown_table answer) as_array of
        None \<Rightarrow> False
      | Some actual_rows \<Rightarrow>
          (case as_array artifact of
             None \<Rightarrow> False
           | Some wanted_rows \<Rightarrow>
               head_eq actual_rows wanted_rows
               \<and> (case (keyed_rows (drop 1 actual_rows) [], keyed_rows (drop 1 wanted_rows) []) of
                    (Some actual, Some wanted) \<Rightarrow> rows_agree L actual wanted
                  | _ \<Rightarrow> False)))"

fun answer_at :: "json \<Rightarrow> json list \<Rightarrow> json option" where
  "answer_at v [] = Some v"
| "answer_at v (part # parts) =
     (case Option.bind (as_str part) (get v) of
        Some w \<Rightarrow> answer_at w parts
      | None \<Rightarrow>
          (case Option.bind (as_u64 part) (get_index v) of
             Some w \<Rightarrow> answer_at w parts
           | None \<Rightarrow> None))"

definition number_pattern :: "lib \<Rightarrow> string \<Rightarrow> string" where
  "number_pattern L label =
     (let b = [CHR 0x5C]
      in regex_escape L label @ b @ ''s*'' @ b @ ''$?'' @ b @ ''s*([-+]?(?:'' @ b @ ''d{1,3}(?:,'' @ b @ ''d{3})+|''
         @ b @ ''d+)(?:'' @ b @ ''.'' @ b @ ''d+)?)'')"

text \<open>What follows a matched number must not continue it.\<close>

definition boundary_ok :: "string \<Rightarrow> bool" where
  "boundary_ok rest_text =
     (case rest_text of
        [] \<Rightarrow> True
      | c # rest \<Rightarrow>
          \<not> (is_digit c \<or> c = CHR '','')
          \<and> \<not> (c = CHR ''.'' \<and> (case rest of d # _ \<Rightarrow> is_digit d | [] \<Rightarrow> False)))"

definition check_number :: "lib \<Rightarrow> json \<Rightarrow> string \<Rightarrow> json \<Rightarrow> bool" where
  "check_number L check answer artifact =
     (case regex_captures L (number_pattern L (unwrap_or [] (get_str check ''label''))) answer of
        Inr [(finish, number)] \<Rightarrow>
          boundary_ok (drop finish answer)
          \<and> (case artifact of JNum n \<Rightarrow> decimal_equal (remove_commas number) (num_text L n) | _ \<Rightarrow> False)
      | _ \<Rightarrow> False)"

definition check_answer :: "lib \<Rightarrow> json \<Rightarrow> string \<Rightarrow> json \<Rightarrow> bool" where
  "check_answer L check answer artifact =
     (if check_kind_of check = ''markdown_table'' then check_table L answer artifact
      else if check_kind_of check = ''json_value'' then
        (case parse_strict_json L answer of
           Inl _ \<Rightarrow> False
         | Inr parsed \<Rightarrow>
             is_some_and (answer_at parsed (get_arr check ''answer_path'')) (\<lambda>v. typed_equal L v artifact))
      else if check_kind_of check = ''number'' then check_number L check answer artifact
      else False)"

definition table_line :: "string list \<Rightarrow> string" where
  "table_line cells = ''| '' @ join '' | '' cells @ '' |''"

definition describe_row :: "nat \<Rightarrow> json \<Rightarrow> string list" where
  "describe_row index row =
     (let cells = map (\<lambda>c. unwrap_or [] (as_str c)) (unwrap_or [] (as_array row))
      in table_line cells # (if index = 0 then [table_line (replicate (length cells) ''---'')] else []))"

definition describe_artifact :: "lib \<Rightarrow> json \<Rightarrow> json \<Rightarrow> string" where
  "describe_artifact L check artifact =
     (if check_kind_of check = ''markdown_table'' then
        (case as_array artifact of
           None \<Rightarrow> json_text L artifact
         | Some rows \<Rightarrow> join newline (concat (map (\<lambda>(i, r). describe_row i r) (enumerate 0 rows))))
      else if check_kind_of check = ''number'' then
        unwrap_or ''Result'' (get_str check ''label'') @ '' '' @ json_text L artifact
      else ''Expected JSON value at '' @ json_debug L (unwrap_or JNull (get check ''answer_path'')) @ '': ''
           @ json_text L artifact)"

section \<open>Artifacts and bindings\<close>

definition result_checks :: "config \<Rightarrow> json list" where
  "result_checks cfg = get_arr (c_completion cfg) ''result_checks''"

definition bindings :: "config \<Rightarrow> json list" where
  "bindings cfg = get_arr (c_execution cfg) ''argument_bindings''"

definition is_error_output :: "string \<Rightarrow> bool" where
  "is_error_output output \<longleftrightarrow> prefix ''ERROR:'' output \<or> prefix ''AssertionError:'' output"

definition capturable :: "lib \<Rightarrow> json \<Rightarrow> string \<Rightarrow> (string \<times> json) list \<Rightarrow> string \<Rightarrow> bool" where
  "capturable L check name args output \<longleftrightarrow>
     get_str check ''tool'' = Some name
     \<and> contains L (JObj args) (unwrap_or (JObj []) (get check ''arguments''))
     \<and> (case opt_filter (\<lambda>v. is_object v \<and> \<not> is_some_and (as_object v) (\<lambda>m. m = [])) (get check ''result'') of
          None \<Rightarrow> True
        | Some expected \<Rightarrow>
            (case parse_strict_json L output of Inl _ \<Rightarrow> False | Inr parsed \<Rightarrow> contains L parsed expected))"

definition artifact_record ::
  "string \<Rightarrow> (string \<times> json) list \<Rightarrow> string \<Rightarrow> int \<Rightarrow> json \<Rightarrow> json" where
  "artifact_record name args i step v =
     JObj [(''tool'', JStr name), (''arguments'', JObj args), (''tool_call_id'', JStr i),
           (''step'', json_int step), (''value'', v)]"

definition capture_one ::
  "lib \<Rightarrow> string \<Rightarrow> string \<Rightarrow> (string \<times> json) list \<Rightarrow> string \<Rightarrow> nat \<times> json \<Rightarrow> session \<Rightarrow> session" where
  "capture_one L i name args output ic s =
     (case ic of (index, check) \<Rightarrow>
        if \<not> capturable L check name args output then s
        else (case extract_result L check output of
                None \<Rightarrow> s
              | Some v \<Rightarrow>
                  (let artifacts = (if is_object (s_completion_artifacts s) then s_completion_artifacts s else JObj [])
                   in s\<lparr>s_completion_artifacts :=
                          set_idx artifacts (show_nat index) (artifact_record name args i (s_step_count s) v)\<rparr>)))"

definition capture_artifacts ::
  "lib \<Rightarrow> config \<Rightarrow> string \<Rightarrow> string \<Rightarrow> (string \<times> json) list \<Rightarrow> string \<Rightarrow> session \<Rightarrow> session" where
  "capture_artifacts L cfg i name args output s =
     (if is_error_output output then s
      else fold (capture_one L i name args output) (enumerate 0 (result_checks cfg)) s)"

definition artifact_for_label :: "config \<Rightarrow> session \<Rightarrow> string \<Rightarrow> (nat \<times> json) option" where
  "artifact_for_label cfg s label =
     (case find (\<lambda>(_, check). get_str check ''label'' = Some label) (enumerate 0 (result_checks cfg)) of
        None \<Rightarrow> None
      | Some (i, _) \<Rightarrow> map_option (Pair i) (get (s_completion_artifacts s) (show_nat i)))"

definition bound_value :: "config \<Rightarrow> session \<Rightarrow> json \<Rightarrow> json option" where
  "bound_value cfg s binding =
     Option.bind (artifact_for_label cfg s (unwrap_or [] (get_str binding ''source_label'')))
       (\<lambda>(_, artifact). Option.bind (get artifact ''value'')
          (\<lambda>v. value_at_path v (Option.bind (get binding ''path'') as_array)))"

definition one_binding_error ::
  "lib \<Rightarrow> config \<Rightarrow> session \<Rightarrow> string \<Rightarrow> (string \<times> json) list \<Rightarrow> json \<Rightarrow> string option" where
  "one_binding_error L cfg s name args binding =
     (let argument = unwrap_or [] (get_str binding ''argument'');
          label = unwrap_or [] (get_str binding ''source_label'')
      in case artifact_for_label cfg s label of
           None \<Rightarrow> Some (''Obtain executed result '' @ debug_text L label @ '' before calling '' @ name @ ''.'')
         | Some _ \<Rightarrow>
             (case bound_value cfg s binding of
                None \<Rightarrow> Some (''Bound result path for '' @ debug_text L label @ '' is unavailable.'')
              | Some expected \<Rightarrow>
                  if is_some_and (map_of args argument) (\<lambda>actual. \<not> typed_equal L actual expected)
                  then Some (argument @ '' must equal its bound executed result: '' @ json_text L expected @ ''.'')
                  else None))"

fun first_some :: "('a \<Rightarrow> 'b option) \<Rightarrow> 'a list \<Rightarrow> 'b option" where
  "first_some f [] = None"
| "first_some f (x # xs) = (case f x of Some y \<Rightarrow> Some y | None \<Rightarrow> first_some f xs)"

definition binding_error ::
  "lib \<Rightarrow> config \<Rightarrow> session \<Rightarrow> string \<Rightarrow> (string \<times> json) list \<Rightarrow> string option" where
  "binding_error L cfg s name args =
     first_some (one_binding_error L cfg s name args)
       (filter (\<lambda>b. get_str b ''tool'' = Some name) (bindings cfg))"

definition action_rejection ::
  "lib \<Rightarrow> config \<Rightarrow> session \<Rightarrow> string option \<Rightarrow> string \<Rightarrow> (string \<times> json) list \<Rightarrow> string option \<Rightarrow> string option" where
  "action_rejection L cfg s ph name args invalid =
     (case invalid of
        Some error \<Rightarrow> Some error
      | None \<Rightarrow>
          if tools_disabled cfg then Some ''tools are disabled for this task''
          else if \<not> (case ph of Some i \<Rightarrow> allowed_in_phase cfg i name | None \<Rightarrow> c_workflow cfg = None)
          then Some ''tool is not allowed in the active workflow phase''
          else binding_error L cfg s name args)"

section \<open>The final answer\<close>

definition blank_error :: string where
  "blank_error = ''Return a nonempty final answer or valid tool call.''"

definition incomplete_error :: "lib \<Rightarrow> config \<Rightarrow> session \<Rightarrow> string" where
  "incomplete_error L cfg s =
     ''Workflow is incomplete. Obtain the outstanding evidence before answering.'' @ newline
     @ unwrap_or [] (instruction L cfg s)"

definition forbidden_error :: string where
  "forbidden_error = ''Final answer includes forbidden diagnostic content; return only the configured deliverables.''"

definition exact_error :: string where
  "exact_error = ''Final answer must equal the configured exact text without surrounding prose or whitespace.''"

definition pattern_error :: string where
  "pattern_error = ''Final answer does not satisfy the configured presentation pattern.''"

definition bare_json_error :: string where
  "bare_json_error = ''Final answer must be bare valid JSON without prose or code fences.''"

definition forbidden_patterns :: "config \<Rightarrow> string list" where
  "forbidden_patterns cfg = List.map_filter as_str (get_arr (c_completion cfg) ''forbidden_patterns'')"

definition final_pattern :: "string \<Rightarrow> string" where
  "final_pattern p = [CHR 0x5C] @ ''A(?:'' @ p @ '')'' @ [CHR 0x5C] @ ''z''"

definition schema_errors :: "lib \<Rightarrow> config \<Rightarrow> string \<Rightarrow> string list" where
  "schema_errors L cfg answer =
     (case opt_filter (\<lambda>v. \<not> is_null v) (get (c_completion cfg) ''json_schema'') of
        None \<Rightarrow> []
      | Some schema \<Rightarrow>
          (case parse_strict_json L answer of
             Inl _ \<Rightarrow> [bare_json_error]
           | Inr v \<Rightarrow> (case validate_value L schema v ''final_answer'' of Inl problem \<Rightarrow> [problem] | Inr _ \<Rightarrow> [])))"

definition artifact_value :: "session \<Rightarrow> nat \<Rightarrow> json option" where
  "artifact_value s index =
     Option.bind (get (s_completion_artifacts s) (show_nat index)) (\<lambda>a. get a ''value'')"

definition check_label :: "json \<Rightarrow> string" where
  "check_label check = unwrap_or ''required deliverable'' (get_str check ''label'')"

definition deliverable_errors :: "lib \<Rightarrow> session \<Rightarrow> string \<Rightarrow> nat \<times> json \<Rightarrow> string list" where
  "deliverable_errors L s answer ic =
     (case ic of (index, check) \<Rightarrow>
        (case artifact_value s index of
           None \<Rightarrow>
             [''Missing executed tool result for '' @ check_label check @ ''; obtain it using ''
              @ unwrap_or ''the configured tool'' (get_str check ''tool'') @ ''.'']
         | Some v \<Rightarrow>
             if \<not> check_answer L check answer v
             then [''Final answer must include the verified deliverable for '' @ check_label check @ '':''
                   @ newline @ describe_artifact L check v]
             else []))"

definition completion_errors :: "lib \<Rightarrow> config \<Rightarrow> session \<Rightarrow> string \<Rightarrow> string list" where
  "completion_errors L cfg s answer =
     (if trim answer = [] then [blank_error] else [])
     @ (if c_workflow cfg \<noteq> None \<and> \<not> complete_wf cfg s then [incomplete_error L cfg s] else [])
     @ concat (map (\<lambda>p. if regex_search L (''(?i)(?:'' @ p @ '')'') answer = Ok True then [forbidden_error] else [])
                 (forbidden_patterns cfg))
     @ (if is_some_and (get_str (c_completion cfg) ''exact'') (\<lambda>expected. answer \<noteq> expected)
        then [exact_error] else [])
     @ (if is_some_and (get_str (c_completion cfg) ''pattern'')
             (\<lambda>p. regex_search L (final_pattern p) answer \<noteq> Ok True) then [pattern_error] else [])
     @ schema_errors L cfg answer
     @ concat (map (deliverable_errors L s answer) (enumerate 0 (result_checks cfg)))"

section \<open>What acceptance guarantees\<close>

lemma completion_errors_Nil:
  assumes "completion_errors L cfg s answer = []"
  shows "trim answer \<noteq> []" "complete_wf cfg s"
    and "\<And>p. p \<in> set (forbidden_patterns cfg) \<Longrightarrow> regex_search L (''(?i)(?:'' @ p @ '')'') answer \<noteq> Ok True"
    and "\<And>x. get_str (c_completion cfg) ''exact'' = Some x \<Longrightarrow> answer = x"
    and "\<And>p. get_str (c_completion cfg) ''pattern'' = Some p \<Longrightarrow> regex_search L (final_pattern p) answer = Ok True"
    and "schema_errors L cfg answer = []"
    and "\<And>i. i < length (result_checks cfg) \<Longrightarrow>
           \<exists>v. artifact_value s i = Some v \<and> check_answer L (result_checks cfg ! i) answer v"
proof -
  note parts = assms [unfolded completion_errors_def append_is_Nil_conv]
  note p1 = parts [THEN conjunct1] and r1 = parts [THEN conjunct2]
  note p2 = r1 [THEN conjunct1] and r2 = r1 [THEN conjunct2]
  note p3 = r2 [THEN conjunct1] and r3 = r2 [THEN conjunct2]
  note p4 = r3 [THEN conjunct1] and r4 = r3 [THEN conjunct2]
  note p5 = r4 [THEN conjunct1] and r5 = r4 [THEN conjunct2]
  note p6 = r5 [THEN conjunct1] and p7 = r5 [THEN conjunct2]
  from p1 show "trim answer \<noteq> []" by (simp split: if_splits)
  from p2 show "complete_wf cfg s" by (auto simp: complete_wf_def split: if_splits)
  show "regex_search L (''(?i)(?:'' @ p @ '')'') answer \<noteq> Ok True" if "p \<in> set (forbidden_patterns cfg)" for p
  proof
    assume "regex_search L (''(?i)(?:'' @ p @ '')'') answer = Ok True"
    then have "forbidden_error \<in> set (concat (map (\<lambda>p. if regex_search L (''(?i)(?:'' @ p @ '')'') answer = Ok True
        then [forbidden_error] else []) (forbidden_patterns cfg)))"
      using that by (auto intro!: bexI [of _ p])
    then show False unfolding p3 by simp
  qed
  from p4 show "answer = x" if "get_str (c_completion cfg) ''exact'' = Some x" for x
    using that by (simp split: if_splits)
  from p5 show "regex_search L (final_pattern p) answer = Ok True" if "get_str (c_completion cfg) ''pattern'' = Some p" for p
    using that by (simp split: if_splits)
  from p6 show "schema_errors L cfg answer = []" .
  fix i assume i: "i < length (result_checks cfg)"
  from p7 i have "deliverable_errors L s answer (i, result_checks cfg ! i) = []"
    by (auto simp: in_enumerate)
  then show "\<exists>v. artifact_value s i = Some v \<and> check_answer L (result_checks cfg ! i) answer v"
    by (auto simp: deliverable_errors_def split: option.splits if_splits)
qed

lemma schema_errors_Nil:
  assumes "schema_errors L cfg answer = []" "get (c_completion cfg) ''json_schema'' = Some schema" "schema \<noteq> JNull"
  shows "\<exists>v. parse_strict_json L answer = Ok v \<and> conforms L schema v"
  using assms validate_value_conforms(1) [of L schema _ "''final_answer''"]
  by (auto simp: schema_errors_def is_null_def split: sum.splits)

lemma first_some_None: "first_some f xs = None \<longleftrightarrow> (\<forall>x\<in>set xs. f x = None)"
  by (induction xs) (auto split: option.splits)

lemma binding_error_None:
  assumes "binding_error L cfg s name args = None" "b \<in> set (bindings cfg)" "get_str b ''tool'' = Some name"
  shows "\<exists>v. bound_value cfg s b = Some v
     \<and> (\<forall>actual. map_of args (unwrap_or [] (get_str b ''argument'')) = Some actual \<longrightarrow> typed_equal L actual v)"
proof -
  have "one_binding_error L cfg s name args b = None"
    using assms by (auto simp: binding_error_def first_some_None)
  then show ?thesis
    by (auto simp: one_binding_error_def Let_def split: option.splits if_splits)
qed

lemma action_rejection_None:
  assumes "action_rejection L cfg s ph name args invalid = None"
  shows "invalid = None" "\<not> tools_disabled cfg"
    "case ph of Some i \<Rightarrow> allowed_in_phase cfg i name | None \<Rightarrow> c_workflow cfg = None"
    "binding_error L cfg s name args = None"
  using assms by (auto simp: action_rejection_def split: option.splits if_splits)

section \<open>Provenance of artifacts\<close>

text \<open>
  Every artifact of a session comes from an executed call: its tool and arguments satisfy the
  check, its output was no error, and its value is the one extracted from that output.  The
  ghost argument is the list of executed calls.
\<close>

type_synonym executed_call = "string \<times> string \<times> (string \<times> json) list \<times> string"

definition artifact_backed :: "lib \<Rightarrow> config \<Rightarrow> executed_call set \<Rightarrow> nat \<Rightarrow> json \<Rightarrow> bool" where
  "artifact_backed L cfg calls index artifact \<longleftrightarrow>
     index < length (result_checks cfg) \<and>
     (\<exists>(i, name, args, output)\<in>calls. \<exists>v step.
        capturable L (result_checks cfg ! index) name args output \<and> \<not> is_error_output output
        \<and> extract_result L (result_checks cfg ! index) output = Some v
        \<and> artifact = artifact_record name args i step v)"

definition artifacts_backed :: "lib \<Rightarrow> config \<Rightarrow> executed_call set \<Rightarrow> session \<Rightarrow> bool" where
  "artifacts_backed L cfg calls s \<longleftrightarrow>
     (\<forall>index artifact. get (s_completion_artifacts s) (show_nat index) = Some artifact
        \<longrightarrow> artifact_backed L cfg calls index artifact)"

lemma artifact_backed_mono: "artifact_backed L cfg A i a \<Longrightarrow> A \<subseteq> B \<Longrightarrow> artifact_backed L cfg B i a"
  by (fastforce simp: artifact_backed_def)

lemma get_obj_insert: "get (JObj (obj_insert k v kvs)) k' = (if k' = k then Some v else get (JObj kvs) k')"
  by (induction k v kvs rule: obj_insert.induct) auto

lemma capture_one_backed:
  assumes inv: "artifacts_backed L cfg A s" and call: "(i, name, args, output) \<in> A"
    and index: "index < length (result_checks cfg)" and err: "\<not> is_error_output output"
  shows "artifacts_backed L cfg A (capture_one L i name args output (index, result_checks cfg ! index) s)"
proof (cases "capturable L (result_checks cfg ! index) name args output")
  case False
  then show ?thesis using inv by (simp add: capture_one_def)
next
  case cap: True
  show ?thesis
  proof (cases "extract_result L (result_checks cfg ! index) output")
    case None
    then show ?thesis using inv cap by (simp add: capture_one_def)
  next
    case (Some v)
    obtain kvs where kvs: "(if is_object (s_completion_artifacts s) then s_completion_artifacts s else JObj []) = JObj kvs"
      by (cases "s_completion_artifacts s") (auto simp: is_object_def)
    have old: "get (JObj kvs) (show_nat j) = Some a \<Longrightarrow> artifact_backed L cfg A j a" for j a
      using inv kvs by (auto simp: artifacts_backed_def split: if_splits)
    have "artifact_backed L cfg A index (artifact_record name args i (s_step_count s) v)"
      unfolding artifact_backed_def using cap Some call index err by blast
    then show ?thesis
      using cap Some kvs old
      by (auto simp: capture_one_def artifacts_backed_def Let_def get_obj_insert show_nat_inj split: if_splits
          simp del: get.simps)
  qed
qed

lemma capture_artifacts_backed:
  assumes "artifacts_backed L cfg A s"
  shows "artifacts_backed L cfg (insert (i, name, args, output) A) (capture_artifacts L cfg i name args output s)"
proof -
  let ?A = "insert (i, name, args, output) A"
  have start: "artifacts_backed L cfg ?A s"
    using assms artifact_backed_mono [of L cfg A _ _ ?A] by (auto simp: artifacts_backed_def)
  have "artifacts_backed L cfg ?A (fold (capture_one L i name args output) ics s)"
    if "set ics \<subseteq> set (enumerate 0 (result_checks cfg))" "\<not> is_error_output output" "artifacts_backed L cfg ?A s" for ics s
    using that
  proof (induction ics arbitrary: s)
    case (Cons ic ics)
    obtain index check where ic: "ic = (index, check)" by (cases ic)
    with Cons.prems have "index < length (result_checks cfg)" "check = result_checks cfg ! index"
      by (auto simp: in_enumerate)
    then have "artifacts_backed L cfg ?A (capture_one L i name args output ic s)"
      using Cons.prems capture_one_backed by (simp add: ic)
    with Cons show ?case by simp
  qed simp
  with start show ?thesis by (simp add: capture_artifacts_def)
qed

lemma capture_artifacts_frame [session_frame]:
  "s_workflow (capture_artifacts L cfg i name args output s) = s_workflow s"
  "s_memory (capture_artifacts L cfg i name args output s) = s_memory s"
  "s_status (capture_artifacts L cfg i name args output s) = s_status s"
  "s_step_count (capture_artifacts L cfg i name args output s) = s_step_count s"
  "s_pending_tool_calls (capture_artifacts L cfg i name args output s) = s_pending_tool_calls s"
proof -
  have one: "s_workflow (capture_one L i name args output ic s) = s_workflow s
    \<and> s_memory (capture_one L i name args output ic s) = s_memory s
    \<and> s_status (capture_one L i name args output ic s) = s_status s
    \<and> s_step_count (capture_one L i name args output ic s) = s_step_count s
    \<and> s_pending_tool_calls (capture_one L i name args output ic s) = s_pending_tool_calls s" for ic s
    by (auto simp: capture_one_def Let_def split: prod.splits option.splits)
  have "s_workflow (fold (capture_one L i name args output) ics s) = s_workflow s
    \<and> s_memory (fold (capture_one L i name args output) ics s) = s_memory s
    \<and> s_status (fold (capture_one L i name args output) ics s) = s_status s
    \<and> s_step_count (fold (capture_one L i name args output) ics s) = s_step_count s
    \<and> s_pending_tool_calls (fold (capture_one L i name args output) ics s) = s_pending_tool_calls s" for ics s
    by (induction ics arbitrary: s) (simp_all add: one)
  then show "s_workflow (capture_artifacts L cfg i name args output s) = s_workflow s"
    "s_memory (capture_artifacts L cfg i name args output s) = s_memory s"
    "s_status (capture_artifacts L cfg i name args output s) = s_status s"
    "s_step_count (capture_artifacts L cfg i name args output s) = s_step_count s"
    "s_pending_tool_calls (capture_artifacts L cfg i name args output s) = s_pending_tool_calls s"
    by (simp_all add: capture_artifacts_def)
qed

end
