(* ===== verification/Loading.thy ===== *)
theory Loading
  imports Commit Completion
begin

text \<open>
  Reading sessions back (\<open>load\<close> of \<^verbatim>\<open>main.rs\<close>), the routes that create a session and append a
  message to it, and the routes that page through its transcript, events, diagnostics and
  executions.  A handler maps the tables and the number of outside calls made so far to a reply;
  a panic of the handler is an outcome of its own.
\<close>

section \<open>Request bodies\<close>

definition field_error :: "string \<Rightarrow> json option \<Rightarrow> string \<Rightarrow> string \<Rightarrow> json option \<Rightarrow> json" where
  "field_error field value kind message ctx =
     JObj ([(''loc'', JArr [JStr ''body'', JStr field]), (''msg'', JStr message), (''type'', JStr kind)]
           @ (case value of None \<Rightarrow> [] | Some v \<Rightarrow> [(''input'', v)])
           @ (case ctx of None \<Rightarrow> [] | Some v \<Rightarrow> [(''ctx'', v)]))"

definition validation_error :: "json list \<Rightarrow> reply" where
  "validation_error errors = json_reply 422 (JObj [(''detail'', JArr errors)])"

text \<open>\<open>f as i64\<close> saturates; the bound \<open>i64::MAX as f64\<close> is \<open>2 ^ 63\<close>.\<close>

definition coerce_float :: "rat \<Rightarrow> int option" where
  "coerce_float x =
     (if snd (quotient_of x) = 1 \<and> - (2 ^ 63) \<le> x \<and> x \<le> 2 ^ 63 then Some (min i64_max (fst (quotient_of x))) else None)"

definition coerce_integer :: "json \<Rightarrow> int option" where
  "coerce_integer v =
     (case as_i64 v of
        Some n \<Rightarrow> Some n
      | None \<Rightarrow>
          (case as_f64 v of
             Some f \<Rightarrow> coerce_float (f64_val f)
           | None \<Rightarrow>
               (case as_str v of
                  Some t \<Rightarrow> parse_int in_i64 (trim t)
                | None \<Rightarrow> map_option (\<lambda>b. if b then 1 else 0) (as_bool v))))"

definition validate_max_steps :: "json \<Rightarrow> json option" where
  "validate_max_steps q =
     (case get q ''max_steps'' of
        None \<Rightarrow> None
      | Some v \<Rightarrow>
          if is_null v then None
          else (case coerce_integer v of
                  None \<Rightarrow>
                    Some (if is_string v
                          then field_error ''max_steps'' (Some v) ''int_parsing''
                                 ''Input should be a valid integer, unable to parse string as an integer'' None
                          else field_error ''max_steps'' (Some v) ''int_type'' ''Input should be a valid integer'' None)
                | Some x \<Rightarrow>
                    if x < 1 then Some (field_error ''max_steps'' (Some v) ''greater_than_equal''
                                          ''Input should be greater than or equal to 1'' (Some (JObj [(''ge'', json_int 1)])))
                    else if 50 < x then Some (field_error ''max_steps'' (Some v) ''less_than_equal''
                                          ''Input should be less than or equal to 50'' (Some (JObj [(''le'', json_int 50)])))
                    else None))"

definition validate_body :: "json \<Rightarrow> json option" where
  "validate_body q =
     (if is_object q then None
      else Some (JObj [(''loc'', JArr [JStr ''body'']),
                       (''msg'', JStr ''Input should be a valid dictionary or object to extract fields from''),
                       (''type'', JStr ''model_attributes_type''), (''input'', q)]))"

definition string_error :: "string \<Rightarrow> json \<Rightarrow> json option" where
  "string_error field v =
     (if \<not> is_string v then Some (field_error field (Some v) ''string_type'' ''Input should be a valid string'' None)
      else if as_str v = Some [] then Some (field_error field (Some v) ''string_too_short''
                                        ''String should have at least 1 character'' (Some (JObj [(''min_length'', json_int 1)])))
      else None)"

definition required_string :: "string \<Rightarrow> json \<Rightarrow> json option" where
  "required_string field q =
     (case get q field of
        None \<Rightarrow> Some (field_error field None ''missing'' ''Field required'' None)
      | Some v \<Rightarrow> string_error field v)"

definition detail :: "nat \<Rightarrow> string \<Rightarrow> reply" where
  "detail status message = json_reply status (JObj [(''detail'', JStr message)])"

definition not_found :: reply where "not_found = detail 404 ''Session not found''"

definition conflict_words :: "string list" where
  "conflict_words = [''revision conflict'', ''ownership conflict'', ''lease lost'', ''fenced worker'']"

definition internal :: "px \<Rightarrow> sql_error \<Rightarrow> reply" where
  "internal P e =
     (let message = px_error_text P e
      in detail (if \<exists>w\<in>set conflict_words. contains_str message w then 409 else 500) message)"

section \<open>Loading\<close>

definition load_row :: "store \<Rightarrow> (session_row \<times> context_row) option" where
  "load_row d =
     (case (st_session d, st_context d) of
        (Some r, Some c) \<Rightarrow> if sr_storage_version r = 6 then Some (r, c) else None
      | _ \<Rightarrow> None)"

definition legacy_counts :: "json \<Rightarrow> bool" where
  "legacy_counts state \<longleftrightarrow> (case get state ''diagnostic_counts'' of None \<Rightarrow> True | Some v \<Rightarrow> v = JObj [])"

text \<open>The newest 32 rows of each family, or all of them for a snapshot without counters, by family and ordinal.\<close>

definition recent_rows :: "bool \<Rightarrow> store \<Rightarrow> string \<Rightarrow> diag_record list" where
  "recent_rows all d family =
     (let rows = sort_key d_ordinal (filter (\<lambda>r. d_family r = family) (st_diagnostics d))
      in if all then rows else last_n recent_cap rows)"

definition load_diagnostics :: "json \<Rightarrow> store \<Rightarrow> diag_record list" where
  "load_diagnostics state d = concat (map (recent_rows (legacy_counts state) d) [fam_attempts, fam_decisions, fam_events])"

definition load_counts :: "store \<Rightarrow> (string \<times> int) list" where
  "load_counts d = map (\<lambda>f. (f, max_ordinal f d)) families"

definition context_matches :: "session \<Rightarrow> int \<Rightarrow> context_row \<Rightarrow> bool" where
  "context_matches s revision c \<longleftrightarrow>
     (case s_memory s of
        [] \<Rightarrow> False
      | goal # rest \<Rightarrow>
          m_message_id goal = Some (cx_goal_message_id c) \<and> cx_revision c = revision
          \<and> cx_ledger_record_id c = s_active_ledger_id s
          \<and> json_eq (JArr (cx_raw_message_ids c)) (JArr (map (json_opt \<circ> m_message_id) rest))
          \<and> json_eq (cx_ledger_state c) (json_opt_value (map_option ledger_value (s_compaction_ledger s))))"

definition restore :: "px \<Rightarrow> lib \<Rightarrow> store \<Rightarrow> session_row \<Rightarrow> context_row \<Rightarrow> (session \<times> json) option" where
  "restore P L d r c =
     (case projection P d of
        None \<Rightarrow> None
      | Some active \<Rightarrow>
          (case px_decode_session P (fold (\<lambda>(k, v) w. set_idx w k v) active (sr_state r)) of
             Inl _ \<Rightarrow> None
           | Inr s \<Rightarrow>
               if validate_context L (sr_state r) s \<noteq> Ok () \<or> s_revision s \<noteq> sr_revision r then None
               else (case hydrate s (load_diagnostics (sr_state r) d) (load_counts d) of
                       Inl _ \<Rightarrow> None
                     | Inr s' \<Rightarrow> if context_matches s' (sr_revision r) c then Some (s', sr_config r) else None)))"

text \<open>A read transaction: it sees the tables as they are when it begins.\<close>

definition load :: "px \<Rightarrow> lib \<Rightarrow> string \<Rightarrow> store \<times> nat \<Rightarrow> (session \<times> json) option \<times> store \<times> nat" where
  "load P L i dn =
     (case dn of (d, n) \<Rightarrow>
        case px_parse_uuid P i of
          None \<Rightarrow> (None, d, n)
        | Some _ \<Rightarrow>
            (let d0 = px_others P n d
             in if px_fault P n \<noteq> None then (None, d0, n + 1)
                else if px_fault P (n + 1) \<noteq> None then (None, d0, n + 2)
                else if px_fault P (n + 2) \<noteq> None then (None, d0, n + 3)
                else (case load_row d0 of
                        None \<Rightarrow> (None, d0, n + 3)
                      | Some (r, c) \<Rightarrow>
                          if validate_snapshot L (sr_state r) \<noteq> Ok () then (None, d0, n + 3)
                          else if px_fault P (n + 3) \<noteq> None then (None, d0, n + 4)
                          else (restore P L d0 r c, d0, n + 4))))"

type_synonym handler = "store \<times> nat \<Rightarrow> reply outcome \<times> store \<times> nat"

definition get_session :: "px \<Rightarrow> lib \<Rightarrow> string \<Rightarrow> handler" where
  "get_session P L i dn =
     (case load P L i dn of
        (None, dn') \<Rightarrow> (Done not_found, dn')
      | (Some (s, _), dn') \<Rightarrow> (Done (json_reply 200 (session_value s)), dn'))"

section \<open>Creating a session\<close>

definition create_errors :: "json \<Rightarrow> json list" where
  "create_errors q =
     (case required_string ''user_prompt'' q of None \<Rightarrow> [] | Some e \<Rightarrow> [e])
     @ (case Option.bind (get q ''config_ref'') (string_error ''config_ref'') of None \<Rightarrow> [] | Some e \<Rightarrow> [e])"

definition resolve_profile :: "lib \<Rightarrow> files \<Rightarrow> json \<Rightarrow> string \<Rightarrow> (config \<times> json \<times> string) result outcome" where
  "resolve_profile L F frozen requested =
     (if is_object (idx frozen ''config'')
      then (case fs_decode F (idx frozen ''config'') of
              Inl e \<Rightarrow> Done (Err e)
            | Inr c \<Rightarrow>
                (case as_str (idx frozen ''source_sha256'') of
                   None \<Rightarrow> Panic ''source_sha256''
                 | Some h \<Rightarrow> Done (Ok (c, idx frozen ''config'', h))))
      else cfg_load L F requested)"

text \<open>The configured root is canonical when the service starts.\<close>

definition stored_ref :: "files \<Rightarrow> string \<Rightarrow> string" where
  "stored_ref F requested =
     (case (fs_root F, fs_canonicalize F requested) of
        (Inr dir, Inr p) \<Rightarrow>
          if prefix dir p then map (\<lambda>c. if c = CHR 0x5C then CHR ''/'' else c) (join ''/'' (drop (length dir) p)) else requested
      | _ \<Rightarrow> requested)"

definition new_session :: "json \<Rightarrow> string \<Rightarrow> string \<Rightarrow> config \<Rightarrow> string \<Rightarrow> string \<Rightarrow> string \<Rightarrow> session" where
  "new_session q i goal c r h resolved =
     (session_default i goal ''active'')
       \<lparr>s_command := get q ''_command'', s_config_ref := Some r, s_config_sha256 := Some h, s_resolved_config_sha256 := Some resolved,
        s_memory := [msg ''user'' (Some goal)],
        s_workflow := map_option (\<lambda>w. workflow_default\<lparr>w_active_phase := Some (wc_entry_phase w)\<rparr>) (c_workflow c),
        s_run_status := ''idle''\<rparr>"

definition saved_reply :: "px \<Rightarrow> nat \<Rightarrow> string \<Rightarrow> (sql_error + unit) \<Rightarrow> session \<Rightarrow> reply outcome" where
  "saved_reply P status message r s =
     (case r of
        Inr _ \<Rightarrow> Done (json_reply status (JObj [(''session'', session_value s), (''message'', JStr message)]))
      | Inl (Panicked m) \<Rightarrow> Panic m
      | Inl e \<Rightarrow> Done (internal P e))"

definition create_saved :: "px \<Rightarrow> lib \<Rightarrow> json \<Rightarrow> string \<Rightarrow> config \<Rightarrow> json \<Rightarrow> string \<Rightarrow> string \<Rightarrow> string \<Rightarrow> handler" where
  "create_saved P L q goal c raw r h resolved dn =
     (case dn of (d, n) \<Rightarrow>
        (case (case as_str (idx (idx (idx q ''_command'') ''admission'') ''session_id'') of
                 Some i \<Rightarrow> (i, n) | None \<Rightarrow> (px_uuid P n, Suc n))
         of (i, n1) \<Rightarrow>
           (case save P L raw (JObj [(''type'', JStr ''session_created''), (''config_ref'', JStr r), (''config_sha256'', JStr h),
                                     (''resolved_config_sha256'', JStr resolved)])
                   (new_session q i goal c r h resolved, d, n1)
            of (res, s, dn') \<Rightarrow>
              (if res = Inr () \<and> length h < 12 then Panic ''config_sha256''
               else saved_reply P 201 (''Session created with immutable config '' @ r @ ''@'' @ take 12 h @ ''.'') res s, dn'))))"

definition create :: "px \<Rightarrow> lib \<Rightarrow> files \<Rightarrow> json \<Rightarrow> handler" where
  "create P L F q dn =
     (case validate_body q of
        Some e \<Rightarrow> (Done (validation_error [e]), dn)
      | None \<Rightarrow>
          if create_errors q \<noteq> [] then (Done (validation_error (create_errors q)), dn)
          else
            (let goal = unwrap_or [] (as_str (idx q ''user_prompt''));
                 requested = unwrap_or ''log-analysis.yaml'' (as_str (idx q ''config_ref''))
             in case resolve_profile L F (idx (idx q ''_command'') ''admission'') requested of
                  Panic m \<Rightarrow> (Panic m, dn)
                | Done (Inl e) \<Rightarrow> (Done (detail 422 (''Invalid config_ref: '' @ e)), dn)
                | Done (Inr (c, raw, h)) \<Rightarrow>
                    (case resolved_config_hash L c of
                       Panic m \<Rightarrow> (Panic m, dn)
                     | Done (Inl e) \<Rightarrow> (Done (detail 500 e), dn)
                     | Done (Inr (_, resolved)) \<Rightarrow>
                         (case find (\<lambda>t. \<not> is_supported (tl_name t)) (c_tools c) of
                            Some t \<Rightarrow>
                              (Done (detail 422 (''Invalid config_ref: config references unavailable compiled-in tools: '' @ tl_name t)), dn)
                          | None \<Rightarrow> create_saved P L q goal c raw (stored_ref F requested) h resolved dn))))"

section \<open>Appending a message\<close>

text \<open>\<open>free\<close>: no other task of this process holds the lock of the session.\<close>

definition message_saved :: "px \<Rightarrow> lib \<Rightarrow> json \<Rightarrow> session \<Rightarrow> json \<Rightarrow> handler" where
  "message_saved P L q s c dn =
     (case dn of (d, n) \<Rightarrow>
        (case save P L c (JObj [(''type'', JStr ''user_message_appended'')])
                (append_message (px_uuid P n) (px_stamp P (Suc n)) (msg ''user'' (as_str (idx q ''content''))) s, d, Suc (Suc n))
         of (res, s', dn') \<Rightarrow> (saved_reply P 200 ''User input appended to session memory.'' res s', dn')))"

definition message_route :: "px \<Rightarrow> lib \<Rightarrow> bool \<Rightarrow> string \<Rightarrow> json \<Rightarrow> handler" where
  "message_route P L free i q dn =
     (case validate_body q of
        Some e \<Rightarrow> (Done (validation_error [e]), dn)
      | None \<Rightarrow>
          if \<not> free then (Done (detail 409 ''session ownership conflict''), dn)
          else (case required_string ''content'' q of
                  Some e \<Rightarrow> (Done (validation_error [e]), dn)
                | None \<Rightarrow>
                    (case load P L i dn of
                       (None, dn') \<Rightarrow> (Done not_found, dn')
                     | (Some (s, c), dn') \<Rightarrow>
                         if s_status s \<noteq> ''active''
                         then (Done (detail 409 ''Cannot append to a terminal session; use /resume with content instead''), dn')
                         else message_saved P L q (attach s q) c dn')))"

section \<open>Pages\<close>

text \<open>\<open>WHERE key > after AND key <= through ORDER BY key LIMIT k\<close>.\<close>

definition page :: "('a \<Rightarrow> int) \<Rightarrow> int \<Rightarrow> int \<Rightarrow> nat \<Rightarrow> 'a list \<Rightarrow> 'a list" where
  "page key after through k rows = take k (sort_key key (filter (\<lambda>r. after < key r \<and> key r \<le> through) rows))"

definition next_after :: "('a \<Rightarrow> int) \<Rightarrow> int \<Rightarrow> 'a list \<Rightarrow> int" where
  "next_after key after rows = (if rows = [] then after else key (last rows))"

type_synonym query = "(string \<times> string) list"

definition parse_param :: "query \<Rightarrow> string \<Rightarrow> int \<Rightarrow> int option" where
  "parse_param q k initial = (case map_of q k of None \<Rightarrow> Some initial | Some raw \<Rightarrow> parse_int in_i64 raw)"

definition transcript_json :: "transcript_row \<Rightarrow> json" where
  "transcript_json r = JObj
     [(''sequence'', json_int (tr_sequence r)), (''message_id'', JStr (tr_message_id r)), (''kind'', JStr (tr_kind r)),
      (''payload'', tr_payload r), (''run_id'', json_opt (tr_run_id r)), (''decision_step'', json_int (tr_decision_step r)),
      (''created_at'', JStr (tr_created_at r))]"

definition transcript_reply :: "session \<Rightarrow> int \<Rightarrow> int \<Rightarrow> nat \<Rightarrow> store \<Rightarrow> reply" where
  "transcript_reply s after through k d =
     (let rows = page tr_sequence after through k (st_transcript d)
      in json_reply 200 (JObj
           [(''history_complete'', JBool (s_history_complete s)), (''revision'', json_int (s_revision s)),
            (''through_sequence'', json_int through), (''next_after_sequence'', json_int (next_after tr_sequence after rows)),
            (''entries'', JArr (map transcript_json rows))]))"

definition transcript_route :: "px \<Rightarrow> lib \<Rightarrow> string \<Rightarrow> query \<Rightarrow> handler" where
  "transcript_route P L i q dn =
     (case opt_filter (\<lambda>x. 0 \<le> x) (parse_param q ''after_sequence'' 0) of
        None \<Rightarrow> (Done (detail 422 ''after_sequence must be non-negative''), dn)
      | Some after \<Rightarrow>
          (case opt_filter (\<lambda>x. 1 \<le> x \<and> x \<le> 1000) (parse_param q ''limit'' 100) of
             None \<Rightarrow> (Done (detail 422 ''limit must be between 1 and 1000''), dn)
           | Some k \<Rightarrow>
               (case opt_filter (\<lambda>x. 0 \<le> x) (parse_param q ''through_sequence'' i64_max) of
                  None \<Rightarrow> (Done (detail 422 ''through_sequence must be non-negative''), dn)
                | Some requested \<Rightarrow>
                    (case load P L i dn of
                       (None, dn') \<Rightarrow> (Done not_found, dn')
                     | (Some (s, _), d, n) \<Rightarrow>
                         (let through = min requested (max i64_min (s_next_transcript_sequence s - 1)); d0 = px_others P n d
                          in (case px_fault P n of
                                Some e \<Rightarrow> (Done (internal P e), d0, Suc n)
                              | None \<Rightarrow> (Done (transcript_reply s after through (nat k) d0), d0, Suc n)))))))"

definition event_entry :: "event_row \<Rightarrow> json" where
  "event_entry r = JObj
     [(''event_id'', json_int (eo_event_id r)), (''event'', eo_event r), (''revision'', json_int (eo_revision r)),
      (''created_at'', JStr (eo_created_at r))]"

definition parse_cursor :: "query \<Rightarrow> string \<Rightarrow> int \<Rightarrow> int result" where
  "parse_cursor q name initial =
     (case map_of q name of
        None \<Rightarrow> Ok initial
      | Some raw \<Rightarrow>
          (case parse_int in_i64 raw of
             None \<Rightarrow> Err (name @ '' must be an integer'')
           | Some v \<Rightarrow> if v < 0 then Err (name @ '' must be non-negative'') else Ok v))"

definition events_reply :: "string \<Rightarrow> int \<Rightarrow> int \<Rightarrow> nat \<Rightarrow> store \<Rightarrow> reply" where
  "events_reply i after through k d =
     (let rows = page eo_event_id after through k (st_events d)
      in json_reply 200 (JObj
           [(''session_id'', JStr i), (''through'', json_int through), (''entries'', JArr (map event_entry rows)),
            (''next_after'', json_int (next_after eo_event_id after rows)), (''archive_id'', JNull)]))"

definition event_watermark :: "store \<Rightarrow> int" where
  "event_watermark d = (if st_events d = [] then 0 else Max (set (map eo_event_id (st_events d))))"

definition events_route :: "px \<Rightarrow> lib \<Rightarrow> string \<Rightarrow> query \<Rightarrow> handler" where
  "events_route P L i q dn =
     (case parse_cursor q ''after'' 0 of
        Inl e \<Rightarrow> (Done (detail 422 e), dn)
      | Inr after \<Rightarrow>
          (case opt_filter (\<lambda>x. 1 \<le> x \<and> x \<le> 1000) (case parse_cursor q ''limit'' 100 of Inl _ \<Rightarrow> None | Inr x \<Rightarrow> Some x) of
             None \<Rightarrow> (Done (detail 422 ''limit must be between 1 and 1000''), dn)
           | Some k \<Rightarrow>
               (case (if map_of q ''through'' = None then Ok None else rbind (parse_cursor q ''through'' 0) (\<lambda>x. Ok (Some x))) of
                  Inl e \<Rightarrow> (Done (detail 422 e), dn)
                | Inr requested \<Rightarrow>
                    (case load P L i dn of
                       (None, dn') \<Rightarrow> (Done not_found, dn')
                     | (Some _, d, n) \<Rightarrow>
                         (let d0 = px_others P n d
                          in case px_fault P n of
                               Some e \<Rightarrow> (Done (internal P e), d0, Suc n)
                             | None \<Rightarrow>
                                 (let through = min (unwrap_or (event_watermark d0) requested) (event_watermark d0);
                                      d1 = px_others P (Suc n) d0
                                  in case px_fault P (Suc n) of
                                       Some e \<Rightarrow> (Done (internal P e), d1, Suc (Suc n))
                                     | None \<Rightarrow> (Done (events_reply i after through (nat k) d1), d1, Suc (Suc n))))))))"

text \<open>\<open>str::parse::<usize>\<close>.\<close>

definition parse_usize :: "string \<Rightarrow> int option" where
  "parse_usize t = (if t \<noteq> [] \<and> hd t = CHR ''-'' then None else parse_int (\<lambda>v. 0 \<le> v \<and> v < 2 ^ 64) t)"

definition parse_bounded :: "query \<Rightarrow> string \<Rightarrow> int \<Rightarrow> int \<Rightarrow> int result" where
  "parse_bounded q k initial most =
     (case map_of q k of
        None \<Rightarrow> Ok initial
      | Some raw \<Rightarrow> ok_or (k @ '' is outside its allowed range'') (opt_filter (\<lambda>x. x \<le> most) (parse_usize raw)))"

definition usize_max :: int where "usize_max = 2 ^ 64 - 1"

definition wrap_i64_of :: "int \<Rightarrow> int" where "wrap_i64_of x = (x + 2 ^ 63) mod 2 ^ 64 - 2 ^ 63"

definition diagnostics_reply :: "string \<Rightarrow> string \<Rightarrow> session \<Rightarrow> int \<Rightarrow> int \<Rightarrow> nat \<Rightarrow> store \<Rightarrow> reply" where
  "diagnostics_reply i family s after through_arg k d =
     (let total = diag_count s family mod 2 ^ 64; through = min through_arg total;
          rows = page d_ordinal (min after i64_max) (wrap_i64_of through) k (filter (\<lambda>r. d_family r = family) (st_diagnostics d))
      in json_reply 200 (JObj
           [(''session_id'', JStr i), (''family'', JStr family), (''total_recorded'', json_int total), (''through'', json_int through),
            (''next_after'', json_int (next_after d_ordinal after rows)),
            (''entries'', JArr (map (\<lambda>r. JObj [(''ordinal'', json_int (d_ordinal r)), (''payload'', d_payload r)]) rows)),
            (''archive_id'', json_opt (s_last_archive_id s)),
            (''history_complete'', JBool (s_diagnostic_history_complete s \<and> s_last_archive_id s = None))]))"

definition diagnostics_route :: "px \<Rightarrow> lib \<Rightarrow> string \<Rightarrow> string \<Rightarrow> query \<Rightarrow> handler" where
  "diagnostics_route P L i family q dn =
     (case opt_filter (\<lambda>x. 0 < x) (case parse_bounded q ''limit'' 100 1000 of Inl _ \<Rightarrow> None | Inr x \<Rightarrow> Some x) of
        None \<Rightarrow> (Done (detail 422 ''limit must be between 1 and 1000''), dn)
      | Some k \<Rightarrow>
          (case parse_bounded q ''after'' 0 usize_max of
             Inl e \<Rightarrow> (Done (detail 422 e), dn)
           | Inr after \<Rightarrow>
               (case parse_bounded q ''through'' usize_max usize_max of
                  Inl e \<Rightarrow> (Done (detail 422 e), dn)
                | Inr through_arg \<Rightarrow>
                    (case load P L i dn of
                       (None, dn') \<Rightarrow> (Done not_found, dn')
                     | (Some (s, _), d, n) \<Rightarrow>
                         if family \<notin> set families then (Done (detail 404 ''Unknown diagnostic family''), d, n)
                         else (let d0 = px_others P n d
                               in case px_fault P n of
                                    Some e \<Rightarrow> (Done (internal P e), d0, Suc n)
                                  | None \<Rightarrow> (Done (diagnostics_reply i family s after through_arg (nat k) d0), d0, Suc n))))))"

definition protected_tables :: "string list" where
  "protected_tables =
     [''agent_commands'', ''agent_commit_receipts'', ''agent_action_attempts'', ''agent_sessions'', ''agent_session_context'',
      ''agent_session_transcript'', ''agent_session_calls'', ''agent_runs'', ''agent_tool_executions'', ''agent_archive_receipts'']"

definition unresolved_executions :: "store \<Rightarrow> int" where
  "unresolved_executions d =
     int (length (filter (\<lambda>e. as_str (idx e ''status'') \<in> {Some ''pending'', Some ''started'', Some ''uncertain'', Some ''blocked''}) (st_executions d)))"

definition running_runs :: "store \<Rightarrow> int" where
  "running_runs d = int (length (filter (\<lambda>r. rn_status r = ''running'') (st_runs d)))"

definition plan_reply :: "string \<Rightarrow> session \<Rightarrow> int \<Rightarrow> int \<Rightarrow> reply" where
  "plan_reply i s open_actions running =
     json_reply 200 (JObj
       [(''session_id'', JStr i), (''revision'', json_int (s_revision s)), (''default_policy'', JStr ''keep_all''),
        (''eligible'', JBool (s_status s \<noteq> ''active'' \<and> s_run_status s \<noteq> ''running'' \<and> s_pending_tool_calls s = []
                              \<and> open_actions = 0 \<and> running = 0)),
        (''unresolved_executions'', json_int open_actions), (''running_lifecycles'', json_int running),
        (''keep_diagnostics'', json_int 32), (''keep_events'', json_int 100), (''protected_tables'', json_strs protected_tables),
        (''prunable_tables'', json_strs [''agent_session_events'', ''agent_session_diagnostics'']),
        (''requires'', JStr ''Verified fresh export, terminal session, ownership/fencing, matching revision and database digests'')])"

definition retention_plan_route :: "px \<Rightarrow> lib \<Rightarrow> string \<Rightarrow> handler" where
  "retention_plan_route P L i dn =
     (case load P L i dn of
        (None, dn') \<Rightarrow> (Done not_found, dn')
      | (Some (s, _), d, n) \<Rightarrow>
          (let d0 = px_others P n d
           in case px_fault P n of
                Some e \<Rightarrow> (Done (internal P e), d0, Suc n)
              | None \<Rightarrow>
                  (let d1 = px_others P (Suc n) d0
                   in case px_fault P (Suc n) of
                        Some e \<Rightarrow> (Done (internal P e), d1, Suc (Suc n))
                      | None \<Rightarrow> (Done (plan_reply i s (unresolved_executions d0) (running_runs d1)), d1, Suc (Suc n)))))"

end
