(* ===== verification/Commit_Effects.thy ===== *)
theory Commit_Effects
  imports Commit
begin

text \<open>
  What a transaction does to the tables.  \<open>writer_effects\<close> is the interface between the writers and
  their clients: a relation that every single statement of the writers satisfies holds between the
  beginning and the end of all of them.  \<open>outbox_effects\<close> adds retention, \<open>entry_effects\<close> and \<open>row_effects\<close> add the
  transcript and the row of the session, \<open>fresh_effects\<close> and \<open>commit_effects\<close> the whole transaction, \<open>save_effects\<close> the saves with all
  their repetitions, rollbacks and unresolved commits.
\<close>

section \<open>Relations kept by transactions\<close>

definition tkeeps :: "(session \<times> store \<Rightarrow> session \<times> store \<Rightarrow> bool) \<Rightarrow> 'a tx \<Rightarrow> bool" where
  "tkeeps R m \<longleftrightarrow> (\<forall>s d n r s' d' n'. m (s, d, n) = (r, s', d', n') \<longrightarrow> R (s, d) (s', d'))"

lemma tkeepsD: "tkeeps R m \<Longrightarrow> m (s, d, n) = (r, s', d', n') \<Longrightarrow> R (s, d) (s', d')"
  unfolding tkeeps_def by blast

lemma tkeepsI: "(\<And>s d n r s' d' n'. m (s, d, n) = (r, s', d', n') \<Longrightarrow> R (s, d) (s', d')) \<Longrightarrow> tkeeps R m"
  unfolding tkeeps_def by blast

locale kept_relation =
  fixes R :: "session \<times> store \<Rightarrow> session \<times> store \<Rightarrow> bool"
  assumes R_refl: "R sd sd" and R_trans: "R a b \<Longrightarrow> R b c \<Longrightarrow> R a c"
begin

lemma keeps_tret: "tkeeps R (tret x)"
  by (auto simp: tkeeps_def tret_def R_refl)

lemma keeps_tfail: "tkeeps R (tfail e)"
  by (auto simp: tkeeps_def tfail_def R_refl)

lemma keeps_tlift: "tkeeps R (tlift r)"
  by (auto simp: tkeeps_def tlift_def R_refl)

lemma keeps_tgets: "tkeeps R (tgets f)"
  by (auto simp: tkeeps_def tgets_def R_refl)

lemma keeps_tcheck: "tkeeps R (tcheck b e)"
  by (simp add: tcheck_def keeps_tret keeps_tfail)

lemma keeps_tstamp: "tkeeps R (tstamp P)"
  by (auto simp: tkeeps_def tstamp_def R_refl)

lemma keeps_tuuid: "tkeeps R (tuuid P x)"
  by (auto simp: tuuid_def keeps_tret keeps_tfail split: option.split)

lemma keeps_tuuid_unwrap: "tkeeps R (tuuid_unwrap P x)"
  by (auto simp: tuuid_unwrap_def keeps_tret keeps_tfail split: option.split)

lemma keeps_tbind:
  assumes "tkeeps R m" "\<And>x. tkeeps R (f x)"
  shows "tkeeps R (tbind m f)"
proof (rule tkeepsI)
  fix s d n r s' d' n'
  assume run: "tbind m f (s, d, n) = (r, s', d', n')"
  obtain r1 s1 d1 n1 where m: "m (s, d, n) = (r1, s1, d1, n1)" by (metis prod_cases4)
  have first: "R (s, d) (s1, d1)" by (rule tkeepsD [OF assms(1) m])
  show "R (s, d) (s', d')"
  proof (cases r1)
    case (Inl e)
    then show ?thesis using run m first by (auto simp: tbind_def)
  next
    case (Inr x)
    then have "f x (s1, d1, n1) = (r, s', d', n')" using run m by (simp add: tbind_def)
    from R_trans [OF first tkeepsD [OF assms(2) this]] show ?thesis .
  qed
qed

text \<open>The result of an operation that changes nothing can be used by the next one.\<close>

lemma keeps_tbind_select:
  assumes "\<And>x s d n now. x = f now d \<Longrightarrow> R (s, d) (fst (snd (g x (s, d, n))), fst (snd (snd (g x (s, d, n)))))"
  shows "tkeeps R (tbind (tselect P f) g)"
proof (rule tkeepsI)
  fix s d n r s' d' n'
  assume run: "tbind (tselect P f) g (s, d, n) = (r, s', d', n')"
  show "R (s, d) (s', d')"
  proof (cases "px_fault P n")
    case None
    then have "g (f (px_clock P n) d) (s, d, Suc n) = (r, s', d', n')"
      using run by (simp add: tbind_def tselect_def tstmt_def)
    then show ?thesis using assms [OF refl, of s d "px_clock P n" "Suc n"] by simp
  next
    case (Some e)
    then show ?thesis using run R_refl by (auto simp: tbind_def tselect_def tstmt_def)
  qed
qed

lemma keeps_tstmt:
  assumes "\<And>s now d x d'. f now d = Inr (x, d') \<Longrightarrow> R (s, d) (s, d')"
  shows "tkeeps R (tstmt P f)"
  using assms by (auto simp: tkeeps_def tstmt_def R_refl split: option.splits sum.splits prod.splits)

lemma keeps_tselect: "tkeeps R (tselect P f)"
  by (auto simp: tselect_def R_refl intro: keeps_tstmt)

lemma keeps_tfetch: "tkeeps R (tfetch P f)"
  by (auto simp: tfetch_def R_refl intro!: keeps_tstmt split: option.splits)

lemma keeps_tupdate: "(\<And>s d. R (s, d) (s, f d)) \<Longrightarrow> tkeeps R (tupdate P f)"
  by (auto simp: tupdate_def intro: keeps_tstmt)

lemma keeps_tmodify: "(\<And>s d. R (s, d) (f s, d)) \<Longrightarrow> tkeeps R (tmodify f)"
  by (auto simp: tkeeps_def tmodify_def)

lemma keeps_tfor: "(\<And>x. tkeeps R (f x)) \<Longrightarrow> tkeeps R (tfor xs f)"
  by (induction xs) (auto intro: keeps_tret keeps_tbind)

lemma keeps_tguard: "tkeeps R (tguard P command)"
  by (auto simp: tguard_def result_simps R_refl intro!: keeps_tstmt)

lemmas keeps_basic = keeps_tret keeps_tfail keeps_tlift keeps_tgets keeps_tcheck keeps_tstamp keeps_tuuid keeps_tuuid_unwrap
  keeps_tbind keeps_tselect keeps_tfetch keeps_tfor keeps_tguard

text \<open>The readers.\<close>

lemma keeps_summary_sources: "tkeeps R (summary_sources P vs seen previous)"
  by (induction P vs seen previous rule: summary_sources.induct) (auto intro!: keeps_basic split: option.split)

lemma keeps_summary_retained: "tkeeps R (summary_retained P vs seen)"
  by (induction P vs seen rule: summary_retained.induct) (auto intro!: keeps_basic split: option.split)

lemma keeps_previous_content: "tkeeps R (previous_content P payload)"
  by (auto simp: previous_content_def intro!: keeps_basic split: option.split)

lemma keeps_validate_summary_payload: "tkeeps R (validate_summary_payload P L payload goal)"
  by (auto simp: validate_summary_payload_def intro!: keeps_basic keeps_summary_sources keeps_summary_retained
      keeps_previous_content split: option.split)

lemma keeps_validate_previous_transcript: "tkeeps R (validate_previous_transcript P L state highest)"
  by (auto simp: validate_previous_transcript_def intro!: keeps_basic split: list.split)

lemma keeps_parse_ids: "tkeeps R (parse_ids P ms)"
  by (induction P ms rule: parse_ids.induct) (auto intro!: keeps_basic split: option.split)

lemma keeps_tlease: "tkeeps R (tlease P)"
  by (auto simp: tlease_def R_refl intro!: keeps_tstmt split: option.splits)

lemma keeps_check_owner: "tkeeps R (check_owner P)"
  unfolding check_owner_def by (intro keeps_tbind keeps_tlease) (auto intro!: keeps_basic split: prod.split)

lemma keeps_final_fence: "tkeeps R (final_fence P)"
  unfolding final_fence_def
  by (intro keeps_tbind keeps_tgets) (auto intro!: keeps_basic keeps_tlease split: option.split prod.split)

lemma keeps_check_previous: "tkeeps R (check_previous P c commit_id fingerprint previous)"
  by (auto simp: check_previous_def intro!: keeps_basic keeps_check_owner split: option.split)

end

section \<open>The writers\<close>

text \<open>What the checks before an update of an execution or an attempt establish.\<close>

definition execution_allowed :: "json \<Rightarrow> store \<Rightarrow> bool" where
  "execution_allowed item d \<longleftrightarrow>
     Option.bind (find (\<lambda>x. idx x ''execution_id'' = json_opt (as_str (idx item ''execution_id''))) (st_executions d))
       (\<lambda>old. action_changed old item) = None"

locale writer_effects = kept_relation R for R :: "session \<times> store \<Rightarrow> session \<times> store \<Rightarrow> bool" +
  assumes set_memory: "R (s, d) (s\<lparr>s_memory := ms\<rparr>, d)"
    and call: "R (s, d) (s, insert_call i j d)"
    and diagnostic: "R (s, d) (s, snd (insert_diagnostic x d))"
    and run: "R (s, d) (s, upsert_run y d)"
    and execution: "execution_allowed item d \<Longrightarrow> R (s, d) (s, upsert_execution (execution_row P s item) d)"
    and attempt: "R (s, d) (s, upsert_attempt z d)"
    and active: "R (s, d) (s, upsert_context c d)"
    and commands: "R (s, d) (s, d\<lparr>st_commands := rows\<rparr>)"
begin

lemma keeps_write_call_map: "tkeeps R (write_call_map P entries)"
  by (auto simp: write_call_map_def write_call_def intro!: keeps_basic keeps_tupdate call split: option.split)

lemma keeps_write_diagnostics: "tkeeps R (write_diagnostics P L)"
proof -
  have "tkeeps R (tstmt P (\<lambda>now d. Inr (insert_diagnostic r d)))" for r
    by (rule keeps_tstmt) (metis Inr_inject diagnostic snd_conv)
  then show ?thesis
    by (auto simp: write_diagnostics_def write_diagnostic_def check_family_def intro!: keeps_basic)
qed

lemma keeps_write_run_state: "tkeeps R (write_run_state P)"
  unfolding write_run_state_def
  by (intro keeps_tbind keeps_tgets) (auto intro!: keeps_basic keeps_tupdate run split: option.split)

lemma keeps_write_execution: "tkeeps R (write_execution P item)"
proof -
  let ?old = "\<lambda>now d. find (\<lambda>x. idx x ''execution_id'' = json_opt (as_str (idx item ''execution_id''))) (st_executions d)"
  have "tkeeps R (tbind (tselect P ?old)
      (\<lambda>old. tbind (case Option.bind old (\<lambda>o'. action_changed o' item) of None \<Rightarrow> tret () | Some e \<Rightarrow> tfail (Protocol e))
         (\<lambda>_. tbind (tgets (\<lambda>s. execution_row P s item)) (\<lambda>row. tupdate P (upsert_execution row)))))"
  proof (rule keeps_tbind_select)
    fix x s n and d :: store and now :: int
    assume x: "x = ?old now d"
    let ?m = "tbind (case Option.bind x (\<lambda>o'. action_changed o' item) of None \<Rightarrow> tret () | Some e \<Rightarrow> tfail (Protocol e))
         (\<lambda>_. tbind (tgets (\<lambda>s. execution_row P s item)) (\<lambda>row. tupdate P (upsert_execution row)))"
    show "R (s, d) (fst (snd (?m (s, d, n))), fst (snd (snd (?m (s, d, n)))))"
    proof (cases "Option.bind x (\<lambda>o'. action_changed o' item)")
      case None
      then have "execution_allowed item d" using x by (simp add: execution_allowed_def)
      then show ?thesis using None execution R_refl
        by (auto simp: tbind_def tret_def tgets_def tupdate_def tstmt_def split: option.split)
    next
      case (Some e)
      then show ?thesis by (simp add: tbind_def tfail_def R_refl)
    qed
  qed
  then show ?thesis
    by (auto simp: write_execution_def intro!: keeps_basic split: option.split)
qed

lemma keeps_write_attempt: "tkeeps R (write_attempt P item)"
  by (auto simp: write_attempt_def intro!: keeps_basic keeps_tupdate attempt split: option.split)

lemma keeps_write_tool_executions: "tkeeps R (write_tool_executions P)"
  by (auto simp: write_tool_executions_def intro!: keeps_basic keeps_write_execution keeps_write_attempt)

lemma keeps_reload_active: "tkeeps R (reload_active P)"
  by (auto simp: reload_active_def intro!: keeps_basic keeps_parse_ids keeps_tmodify set_memory)

lemma keeps_write_context: "tkeeps R (write_context P)"
  by (auto simp: write_context_def intro!: keeps_basic keeps_tupdate active split: list.split option.split)

lemma keeps_tcommand: "tkeeps R (tcommand P f)"
  by (auto simp: tcommand_def result_simps commands intro!: keeps_tstmt)

lemma keeps_interrupt_origin: "tkeeps R (interrupt_origin P e command)"
  by (auto simp: interrupt_origin_def intro!: keeps_basic keeps_tcommand split: option.split)

lemma keeps_attach_session: "tkeeps R (attach_session P command_id sid)"
  by (simp add: attach_session_def keeps_tcommand)

lemma keeps_finish_command: "tkeeps R (finish_command P e command command_id)"
  by (auto simp: finish_command_def intro!: keeps_basic keeps_tcommand)

text \<open>All writers of the outboxes, when retention is among those that keep the relation.\<close>

lemma keeps_outboxes:
  assumes "tkeeps R (retention_write P L)"
  shows "tkeeps R (write_outboxes P L e command command_id sid staged)"
  unfolding write_outboxes_def
  by (intro keeps_tbind keeps_write_call_map keeps_write_diagnostics keeps_attach_session keeps_interrupt_origin
      keeps_write_run_state keeps_write_tool_executions keeps_reload_active keeps_write_context assms)

end

text \<open>Retention as single statements, without its checks.\<close>

locale outbox_effects = writer_effects R for R :: "session \<times> store \<Rightarrow> session \<times> store \<Rightarrow> bool" +
  assumes archived: "R (s, d) (s, insert_archive v d)"
    and pruned: "R (s, d) (s, prune_family f cutoff d)" "R (s, d) (s, prune_events w keep d)"
begin

lemma keeps_retention_write: "tkeeps R (retention_write P L)"
proof -
  have "tkeeps R (tupdate P (case (a, b) of (Some w, Some k) \<Rightarrow> prune_events w k | _ \<Rightarrow> id))" for a b
    by (rule keeps_tupdate) (auto simp: pruned R_refl split: option.split)
  moreover have "tkeeps R (prune_step P item family)" for item family
    by (auto simp: prune_step_def intro!: keeps_basic keeps_tupdate pruned split: option.split)
  moreover have "tkeeps R (tupdate P id)" by (rule keeps_tupdate) (simp add: R_refl)
  ultimately show ?thesis
    unfolding retention_write_def retention_item_def prune_archived_def check_archive_def
    by (auto intro!: keeps_basic keeps_tupdate archived pruned split: option.split simp del: id_apply)
qed

lemma keeps_write_outboxes: "tkeeps R (write_outboxes P L e command command_id sid staged)"
  by (rule keeps_outboxes) (rule keeps_retention_write)

end

locale entry_effects = writer_effects R for R :: "session \<times> store \<Rightarrow> session \<times> store \<Rightarrow> bool" +
  assumes archive: "R (s, d) (s, insert_transcript t d)"
begin

lemma keeps_set_sequence: "tkeeps R (tmodify (set_sequence entry k))"
  by (rule keeps_tmodify) (auto simp: set_sequence_def set_memory R_refl)

lemma keeps_write_entries: "tkeeps R (write_entries P entries k)"
  by (induction P entries k rule: write_entries.induct)
     (auto intro!: keeps_basic keeps_set_sequence keeps_tupdate archive split: option.split)

lemma keeps_write_summaries: "tkeeps R (write_summaries P L ps k)"
  by (induction P L ps k rule: write_summaries.induct)
     (auto simp: Let_def intro!: keeps_basic keeps_validate_summary_payload keeps_tupdate archive split: option.split)

end

lemma store_session_snd:
  "(\<And>r. D d (d\<lparr>st_session := r\<rparr>)) \<Longrightarrow> D d d \<Longrightarrow> D d (snd (store_session new k d))"
  by (auto simp: store_session_def split: option.split)

locale row_effects = writer_effects R for R :: "session \<times> store \<Rightarrow> session \<times> store \<Rightarrow> bool" +
  assumes receipt: "R (s, d) (s, insert_commit_receipt rc d)" and event: "R (s, d) (s, insert_event ev d)"
    and session: "R (s, d) (s, d\<lparr>st_session := row\<rparr>)"
begin

lemma keeps_write_session: "tkeeps R (write_session P L c commit_id fingerprint k)"
proof -
  have "tkeeps R (tstmt P (\<lambda>now d. Inr (store_session row k d)))" for row
  proof (rule keeps_tstmt)
    fix s d x d' and now :: int
    assume "(Inr (store_session row k d) :: sql_error + nat \<times> store) = Inr (x, d')"
    then show "R (s, d) (s, d')"
      using store_session_snd [of "\<lambda>d d'. R (s, d) (s, d')" d row k] session R_refl by auto
  qed
  then show ?thesis unfolding write_session_def by (intro keeps_tbind keeps_tgets keeps_tcheck)
qed

lemma keeps_write_event: "tkeeps R (write_event P e command commit_id command_id)"
  by (rule tkeepsI) (auto simp: write_event_def tupdate_def tstmt_def event R_refl split: option.splits)

lemma keeps_seal_commit: "tkeeps R (seal_commit P L c e command command_id sid commit_id fingerprint k)"
  unfolding seal_commit_def
  by (intro keeps_tbind keeps_attach_session keeps_tgets keeps_write_event keeps_final_fence keeps_write_session keeps_tguard
      keeps_finish_command keeps_tupdate) (simp add: receipt)

end

locale archive_effects = entry_effects R + outbox_effects R for R :: "session \<times> store \<Rightarrow> session \<times> store \<Rightarrow> bool"

locale seal_effects = row_effects R + outbox_effects R for R :: "session \<times> store \<Rightarrow> session \<times> store \<Rightarrow> bool"

locale fresh_effects = entry_effects R + row_effects R for R :: "session \<times> store \<Rightarrow> session \<times> store \<Rightarrow> bool" +
  fixes L :: lib
  assumes set_next: "R (s, d) (s\<lparr>s_next_transcript_sequence := k\<rparr>, d)" and set_revision: "R (s, d) (s\<lparr>s_revision := k\<rparr>, d)"
    and retention: "tkeeps R (retention_write P L)"
begin

lemma keeps_write_archive: "tkeeps R (write_archive P L c previous k)"
proof -
  have "tkeeps R (tmodify (\<lambda>s. s\<lparr>s_next_transcript_sequence := x\<rparr>))" for x by (rule keeps_tmodify) (rule set_next)
  moreover have "tkeeps R (tmodify (\<lambda>s. s\<lparr>s_revision := x\<rparr>))" for x by (rule keeps_tmodify) (rule set_revision)
  moreover have "tkeeps R (tupdate P (insert_session row))" for row
    by (rule keeps_tupdate) (simp add: insert_session_def session R_refl)
  ultimately show ?thesis
    unfolding write_archive_def
    by (intro keeps_tbind) (auto intro!: keeps_basic keeps_validate_previous_transcript keeps_write_entries keeps_write_summaries
        split: prod.split option.split)
qed

lemma keeps_fresh_commit: "tkeeps R (fresh_commit P L c e command command_id sid commit_id fingerprint)"
proof -
  have "tkeeps R (write_commit P L c e command command_id sid commit_id fingerprint previous)" for previous
    unfolding write_commit_def Let_def by (intro keeps_tbind keeps_write_archive keeps_outboxes retention keeps_seal_commit keeps_tret)
  moreover have "tkeeps R (tupdate P id)" by (rule keeps_tupdate) (simp add: R_refl)
  ultimately show ?thesis
    unfolding fresh_commit_def
    by (intro keeps_tbind keeps_tgets) (auto intro!: keeps_basic keeps_check_previous split: option.split simp del: id_apply)
qed

end

locale commit_effects = archive_effects R + seal_effects R for R :: "session \<times> store \<Rightarrow> session \<times> store \<Rightarrow> bool" +
  assumes next_changed: "R (s, d) (s\<lparr>s_next_transcript_sequence := k\<rparr>, d)" and revision_changed: "R (s, d) (s\<lparr>s_revision := k\<rparr>, d)"

sublocale commit_effects \<subseteq> fresh_effects R L for L
  by unfold_locales (rule next_changed, rule revision_changed, rule keeps_retention_write)

section \<open>Whole saves\<close>

locale save_effects = commit_effects "\<lambda>a b. D (snd a) (snd b)" for D :: "store \<Rightarrow> store \<Rightarrow> bool"
begin

abbreviation keeps_tables :: "'a tx \<Rightarrow> bool" where "keeps_tables \<equiv> tkeeps (\<lambda>a b. D (snd a) (snd b))"

lemma D_refl: "D d d"
  using R_refl [of "(s, d)" for s] by simp

lemma D_trans: "D a b \<Longrightarrow> D b c \<Longrightarrow> D a c"
  using R_trans [of "(s, a)" "(s, b)" "(s, c)" for s] by simp

lemma keeps_transaction: "keeps_tables (transaction P L c e sid commit_id fingerprint)"
proof -
  have "keeps_tables (tmodify f)" for f by (rule keeps_tmodify) (simp add: D_refl)
  then have "keeps_tables (replay_commit P fingerprint r)" for r
    unfolding replay_commit_def by (intro keeps_tbind keeps_tret keeps_tcheck keeps_tfetch)
  then show ?thesis
    unfolding transaction_def
    by (intro keeps_tbind keeps_tgets) (auto intro!: keeps_basic keeps_fresh_commit split: option.split)
qed

lemma keeps_save_inner:
  assumes "\<And>n d. D d (px_others P n d)"
  shows "keeps_tables (save_inner P L c e)"
proof -
  have run: "keeps_tables (run_transaction P (transaction P L c e sid commit_id fingerprint))" for sid commit_id fingerprint
  proof (rule tkeepsI)
    fix s d n r s' d' n'
    assume run: "run_transaction P (transaction P L c e sid commit_id fingerprint) (s, d, n) = (r, s', d', n')"
    let ?d0 = "px_others P n d"
    obtain v s1 d1 n1 where t: "transaction P L c e sid commit_id fingerprint (s, ?d0, Suc n) = (v, s1, d1, n1)" by (metis prod_cases4)
    have "D ?d0 d1" using tkeepsD [OF keeps_transaction t] by simp
    moreover have "d' = ?d0 \<or> d' = d1"
      using run t by (auto simp: run_transaction_def commit_written_def commit_known_def Let_def
          split: option.splits sum.splits verdict.splits prod.splits if_splits)
    ultimately show "D (snd (s, d)) (snd (s', d'))" unfolding snd_conv using assms [of d n] D_trans [of d ?d0 d1] by blast
  qed
  have stage: "keeps_tables (\<lambda>(s, d, n). case stage_transcript P (s, n) of (s', n') \<Rightarrow> (Inr (), s', d, n'))"
    by (rule tkeepsI) (auto simp: D_refl split: prod.splits)
  have "keeps_tables (tmodify f)" for f by (rule keeps_tmodify) (simp add: D_refl)
  then show ?thesis
    unfolding save_inner_def prepare_commit_def
    by (intro keeps_tbind stage keeps_tgets) (auto intro!: keeps_basic run split: option.split prod.split)
qed

lemma keeps_try_commit:
  assumes "\<And>n d. D d (px_others P n d)" "try_commit P L c e staged k (d, n) = (r, s', d', n')"
  shows "D d d'"
  using assms(2)
proof (induction k arbitrary: d n)
  case 0
  then show ?case using tkeepsD [OF keeps_save_inner [OF assms(1)]] by fastforce
next
  case (Suc k)
  obtain r1 s1 d1 n1 where t: "save_inner P L c e (staged, d, n) = (r1, s1, d1, n1)" by (metis prod_cases4)
  have first: "D d d1" using tkeepsD [OF keeps_save_inner [OF assms(1)] t] by simp
  show ?case
  proof (cases "\<exists>er. r1 = Inl er \<and> transient er")
    case True
    then have "try_commit P L c e staged k (d1, n1) = (r, s', d', n')" using Suc.prems t by auto
    from D_trans [OF first Suc.IH [OF this]] show ?thesis .
  next
    case False
    then show ?thesis using Suc.prems t first by (auto split: sum.splits if_splits)
  qed
qed

lemma keeps_save:
  assumes "\<And>n d. D d (px_others P n d)" "save P L c e (s, d, n) = (r, s', d', n')"
  shows "D d d'"
proof (cases "stage_save P e (s, n)")
  case (Inl er)
  then show ?thesis using assms(2) D_refl by (simp add: save_def)
next
  case (Inr st)
  obtain staged n1 where st: "st = (staged, n1)" by fastforce
  obtain r1 s1 d1 n2 where t: "try_commit P L c e staged 2 (d, n1) = (r1, s1, d1, n2)" by (metis prod_cases4)
  show ?thesis
    using assms(2) Inr st t keeps_try_commit [OF assms(1) t] D_refl
    by (auto simp: save_def split: if_splits sum.splits)
qed

end

section \<open>Append-only tables\<close>

text \<open>No save changes or removes a row of the transcript or a receipt.\<close>

definition append_only :: "store \<Rightarrow> store \<Rightarrow> bool" where
  "append_only d d' \<longleftrightarrow> prefix (st_transcript d) (st_transcript d') \<and> prefix (st_receipts d) (st_receipts d')"

lemmas write_defs = insert_transcript_def insert_call_def insert_diagnostic_def upsert_run_def upsert_execution_def upsert_attempt_def
  upsert_context_def insert_archive_def prune_family_def prune_events_def insert_commit_receipt_def insert_event_def

interpretation archive: save_effects append_only
  by unfold_locales (auto simp: append_only_def write_defs)

end
