(* ===== verification/Commit_Proofs.thy ===== *)
theory Commit_Proofs
  imports Commit_Effects
begin

text \<open>
  What a commit guarantees: settled actions are final, and it is written at most once, only by the
  worker that holds command and lease on the revision it has seen.
\<close>

section \<open>Settled actions\<close>

definition execution_kept :: "json \<Rightarrow> json \<Rightarrow> bool" where
  "execution_kept e e' \<longleftrightarrow>
     (\<forall>k\<in>set frozen_keys. idx e' k = idx e k)
     \<and> (settled_execution e \<and> is_string (idx e ''result'') \<longrightarrow>
          idx e' ''status'' = idx e ''status'' \<and> idx e' ''result'' = idx e ''result'')"

definition executions_ok :: "store \<Rightarrow> bool" where
  "executions_ok d \<longleftrightarrow> distinct (map (\<lambda>e. idx e ''execution_id'') (st_executions d)) \<and> list_all is_object (st_executions d)"

definition actions_kept :: "store \<Rightarrow> store \<Rightarrow> bool" where
  "actions_kept d d' \<longleftrightarrow> (executions_ok d \<longrightarrow> executions_ok d'
     \<and> (\<exists>kept new. st_executions d' = kept @ new \<and> list_all2 execution_kept (st_executions d) kept))"

lemma idx_set_columns:
  assumes "is_object v" "distinct ks"
  shows "is_object (fold (\<lambda>k w. set_idx w k (f k)) ks v)
    \<and> idx (fold (\<lambda>k w. set_idx w k (f k)) ks v) k' = (if k' \<in> set ks then f k' else idx v k')"
  using assms by (induction ks arbitrary: v) (auto simp: is_object_set_idx idx_set_idx)

lemma idx_update_columns:
  assumes "is_object old" "distinct replaced" "distinct kept"
  shows "is_object (update_columns replaced kept new old)
    \<and> (k \<notin> set kept \<longrightarrow> idx (update_columns replaced kept new old) k = (if k \<in> set replaced then idx new k else idx old k))"
  unfolding update_columns_def
  using idx_set_columns [OF assms(1,2), of "\<lambda>k. idx new k"]
    idx_set_columns [OF _ assms(3), of "fold (\<lambda>k w. set_idx w k (idx new k)) replaced old" "\<lambda>k. if is_null (idx old k) then idx new k else idx old k"]
  by auto

lemma json_eq_JStr: "json_eq (JStr a) v \<longleftrightarrow> v = JStr a"
  by (cases v) auto

lemma execution_kept_refl: "execution_kept e e"
  by (simp add: execution_kept_def)

lemma execution_kept_trans: "execution_kept a b \<Longrightarrow> execution_kept b c \<Longrightarrow> execution_kept a c"
  by (auto simp: execution_kept_def settled_execution_def)

lemma execution_row_columns:
  "idx (execution_row P s item) ''execution_id'' = json_opt (as_str (idx item ''execution_id''))"
  "idx (execution_row P s item) ''status'' = json_opt (as_str (idx item ''status''))"
  "idx (execution_row P s item) ''result'' = json_opt (as_str (idx item ''result''))"
  "is_object (execution_row P s item)"
  by (simp_all add: execution_row_def idx_def text_column_def is_object_def)

lemma action_unchanged:
  assumes "action_changed old item = None" "settled_execution old" "is_string (idx old ''result'')"
  shows "json_opt (as_str (idx item ''status'')) = idx old ''status'' \<and> json_opt (as_str (idx item ''result'')) = idx old ''result''"
proof -
  obtain st r where "idx old ''status'' = JStr st" "idx old ''result'' = JStr r"
    using assms(2,3) by (cases "idx old ''status''"; cases "idx old ''result''") (auto simp: settled_execution_def is_string_def)
  moreover have "json_eq (idx old ''status'') (idx item ''status'')" "json_eq (idx old ''result'') (idx item ''result'')"
    using assms(1,2) by (auto simp: action_changed_def split: if_splits option.splits)
  ultimately show ?thesis by (simp add: json_eq_JStr json_opt_def)
qed

definition updated_columns :: "json \<Rightarrow> json \<Rightarrow> json" where
  "updated_columns = update_columns [''attempts'', ''status'', ''result'', ''owner'', ''fence'', ''payload''] [''started_at'', ''finished_at'']"

lemma updated_columns_idx:
  assumes "is_object old"
  shows "is_object (updated_columns new old)"
    "k \<notin> {''attempts'', ''status'', ''result'', ''owner'', ''fence'', ''payload'', ''started_at'', ''finished_at''} \<Longrightarrow>
       idx (updated_columns new old) k = idx old k"
    "idx (updated_columns new old) ''status'' = idx new ''status''" "idx (updated_columns new old) ''result'' = idx new ''result''"
  using idx_update_columns [OF assms, of "[''attempts'', ''status'', ''result'', ''owner'', ''fence'', ''payload'']" "[''started_at'', ''finished_at'']" new]
  unfolding updated_columns_def by auto

lemma upsert_execution_kept:
  assumes "execution_allowed item d"
  shows "actions_kept d (upsert_execution (execution_row P s item) d)"
  unfolding actions_kept_def
proof
  let ?row = "execution_row P s item" and ?xs = "st_executions d"
  let ?same = "\<lambda>x. same_column ''execution_id'' x ?row"
  let ?f = "\<lambda>x. if ?same x then updated_columns ?row x else x"
  assume ok: "executions_ok d"
  have obj: "is_object x" if "x \<in> set ?xs" for x using ok that by (auto simp: executions_ok_def list_all_iff)
  have id: "idx (?f x) ''execution_id'' = idx x ''execution_id''" if "x \<in> set ?xs" for x
    using updated_columns_idx(2) [OF obj [OF that], of "''execution_id''" ?row] by simp
  have kept: "execution_kept x (?f x)" if x: "x \<in> set ?xs" for x
  proof (cases "?same x")
    case True
    have "find (\<lambda>x. idx x ''execution_id'' = json_opt (as_str (idx item ''execution_id''))) ?xs = Some x"
    proof -
      have "find (\<lambda>x. idx x ''execution_id'' = json_opt (as_str (idx item ''execution_id''))) ?xs \<noteq> None"
        unfolding find_None_iff using True x by (auto simp: same_column_def execution_row_columns)
      then obtain y where y: "find (\<lambda>x. idx x ''execution_id'' = json_opt (as_str (idx item ''execution_id''))) ?xs = Some y" by blast
      then have "y \<in> set ?xs" "idx y ''execution_id'' = idx x ''execution_id''"
        using True by (auto simp: find_Some_iff same_column_def execution_row_columns)
      then have "y = x" using ok x by (auto simp: executions_ok_def distinct_map inj_on_def)
      then show ?thesis using y by simp
    qed
    then have "action_changed x item = None" using assms by (simp add: execution_allowed_def)
    then show ?thesis
      using True updated_columns_idx [OF obj [OF x], where new = ?row] action_unchanged [of x item]
      by (auto simp: execution_kept_def execution_row_columns frozen_keys_def)
  next
    case False
    then show ?thesis by (simp add: execution_kept_refl)
  qed
  show "executions_ok (upsert_execution ?row d)
    \<and> (\<exists>kept new. st_executions (upsert_execution ?row d) = kept @ new \<and> list_all2 execution_kept ?xs kept)"
  proof (cases "\<exists>x\<in>set ?xs. ?same x")
    case True
    then have new: "st_executions (upsert_execution ?row d) = map ?f ?xs"
      by (simp add: upsert_execution_def updated_columns_def)
    have "map (\<lambda>e. idx e ''execution_id'') (map ?f ?xs) = map (\<lambda>e. idx e ''execution_id'') ?xs"
      unfolding map_map comp_def by (rule map_cong [OF refl]) (rule id)
    moreover have "list_all is_object (map ?f ?xs)"
      using updated_columns_idx(1) [OF obj] obj by (auto simp: list_all_iff)
    ultimately have "executions_ok (upsert_execution ?row d)"
      using ok unfolding executions_ok_def new by (simp only: simp_thms)
    moreover have "list_all2 execution_kept ?xs (map ?f ?xs)" using kept by (auto simp: list_all2_conv_all_nth)
    ultimately show ?thesis using new by (metis append_Nil2)
  next
    case False
    then have new: "st_executions (upsert_execution ?row d) = ?xs @ [?row]" by (simp add: upsert_execution_def)
    have "executions_ok (upsert_execution ?row d)"
      using ok new False by (auto simp: executions_ok_def same_column_def execution_row_columns(4))
    moreover have "list_all2 execution_kept ?xs ?xs" by (simp add: list_all2_refl execution_kept_refl)
    ultimately show ?thesis using new by blast
  qed
qed

lemma actions_kept_refl: "actions_kept d d"
  unfolding actions_kept_def using list_all2_refl [of execution_kept] execution_kept_refl by (metis append_Nil2)

lemma actions_kept_same: "st_executions d' = st_executions d \<Longrightarrow> actions_kept d d'"
  using actions_kept_refl [of d] by (simp add: actions_kept_def executions_ok_def)

lemma actions_kept_trans:
  assumes "actions_kept a b" "actions_kept b c"
  shows "actions_kept a c"
  unfolding actions_kept_def
proof
  assume a: "executions_ok a"
  obtain ys new where b: "executions_ok b" "st_executions b = ys @ new" "list_all2 execution_kept (st_executions a) ys"
    using assms(1) a unfolding actions_kept_def by blast
  obtain zs more where c: "executions_ok c" "st_executions c = zs @ more" "list_all2 execution_kept (st_executions b) zs"
    using assms(2) b(1) unfolding actions_kept_def by blast
  obtain z1 z2 where z: "zs = z1 @ z2" "list_all2 execution_kept ys z1"
    using c(3) b(2) by (auto simp: list_all2_append1)
  have "list_all2 execution_kept (st_executions a) z1"
    by (rule list_all2_trans [OF _ b(3) z(2)]) (rule execution_kept_trans)
  then show "executions_ok c \<and> (\<exists>kept new. st_executions c = kept @ new \<and> list_all2 execution_kept (st_executions a) kept)"
    using c z by auto
qed

interpretation actions: save_effects actions_kept
proof unfold_locales
  show "actions_kept (snd (s, d)) (snd (s, upsert_execution (execution_row P s item) d))" if "execution_allowed item d" for s d P item
    using upsert_execution_kept [OF that] by simp
qed (auto simp: actions_kept_refl write_defs intro: actions_kept_same actions_kept_trans)

section \<open>What is written\<close>

lemma tbind_Inr: "tbind m f st = (Inr y, st') \<longleftrightarrow> (\<exists>x st1. m st = (Inr x, st1) \<and> f x st1 = (Inr y, st'))"
  by (auto simp: tbind_def split: prod.splits sum.splits)

lemma tx_Inr:
  "tret x st = (Inr y, st') \<longleftrightarrow> y = x \<and> st' = st" "tfail e st \<noteq> (Inr z, st')" "tlift r st = (Inr y, st') \<longleftrightarrow> r = Inr y \<and> st' = st"
  "tcheck b t st = (Inr u, st') \<longleftrightarrow> b \<and> st' = st" "tgets f st = (Inr a, st') \<longleftrightarrow> a = f (fst st) \<and> st' = st"
  "tmodify g st = (Inr u, st') \<longleftrightarrow> st' = (g (fst st), snd st)"
  by (auto simp: tret_def tfail_def tlift_def tcheck_def tgets_def tmodify_def split: prod.splits)

lemma tstmt_Inr:
  "tstmt P f (s, d, n) = (Inr x, s', d', n') \<longleftrightarrow> px_fault P n = None \<and> f (px_clock P n) d = Inr (x, d') \<and> s' = s \<and> n' = Suc n"
  by (auto simp: tstmt_def split: option.splits sum.splits)

lemma statement_Inr:
  "tselect P g (s, d, n) = (Inr x, s', d', n') \<longleftrightarrow> px_fault P n = None \<and> x = g (px_clock P n) d \<and> d' = d \<and> s' = s \<and> n' = Suc n"
  "tupdate P h (s, d, n) = (Inr u, s', d', n') \<longleftrightarrow> px_fault P n = None \<and> d' = h d \<and> s' = s \<and> n' = Suc n"
  "tfetch P k (s, d, n) = (Inr y, s', d', n') \<longleftrightarrow> px_fault P n = None \<and> k d = Some y \<and> d' = d \<and> s' = s \<and> n' = Suc n"
  by (auto simp: tselect_def tupdate_def tfetch_def tstmt_Inr split: option.splits)

text \<open>The outboxes leave the row of the session, the receipts and the identity of the worker alone.\<close>

definition sealed :: "session \<times> store \<Rightarrow> session \<times> store \<Rightarrow> bool" where
  "sealed a b \<longleftrightarrow>
     st_receipts (snd b) = st_receipts (snd a) \<and> st_session (snd b) = st_session (snd a)
     \<and> s_revision (fst b) = s_revision (fst a) \<and> s_execution_owner (fst b) = s_execution_owner (fst a)
     \<and> s_execution_fence (fst b) = s_execution_fence (fst a)"

interpretation seal: archive_effects sealed
  by unfold_locales (auto simp: sealed_def write_defs)

lemma write_archive_row:
  assumes "write_archive P L c previous k (s, d, n) = (Inr staged, s', d', n')"
  shows "st_receipts d' = st_receipts d \<and> s_revision s' = k + 1 \<and> s_execution_owner s' = s_execution_owner s
    \<and> s_execution_fence s' = s_execution_fence s
    \<and> (\<exists>r. st_session d' = Some r \<and> (case st_session d of None \<Rightarrow> sr_revision r = k \<and> sr_lease r = no_lease | Some r0 \<Rightarrow> r = r0))"
proof -
  let ?s = "s\<lparr>s_revision := k + 1\<rparr>"
  obtain row m1 next1 prov next2 s4 d4 n4 s5 d5 n5 s6 d6 n6 where row: "row = session_row_of L ?s c k"
    and v: "(case previous of None \<Rightarrow> tret () | Some r \<Rightarrow> validate_previous_transcript P L (sr_state r) m1) (?s, insert_session row d, Suc (Suc n)) = (Inr (), s4, d4, n4)"
    and w: "write_entries P staged (m1 + 1) (s4, d4, n4) = (Inr next1, s5, d5, n5)"
    and y: "write_summaries P L prov next1 (s5, d5, n5) = (Inr next2, s6, d6, n6)"
    and z: "s' = s6\<lparr>s_next_transcript_sequence := next2\<rparr>" "d' = d6"
    using assms unfolding write_archive_def by (auto simp: tbind_Inr tx_Inr statement_Inr split: prod.splits)
  have "tkeeps sealed (case previous of None \<Rightarrow> tret () | Some r \<Rightarrow> validate_previous_transcript P L (sr_state r) m1)"
    by (auto intro: seal.keeps_tret seal.keeps_validate_previous_transcript split: option.split)
  from tkeepsD [OF this v] have "sealed (?s, insert_session row d) (s4, d4)" .
  moreover have "sealed (s4, d4) (s5, d5)" by (rule tkeepsD [OF seal.keeps_write_entries w])
  moreover have "sealed (s5, d5) (s6, d6)" by (rule tkeepsD [OF seal.keeps_write_summaries y])
  ultimately have "sealed (?s, insert_session row d) (s6, d6)" using seal.R_trans by blast
  then show ?thesis using z row by (auto simp: sealed_def insert_session_def session_row_of_def split: option.split)
qed

definition stored_revision :: "session_row option \<Rightarrow> int" where
  "stored_revision previous = (case previous of None \<Rightarrow> 0 | Some r \<Rightarrow> sr_revision r)"

text \<open>The lease a session claims to hold, at a reading of the clock.\<close>

definition lease_good :: "px \<Rightarrow> session \<Rightarrow> lease \<Rightarrow> bool" where
  "lease_good P s l \<longleftrightarrow>
     (\<forall>x. s_execution_owner s = Some x \<longrightarrow>
        (\<exists>now owner fence. px_parse_uuid P x = Some owner \<and> s_execution_fence s = Some fence \<and> lease_held now owner fence l))"

lemma final_fence_Inr:
  assumes "final_fence P (s, d, n) = (Inr u, s', d', n')"
  shows "s' = s \<and> d' = d \<and> (\<forall>r. st_session d = Some r \<longrightarrow> lease_good P s (sr_lease r))"
  using assms
  by (auto simp: final_fence_def tbind_Inr tx_Inr tlease_def tstmt_Inr lease_columns_def tuuid_def lease_good_def lease_held_def
      split: option.splits)

lemma write_session_Inr:
  assumes "write_session P L c commit_id fingerprint k (s, d, n) = (Inr u, s', d', n')" "st_session d = Some r"
  shows "s' = s \<and> st_receipts d' = st_receipts d \<and> sr_revision r = k
    \<and> (\<exists>r'. st_session d' = Some r' \<and> sr_revision r' = s_revision s \<and> sr_last_commit_id r' = Some commit_id
         \<and> sr_last_commit_sha256 r' = Some fingerprint \<and> sr_lease r' = sr_lease r)"
  using assms
  by (auto simp: write_session_def tbind_Inr tx_Inr tstmt_Inr store_session_def session_row_of_def split: if_splits)

lemma seal_commit_Inr:
  assumes "seal_commit P L c e command command_id sid commit_id fingerprint k (s, d, n) = (Inr u, s', d', n')" "st_session d = Some r"
  shows "s_revision s' = s_revision s \<and> sr_revision r = k \<and> lease_good P s (sr_lease r)
    \<and> st_receipts d' = st_receipts d @ [\<lparr>rc_commit_id = commit_id, rc_command_id = command_id, rc_fingerprint = fingerprint,
          rc_expected_revision = k, rc_committed_revision = s_revision s\<rparr>]
    \<and> (\<exists>r'. st_session d' = Some r' \<and> sr_revision r' = s_revision s \<and> sr_last_commit_id r' = Some commit_id
         \<and> sr_last_commit_sha256 r' = Some fingerprint)"
proof -
  obtain s1 d1 n1 s2 d2 n2 s3 d3 n3 s4 d4 n4 s5 d5 n5 where
    a: "attach_session P command_id sid (s, d, n) = (Inr (), s1, d1, n1)"
    and w: "write_event P e command commit_id command_id (s1, insert_commit_receipt
        \<lparr>rc_commit_id = commit_id, rc_command_id = command_id, rc_fingerprint = fingerprint,
          rc_expected_revision = k, rc_committed_revision = s_revision s1\<rparr> d1, Suc n1) = (Inr (), s2, d2, n2)"
    and f: "final_fence P (s2, d2, n2) = (Inr (), s3, d3, n3)"
    and x: "write_session P L c commit_id fingerprint k (s3, d3, n3) = (Inr (), s4, d4, n4)"
    and g: "tguard P command (s4, d4, n4) = (Inr (), s5, d5, n5)"
    and h: "finish_command P e command command_id (s5, d5, n5) = (Inr u, s', d', n')"
    using assms(1) unfolding seal_commit_def by (auto simp: tbind_Inr tx_Inr statement_Inr)
  have a': "sealed (s, d) (s1, d1)" by (rule tkeepsD [OF seal.keeps_attach_session a])
  have w': "s2 = s1" "st_session d2 = st_session d1"
    "st_receipts d2 = st_receipts d1 @ [\<lparr>rc_commit_id = commit_id, rc_command_id = command_id, rc_fingerprint = fingerprint,
          rc_expected_revision = k, rc_committed_revision = s_revision s1\<rparr>]"
    using w by (auto simp: write_event_def statement_Inr insert_event_def insert_commit_receipt_def)
  have f': "s3 = s2" "d3 = d2" using final_fence_Inr [OF f] by auto
  have row: "st_session d3 = Some r" using a' w' f' assms(2) by (simp add: sealed_def)
  note x' = write_session_Inr [OF x row]
  have good: "lease_good P s (sr_lease r)"
    using final_fence_Inr [OF f] row f' w'(1) a' by (simp add: lease_good_def sealed_def)
  have g': "sealed (s4, d4) (s5, d5)" by (rule tkeepsD [OF seal.keeps_tguard g])
  have h': "sealed (s5, d5) (s', d')" by (rule tkeepsD [OF seal.keeps_finish_command h])
  show ?thesis using a' w' f' x' g' h' good by (auto simp: sealed_def)
qed

lemma write_commit_Inr:
  assumes "write_commit P L c e command command_id sid commit_id fingerprint previous (s, d, n) = (Inr v, s', d', n')"
    and "previous = st_session d"
  shows "v = Written \<and> s_revision s' = stored_revision previous + 1
    \<and> st_receipts d' = st_receipts d @ [\<lparr>rc_commit_id = commit_id, rc_command_id = command_id, rc_fingerprint = fingerprint,
          rc_expected_revision = stored_revision previous, rc_committed_revision = stored_revision previous + 1\<rparr>]
    \<and> (\<exists>r'. st_session d' = Some r' \<and> sr_revision r' = stored_revision previous + 1 \<and> sr_last_commit_id r' = Some commit_id
         \<and> sr_last_commit_sha256 r' = Some fingerprint)
    \<and> lease_good P s (case previous of None \<Rightarrow> no_lease | Some r \<Rightarrow> sr_lease r)"
proof -
  let ?k = "stored_revision previous"
  obtain staged s1 d1 n1 s2 d2 n2 where
    a: "write_archive P L c previous ?k (s, d, n) = (Inr staged, s1, d1, n1)"
    and o: "write_outboxes P L e command command_id sid staged (s1, d1, n1) = (Inr (), s2, d2, n2)"
    and z: "seal_commit P L c e command command_id sid commit_id fingerprint ?k (s2, d2, n2) = (Inr (), s', d', n')" "v = Written"
    using assms(1) unfolding write_commit_def Let_def stored_revision_def [symmetric] by (auto simp: tbind_Inr tx_Inr)
  note a' = write_archive_row [OF a]
  have o': "sealed (s1, d1) (s2, d2)" by (rule tkeepsD [OF seal.keeps_write_outboxes o])
  obtain r where r: "st_session d2 = Some r" "sr_lease r = (case previous of None \<Rightarrow> no_lease | Some r \<Rightarrow> sr_lease r)"
  proof -
    obtain r where r: "st_session d1 = Some r"
      "case st_session d of None \<Rightarrow> sr_revision r = ?k \<and> sr_lease r = no_lease | Some r0 \<Rightarrow> r = r0" using a' by blast
    then have "sr_lease r = (case previous of None \<Rightarrow> no_lease | Some r \<Rightarrow> sr_lease r)"
      using assms(2) by (cases "st_session d") simp_all
    then show ?thesis using that [of r] r(1) o' by (simp add: sealed_def)
  qed
  note z' = seal_commit_Inr [OF z(1) r(1)]
  show ?thesis using a' o' z' z(2) r by (auto simp: sealed_def lease_good_def)
qed

section \<open>When it is written\<close>

text \<open>The session that is saved is the successor of the stored one, by the worker that owns it.\<close>

definition commit_current :: "px \<Rightarrow> json \<Rightarrow> session \<Rightarrow> session_row option \<Rightarrow> bool" where
  "commit_current P c s previous \<longleftrightarrow>
     s_revision s = stored_revision previous
     \<and> (\<forall>r. previous = Some r \<longrightarrow> anchor_same s c r \<and> sr_storage_version r = 6
          \<and> le_owner (sr_lease r) = Option.bind (s_execution_owner s) (px_parse_uuid P))"

lemma check_previous_Inr:
  assumes "check_previous P c commit_id fingerprint previous (s, d, n) = (Inr known, s', d', n')" "previous = st_session d"
  shows "s' = s \<and> d' = d \<and> (case known of
      Some k \<Rightarrow> (\<exists>r. previous = Some r \<and> sr_last_commit_id r = Some commit_id \<and> k = sr_revision r)
    | None \<Rightarrow> commit_current P c s previous)"
proof (cases previous)
  case None
  then show ?thesis using assms(1)
    by (auto simp: check_previous_def tbind_Inr tx_Inr commit_current_def stored_revision_def)
next
  case (Some r)
  show ?thesis
  proof (cases "sr_last_commit_id r = Some commit_id")
    case True
    then show ?thesis using assms(1) Some by (auto simp: check_previous_def tbind_Inr tx_Inr)
  next
    case False
    then have facts: "sr_revision r = s_revision s" "anchor_same s c r" "sr_storage_version r = 6" "known = None"
      and own: "check_owner P (s, d, n) = (Inr (), s', d', n')"
      using assms(1) Some by (auto simp: check_previous_def tbind_Inr tx_Inr)
    have "s' = s \<and> d' = d \<and> le_owner (sr_lease r) = Option.bind (s_execution_owner s) (px_parse_uuid P)"
      using own Some assms(2)
      by (auto simp: check_owner_def tbind_Inr tx_Inr tlease_def tstmt_Inr lease_columns_def split: prod.splits option.splits)
    then show ?thesis using facts Some by (simp add: commit_current_def stored_revision_def)
  qed
qed

lemma tguard_Inr:
  "tguard P command (s, d, n) = (Inr u, s', d', n') \<Longrightarrow> s' = s \<and> d' = d \<and> (\<exists>now. guard now command (st_commands d) = Ok ())"
  by (auto simp: tguard_def tstmt_Inr result_simps split: sum.splits elim!: protocol.elims)

text \<open>A written commit: everything that was checked, and the one receipt.\<close>

definition written :: "px \<Rightarrow> json \<Rightarrow> string \<Rightarrow> string \<Rightarrow> session \<Rightarrow> store \<Rightarrow> session \<Rightarrow> store \<Rightarrow> bool" where
  "written P c commit_id fingerprint s d s' d' \<longleftrightarrow>
     find_receipt commit_id d = None \<and> commit_current P c s (st_session d)
     \<and> (\<exists>command now. s_command s = Some command \<and> guard now command (st_commands d) = Ok ())
     \<and> lease_good P s (case st_session d of None \<Rightarrow> no_lease | Some r \<Rightarrow> sr_lease r)
     \<and> s_revision s' = s_revision s + 1
     \<and> (\<exists>command_id. st_receipts d' = st_receipts d @
          [\<lparr>rc_commit_id = commit_id, rc_command_id = command_id, rc_fingerprint = fingerprint,
            rc_expected_revision = s_revision s, rc_committed_revision = s_revision s + 1\<rparr>])
     \<and> (\<exists>r'. st_session d' = Some r' \<and> sr_revision r' = s_revision s + 1 \<and> sr_last_commit_id r' = Some commit_id
          \<and> sr_last_commit_sha256 r' = Some fingerprint)"

lemma replay_commit_Inr:
  assumes "replay_commit P fingerprint r (s, d, n) = (Inr v, s', d', n')"
  shows "v = Replayed \<and> rc_fingerprint r = fingerprint"
  using assms by (auto simp: replay_commit_def tbind_Inr tx_Inr)

lemma fresh_commit_Inr:
  assumes "fresh_commit P L c e command command_id sid commit_id fingerprint (s, d, n) = (Inr v, s', d', n')"
    and "s_command s = Some command" "find_receipt commit_id d = None"
  shows "(case v of
      Replayed \<Rightarrow> False
    | Last_Commit k \<Rightarrow> (\<exists>r. st_session d = Some r \<and> sr_last_commit_id r = Some commit_id)
    | Written \<Rightarrow> written P c commit_id fingerprint s d s' d')"
proof -
  obtain s1 d1 n1 known s2 d2 n2 where g: "tguard P command (s, d, n) = (Inr (), s1, d1, n1)"
    and k: "check_previous P c commit_id fingerprint (st_session d1) (s1, d1, Suc (Suc n1)) = (Inr known, s2, d2, n2)"
    and w: "(case known of Some revision \<Rightarrow> tret (Last_Commit revision)
      | None \<Rightarrow> write_commit P L c e command command_id sid commit_id fingerprint (st_session d1)) (s2, d2, n2) = (Inr v, s', d', n')"
    using assms(1) unfolding fresh_commit_def by (auto simp: tbind_Inr statement_Inr)
  have g': "s1 = s" "d1 = d" "\<exists>now. guard now command (st_commands d) = Ok ()" using tguard_Inr [OF g] by auto
  note k' = check_previous_Inr [OF k refl]
  show ?thesis
  proof (cases known)
    case (Some revision)
    then show ?thesis using w k' g' by (auto simp: tx_Inr)
  next
    case None
    then have wc: "write_commit P L c e command command_id sid commit_id fingerprint (st_session d) (s, d, n2) = (Inr v, s', d', n')"
      and cur: "commit_current P c s (st_session d)" using w k' g' by auto
    have rev: "s_revision s = stored_revision (st_session d)" using cur by (simp add: commit_current_def)
    show ?thesis
      using write_commit_Inr [OF wc refl] g'(3) cur assms(2,3) unfolding written_def rev by auto
  qed
qed

lemma transaction_Inr:
  assumes "transaction P L c e sid commit_id fingerprint (s, d, n) = (Inr v, s', d', n')"
  shows "(case v of
      Replayed \<Rightarrow> (\<exists>r. find_receipt commit_id d = Some r \<and> rc_fingerprint r = fingerprint)
    | Last_Commit k \<Rightarrow> find_receipt commit_id d = None \<and> (\<exists>r. st_session d = Some r \<and> sr_last_commit_id r = Some commit_id)
    | Written \<Rightarrow> written P c commit_id fingerprint s d s' d')"
proof -
  obtain command command_id n1 where cmd: "s_command s = Some command"
    and rest: "(case find_receipt commit_id d of
        Some r \<Rightarrow> replay_commit P fingerprint r
      | None \<Rightarrow> fresh_commit P L c e command command_id sid commit_id fingerprint) (s, d, n1) = (Inr v, s', d', n')"
    using assms unfolding transaction_def
    by (auto simp: tbind_Inr tx_Inr statement_Inr tuuid_unwrap_def split: option.splits)
  show ?thesis
  proof (cases "find_receipt commit_id d")
    case (Some r)
    then have "replay_commit P fingerprint r (s, d, n1) = (Inr v, s', d', n')" using rest by simp
    then show ?thesis using replay_commit_Inr [of P fingerprint r s d n1 v s' d' n'] Some by simp
  next
    case None
    then have "fresh_commit P L c e command command_id sid commit_id fingerprint (s, d, n1) = (Inr v, s', d', n')" using rest by simp
    from fresh_commit_Inr [OF this cmd None] None show ?thesis by (auto split: verdict.splits)
  qed
qed

section \<open>Exactly once\<close>

text \<open>
  The last commit of the row has its receipt.  Whether a commit took effect is then decided by
  its receipt alone.
\<close>

definition linked :: "store \<Rightarrow> bool" where
  "linked d \<longleftrightarrow> (\<forall>r i. st_session d = Some r \<longrightarrow> sr_last_commit_id r = Some i \<longrightarrow> find_receipt i d \<noteq> None)"

definition receipts_of :: "string \<Rightarrow> store \<Rightarrow> commit_receipt list" where
  "receipts_of i d = filter (\<lambda>r. rc_commit_id r = i) (st_receipts d)"

lemma find_receipt_of: "find_receipt i d = (case receipts_of i d of [] \<Rightarrow> None | r # _ \<Rightarrow> Some r)"
proof -
  have "find p xs = (case filter p xs of [] \<Rightarrow> None | x # _ \<Rightarrow> Some x)" for p :: "commit_receipt \<Rightarrow> bool" and xs
    by (induction xs) auto
  then show ?thesis by (simp add: find_receipt_def receipts_of_def)
qed

lemma written_receipts:
  assumes "written P c i fingerprint s d s' d'"
  shows "receipts_of i d = []" "length (receipts_of i d') = 1" "linked d'" "\<exists>r. find_receipt i d' = Some r \<and> rc_fingerprint r = fingerprint"
proof -
  obtain command_id where new: "st_receipts d' = st_receipts d @ [\<lparr>rc_commit_id = i, rc_command_id = command_id, rc_fingerprint = fingerprint,
      rc_expected_revision = s_revision s, rc_committed_revision = s_revision s + 1\<rparr>]" using assms by (auto simp: written_def)
  show none: "receipts_of i d = []" using assms by (auto simp: written_def find_receipt_of split: list.splits)
  then have new': "receipts_of i d' = [\<lparr>rc_commit_id = i, rc_command_id = command_id, rc_fingerprint = fingerprint,
      rc_expected_revision = s_revision s, rc_committed_revision = s_revision s + 1\<rparr>]" using new by (simp add: receipts_of_def)
  then show "length (receipts_of i d') = 1" "\<exists>r. find_receipt i d' = Some r \<and> rc_fingerprint r = fingerprint"
    by (simp_all add: find_receipt_of)
  then show "linked d'" using assms by (auto simp: linked_def written_def)
qed

text \<open>One attempt: nothing happened to the tables of others, or the commit was written.\<close>

lemma run_transaction_effect:
  assumes run: "run_transaction P (transaction P L c e sid i fingerprint) (s, d, n) = (r, s', d', n')" and ok: "linked (px_others P n d)"
  shows "(d' = px_others P n d \<or> (\<exists>s1. written P c i fingerprint s (px_others P n d) s1 d'))
    \<and> (r = Inr () \<longrightarrow> (\<exists>rc. find_receipt i d' = Some rc \<and> rc_fingerprint rc = fingerprint))"
proof -
  let ?d0 = "px_others P n d"
  obtain v s1 d1 n1 where t: "transaction P L c e sid i fingerprint (s, ?d0, Suc n) = (v, s1, d1, n1)" by (metis prod_cases4)
  show ?thesis
  proof (cases "px_fault P n = None \<and> (\<exists>x. v = Inr x)")
    case False
    then show ?thesis using run t by (cases v) (auto simp: run_transaction_def Let_def split: option.splits)
  next
    case True
    then obtain x where x: "v = Inr x" "px_fault P n = None" by blast
    note t' = transaction_Inr [OF t [unfolded x(1)]]
    show ?thesis
    proof (cases x)
      case Replayed
      then show ?thesis using run t t' x by (auto simp: run_transaction_def Let_def)
    next
      case (Last_Commit k)
      then show ?thesis using t' ok by (auto simp: linked_def)
    next
      case Written
      then have w: "written P c i fingerprint s ?d0 s1 d1" using t' by simp
      have "d' = ?d0 \<or> d' = d1" "r = Inr () \<Longrightarrow> d' = d1"
        using run t x Written by (auto simp: run_transaction_def commit_written_def Let_def split: option.splits prod.splits if_splits)
      then show ?thesis using w written_receipts(4) [OF w] by auto
    qed
  qed
qed

text \<open>Staging touches nothing that identifies the commit.\<close>

definition same_proposal :: "session \<Rightarrow> session \<Rightarrow> bool" where
  "same_proposal s t \<longleftrightarrow>
     s_pending_commit_id t = s_pending_commit_id s \<and> s_revision t = s_revision s \<and> s_command t = s_command s \<and> s_id t = s_id s
     \<and> s_execution_owner t = s_execution_owner s \<and> s_execution_fence t = s_execution_fence s"

lemma stage_messages_proposal: "stage_messages P ms (s, n) = (ms', s', n') \<Longrightarrow> same_proposal s s'"
proof (induction ms arbitrary: s n ms')
  case (Cons m ms)
  show ?case
  proof (cases "message_staged m")
    case True
    then show ?thesis using Cons by (auto split: prod.splits)
  next
    case False
    then show ?thesis using Cons.prems Cons.IH by (fastforce simp: Let_def same_proposal_def split: prod.splits)
  qed
qed (simp add: same_proposal_def)

lemma stage_transcript_proposal: "stage_transcript P (s, n) = (s', n') \<Longrightarrow> same_proposal s s'"
  using stage_messages_proposal by (fastforce simp: stage_transcript_def same_proposal_def split: prod.splits)

interpretation same_tables: kept_relation "\<lambda>a b. snd b = snd a"
  by unfold_locales auto

lemma prepare_commit_tables: "prepare_commit P L c e (s, d, n) = (r, s', d', n') \<Longrightarrow> d' = d"
proof -
  assume run: "prepare_commit P L c e (s, d, n) = (r, s', d', n')"
  have stage: "tkeeps (\<lambda>a b. snd b = snd a) (\<lambda>(s, d, n). case stage_transcript P (s, n) of (s', n') \<Rightarrow> (Inr (), s', d, n'))"
    by (rule tkeepsI) (auto split: prod.splits)
  have "tkeeps (\<lambda>a b. snd b = snd a) (tmodify f)" for f by (rule same_tables.keeps_tmodify) simp
  then have "tkeeps (\<lambda>a b. snd b = snd a) (prepare_commit P L c e)"
    unfolding prepare_commit_def
    by (intro same_tables.keeps_tbind stage same_tables.keeps_tgets) (auto intro!: same_tables.keeps_basic split: option.split)
  from tkeepsD [OF this run] show ?thesis by simp
qed

lemma prepare_commit_Inr:
  assumes "prepare_commit P L c e (s, d, n) = (Inr (sid, i, fingerprint), s', d', n')"
  shows "d' = d \<and> same_proposal s s' \<and> (\<exists>x. s_pending_commit_id s = Some x \<and> px_parse_uuid P x = Some i)"
proof -
  obtain s1 n1 where st: "stage_transcript P (s, n) = (s1, n1)" by fastforce
  have s1: "same_proposal s s1" by (rule stage_transcript_proposal [OF st])
  have "s' = s1\<lparr>s_pending_commit_fingerprint := Some fingerprint\<rparr> \<and> (\<exists>x. s_pending_commit_id s1 = Some x \<and> px_parse_uuid P x = Some i)"
    using assms st unfolding prepare_commit_def
    by (auto simp: tbind_Inr tx_Inr tuuid_def tuuid_unwrap_def split: option.splits)
  then show ?thesis using s1 prepare_commit_tables [OF assms] by (auto simp: same_proposal_def)
qed

text \<open>What other workers do in between: they keep the rows linked and do not use this commit's identifier.\<close>

definition others_ok :: "px \<Rightarrow> string \<Rightarrow> bool" where
  "others_ok P i \<longleftrightarrow> (\<forall>n d. linked d \<longrightarrow> linked (px_others P n d) \<and> receipts_of i (px_others P n d) = receipts_of i d)"

lemma save_inner_once:
  assumes run: "save_inner P L c e (s, d, n) = (r, s', d', n')"
    and ok: "others_ok P i" "linked d" "s_pending_commit_id s = Some x" "px_parse_uuid P x = Some i"
  shows "linked d' \<and> (receipts_of i d' = receipts_of i d \<or> receipts_of i d = [] \<and> length (receipts_of i d') = 1)
    \<and> (r = Inr () \<longrightarrow> receipts_of i d' \<noteq> [])"
proof -
  obtain p s1 d1 n1 where p: "prepare_commit P L c e (s, d, n) = (p, s1, d1, n1)" by (metis prod_cases4)
  show ?thesis
  proof (cases p)
    case (Inl er)
    then show ?thesis using run p prepare_commit_tables [OF p] ok(2) by (auto simp: save_inner_def tbind_def)
  next
    case (Inr y)
    obtain sid j fingerprint where y: "y = (sid, j, fingerprint)" by (metis prod_cases3)
    have p': "d1 = d" "j = i" using prepare_commit_Inr [OF p [unfolded Inr y]] ok(3,4) by auto
    have t: "run_transaction P (transaction P L c e sid i fingerprint) (s1, d, n1) = (r, s', d', n')"
      using run p Inr y p' by (simp add: save_inner_def tbind_def)
    let ?d0 = "px_others P n1 d"
    have d0: "linked ?d0" "receipts_of i ?d0 = receipts_of i d" using ok(1,2) by (auto simp: others_ok_def)
    note eff = run_transaction_effect [OF t d0(1)]
    show ?thesis
    proof (cases "d' = ?d0")
      case True
      then show ?thesis using d0 eff by (auto simp: find_receipt_of split: list.splits)
    next
      case False
      then obtain s2 where "written P c i fingerprint s1 ?d0 s2 d'" using eff by blast
      from written_receipts [OF this] d0 show ?thesis by auto
    qed
  qed
qed

lemma try_commit_once:
  assumes "try_commit P L c e staged k (d, n) = (r, s', d', n')"
    and "others_ok P i" "linked d" "s_pending_commit_id staged = Some x" "px_parse_uuid P x = Some i"
  shows "linked d' \<and> (receipts_of i d' = receipts_of i d \<or> receipts_of i d = [] \<and> length (receipts_of i d') = 1)
    \<and> (r = Inr () \<longrightarrow> receipts_of i d' \<noteq> [])"
  using assms(1,3)
proof (induction k arbitrary: d n)
  case 0
  then show ?case using save_inner_once [OF _ assms(2) _ assms(4,5)] by simp
next
  case (Suc k)
  obtain r1 s1 d1 n1 where t: "save_inner P L c e (staged, d, n) = (r1, s1, d1, n1)" by (metis prod_cases4)
  note one = save_inner_once [OF t assms(2) Suc.prems(2) assms(4,5)]
  show ?case
  proof (cases "\<exists>er. r1 = Inl er \<and> transient er")
    case True
    then have "try_commit P L c e staged k (d1, n1) = (r, s', d', n')" using Suc.prems t by auto
    from Suc.IH [OF this] one show ?thesis by (metis length_0_conv one_neq_zero)
  next
    case False
    then show ?thesis using Suc.prems t one by (auto split: sum.splits if_splits)
  qed
qed

end
