(* ===== verification/Save_Proofs.thy ===== *)
theory Save_Proofs
  imports Commit_Proofs
begin

text \<open>
  What a save guarantees as a whole.  \<open>commit_invariant\<close> is the interface for what a written
  commit preserves; the numbering of the transcript is one of its instances.  A save that fails
  leaves the staged proposal as it was, so that the next one proposes the same commit.
\<close>

section \<open>Invariants of the tables\<close>

lemma transaction_fresh:
  assumes "transaction P L c e sid i fingerprint (s, d, n) = (Inr Written, s', d', n')"
  obtains command command_id n1 where
    "fresh_commit P L c e command command_id sid i fingerprint (s, d, n1) = (Inr Written, s', d', n')"
proof -
  obtain command command_id n1 where
    rest: "(case find_receipt i d of
        Some r \<Rightarrow> replay_commit P fingerprint r
      | None \<Rightarrow> fresh_commit P L c e command command_id sid i fingerprint) (s, d, n1) = (Inr Written, s', d', n')"
    using assms unfolding transaction_def
    by (auto simp: tbind_Inr tx_Inr statement_Inr tuuid_unwrap_def split: option.splits)
  then have "find_receipt i d = None" by (auto dest: replay_commit_Inr split: option.splits)
  with rest show ?thesis using that by simp
qed

text \<open>What holds of the tables through every attempt holds through the save.\<close>

lemma try_commit_steps:
  assumes step: "\<And>d1 n1 r1 s1 d2 n2. save_inner P L c e (staged, d1, n1) = (r1, s1, d2, n2) \<Longrightarrow> I d1 \<Longrightarrow> I d2"
  shows "try_commit P L c e staged k (d, n) = (r, s', d', n') \<Longrightarrow> I d \<Longrightarrow> I d'"
proof (induction k arbitrary: d n)
  case 0
  then show ?case using step by simp
next
  case (Suc k)
  obtain r1 s1 d1 n1 where t: "save_inner P L c e (staged, d, n) = (r1, s1, d1, n1)" by (metis prod_cases4)
  have one: "I d1" by (rule step [OF t Suc.prems(2)])
  show ?case
  proof (cases "\<exists>er. r1 = Inl er \<and> transient er")
    case True
    then have "try_commit P L c e staged k (d1, n1) = (r, s', d', n')" using Suc.prems t by auto
    from Suc.IH [OF this one] show ?thesis .
  next
    case False
    then show ?thesis using Suc.prems t one by (auto split: sum.splits if_splits)
  qed
qed

lemma save_steps:
  assumes step: "\<And>staged d1 n1 r1 s1 d2 n2. save_inner P L c e (staged, d1, n1) = (r1, s1, d2, n2) \<Longrightarrow> I d1 \<Longrightarrow> I d2"
    and "save P L c e (s, d, n) = (r, s', d', n')" "I d"
  shows "I d'"
proof (cases "stage_save P e (s, n)")
  case (Inl er)
  then show ?thesis using assms(2,3) by (simp add: save_def)
next
  case (Inr st)
  obtain staged n1 where st: "st = (staged, n1)" by fastforce
  obtain r1 s1 d1 n2 where t: "try_commit P L c e staged 2 (d, n1) = (r1, s1, d1, n2)" by (metis prod_cases4)
  show ?thesis
    using assms(2,3) Inr st t try_commit_steps [where I = I, OF step t assms(3)]
    by (auto simp: save_def split: if_splits sum.splits)
qed

locale commit_invariant =
  fixes I :: "store \<Rightarrow> bool"
  assumes written: "fresh_commit P L c e command command_id sid i fingerprint (s, d, n) = (Inr Written, s', d', n') \<Longrightarrow> I d \<Longrightarrow> I d'"
begin

lemma keeps_save_inner:
  assumes run: "save_inner P L c e (s, d, n) = (r, s', d', n')" and others: "\<And>n d. I d \<Longrightarrow> I (px_others P n d)" and ok: "I d"
  shows "I d'"
proof -
  obtain p s1 d1 n1 where p: "prepare_commit P L c e (s, d, n) = (p, s1, d1, n1)" by (metis prod_cases4)
  note d1 = prepare_commit_tables [OF p]
  show ?thesis
  proof (cases p)
    case (Inl er)
    then show ?thesis using run p d1 ok by (auto simp: save_inner_def tbind_def)
  next
    case (Inr y)
    obtain sid i fingerprint where y: "y = (sid, i, fingerprint)" by (metis prod_cases3)
    let ?d0 = "px_others P n1 d"
    have d0: "I ?d0" by (rule others [OF ok])
    have t: "run_transaction P (transaction P L c e sid i fingerprint) (s1, d, n1) = (r, s', d', n')"
      using run p Inr y d1 by (simp add: save_inner_def tbind_def)
    obtain v s2 d2 n2 where v: "transaction P L c e sid i fingerprint (s1, ?d0, Suc n1) = (v, s2, d2, n2)" by (metis prod_cases4)
    show ?thesis
    proof (cases "v = Inr Written")
      case True
      obtain command command_id n3 where "fresh_commit P L c e command command_id sid i fingerprint (s1, ?d0, n3) = (Inr Written, s2, d2, n2)"
        using v unfolding True by (rule transaction_fresh)
      from written [OF this d0] d0 show ?thesis
        using t v True by (auto simp: run_transaction_def commit_written_def Let_def split: option.splits prod.splits if_splits)
    next
      case False
      then have "d' = ?d0"
        using t v by (auto simp: run_transaction_def commit_known_def Let_def split: option.splits sum.splits verdict.splits prod.splits)
      then show ?thesis using d0 by simp
    qed
  qed
qed

lemma keeps_save:
  assumes "\<And>n d. I d \<Longrightarrow> I (px_others P n d)" "I d" "save P L c e (s, d, n) = (r, s', d', n')"
  shows "I d'"
proof (rule save_steps [where I = I, OF _ assms(3,2)])
  show "I d2" if "save_inner P L c e (staged, d1, n1) = (r1, s1, d2, n2)" "I d1" for staged d1 n1 r1 s1 d2 n2
    by (rule keeps_save_inner [OF that(1) assms(1) that(2)])
qed

end

section \<open>The numbering of the transcript\<close>

definition numbered :: "store \<Rightarrow> bool" where
  "numbered d \<longleftrightarrow> map tr_sequence (st_transcript d) = map int [1..<Suc (length (st_transcript d))]"

lemma max_sequence_numbered: "numbered d \<Longrightarrow> max_sequence d = int (length (st_transcript d))"
proof -
  have "fold max (map int [1..<Suc m]) 0 = int m" for m by (induction m) auto
  then show "numbered d \<Longrightarrow> ?thesis" by (simp add: numbered_def max_sequence_def)
qed

lemma numbered_insert:
  "numbered d \<Longrightarrow> tr_sequence t = int (length (st_transcript d)) + 1 \<Longrightarrow> numbered (insert_transcript t d)"
  by (simp add: numbered_def insert_transcript_def)

definition next_number :: "store \<Rightarrow> int" where "next_number d = int (length (st_transcript d)) + 1"

lemma next_number_insert: "next_number (insert_transcript t d) = next_number d + 1"
  by (simp add: next_number_def insert_transcript_def)

lemma write_entries_numbered:
  "write_entries P es (next_number d) (s, d, n) = (Inr k, s', d', n') \<Longrightarrow> numbered d \<Longrightarrow> numbered d' \<and> k = next_number d'"
proof (induction es arbitrary: s d n)
  case Nil
  then show ?case by (auto simp: tx_Inr)
next
  case (Cons entry es)
  obtain i where i: "px_parse_uuid P (te_message_id entry) = Some i"
    using Cons.prems(1) by (auto simp: tbind_Inr tx_Inr tuuid_unwrap_def split: option.splits)
  show ?case
  proof (cases "find_message i d")
    case None
    let ?d = "insert_transcript (entry_row P entry i (next_number d)) d"
    have "write_entries P es (next_number ?d) (set_sequence entry (next_number d) s, ?d, Suc (Suc n)) = (Inr k, s', d', n')"
      using Cons.prems(1) i None by (auto simp: tbind_Inr tx_Inr statement_Inr tuuid_unwrap_def next_number_insert)
    moreover have "numbered ?d"
      by (rule numbered_insert [OF Cons.prems(2)]) (simp add: entry_row_def next_number_def)
    ultimately show ?thesis by (rule Cons.IH)
  next
    case (Some r)
    then have "write_entries P es (next_number d) (set_sequence entry (tr_sequence r) s, d, Suc n) = (Inr k, s', d', n')"
      using Cons.prems(1) i by (auto simp: tbind_Inr tx_Inr statement_Inr tuuid_unwrap_def)
    then show ?thesis using Cons.IH Cons.prems(2) by blast
  qed
qed

interpretation transcript: seal_effects "\<lambda>a b. st_transcript (snd b) = st_transcript (snd a)"
  by unfold_locales (auto simp: write_defs)

lemma numbered_same: "st_transcript d' = st_transcript d \<Longrightarrow> numbered d' = numbered d \<and> next_number d' = next_number d"
  by (simp add: numbered_def next_number_def)

lemma write_summaries_numbered:
  "write_summaries P L ps (next_number d) (s, d, n) = (Inr k, s', d', n') \<Longrightarrow> numbered d \<Longrightarrow> numbered d' \<and> k = next_number d'"
proof (induction ps arbitrary: s d n)
  case Nil
  then show ?case by (auto simp: tx_Inr)
next
  case (Cons p ps)
  show ?case
  proof (cases "get_str p ''transcript_record_id''")
    case None
    then show ?thesis using Cons by simp
  next
    case (Some key)
    let ?payload = "unwrap_or JNull (get p ''transcript_payload'')"
    obtain i s1 d1 n1 where i: "px_parse_uuid P key = Some i"
      and v: "validate_summary_payload P L ?payload (s_goal s) (s, d, n) = (Inr (), s1, d1, n1)"
      using Cons.prems(1) Some by (auto simp: Let_def tbind_Inr tx_Inr tuuid_def split: option.splits)
    have "st_transcript d1 = st_transcript d" using tkeepsD [OF transcript.keeps_validate_summary_payload v] by simp
    then have d1: "numbered d1" "next_number d = next_number d1" using Cons.prems(2) numbered_same [of d1 d] by auto
    show ?thesis
    proof (cases "find_message i d1")
      case None
      let ?row = "summary_row s1 i ?payload (px_stamp P (Suc n1)) (next_number d1)"
      have "write_summaries P L ps (next_number (insert_transcript ?row d1)) (s1, insert_transcript ?row d1, Suc (Suc (Suc n1))) = (Inr k, s', d', n')"
        using Cons.prems(1) Some i v None d1
        by (auto simp: Let_def tbind_Inr tx_Inr statement_Inr tuuid_def tstamp_def next_number_insert)
      moreover have "numbered (insert_transcript ?row d1)"
        by (rule numbered_insert [OF d1(1)]) (simp add: summary_row_def next_number_def)
      ultimately show ?thesis by (rule Cons.IH)
    next
      case known: (Some r)
      then have "write_summaries P L ps (next_number d1) (s1, d1, Suc n1) = (Inr k, s', d', n')"
        using Cons.prems(1) Some i v d1 by (auto simp: Let_def tbind_Inr tx_Inr statement_Inr tuuid_def)
      then show ?thesis using Cons.IH d1(1) by blast
    qed
  qed
qed

lemma write_archive_numbered:
  assumes "write_archive P L c previous k (s, d, n) = (Inr staged, s', d', n')" "numbered d"
  shows "numbered d'"
proof -
  let ?s = "s\<lparr>s_revision := k + 1\<rparr>" and ?v = "\<lambda>m. case previous of None \<Rightarrow> tret () | Some r \<Rightarrow> validate_previous_transcript P L (sr_state r) m"
  obtain row m next1 prov next2 s4 d4 n4 s5 d5 n5 s6 n6 where
    v: "?v m (?s, insert_session row d, Suc (Suc n)) = (Inr (), s4, d4, n4)"
    and w: "write_entries P staged (max_sequence d + 1) (s4, d4, n4) = (Inr next1, s5, d5, n5)"
    and y: "write_summaries P L prov next1 (s5, d5, n5) = (Inr next2, s6, d', n6)"
    using assms(1) unfolding write_archive_def by (auto simp: tbind_Inr tx_Inr statement_Inr split: prod.splits)
  have "tkeeps (\<lambda>a b. st_transcript (snd b) = st_transcript (snd a)) (?v m)"
    by (auto intro: transcript.keeps_tret transcript.keeps_validate_previous_transcript split: option.split)
  from tkeepsD [OF this v] have "st_transcript d4 = st_transcript d" by (simp add: insert_session_def)
  then have d4: "numbered d4" "max_sequence d + 1 = next_number d4"
    using assms(2) numbered_same [of d4 d] max_sequence_numbered [of d] by (auto simp: next_number_def)
  have "numbered d5 \<and> next1 = next_number d5" using write_entries_numbered [OF _ d4(1)] w d4(2) by simp
  then show ?thesis using write_summaries_numbered y by blast
qed

lemma fresh_commit_numbered:
  assumes "fresh_commit P L c e command command_id sid i fingerprint (s, d, n) = (Inr Written, s', d', n')" "numbered d"
  shows "numbered d'"
proof -
  obtain s1 d1 n1 known s2 d2 n2 where g: "tguard P command (s, d, n) = (Inr (), s1, d1, n1)"
    and k: "check_previous P c i fingerprint (st_session d1) (s1, d1, Suc (Suc n1)) = (Inr known, s2, d2, n2)"
    and w: "(case known of Some revision \<Rightarrow> tret (Last_Commit revision)
      | None \<Rightarrow> write_commit P L c e command command_id sid i fingerprint (st_session d1)) (s2, d2, n2) = (Inr Written, s', d', n')"
    using assms(1) unfolding fresh_commit_def by (auto simp: tbind_Inr statement_Inr)
  have d2: "d2 = d" using tguard_Inr [OF g] check_previous_Inr [OF k refl] by simp
  obtain m staged s3 d3 n3 s4 d4 n4 where
    a: "write_archive P L c (st_session d1) m (s2, d, n2) = (Inr staged, s3, d3, n3)"
    and o: "write_outboxes P L e command command_id sid staged (s3, d3, n3) = (Inr (), s4, d4, n4)"
    and z: "seal_commit P L c e command command_id sid i fingerprint m (s4, d4, n4) = (Inr (), s', d', n')"
    using w d2 unfolding write_commit_def Let_def by (auto simp: tbind_Inr tx_Inr split: option.splits)
  have "numbered d3" by (rule write_archive_numbered [OF a assms(2)])
  moreover have "st_transcript d4 = st_transcript d3" using tkeepsD [OF transcript.keeps_write_outboxes o] by simp
  moreover have "st_transcript d' = st_transcript d4" using tkeepsD [OF transcript.keeps_seal_commit z] by simp
  ultimately show ?thesis using numbered_same [of d' d3] by simp
qed

interpretation numbering: commit_invariant numbered
  by unfold_locales (rule fresh_commit_numbered)

section \<open>Failed saves\<close>

text \<open>The fields a transaction works on, all of them put back after a failure.\<close>

definition core :: "session \<Rightarrow> session" where
  "core s = s\<lparr>s_memory := [], s_next_transcript_sequence := 0, s_revision := 0\<rparr>"

interpretation proposal: commit_effects "\<lambda>a b. core (fst b) = core (fst a)"
  by unfold_locales (auto simp: core_def)

text \<open>The proposal itself, but for the fingerprint that is computed on the way.\<close>

definition staged_core :: "session \<Rightarrow> session" where
  "staged_core s = (core s)\<lparr>s_pending_transcript := [], s_pending_commit_fingerprint := None\<rparr>"

lemma staged_core_eq: "core s = core t \<Longrightarrow> staged_core s = staged_core t"
  by (simp add: staged_core_def)

lemma tbind_cases:
  assumes "tbind m f st = (r, st')"
  obtains (fails) e where "m st = (Inl e, st')" "r = Inl e" | (runs) x st1 where "m st = (Inr x, st1)" "f x st1 = (r, st')"
  using assms by (auto simp: tbind_def split: prod.splits sum.splits)

lemma transaction_core:
  assumes "transaction P L c e sid i fingerprint (s, d, n) = (r, s', d', n')" "r \<noteq> Inr Replayed"
  shows "core s' = core s"
proof -
  let ?R = "\<lambda>a b. core (fst b) = core (fst a)"
  have replay: "core s' = core s"
    if "replay_commit P fingerprint rc (s, d, m) = (r, s', d', n')" for rc m
    using that assms(2) unfolding replay_commit_def
    by (auto simp: tbind_def tcheck_def tret_def tfail_def tfetch_def tstmt_def tmodify_def split: option.splits sum.splits prod.splits if_splits)
  have fresh: "core s' = core s"
    if "fresh_commit P L c e command command_id sid i fingerprint (s, d, m) = (r, s', d', n')" for command command_id m
    using tkeepsD [OF proposal.keeps_fresh_commit that] by simp
  show ?thesis
    using assms(1) unfolding transaction_def
    by (auto simp: tbind_def tgets_def tuuid_unwrap_def tret_def tfail_def tfetch_def tselect_def tstmt_def
        split: option.splits dest: replay fresh)
qed

lemma run_transaction_core:
  assumes "run_transaction P (transaction P L c e sid i fingerprint) (s, d, n) = (Inl er, s', d', n')"
  shows "core s' = core s"
proof -
  obtain v s1 d1 n1 where t: "transaction P L c e sid i fingerprint (s, px_others P n d, Suc n) = (v, s1, d1, n1)" by (metis prod_cases4)
  note t' = transaction_core [OF t]
  show ?thesis
    using assms t t' by (auto simp: run_transaction_def commit_written_def commit_known_def Let_def
        split: option.splits sum.splits verdict.splits prod.splits if_splits)
qed

lemma stage_messages_core:
  "stage_messages P ms (s, n) = (ms', s', n') \<Longrightarrow> staged_core s' = staged_core s"
proof (induction ms arbitrary: s n ms')
  case (Cons m ms)
  show ?case
  proof (cases "message_staged m")
    case True
    then show ?thesis using Cons by (auto split: prod.splits)
  next
    case False
    let ?seq = "s_next_transcript_sequence s"
    obtain s1 n1 ms1 where "stage_messages P ms (s1, n1) = (ms1, s', n')" "staged_core s1 = staged_core s"
      using Cons.prems False by (fastforce simp: Let_def staged_core_def core_def split: prod.splits)
    then show ?thesis using Cons.IH by simp
  qed
qed simp

lemma stage_transcript_core: "stage_transcript P (s, n) = (s', n') \<Longrightarrow> staged_core s' = staged_core s"
  by (auto simp: stage_transcript_def staged_core_def core_def split: prod.splits dest!: stage_messages_core)

interpretation staging: kept_relation "\<lambda>a b. staged_core (fst b) = staged_core (fst a)"
  by unfold_locales auto

lemma prepare_commit_core:
  assumes "prepare_commit P L c e (s, d, n) = (r, s', d', n')"
  shows "staged_core s' = staged_core s"
proof -
  let ?R = "\<lambda>a b. staged_core (fst b) = staged_core (fst a)"
  have stage: "tkeeps ?R (\<lambda>(s, d, n). case stage_transcript P (s, n) of (s', n') \<Rightarrow> (Inr (), s', d, n'))"
    by (rule tkeepsI) (auto split: prod.splits dest: stage_transcript_core)
  have "tkeeps ?R (tmodify (\<lambda>s. s\<lparr>s_pending_commit_fingerprint := f\<rparr>))" for f
    by (rule staging.keeps_tmodify) (simp add: staged_core_def core_def)
  then have "tkeeps ?R (prepare_commit P L c e)"
    unfolding prepare_commit_def
    by (intro staging.keeps_tbind stage staging.keeps_tgets) (auto intro!: staging.keeps_basic split: option.split)
  from tkeepsD [OF this assms] show ?thesis by simp
qed

lemma save_inner_core:
  assumes "save_inner P L c e (s, d, n) = (Inl er, s', d', n')"
  shows "staged_core s' = staged_core s"
proof -
  obtain p s1 d1 n1 where p: "prepare_commit P L c e (s, d, n) = (p, s1, d1, n1)" by (metis prod_cases4)
  have s1: "staged_core s1 = staged_core s" by (rule prepare_commit_core [OF p])
  show ?thesis
  proof (cases p)
    case (Inl er')
    then show ?thesis using assms p s1 by (simp add: save_inner_def tbind_def)
  next
    case (Inr y)
    obtain sid i fingerprint where y: "y = (sid, i, fingerprint)" by (metis prod_cases3)
    then have "run_transaction P (transaction P L c e sid i fingerprint) (s1, d1, n1) = (Inl er, s', d', n')"
      using assms p Inr by (simp add: save_inner_def tbind_def)
    from staged_core_eq [OF run_transaction_core [OF this]] s1 show ?thesis by simp
  qed
qed

lemma try_commit_core: "try_commit P L c e staged k (d, n) = (Inl er, s', d', n') \<Longrightarrow> staged_core s' = staged_core staged"
proof (induction k arbitrary: d n)
  case 0
  then show ?case by (simp add: save_inner_core)
next
  case (Suc k)
  obtain r1 s1 d1 n1 where t: "save_inner P L c e (staged, d, n) = (r1, s1, d1, n1)" by (metis prod_cases4)
  then show ?case using Suc by (auto dest: save_inner_core split: sum.splits if_splits)
qed

lemma retained_staged:
  assumes "staged_core p = staged_core staged"
  shows "retained staged p = staged\<lparr>s_pending_commit_fingerprint := s_pending_commit_fingerprint p\<rparr>"
proof -
  have "retained staged p =
    (staged_core p)\<lparr>s_revision := s_revision staged, s_next_transcript_sequence := s_next_transcript_sequence staged,
       s_memory := s_memory staged, s_pending_transcript := s_pending_transcript staged,
       s_pending_execution_outbox := s_pending_execution_outbox staged,
       s_pending_commit_fingerprint := s_pending_commit_fingerprint p\<rparr>"
    by (simp add: retained_def staged_core_def core_def)
  then show ?thesis unfolding assms by (simp add: staged_core_def core_def)
qed

text \<open>What is staged stays staged.\<close>

lemma obj_insert_nonempty: "obj_insert k v kvs \<noteq> []"
  by (cases kvs) (auto split: if_splits)

lemma append_all_counts: "append_all s f ps = Ok s' \<Longrightarrow> s_diagnostic_counts s' = [] \<Longrightarrow> ps = [] \<and> s' = s"
proof (induction ps arbitrary: s)
  case (Cons p ps)
  obtain s1 where s1: "append_diagnostic s f p = Ok s1" "append_all s1 f ps = Ok s'" using Cons.prems(1) by (auto simp: result_simps)
  have "s1 = s'" using Cons.IH [OF s1(2) Cons.prems(2)] by simp
  moreover have "s_diagnostic_counts s1 \<noteq> []"
    using s1(1) by (auto simp: append_diagnostic_def refresh_completeness_def obj_insert_nonempty result_simps split: option.splits)
  ultimately show ?case using Cons.prems(2) by simp
qed simp

definition diagnostics_staged :: "session \<Rightarrow> bool" where
  "diagnostics_staged s \<longleftrightarrow>
     s_diagnostic_counts s \<noteq> []
     \<or> s_compaction_events s = [] \<and> s_compaction_attempts s = [] \<and> s_compaction_decisions s = [] \<and> s_diagnostic_rejections s = 0
       \<and> s_compaction_savings_total s = 0 \<and> s_compaction_savings_known s"

lemma stage_diagnostics_done: "diagnostics_staged s \<Longrightarrow> stage_diagnostics s = Ok s"
  by (auto simp: diagnostics_staged_def stage_diagnostics_def)

lemma stage_diagnostics_staged:
  assumes "stage_diagnostics s = Ok s'"
  shows "diagnostics_staged s'"
proof (cases "s_diagnostic_counts s' = []")
  case True
  have "s_diagnostic_counts s = []"
  proof (rule ccontr)
    assume "s_diagnostic_counts s \<noteq> []"
    then show False using assms True by (simp add: stage_diagnostics_def)
  qed
  then have "s_compaction_events s = [] \<and> s_compaction_attempts s = [] \<and> s_compaction_decisions s = []
    \<and> s' = s\<lparr>s_compaction_events := [], s_compaction_attempts := [], s_compaction_decisions := [],
                    s_diagnostic_rejections := 0, s_compaction_savings_total := 0, s_compaction_savings_known := True\<rparr>"
    using assms True unfolding stage_diagnostics_def Let_def
    by (auto simp: result_simps dest!: append_all_counts)
  then show ?thesis by (auto simp: diagnostics_staged_def)
qed (simp add: diagnostics_staged_def)

lemma diagnostics_staged_core: "staged_core s = staged_core t \<Longrightarrow> diagnostics_staged s = diagnostics_staged t"
proof -
  have "diagnostics_staged s = diagnostics_staged (staged_core s)" for s
    by (simp add: diagnostics_staged_def staged_core_def core_def)
  then show "staged_core s = staged_core t \<Longrightarrow> ?thesis" by metis
qed

lemma stage_messages_all: "stage_messages P ms (s, n) = (ms', s', n') \<Longrightarrow> list_all message_staged ms'"
  by (induction ms arbitrary: s n ms') (auto simp: Let_def message_staged_def split: prod.splits if_splits)

lemma stage_messages_done: "list_all message_staged ms \<Longrightarrow> stage_messages P ms (s, n) = (ms, s, n)"
  by (induction ms) auto

lemma stage_transcript_done: "list_all message_staged (s_memory s) \<Longrightarrow> stage_transcript P (s, n) = (s, n)"
  by (simp add: stage_transcript_def stage_messages_done)

lemma stage_summaries_core:
  "stage_summaries P ps (s, n) = (s', n') \<Longrightarrow> s_memory s' = s_memory s \<and> staged_core s' = staged_core s"
proof (induction ps arbitrary: s n)
  case (Cons p ps)
  obtain s1 n1 where "stage_summaries P ps (s1, n1) = (s', n')" "s_memory s1 = s_memory s \<and> staged_core s1 = staged_core s"
    using Cons.prems by (auto simp: summary_entry_def staged_core_def core_def split: option.splits if_splits)
  then show ?case using Cons.IH by simp
qed simp

lemma archive_record_core: "s_memory (archive_record u now k p s) = s_memory s \<and> staged_core (archive_record u now k p s) = staged_core s"
  by (simp add: archive_record_def staged_core_def core_def)

lemma stage_commit_staged:
  assumes "stage_commit P e (s, n) = (s', n')"
  shows "s_memory s' = s_memory s \<and> diagnostics_staged s' = diagnostics_staged s \<and> s_pending_commit_id s' \<noteq> None"
proof (cases "s_pending_commit_id s")
  case None
  obtain s1 n1 where s1: "stage_summaries P (s_compaction_provenance s) (s, n) = (s1, n1)" by fastforce
  obtain t i where t: "s' = t\<lparr>s_pending_commit_id := Some i\<rparr>" "t = s1 \<or> (\<exists>u now k p. t = archive_record u now k p s1)"
  proof (cases "transcript_event_record e s1")
    case (Some kp)
    let ?t = "archive_record (px_uuid P n1) (px_stamp P (Suc n1)) (fst kp) (snd kp) s1"
    have "s' = ?t\<lparr>s_pending_commit_id := Some (px_uuid P (Suc (Suc n1)))\<rparr>"
      using Some assms None s1 by (auto simp: stage_commit_def split: prod.splits)
    then show ?thesis using that by blast
  qed (use assms None s1 that [OF _ disjI1] in \<open>auto simp: stage_commit_def\<close>)
  have core: "s_memory t = s_memory s \<and> staged_core t = staged_core s"
    using t(2) stage_summaries_core [OF s1] archive_record_core [of _ _ _ _ s1] by fastforce
  have "diagnostics_staged s' = diagnostics_staged t" unfolding t(1) by (simp add: diagnostics_staged_def)
  then show ?thesis using core diagnostics_staged_core [of t s] t(1) by simp
qed (use assms in \<open>auto simp: stage_commit_def\<close>)

lemma stage_save_staged:
  assumes "stage_save P e (s, n) = Inr (staged, n')"
  shows "list_all message_staged (s_memory staged) \<and> diagnostics_staged staged \<and> s_pending_commit_id staged \<noteq> None"
proof -
  obtain s1 s2 n2 where st: "stage_diagnostics s = Ok s1" "stage_transcript P (s1, n) = (s2, n2)" "stage_commit P e (s2, n2) = (staged, n')"
    using assms by (cases "stage_diagnostics s") (auto simp: stage_save_def, metis surj_pair)
  have "list_all message_staged (s_memory s2)"
    using st(2) by (auto simp: stage_transcript_def split: prod.splits dest: stage_messages_all)
  moreover have "diagnostics_staged s2"
    using stage_diagnostics_staged [OF st(1)] diagnostics_staged_core [OF stage_transcript_core [OF st(2)]] by simp
  ultimately show ?thesis using stage_commit_staged [OF st(3)] by simp
qed

lemma stage_save_done:
  "list_all message_staged (s_memory s) \<Longrightarrow> diagnostics_staged s \<Longrightarrow> s_pending_commit_id s \<noteq> None \<Longrightarrow> stage_save P e (s, n) = Inr (s, n)"
  by (simp add: stage_save_def stage_diagnostics_done stage_transcript_done stage_commit_def)

text \<open>A failed save leaves the staged session, and staging it again adds nothing.\<close>

lemma save_failed:
  assumes "save P L c e (s, d, n) = (Inl er, s', d', n')" "stage_save P e (s, n) = Inr (staged, n1)"
  shows "(\<exists>f. s' = staged\<lparr>s_pending_commit_fingerprint := f\<rparr>) \<and> stage_save P e2 (s', k) = Inr (s', k)"
proof -
  have "\<exists>f. s' = staged\<lparr>s_pending_commit_fingerprint := f\<rparr>"
  proof (cases "s_needs_reload staged")
    case True
    then have "s' = staged\<lparr>s_pending_commit_fingerprint := s_pending_commit_fingerprint staged\<rparr>"
      using assms by (simp add: save_def)
    then show ?thesis ..
  next
    case False
    obtain r1 s1 d1 n2 where t: "try_commit P L c e staged 2 (d, n1) = (r1, s1, d1, n2)" by (metis prod_cases4)
    then obtain er' where "r1 = Inl er'" "s' = retained staged s1"
      using assms False by (auto simp: save_def split: sum.splits)
    then show ?thesis using retained_staged [OF try_commit_core] t by blast
  qed
  then obtain f where f: "s' = staged\<lparr>s_pending_commit_fingerprint := f\<rparr>" by blast
  have "stage_save P e2 (s', k) = Inr (s', k)"
    using stage_save_staged [OF assms(2)] unfolding f by (intro stage_save_done) (simp_all add: diagnostics_staged_def)
  then show ?thesis using f by blast
qed

section \<open>Authority\<close>

text \<open>What \<open>written\<close> says of the session does not depend on the staging.\<close>

lemma written_core:
  assumes "staged_core s = staged_core t" "s_revision s = s_revision t"
  shows "written P c i f s d s' d' = written P c i f t d s' d'"
proof -
  have "written P c i f s d s' d' = written P c i f ((staged_core s)\<lparr>s_revision := s_revision s\<rparr>) d s' d'" for s
    by (simp add: written_def commit_current_def anchor_same_def lease_good_def staged_core_def core_def)
  then show ?thesis using assms by metis
qed

lemma save_inner_written:
  assumes run: "save_inner P L c e (s, d, n) = (r, s', d', n')"
    and ok: "\<And>n d. linked d \<Longrightarrow> linked (px_others P n d)" "linked d"
  shows "d' = d \<or> (\<exists>m. d' = px_others P m d
    \<or> (\<exists>x i f s2. s_pending_commit_id s = Some x \<and> px_parse_uuid P x = Some i \<and> written P c i f s (px_others P m d) s2 d'))"
proof -
  obtain p s1 d1 n1 where p: "prepare_commit P L c e (s, d, n) = (p, s1, d1, n1)" by (metis prod_cases4)
  show ?thesis
  proof (cases p)
    case (Inl er)
    then show ?thesis using run p prepare_commit_tables [OF p] by (auto simp: save_inner_def tbind_def)
  next
    case (Inr y)
    obtain sid i fingerprint where y: "y = (sid, i, fingerprint)" by (metis prod_cases3)
    note p' = prepare_commit_Inr [OF p [unfolded Inr y]]
    have t: "run_transaction P (transaction P L c e sid i fingerprint) (s1, d, n1) = (r, s', d', n')"
      using run p Inr y p' by (simp add: save_inner_def tbind_def)
    have "s_revision s1 = s_revision s" using p' by (simp add: same_proposal_def)
    note core = written_core [OF prepare_commit_core [OF p] this]
    show ?thesis
      using run_transaction_effect [OF t ok(1) [OF ok(2)]] p' unfolding core by blast
  qed
qed

end
