(* ===== verification/Pages.thy ===== *)
theory Pages
  imports Loading Save_Proofs
begin

text \<open>
  Reading a table page by page.  \<open>cursor_pages\<close> is the interface of the paged routes: a page holds the
  first rows behind its cursor, and its next cursor is the key of its last row.  A client that
  follows the cursors then sees every row exactly once and in order, also when the table grows
  between its requests.
\<close>

section \<open>Following cursors\<close>

text \<open>The client asks for one page per state of the tables and stops at the first empty one.\<close>

fun read_pages :: "('d \<Rightarrow> int \<Rightarrow> 'e list \<times> int) \<Rightarrow> 'd list \<Rightarrow> int \<Rightarrow> 'e list" where
  "read_pages fetch [] after = []"
| "read_pages fetch (d # ds) after =
     (case fetch d after of (es, cursor) \<Rightarrow> if es = [] then [] else es @ read_pages fetch ds cursor)"

locale cursor_pages =
  fixes fetch :: "'d \<Rightarrow> int \<Rightarrow> 'e list \<times> int" and rows :: "'d \<Rightarrow> 'a list" and key :: "'a \<Rightarrow> int"
    and render :: "'a \<Rightarrow> 'e" and size :: nat and greatest :: int and good :: "'d \<Rightarrow> bool"
  assumes ordered: "good d \<Longrightarrow> sorted_wrt (<) (map key (rows d))"
    and keys_bounded: "good d \<Longrightarrow> r \<in> set (rows d) \<Longrightarrow> key r \<le> greatest"
    and fetched: "good d \<Longrightarrow> 0 \<le> after \<Longrightarrow> after \<le> greatest \<Longrightarrow>
      fetch d after = (let shown = take size (filter (\<lambda>r. after < key r) (rows d)) in (map render shown, next_after key after shown))"
    and nonempty: "0 < size"
begin

lemma behind_cursor:
  assumes "sorted_wrt (<) (map key rs)" "rs \<noteq> []"
  shows "filter (\<lambda>r. next_after key after (take size rs) < key r) rs = drop size rs"
proof -
  let ?shown = "take size rs"
  have shown: "?shown \<noteq> []" using assms(2) nonempty by simp
  have "sorted_wrt (<) (map key ?shown @ map key (drop size rs))" using assms(1) by (simp flip: map_append)
  then have s: "sorted_wrt (<) (map key ?shown)" and before: "\<forall>x\<in>set ?shown. \<forall>y\<in>set (drop size rs). key x < key y"
    by (auto simp only: sorted_wrt_append list.set_map ball_simps)
  have last: "next_after key after ?shown = key (last ?shown)" using shown by (simp add: next_after_def)
  have "key x \<le> key (last ?shown)" if "x \<in> set ?shown" for x
    using strict_sorted_last [OF s] that shown by (simp add: last_map)
  then have "filter (\<lambda>r. key (last ?shown) < key r) ?shown = []" by (auto simp: filter_empty_conv not_less)
  moreover have "filter (\<lambda>r. key (last ?shown) < key r) (drop size rs) = drop size rs"
    using before last_in_set [OF shown] by (auto simp: filter_id_conv)
  ultimately show ?thesis unfolding last by (metis append_Nil append_take_drop_id filter_append)
qed

lemma filter_behind:
  assumes "after \<le> cursor"
  shows "filter (\<lambda>r. cursor < key r) (filter (\<lambda>r. after < key r) rs) = filter (\<lambda>r. cursor < key r) rs"
  using assms by (auto simp: filter_filter intro!: filter_cong)

lemma read_all:
  assumes "\<forall>d\<in>set ds. good d \<and> rows d = rs" "length (filter (\<lambda>r. after < key r) rs) \<le> length ds" "0 \<le> after" "after \<le> greatest"
  shows "read_pages fetch ds after = map render (filter (\<lambda>r. after < key r) rs)"
  using assms
proof (induction ds arbitrary: after)
  case (Cons d ds)
  let ?left = "filter (\<lambda>r. after < key r) rs"
  let ?cursor = "next_after key after (take size ?left)"
  have d: "good d" "rows d = rs" using Cons.prems(1) by simp_all
  have f: "fetch d after = (map render (take size ?left), ?cursor)"
    using fetched [OF d(1) Cons.prems(3,4)] by (simp add: d(2) Let_def)
  show ?case
  proof (cases "?left = []")
    case True
    then show ?thesis by (simp add: f)
  next
    case False
    have s: "sorted_wrt (<) (map key ?left)"
      using ordered [OF d(1)] d(2) by (simp add: sorted_wrt_map sorted_wrt_filter)
    have shown: "take size ?left \<noteq> []" using False nonempty by simp
    then have "last (take size ?left) \<in> set ?left" using in_set_takeD [OF last_in_set] by blast
    then have c: "after < ?cursor" "?cursor \<le> greatest" using shown keys_bounded [OF d(1)] d(2) by (auto simp: next_after_def)
    have rest: "filter (\<lambda>r. ?cursor < key r) rs = drop size ?left"
      using behind_cursor [OF s False] filter_behind [of after ?cursor rs] c by simp
    have "length (drop size ?left) \<le> length ds" using Cons.prems(2) nonempty False by simp
    then have "read_pages fetch ds ?cursor = map render (drop size ?left)"
      using Cons.IH [of ?cursor] Cons.prems(1,3) c by (simp add: rest)
    then show ?thesis using shown by (simp add: f flip: map_append)
  qed
qed simp

end

lemma page_is_prefix:
  "page key after through k rows = take k (filter (\<lambda>r. after < key r) (sort_key key (filter (\<lambda>r. key r \<le> through) rows)))"
  by (simp add: page_def filter_sort filter_filter conj_commute)

lemma sorted_distinct_keys: "distinct (map key rows) \<Longrightarrow> sorted_wrt (<) (map key (sort_key key (filter p rows)))"
  for key :: "'a \<Rightarrow> int"
  by (auto simp: strict_sorted_iff distinct_map intro: inj_on_subset)

section \<open>The paged routes\<close>

text \<open>What a client reads in a reply: the entries and the cursor of the next request.\<close>

definition reply_page :: "string \<Rightarrow> reply \<Rightarrow> json list \<times> int" where
  "reply_page cursor r =
     (case rp_body r of
        Json_Body b \<Rightarrow> (unwrap_or [] (as_array (idx b ''entries'')), unwrap_or 0 (as_i64 (idx b cursor)))
      | _ \<Rightarrow> ([], 0))"

definition upto_key :: "('a \<Rightarrow> int) \<Rightarrow> int \<Rightarrow> 'a list \<Rightarrow> 'a list" where
  "upto_key key through rows = sort_key key (filter (\<lambda>r. key r \<le> through) rows)"

definition transcript_page :: "session \<Rightarrow> int \<Rightarrow> nat \<Rightarrow> store \<Rightarrow> int \<Rightarrow> json list \<times> int" where
  "transcript_page s through k d after = reply_page ''next_after_sequence'' (transcript_reply s after through k d)"

definition events_page :: "string \<Rightarrow> int \<Rightarrow> nat \<Rightarrow> store \<Rightarrow> int \<Rightarrow> json list \<times> int" where
  "events_page i through k d after = reply_page ''next_after'' (events_reply i after through k d)"

lemma next_after_range:
  assumes "0 \<le> after" "after \<le> i64_max" "through \<le> i64_max"
  shows "0 \<le> next_after key after (page key after through k rows) \<and> next_after key after (page key after through k rows) \<le> i64_max"
proof -
  let ?p = "page key after through k rows"
  have "after < key x \<and> key x \<le> through" if "x \<in> set ?p" for x using in_set_takeD [OF that [unfolded page_def]] by simp
  from this [OF last_in_set] show ?thesis using assms by (force simp: next_after_def)
qed

lemma as_i64_json_int: "i64_min \<le> x \<Longrightarrow> x \<le> i64_max \<Longrightarrow> as_i64 (json_int x) = Some x"
  by (auto simp: json_int_def)

lemma transcript_page_rows:
  assumes "0 \<le> after" "after \<le> i64_max" "through \<le> i64_max"
  shows "transcript_page s through k d after =
    (let shown = take k (filter (\<lambda>r. after < tr_sequence r) (upto_key tr_sequence through (st_transcript d)))
     in (map transcript_json shown, next_after tr_sequence after shown))"
  using next_after_range [OF assms, of tr_sequence k "st_transcript d"]
  by (simp add: transcript_page_def transcript_reply_def reply_page_def json_reply_def Let_def idx_def as_i64_json_int i64_min_def
      upto_key_def flip: page_is_prefix)

lemma events_page_rows:
  assumes "0 \<le> after" "after \<le> i64_max" "through \<le> i64_max"
  shows "events_page i through k d after =
    (let shown = take k (filter (\<lambda>r. after < eo_event_id r) (upto_key eo_event_id through (st_events d)))
     in (map event_entry shown, next_after eo_event_id after shown))"
  using next_after_range [OF assms, of eo_event_id k "st_events d"]
  by (simp add: events_page_def events_reply_def reply_page_def json_reply_def Let_def idx_def as_i64_json_int i64_min_def
      upto_key_def flip: page_is_prefix)

interpretation transcript_pages: cursor_pages "transcript_page s through (Suc k)" "\<lambda>d. upto_key tr_sequence through (st_transcript d)"
  tr_sequence transcript_json "Suc k" i64_max "\<lambda>d. distinct (map tr_sequence (st_transcript d)) \<and> through \<le> i64_max"
  for s through k
  by unfold_locales (auto simp: transcript_page_rows upto_key_def sorted_distinct_keys)

interpretation event_pages: cursor_pages "events_page i through (Suc k)" "\<lambda>d. upto_key eo_event_id through (st_events d)"
  eo_event_id event_entry "Suc k" i64_max "\<lambda>d. distinct (map eo_event_id (st_events d)) \<and> through \<le> i64_max"
  for i through k
  by unfold_locales (auto simp: events_page_rows upto_key_def sorted_distinct_keys)

section \<open>The transcript while it grows\<close>

lemma numbered_distinct: "numbered d \<Longrightarrow> distinct (map tr_sequence (st_transcript d))"
  unfolding numbered_def by (simp only: distinct_map distinct_upt inj_on_of_nat)

lemma numbered_nth: "numbered d \<Longrightarrow> i < length (st_transcript d) \<Longrightarrow> tr_sequence (st_transcript d ! i) = int (Suc i)"
proof -
  assume n: "numbered d" "i < length (st_transcript d)"
  from n(1) have "map tr_sequence (st_transcript d) ! i = map int [1..<Suc (length (st_transcript d))] ! i"
    by (simp only: numbered_def)
  then show ?thesis using n(2) by (simp add: nth_map del: upt_Suc)
qed

lemma counted_split:
  assumes "\<And>i. i < length rows \<Longrightarrow> tr_sequence (rows ! i) = int (Suc i)"
  shows "filter (\<lambda>r. tr_sequence r \<le> k) rows = take (nat k) rows"
    "0 \<le> k \<Longrightarrow> filter (\<lambda>r. k < tr_sequence r) rows = drop (nat k) rows"
proof -
  have low: "tr_sequence r \<le> k" if "r \<in> set (take (nat k) rows)" for r
    using that assms by (auto simp: in_set_conv_nth)
  have high: "k < tr_sequence r" if "r \<in> set (drop (nat k) rows)" for r
    using that assms by (auto simp: in_set_conv_nth split: if_splits)
  have rows: "rows = take (nat k) rows @ drop (nat k) rows" by simp
  show "filter (\<lambda>r. tr_sequence r \<le> k) rows = take (nat k) rows"
    by (subst rows, unfold filter_append) (use low high in \<open>force simp: filter_id_conv filter_empty_conv\<close>)
  show "filter (\<lambda>r. k < tr_sequence r) rows = drop (nat k) rows"
    by (subst rows, unfold filter_append) (use low high in \<open>force simp: filter_id_conv filter_empty_conv\<close>)
qed

lemma numbered_sorted: "numbered d \<Longrightarrow> sorted (map tr_sequence (take k (st_transcript d)))"
  unfolding sorted_iff_nth_mono by (auto simp: numbered_nth)

lemma numbered_upto: "numbered d \<Longrightarrow> upto_key tr_sequence through (st_transcript d) = take (nat through) (st_transcript d)"
  by (simp add: upto_key_def counted_split(1) [OF numbered_nth] sort_key_id_if_sorted numbered_sorted)

lemma read_growing_transcript:
  assumes "\<forall>d\<in>set ds. numbered d \<and> append_only d0 d" "nat through \<le> length (st_transcript d0)" "nat through \<le> length ds"
    and "0 \<le> after" "after \<le> i64_max" "through \<le> i64_max"
  shows "read_pages (transcript_page s through (Suc k)) ds after = map transcript_json (drop (nat after) (take (nat through) (st_transcript d0)))"
proof (cases "ds = []")
  case True
  then show ?thesis using assms(3) by simp
next
  case False
  let ?rs = "take (nat through) (st_transcript d0)"
  have rows: "upto_key tr_sequence through (st_transcript d) = ?rs" "take (nat through) (st_transcript d) = ?rs" if "d \<in> set ds" for d
    using that assms(1,2) by (auto simp: numbered_upto append_only_def prefix_def)
  from False obtain d where d: "d \<in> set ds" by (metis last_in_set)
  then have num: "numbered d" using assms(1) by blast
  have n: "tr_sequence (?rs ! i) = int (Suc i)" if "i < length ?rs" for i
    using that by (simp add: numbered_nth [OF num] flip: rows(2) [OF d])
  have "read_pages (transcript_page s through (Suc k)) ds after = map transcript_json (filter (\<lambda>r. after < tr_sequence r) ?rs)"
  proof (rule transcript_pages.read_all)
    show "length (filter (\<lambda>r. after < tr_sequence r) ?rs) \<le> length ds"
      by (rule order_trans [OF length_filter_le]) (use assms(3) in simp)
  qed (use assms rows numbered_distinct in auto)
  then show ?thesis by (simp only: counted_split(2) [OF n assms(4)])
qed

end
