(* ===== verification/Effects.thy ===== *)
theory Effects
  imports Diagnostics
begin

text \<open>
  The effects of the engine.  An operation maps a session and the state \<open>'w\<close> of the outside
  world to a result, a session and a world; the session is kept on errors, as the source
  mutates it in place.  What the outside does is given by an \<open>env\<close>: random identifiers, the
  clock, the checkpoint callback \<open>emit\<close> with the acknowledgement it leaves behind, HTTP, tool
  execution and the database statements issued by the engine.
\<close>

section \<open>The environment\<close>

datatype http_outcome =
    Send_Failed bool nat
  | Body_Failed nat bool nat
  | Response nat string nat

text \<open>
  \<open>Send_Failed timeout ms\<close>, \<open>Body_Failed status timeout ms\<close> and \<open>Response status body ms\<close>.
  \<open>env_commit\<close> returns the error of a \<open>COMMIT\<close>, if any, and whether it took effect.
\<close>

type_synonym receipts = "string \<times> string \<Rightarrow> (string \<times> json) option"

record 'w env =
  env_uuid :: "'w \<Rightarrow> string \<times> 'w"
  env_now :: "'w \<Rightarrow> string \<times> 'w"
  env_emit :: "json \<Rightarrow> session \<Rightarrow> 'w \<Rightarrow> (unit result \<times> checkpoint_ack option) \<times> 'w"
  env_post :: "string \<Rightarrow> json \<Rightarrow> 'w \<Rightarrow> http_outcome \<times> 'w"
  env_tool :: "string \<Rightarrow> (string \<times> json) list \<Rightarrow> 'w \<Rightarrow> string \<times> 'w"
  env_known_calls :: "string \<Rightarrow> string list \<Rightarrow> 'w \<Rightarrow> string list result \<times> 'w"
  env_receipts :: "'w \<Rightarrow> receipts"
  env_set_receipts :: "receipts \<Rightarrow> 'w \<Rightarrow> 'w"
  env_statement :: "'w \<Rightarrow> string option \<times> 'w"
  env_commit :: "'w \<Rightarrow> (string option \<times> bool) \<times> 'w"

section \<open>Operations\<close>

type_synonym ('w, 'a) eng = "session \<times> 'w \<Rightarrow> 'a result \<times> session \<times> 'w"

definition ret :: "'a \<Rightarrow> ('w, 'a) eng" where
  "ret x = (\<lambda>(s, w). (Ok x, s, w))"

definition fail :: "string \<Rightarrow> ('w, 'a) eng" where
  "fail e = (\<lambda>(s, w). (Err e, s, w))"

definition ebind :: "('w, 'a) eng \<Rightarrow> ('a \<Rightarrow> ('w, 'b) eng) \<Rightarrow> ('w, 'b) eng" where
  "ebind m f = (\<lambda>sw. case m sw of (Inl e, sw') \<Rightarrow> (Err e, sw') | (Inr x, sw') \<Rightarrow> f x sw')"

definition lift :: "'a result \<Rightarrow> ('w, 'a) eng" where
  "lift r = (\<lambda>(s, w). (r, s, w))"

definition gets :: "(session \<Rightarrow> 'a) \<Rightarrow> ('w, 'a) eng" where
  "gets f = (\<lambda>(s, w). (Ok (f s), s, w))"

definition modify :: "(session \<Rightarrow> session) \<Rightarrow> ('w, unit) eng" where
  "modify f = (\<lambda>(s, w). (Ok (), f s, w))"

definition ask :: "('w \<Rightarrow> 'a \<times> 'w) \<Rightarrow> ('w, 'a) eng" where
  "ask f = (\<lambda>(s, w). case f w of (x, w') \<Rightarrow> (Ok x, s, w'))"

text \<open>A fallible update of the session alone, and a conditional step.\<close>

definition update :: "(session \<Rightarrow> session result) \<Rightarrow> ('w, unit) eng" where
  "update f = (\<lambda>(s, w). case f s of Inl e \<Rightarrow> (Err e, s, w) | Inr s' \<Rightarrow> (Ok (), s', w))"

definition ewhen :: "bool \<Rightarrow> ('w, unit) eng \<Rightarrow> ('w, unit) eng" where
  "ewhen b m = (if b then m else ret ())"

fun efor :: "'a list \<Rightarrow> ('a \<Rightarrow> ('w, unit) eng) \<Rightarrow> ('w, unit) eng" where
  "efor [] f = ret ()"
| "efor (x # xs) f = ebind (f x) (\<lambda>_. efor xs f)"

text \<open>
  A loop \<open>while cond { body }\<close> that carries a value.  The first argument bounds the number of
  iterations; \<open>bounded_loop\<close> below shows which bounds are never reached.
\<close>

definition loop_bound :: string where "loop_bound = ''loop bound reached''"

fun ewhile :: "nat \<Rightarrow> ('a \<Rightarrow> session \<Rightarrow> bool) \<Rightarrow> ('a \<Rightarrow> ('w, 'a) eng) \<Rightarrow> 'a \<Rightarrow> ('w, 'a) eng" where
  "ewhile 0 c body a = ebind (gets (c a)) (\<lambda>go. if go then fail loop_bound else ret a)"
| "ewhile (Suc n) c body a =
     ebind (gets (c a)) (\<lambda>go. if go then ebind (body a) (ewhile n c body) else ret a)"

text \<open>Observe the outcome of an operation instead of propagating its error.\<close>

definition outcome :: "('w, 'a) eng \<Rightarrow> ('w, 'a result) eng" where
  "outcome m = (\<lambda>sw. case m sw of (r, sw') \<Rightarrow> (Ok r, sw'))"

section \<open>Identities and checkpoints\<close>

definition append_msg :: "'w env \<Rightarrow> message \<Rightarrow> ('w, unit) eng" where
  "append_msg E m =
     ebind (ask (env_uuid E)) (\<lambda>u. ebind (ask (env_now E)) (\<lambda>now. modify (append_message u now m)))"

definition archive :: "'w env \<Rightarrow> string \<Rightarrow> json \<Rightarrow> ('w, unit) eng" where
  "archive E kind payload =
     ebind (ask (env_uuid E)) (\<lambda>u. ebind (ask (env_now E)) (\<lambda>now. modify (archive_record u now kind payload)))"

definition record_diag :: "string \<Rightarrow> json \<Rightarrow> ('w, unit) eng" where
  "record_diag family payload = update (\<lambda>s. record_diagnostic s family payload)"

text \<open>The part of \<open>checkpoint\<close> that closes a run whose session is no longer active.\<close>

definition close_status :: "session \<Rightarrow> session" where
  "close_status s =
     (if s_run_status s = ''running''
      then s\<lparr>s_run_status := (if s_status s = ''complete'' then ''complete'' else ''failed'')\<rparr> else s)"

definition close_ended :: "string \<Rightarrow> session \<Rightarrow> session" where
  "close_ended now s = (if s_run_ended_at s = None then s\<lparr>s_run_ended_at := Some now\<rparr> else s)"

definition close_reason :: "session \<Rightarrow> session" where
  "close_reason s =
     (if s_run_termination_reason s = None
      then s\<lparr>s_run_termination_reason :=
               Some (unwrap_or (s_run_status s) (Option.bind (s_last_error s) (\<lambda>e. as_str (idx e ''code''))))\<rparr>
      else s)"

definition close_run :: "'w env \<Rightarrow> ('w, unit) eng" where
  "close_run E =
     ebind (gets (\<lambda>s. s_status s \<noteq> ''active''))
       (\<lambda>over. ewhen over
          (ebind (modify close_status)
             (\<lambda>_. ebind (gets (\<lambda>s. s_run_ended_at s = None))
                (\<lambda>open_end. ebind (ewhen open_end (ebind (ask (env_now E)) (\<lambda>now. modify (close_ended now))))
                   (\<lambda>_. modify close_reason)))))"

definition reload_error :: string where
  "reload_error = ''historical commit receipt requires reload''"

text \<open>\<open>emit(event, state.clone()).await?\<close> followed by reading the shared acknowledgement cell.\<close>

definition emit :: "'w env \<Rightarrow> json \<Rightarrow> ('w, unit) eng" where
  "emit E event =
     (\<lambda>(s, w). case env_emit E event s w of
        ((r, ack), w') \<Rightarrow>
          (r, s\<lparr>s_checkpoint_ack := (if s_checkpoint_ack s = None then None else ack)\<rparr>, w'))"

definition acknowledge :: "('w, unit) eng" where
  "acknowledge =
     ebind (modify acknowledge_checkpoint)
       (\<lambda>_. ebind (gets s_needs_reload)
          (\<lambda>reload. if reload then fail reload_error else modify clear_outboxes))"

definition checkpoint :: "'w env \<Rightarrow> json \<Rightarrow> ('w, unit) eng" where
  "checkpoint E event =
     ebind (close_run E)
       (\<lambda>_. ebind (update stage_diagnostics)
          (\<lambda>_. ebind (emit E event) (\<lambda>_. acknowledge)))"

section \<open>Unfolding and frame rules\<close>

named_theorems eng_simps \<open>evaluation of engine operations\<close>

lemma eng_basic [eng_simps]:
  "ret x (s, w) = (Ok x, s, w)" "fail e (s, w) = (Err e, s, w)" "lift r (s, w) = (r, s, w)"
  "gets f (s, w) = (Ok (f s), s, w)" "modify g (s, w) = (Ok (), g s, w)"
  "ask h (s, w) = (Ok (fst (h w)), s, snd (h w))"
  "update u (s, w) = (case u s of Inl e \<Rightarrow> (Err e, s, w) | Inr s' \<Rightarrow> (Ok (), s', w))"
  by (simp_all add: ret_def fail_def lift_def gets_def modify_def ask_def update_def split: prod.splits)

lemma ebind_ret [simp]: "ebind (ret x) f = f x"
  by (auto simp: ebind_def ret_def fun_eq_iff)

lemma ebind_Ok:
  "ebind m f sw = (Inr y, sw') \<longleftrightarrow> (\<exists>x sw1. m sw = (Inr x, sw1) \<and> f x sw1 = (Inr y, sw'))"
  by (auto simp: ebind_def split: prod.splits sum.splits)

lemma ebind_run:
  "m sw = (Inr x, sw1) \<Longrightarrow> ebind m f sw = f x sw1"
  "m sw = (Inl e, sw1) \<Longrightarrow> ebind m f sw = (Inl e, sw1)"
  by (simp_all add: ebind_def)

text \<open>
  \<open>keeps I m\<close>: the operation preserves a relation between the initial session and world and
  the current ones, whether it succeeds or fails.
\<close>

definition keeps :: "(session \<Rightarrow> 'w \<Rightarrow> bool) \<Rightarrow> ('w, 'a) eng \<Rightarrow> bool" where
  "keeps I m \<longleftrightarrow> (\<forall>s w r s' w'. I s w \<longrightarrow> m (s, w) = (r, s', w') \<longrightarrow> I s' w')"

lemma keeps_ebind [intro]:
  assumes "keeps I m" "\<And>x. keeps I (f x)"
  shows "keeps I (ebind m f)"
  unfolding keeps_def
proof (intro allI impI)
  fix s w r s' w'
  assume I: "I s w" and run: "ebind m f (s, w) = (r, s', w')"
  obtain a t v where m: "m (s, w) = (a, t, v)" by (cases "m (s, w)") auto
  then have "I t v" using assms(1) I by (auto simp: keeps_def)
  with run m assms(2) show "I s' w'" by (cases a) (auto simp: ebind_def keeps_def)
qed

lemma keeps_pure [intro, simp]:
  "keeps I (ret x)" "keeps I (fail e)" "keeps I (lift r)" "keeps I (gets f)"
  by (auto simp: keeps_def eng_simps)

lemma keeps_modify: "(\<And>s w. I s w \<Longrightarrow> I (f s) w) \<Longrightarrow> keeps I (modify f)"
  by (auto simp: keeps_def eng_simps)

lemma keeps_ask: "(\<And>s w. I s w \<Longrightarrow> I s (snd (f w))) \<Longrightarrow> keeps I (ask f)"
  by (auto simp: keeps_def eng_simps)

lemma keeps_update: "(\<And>s w s'. I s w \<Longrightarrow> f s = Ok s' \<Longrightarrow> I s' w) \<Longrightarrow> keeps I (update f)"
  by (auto simp: keeps_def eng_simps split: sum.splits)

lemma keeps_ewhen [intro]: "(b \<Longrightarrow> keeps I m) \<Longrightarrow> keeps I (ewhen b m)"
  by (simp add: ewhen_def)

lemma keeps_efor [intro]: "(\<And>x. keeps I (f x)) \<Longrightarrow> keeps I (efor xs f)"
  by (induction xs) auto

lemma keeps_if [intro]: "(b \<Longrightarrow> keeps I m) \<Longrightarrow> (\<not> b \<Longrightarrow> keeps I n) \<Longrightarrow> keeps I (if b then m else n)"
  by simp

text \<open>\<open>yields Q m R\<close>: from a session satisfying \<open>Q\<close>, a successful run ends in one satisfying \<open>R\<close>.\<close>

definition yields :: "(session \<Rightarrow> bool) \<Rightarrow> ('w, 'a) eng \<Rightarrow> ('a \<Rightarrow> session \<Rightarrow> bool) \<Rightarrow> bool" where
  "yields Q m R \<longleftrightarrow> (\<forall>s w x s' w'. Q s \<longrightarrow> m (s, w) = (Inr x, s', w') \<longrightarrow> R x s')"

lemma yieldsD: "yields Q m R \<Longrightarrow> Q s \<Longrightarrow> m (s, w) = (Inr x, s', w') \<Longrightarrow> R x s'"
  unfolding yields_def by blast

lemma yields_ebind:
  "yields Q m R \<Longrightarrow> (\<And>x. yields (R x) (f x) S) \<Longrightarrow> yields Q (ebind m f) S"
  by (fastforce simp: yields_def ebind_Ok)

lemma yields_keeps: "keeps (\<lambda>s w. Q s) m \<Longrightarrow> yields Q m (\<lambda>_. Q)"
  by (auto simp: yields_def keeps_def)

lemma yields_ret: "(\<And>s. Q s \<Longrightarrow> R x s) \<Longrightarrow> yields Q (ret x) R"
  by (simp add: yields_def eng_simps)

lemma yields_fail [simp]: "yields Q (fail e) R"
  by (simp add: yields_def eng_simps)

lemma yields_modify: "(\<And>s. Q s \<Longrightarrow> R () (f s)) \<Longrightarrow> yields Q (modify f) R"
  by (simp add: yields_def eng_simps)

lemma yields_gets: "(\<And>s. Q s \<Longrightarrow> R (f s) s) \<Longrightarrow> yields Q (gets f) R"
  by (simp add: yields_def eng_simps)

lemma yields_ask: "(\<And>s x. Q s \<Longrightarrow> R x s) \<Longrightarrow> yields Q (ask f) R"
  by (simp add: yields_def eng_simps)

lemma yields_lift: "(\<And>x s. Q s \<Longrightarrow> r = Inr x \<Longrightarrow> R x s) \<Longrightarrow> yields Q (lift r) R"
  by (simp add: yields_def eng_simps)

lemma yields_if: "(b \<Longrightarrow> yields Q m R) \<Longrightarrow> (\<not> b \<Longrightarrow> yields Q n R) \<Longrightarrow> yields Q (if b then m else n) R"
  by simp

lemma yields_weaken: "yields Q m R \<Longrightarrow> (\<And>s. Q' s \<Longrightarrow> Q s) \<Longrightarrow> (\<And>x s. R x s \<Longrightarrow> R' x s) \<Longrightarrow> yields Q' m R'"
  by (auto simp: yields_def) blast

section \<open>Triples\<close>

text \<open>
  \<open>triple Q m R F\<close>: from a session satisfying \<open>Q\<close>, a successful run ends in one satisfying
  \<open>R\<close> of its result and a failing run in one satisfying \<open>F\<close>.
\<close>

definition triple ::
  "(session \<Rightarrow> bool) \<Rightarrow> ('w, 'a) eng \<Rightarrow> ('a \<Rightarrow> session \<Rightarrow> bool) \<Rightarrow> (session \<Rightarrow> bool) \<Rightarrow> bool" where
  "triple Q m R F \<longleftrightarrow>
     (\<forall>s w r s' w'. Q s \<longrightarrow> m (s, w) = (r, s', w') \<longrightarrow> (case r of Inl _ \<Rightarrow> F s' | Inr x \<Rightarrow> R x s'))"

lemma tripleI:
  "(\<And>s w x s' w'. Q s \<Longrightarrow> m (s, w) = (Inr x, s', w') \<Longrightarrow> R x s')
   \<Longrightarrow> (\<And>s w e s' w'. Q s \<Longrightarrow> m (s, w) = (Inl e, s', w') \<Longrightarrow> F s') \<Longrightarrow> triple Q m R F"
  unfolding triple_def by (metis sum.case_eq_if sum.collapse)

lemma tripleD:
  "triple Q m R F \<Longrightarrow> Q s \<Longrightarrow> m (s, w) = (Inr x, s', w') \<Longrightarrow> R x s'"
  "triple Q m R F \<Longrightarrow> Q s \<Longrightarrow> m (s, w) = (Inl e, s', w') \<Longrightarrow> F s'"
  unfolding triple_def by fastforce+

lemma triple_ebind:
  assumes "triple Q m R F" "\<And>x. triple (R x) (f x) S F"
  shows "triple Q (ebind m f) S F"
  unfolding triple_def
proof (intro allI impI)
  fix s w r s' w'
  assume Q: "Q s" and run: "ebind m f (s, w) = (r, s', w')"
  obtain a t v where m: "m (s, w) = (a, t, v)" by (cases "m (s, w)") auto
  show "case r of Inl _ \<Rightarrow> F s' | Inr x \<Rightarrow> S x s'"
  proof (cases a)
    case (Inl e)
    then show ?thesis using tripleD(2) [OF assms(1) Q] m run by (auto simp: ebind_def)
  next
    case (Inr x)
    then have "R x t" using tripleD(1) [OF assms(1) Q] m by auto
    moreover have "f x (t, v) = (r, s', w')" using run m Inr by (simp add: ebind_def)
    ultimately show ?thesis using assms(2) [of x] unfolding triple_def by blast
  qed
qed

lemma triple_basic:
  "(\<And>s. Q s \<Longrightarrow> R x s) \<Longrightarrow> triple Q (ret x) R F"
  "(\<And>s. Q s \<Longrightarrow> F s) \<Longrightarrow> triple Q (fail e) R F"
  "(\<And>s. Q s \<Longrightarrow> R' (g s) s) \<Longrightarrow> triple Q (gets g) R' F"
  "(\<And>s. Q s \<Longrightarrow> R'' () (h s)) \<Longrightarrow> triple Q (modify h) R'' F"
  "(\<And>s x. Q s \<Longrightarrow> R' x s) \<Longrightarrow> triple Q (ask a) R' F"
  by (auto simp: triple_def eng_simps)

lemma triple_lift:
  "(\<And>x s. Q s \<Longrightarrow> r = Inr x \<Longrightarrow> R x s) \<Longrightarrow> (\<And>s. Q s \<Longrightarrow> F s) \<Longrightarrow> triple Q (lift r) R F"
  by (auto simp: triple_def eng_simps split: sum.splits)

lemma triple_update:
  "(\<And>s s'. Q s \<Longrightarrow> u s = Inr s' \<Longrightarrow> R () s') \<Longrightarrow> (\<And>s. Q s \<Longrightarrow> F s) \<Longrightarrow> triple Q (update u) R F"
  by (auto simp: triple_def eng_simps split: sum.splits)

lemma triple_if:
  "(b \<Longrightarrow> triple Q m R F) \<Longrightarrow> (\<not> b \<Longrightarrow> triple Q n R F) \<Longrightarrow> triple Q (if b then m else n) R F"
  by simp

lemma triple_ewhen:
  "(b \<Longrightarrow> triple Q m (\<lambda>_. R) F) \<Longrightarrow> (\<And>s. \<not> b \<Longrightarrow> Q s \<Longrightarrow> R s) \<Longrightarrow> triple Q (ewhen b m) (\<lambda>_. R) F"
  by (simp add: ewhen_def triple_basic)

lemma triple_weaken:
  "triple Q m R F \<Longrightarrow> (\<And>s. Q' s \<Longrightarrow> Q s) \<Longrightarrow> (\<And>x s. R x s \<Longrightarrow> R' x s) \<Longrightarrow> (\<And>s. F s \<Longrightarrow> F' s)
   \<Longrightarrow> triple Q' m R' F'"
  unfolding triple_def by (fastforce split: sum.splits)

lemma triple_keeps: "keeps (\<lambda>s w. Q s) m \<longleftrightarrow> triple Q m (\<lambda>_. Q) Q"
  by (fastforce simp: triple_def keeps_def split: sum.splits)

lemma triple_option:
  "(x = None \<Longrightarrow> triple Q m R F) \<Longrightarrow> (\<And>y. x = Some y \<Longrightarrow> triple Q (f y) R F)
   \<Longrightarrow> triple Q (case x of None \<Rightarrow> m | Some y \<Rightarrow> f y) R F"
  by (cases x) auto

lemma triple_sum:
  "(\<And>e. x = Inl e \<Longrightarrow> triple Q (m e) R F) \<Longrightarrow> (\<And>y. x = Inr y \<Longrightarrow> triple Q (f y) R F)
   \<Longrightarrow> triple Q (case x of Inl e \<Rightarrow> m e | Inr y \<Rightarrow> f y) R F"
  by (cases x) auto

lemma triple_pair:
  "(\<And>a b. x = (a, b) \<Longrightarrow> triple Q (f a b) R F) \<Longrightarrow> triple Q (case x of (a, b) \<Rightarrow> f a b) R F"
  by (cases x) auto

lemma triple_assume: "(\<And>s. Q s \<Longrightarrow> triple (\<lambda>t. Q t \<and> t = s) m R F) \<Longrightarrow> triple Q m R F"
  unfolding triple_def by blast

lemma triple_pre_False: "(\<And>s. \<not> Q s) \<Longrightarrow> triple Q m R F"
  by (simp add: triple_def)

lemma triple_outcome:
  "triple Q m (\<lambda>_. R) R \<Longrightarrow> triple Q (outcome m) (\<lambda>_. R) F"
  by (fastforce simp: triple_def outcome_def split: prod.splits sum.splits)

lemma triple_ewhile:
  assumes "\<And>a. triple (\<lambda>s. I a s \<and> c a s) (body a) I F" "\<And>a s. I a s \<Longrightarrow> F s"
  shows "triple (I a) (ewhile n c body a) (\<lambda>b s. I b s \<and> \<not> c b s) F"
proof (induction n arbitrary: a)
  case 0
  show ?case unfolding ewhile.simps
    by (rule triple_ebind [where R = "\<lambda>go s. I a s \<and> go = c a s"]) (auto intro!: triple_basic triple_if assms(2))
next
  case (Suc n)
  show ?case unfolding ewhile.simps
  proof (rule triple_ebind [where R = "\<lambda>go s. I a s \<and> go = c a s"])
    show "triple (\<lambda>s. I a s \<and> go = c a s) (if go then ebind (body a) (ewhile n c body) else ret a)
        (\<lambda>b s. I b s \<and> \<not> c b s) F" for go
      by (intro triple_if triple_ebind [OF triple_weaken [OF assms(1)] Suc.IH]) (auto intro: triple_basic)
  qed (auto intro: triple_basic)
qed

section \<open>Loops whose bound is never reached\<close>

text \<open>
  A measure of the session that every iteration which leaves the loop condition true
  decreases: from any session satisfying the invariant, all bounds from the measure on give
  the same run, so the bound never ends the loop.
\<close>

locale bounded_loop =
  fixes good :: "session \<Rightarrow> bool" and c :: "'a \<Rightarrow> session \<Rightarrow> bool" and body :: "'a \<Rightarrow> ('w, 'a) eng"
    and size_of :: "session \<Rightarrow> nat"
  assumes live: "good s \<Longrightarrow> c a s \<Longrightarrow> 0 < size_of s"
    and progress: "good s \<Longrightarrow> c a s \<Longrightarrow> body a (s, w) = (Ok b, s', w') \<Longrightarrow> good s' \<and> (c b s' \<longrightarrow> size_of s' < size_of s)"
begin

lemma bound_irrelevant:
  "good s \<Longrightarrow> size_of s \<le> n \<Longrightarrow> size_of s \<le> m \<Longrightarrow> ewhile n c body a (s, w) = ewhile m c body a (s, w)"
proof (induction n arbitrary: m a s w)
  case 0
  then have "\<not> c a s" using live by force
  then show ?case by (cases m) (simp_all add: ebind_def eng_simps)
next
  case (Suc n)
  show ?case
  proof (cases "c a s")
    case False
    then show ?thesis by (cases m) (simp_all add: ebind_def eng_simps)
  next
    case go: True
    then obtain m' where m: "m = Suc m'" using live [OF Suc.prems(1) go] Suc.prems(3) by (cases m) auto
    obtain r s' w' where b: "body a (s, w) = (r, s', w')" by (cases "body a (s, w)") auto
    show ?thesis
    proof (cases r)
      case (Inl e)
      then show ?thesis using go b m by (simp add: ebind_def eng_simps)
    next
      case (Inr x)
      note next_ok = progress [OF Suc.prems(1) go b [unfolded Inr]]
      have "ewhile n c body x (s', w') = ewhile m' c body x (s', w')"
      proof (cases "c x s'")
        case True
        then show ?thesis using Suc.prems m next_ok by (intro Suc.IH) auto
      next
        case False
        then show ?thesis by (cases n; cases m') (simp_all add: ebind_def eng_simps)
      qed
      then show ?thesis using go b m Inr by (simp add: ebind_def eng_simps)
    qed
  qed
qed

lemma exits:
  assumes "good s" "size_of s \<le> n" "ewhile n c body a (s, w) = (Ok b, s', w')"
  shows "\<not> c b s'"
  using assms
proof (induction n arbitrary: a s w)
  case (Suc n)
  show ?case
  proof (cases "c a s")
    case False
    then show ?thesis using Suc.prems by (auto simp: ebind_def eng_simps)
  next
    case go: True
    then obtain x s1 w1 where b: "body a (s, w) = (Ok x, s1, w1)" "ewhile n c body x (s1, w1) = (Ok b, s', w')"
      using Suc.prems(3) by (auto simp: ebind_Ok eng_simps)
    note p = progress [OF Suc.prems(1) go b(1)]
    show ?thesis
    proof (cases "c x s1")
      case True
      then show ?thesis using Suc.IH [OF _ _ b(2)] p Suc.prems by auto
    next
      case False
      then show ?thesis using b(2) by (cases n) (auto simp: ebind_def eng_simps)
    qed
  qed
qed (auto simp: ebind_def eng_simps split: if_splits)

end

end
