(* ===== verification/Single_Call.thy ===== *)
theory Single_Call
  imports Decision "HOL-Library.Multiset"
begin

text \<open>
  Correctness of \<open>single_call_wire\<close>, the projection for models that answer one call at a time: every assistant message in the
  output carries at most one call and is followed at once by the result of that call, and the
  calls and results of the input all occur, the calls in their order.
\<close>

inductive sequential :: "json list \<Rightarrow> bool" where
  seq_nil: "sequential []"
| seq_plain: "wire_calls m = None \<Longrightarrow> wire_role m \<noteq> Some ''tool'' \<Longrightarrow> sequential ms \<Longrightarrow> sequential (m # ms)"
| seq_call: "wire_calls m = Some [c] \<Longrightarrow> get_str c ''id'' = Some i \<Longrightarrow> wire_role r = Some ''tool'' \<Longrightarrow>
     get_str r ''tool_call_id'' = Some i \<Longrightarrow> sequential ms \<Longrightarrow> sequential (m # r # ms)"

definition all_calls :: "json list \<Rightarrow> json list" where
  "all_calls ms = concat (map (\<lambda>m. unwrap_or [] (wire_calls m)) ms)"

definition all_results :: "json list \<Rightarrow> json multiset" where
  "all_results ms = mset (filter (\<lambda>m. wire_role m = Some ''tool'') ms)"

lemma obj_remove_split:
  assumes "kvs = as @ (k, v) # bs" "k \<notin> fst ` set as"
  shows "obj_remove k kvs = (if bs = [] then as else as @ last bs # butlast bs)"
proof -
  have len: "length (takeWhile (\<lambda>p. fst p \<noteq> k) kvs) = length as"
    using assms by (subst assms(1)) (subst takeWhile_append2; force)
  show ?thesis
  proof (cases bs rule: rev_cases)
    case Nil
    then show ?thesis using assms len by (simp add: obj_remove_def swap_remove_def)
  next
    case (snoc bs' l)
    then show ?thesis using assms len
      by (simp add: obj_remove_def swap_remove_def list_update_append butlast_append)
  qed
qed

lemma map_of_obj_remove:
  assumes "distinct (map fst kvs)"
  shows "map_of (obj_remove k kvs) = (map_of kvs)(k := None)"
proof (cases "k \<in> fst ` set kvs")
  case False
  then show ?thesis by (auto simp: obj_remove_def fun_eq_iff map_of_eq_None_iff)
next
  case True
  then obtain as v bs where kvs: "kvs = as @ (k, v) # bs" "k \<notin> fst ` set as"
    using split_list_first_prop [of kvs "\<lambda>p. fst p = k"] by fastforce
  then have k: "k \<notin> fst ` set bs" and d: "distinct (map fst bs)" "fst ` set as \<inter> fst ` set bs = {}"
    using assms by auto
  have "map_of (last bs # butlast bs) = map_of bs" if "bs \<noteq> []"
  proof -
    obtain bs' l where bs: "bs = bs' @ [l]" using \<open>bs \<noteq> []\<close> by (metis rev_exhaust)
    then have "map_of bs' (fst l) = None" using d by (auto simp: map_of_eq_None_iff)
    then show ?thesis
      by (cases l) (auto simp: bs fun_eq_iff map_add_def split: option.splits)
  qed
  then have "map_of (obj_remove k kvs) = map_of (as @ bs)"
    unfolding obj_remove_split [OF kvs] by simp
  also have "\<dots> = (map_of kvs)(k := None)"
  proof -
    have "map_of as k = None" "map_of bs k = None" using kvs k by (simp_all add: map_of_eq_None_iff)
    then show ?thesis by (auto simp: kvs(1) fun_eq_iff map_add_def split: option.splits)
  qed
  finally show ?thesis .
qed

lemma distinct_obj_insert: "distinct (map fst kvs) \<Longrightarrow> distinct (map fst (obj_insert k v kvs))"
  by (induction k v kvs rule: obj_insert.induct) (auto simp: obj_insert_keys)

lemma single_assistant_fields:
  assumes "wire_calls m = Some calls" "distinct (map fst (members m))"
  shows "wire_calls (single_assistant m position c) = Some [c]"
    and "wire_role (single_assistant m position c) = Some ''assistant''"
proof -
  obtain kvs where m: "m = JObj kvs" using assms(1)
    by (cases m) (auto simp: wire_calls_def split: if_splits)
  have role: "map_of kvs ''role'' = Some (JStr ''assistant'')"
    using assms(1) by (auto simp: m wire_calls_def wire_role_def get_str_def bind_eq_Some_conv accessor_Some split: if_splits)
  have "map_of (obj_insert ''tool_calls'' (JArr [c]) kvs) ''role'' = Some (JStr ''assistant'')"
    "map_of (obj_insert ''tool_calls'' (JArr [c]) kvs) ''tool_calls'' = Some (JArr [c])"
    using role by (simp_all add: map_of_obj_insert)
  then show "wire_calls (single_assistant m position c) = Some [c]"
    "wire_role (single_assistant m position c) = Some ''assistant''"
    using map_of_obj_remove [OF distinct_obj_insert, of kvs "''content''" "''tool_calls''" "JArr [c]"] assms(2)
    by (simp_all add: m single_assistant_def wire_calls_def wire_role_def get_str_def)
qed

lemma wire_ids_Ok:
  "wire_ids calls ids = Ok out \<Longrightarrow>
     \<exists>new. out = ids @ new \<and> map (\<lambda>c. get_str c ''id'') calls = map Some new \<and> distinct new \<and> set new \<inter> set ids = {}"
proof (induction calls arbitrary: ids)
  case (Cons c calls)
  then obtain i where i: "get_str c ''id'' = Some i" "i \<notin> set ids" "wire_ids calls (ids @ [i]) = Ok out"
    by (cases "get_str c ''id''") (auto simp: Let_def split: if_splits)
  from Cons.IH [OF i(3)] obtain new where "out = ids @ i # new" "map (\<lambda>c. get_str c ''id'') calls = map Some new"
    "distinct new" "set new \<inter> set (ids @ [i]) = {}" by auto
  with i show ?case by (intro exI [of _ "i # new"]) auto
qed simp

lemma wire_results_Ok:
  "wire_results rs results = Ok out \<Longrightarrow> distinct (map fst results) \<Longrightarrow>
     \<exists>new. out = results @ new \<and> map snd new = rs \<and> distinct (map fst out)
       \<and> list_all (\<lambda>(i, r). wire_role r = Some ''tool'' \<and> get_str r ''tool_call_id'' = Some i) new"
proof (induction rs arbitrary: results)
  case (Cons r rs)
  then obtain i where i: "get_str r ''tool_call_id'' = Some i" "i \<notin> fst ` set results" "wire_role r = Some ''tool''"
      "wire_results rs (results @ [(i, r)]) = Ok out"
    by (cases "get_str r ''tool_call_id''") (auto simp: Let_def split: if_splits)
  from Cons.IH [OF i(4)] i Cons.prems(2) obtain new where "out = results @ (i, r) # new" "map snd new = rs"
    "distinct (map fst out)" "list_all (\<lambda>(i, r). wire_role r = Some ''tool'' \<and> get_str r ''tool_call_id'' = Some i) new"
    by auto
  with i show ?case by (intro exI [of _ "(i, r) # new"]) auto
qed simp


lemma expand_batch_sequential:
  assumes "wire_calls m = Some calls0" "distinct (map fst (members m))"
    and "map (\<lambda>c. get_str c ''id'') calls = map Some ids"
    and "\<And>i. i \<in> set ids \<Longrightarrow> \<exists>r. map_of results i = Some r \<and> wire_role r = Some ''tool'' \<and> get_str r ''tool_call_id'' = Some i"
    and "sequential ms"
  shows "sequential (concat (map (\<lambda>(position, call, i). [single_assistant m position call, unwrap_or JNull (map_of results i)])
               (enumerate n (zip calls ids))) @ ms)"
    and "all_calls (concat (map (\<lambda>(position, call, i). [single_assistant m position call, unwrap_or JNull (map_of results i)])
               (enumerate n (zip calls ids)))) = calls"
    and "filter (\<lambda>m. wire_role m = Some ''tool'') (concat (map (\<lambda>(position, call, i). [single_assistant m position call, unwrap_or JNull (map_of results i)])
               (enumerate n (zip calls ids)))) = map (\<lambda>i. unwrap_or JNull (map_of results i)) ids"
  using assms(3,4)
proof (induction calls arbitrary: ids n)
  case Nil
  {
    case 1 then show ?case using assms(5) by simp
  next
    case 2 then show ?case by (simp add: all_calls_def)
  next
    case 3 then show ?case by simp
  }
next
  case (Cons c calls)
  {
    case 1
    then obtain i rs where ids: "ids = i # rs" "get_str c ''id'' = Some i" by (cases ids) auto
    with 1 obtain r where r: "map_of results i = Some r" "wire_role r = Some ''tool''" "get_str r ''tool_call_id'' = Some i" by auto
    show ?case using Cons.IH(1) [of rs "Suc n"] 1 ids r single_assistant_fields [OF assms(1,2)]
      by (auto intro: seq_call)
  next
    case 2
    then obtain i rs where ids: "ids = i # rs" "get_str c ''id'' = Some i" by (cases ids) auto
    with 2 obtain r where r: "map_of results i = Some r" "wire_role r = Some ''tool''" by auto
    show ?case using Cons.IH(2) [of rs "Suc n"] 2 ids r single_assistant_fields [OF assms(1,2)]
      by (simp add: all_calls_def wire_calls_def [of r])
  next
    case 3
    then obtain i rs where ids: "ids = i # rs" "get_str c ''id'' = Some i" by (cases ids) auto
    with 3 obtain r where r: "map_of results i = Some r" "wire_role r = Some ''tool''" by auto
    show ?case using Cons.IH(3) [of rs "Suc n"] 3 ids r single_assistant_fields [OF assms(1,2)] by simp
  }
qed

lemma wire_batch_Ok:
  assumes "wire_batch calls rest = Ok (ids, results)"
  shows "map (\<lambda>c. get_str c ''id'') calls = map Some ids" "length calls \<le> length rest"
    "\<And>i. i \<in> set ids \<Longrightarrow> \<exists>r. map_of results i = Some r \<and> wire_role r = Some ''tool'' \<and> get_str r ''tool_call_id'' = Some i"
    "mset (map (\<lambda>i. unwrap_or JNull (map_of results i)) ids) = mset (take (length calls) rest)"
    "list_all (\<lambda>r. wire_role r = Some ''tool'') (take (length calls) rest)"
proof -
  from assms have w: "wire_ids calls [] = Ok ids" "wire_results (take (length calls) rest) [] = Ok results"
    and le: "length calls \<le> length rest" and len: "length results = length ids"
    and all: "\<forall>i\<in>set ids. map_of results i \<noteq> None"
    by (auto simp: wire_batch_def result_simps split: if_splits)
  from wire_ids_Ok [OF w(1)] have ids: "map (\<lambda>c. get_str c ''id'') calls = map Some ids" "distinct ids" by auto
  from wire_results_Ok [OF w(2)] have res: "map snd results = take (length calls) rest" "distinct (map fst results)"
    "list_all (\<lambda>(i, r). wire_role r = Some ''tool'' \<and> get_str r ''tool_call_id'' = Some i) results" by auto
  show "map (\<lambda>c. get_str c ''id'') calls = map Some ids" "length calls \<le> length rest" by (fact ids(1) le)+
  show "\<exists>r. map_of results i = Some r \<and> wire_role r = Some ''tool'' \<and> get_str r ''tool_call_id'' = Some i"
    if "i \<in> set ids" for i
    using all that res(3) by (fastforce simp: list_all_iff dest: map_of_SomeD)
  have "set ids \<subseteq> set (map fst results)" using all by (force simp: map_of_eq_None_iff)
  then have "set ids = set (map fst results)"
    using ids(2) res(2) len by (intro card_subset_eq) (simp_all add: distinct_card del: set_map)
  then have "mset ids = mset (map fst results)" using ids(2) res(2) set_eq_iff_mset_eq_distinct by blast
  then have "mset (map (\<lambda>i. unwrap_or JNull (map_of results i)) ids)
      = mset (map (\<lambda>i. unwrap_or JNull (map_of results i)) (map fst results))"
    by (simp only: mset_map)
  also have "map (\<lambda>i. unwrap_or JNull (map_of results i)) (map fst results) = map snd results"
    using res(2) by (auto simp: map_eq_conv)
  finally show "mset (map (\<lambda>i. unwrap_or JNull (map_of results i)) ids) = mset (take (length calls) rest)"
    using res(1) by simp
  have "list_all (\<lambda>r. wire_role r = Some ''tool'') (map snd results)"
    using res(3) by (fastforce simp: list_all_iff)
  then show "list_all (\<lambda>r. wire_role r = Some ''tool'') (take (length calls) rest)" using res(1) by simp
qed

lemma all_calls_append: "all_calls (xs @ ys) = all_calls xs @ all_calls ys"
  by (simp add: all_calls_def)

lemma all_calls_tools: "list_all (\<lambda>r. wire_role r = Some ''tool'') rs \<Longrightarrow> all_calls rs = []"
  by (induction rs) (simp_all add: all_calls_def wire_calls_def)

lemma single_call_wire_Ok:
  "single_call_wire ms = Ok out \<Longrightarrow> list_all (\<lambda>m. distinct (map fst (members m))) ms \<Longrightarrow>
     sequential out \<and> all_calls out = all_calls ms \<and> all_results out = all_results ms"
proof (induction ms arbitrary: out rule: single_call_wire.induct)
  case 1
  then show ?case by (simp add: seq_nil)
next
  case (2 m rest)
  show ?case
  proof (cases "wire_calls m")
    case None
    then show ?thesis using 2 
      by (auto simp: all_calls_def all_results_def intro: seq_plain split: if_splits sum.splits)
  next
    case (Some calls)
    then obtain ids results out' where b: "wire_batch calls rest = Ok (ids, results)"
      and o': "single_call_wire (drop (length calls) rest) = Ok out'" "out = expand_batch m calls ids results @ out'"
      using "2.prems" by (auto split: sum.splits prod.splits)
    note wb = wire_batch_Ok [OF b]
    have d: "distinct (map fst (members m))" "list_all (\<lambda>m. distinct (map fst (members m))) (drop (length calls) rest)"
      using "2.prems"(2) by (auto simp: list_all_iff dest: in_set_dropD)
    have IH: "sequential out' \<and> all_calls out' = all_calls (drop (length calls) rest)
        \<and> all_results out' = all_results (drop (length calls) rest)"
      using "2.IH"(2) [OF Some b refl o'(1) d(2)] .
    note ex = expand_batch_sequential [OF Some d(1) wb(1,3), of out' 0]
    have role: "wire_role m = Some ''assistant''" using Some by (auto simp: wire_calls_def split: if_splits)
    have split: "rest = take (length calls) rest @ drop (length calls) rest" by simp
    have "all_calls (m # rest) = calls @ all_calls (drop (length calls) rest)"
      using all_calls_append [of "take (length calls) rest" "drop (length calls) rest"] all_calls_tools [OF wb(5)] Some
      by (simp add: all_calls_def)
    moreover have "all_results (m # rest) = mset (take (length calls) rest) + all_results (drop (length calls) rest)"
      using wb(5) role by (subst split) (simp add: all_results_def list_all_iff del: append_take_drop_id)
    ultimately show ?thesis
      using ex IH o'(2) wb(4) by (simp add: expand_batch_def all_calls_append all_results_def)
  qed
qed

section \<open>Histories the projection accepts\<close>

lemma wire_message_fields:
  "wire_role (wire_message m) = Some (m_role m)"
  "wire_calls (wire_message m) = batch_calls m"
  "get_str (wire_message m) ''tool_call_id'' = m_tool_call_id m"
proof -
  show role: "wire_role (wire_message m) = Some (m_role m)"
    by (simp add: wire_role_def wire_message_def get_str_def)
  have "get (wire_message m) ''tool_calls'' = opt_filter (\<lambda>v. v \<noteq> JNull \<and> v \<noteq> JArr []) (m_tool_calls m)"
    by (cases "m_content m"; cases "m_name m"; cases "m_tool_call_id m"; cases "m_tool_calls m")
       (simp_all add: wire_message_def opt_field_def)
  then show "wire_calls (wire_message m) = batch_calls m"
    using role by (cases "m_tool_calls m")
      (auto simp: wire_calls_def batch_calls_def opt_filter_def split: option.splits json.splits)
  show "get_str (wire_message m) ''tool_call_id'' = m_tool_call_id m"
    by (cases "m_content m"; cases "m_name m"; cases "m_tool_call_id m"; cases "m_tool_calls m")
       (simp_all add: wire_message_def opt_field_def get_str_def)
qed

lemma wire_message_distinct: "distinct (map fst (members (wire_message m)))"
  by (cases "m_content m"; cases "m_name m"; cases "m_tool_call_id m"; cases "m_tool_calls m")
     (simp_all add: wire_message_def opt_field_def)

lemma wire_ids_complete:
  "map call_id calls = map Some ids \<Longrightarrow> distinct ids \<Longrightarrow> set ids \<inter> set acc = {} \<Longrightarrow>
     wire_ids calls acc = Ok (acc @ ids)"
proof (induction calls arbitrary: ids acc)
  case (Cons c calls)
  then obtain i rs where ids: "ids = i # rs" "call_id c = Some i" by (cases ids) auto
  then have "get_str c ''id'' = Some i" "i \<noteq> []" by (auto simp: call_id_def)
  with Cons ids show ?case by (auto simp: Let_def)
qed simp

lemma wire_results_complete:
  "map result_id rs = map Some ids \<Longrightarrow> \<forall>r\<in>set rs. m_role r = ''tool'' \<Longrightarrow> distinct ids \<Longrightarrow>
     set ids \<inter> fst ` set acc = {} \<Longrightarrow>
     wire_results (map wire_message rs) acc = Ok (acc @ zip ids (map wire_message rs))"
proof (induction rs arbitrary: ids acc)
  case (Cons r rs)
  then obtain i is' where ids: "ids = i # is'" "result_id r = Some i" by (cases ids) auto
  then have "m_tool_call_id r = Some i" "i \<noteq> []" by (auto simp: result_id_def)
  with Cons ids show ?case by (auto simp: Let_def wire_message_fields)
qed simp

lemma single_call_wire_complete: "correlated ms \<Longrightarrow> \<exists>out. single_call_wire (map wire_message ms) = Ok out"
proof (induction rule: correlated.induct)
  case (corr_plain m ms)
  then show ?case by (auto simp: plain_message_def wire_message_fields)
next
  case (corr_batch m rs ms)
  then obtain calls ids rids where b: "batch_calls m = Some calls" "map call_id calls = map Some ids" "distinct ids"
    "\<forall>r\<in>set rs. m_role r = ''tool''" "map result_id rs = map Some rids" "distinct rids" "set rids = set ids"
    by (auto simp: answered_batch_def)
  have len: "length rids = length ids" using b(3,6,7) by (metis distinct_card)
  have len': "length calls = length ids" "length rs = length rids"
    using map_Some_length b(2,5) by force+
  have "wire_batch calls (map wire_message (rs @ ms)) = Ok (ids, zip rids (map wire_message rs))"
    using wire_ids_complete [OF b(2,3), of "[]"] wire_results_complete [OF b(5,4,6), of "[]"] len len' b(7)
    by (auto simp: wire_batch_def map_of_eq_None_iff)
       (metis length_map list.set_map map_fst_zip map_of_eq_None_iff set_map)+
  then show ?case
    using corr_batch.IH b(1) len len' by (auto simp: wire_message_fields)
qed simp

end
