(* ===== verification/Integrity.thy ===== *)
theory Integrity
  imports Storage Single_Call
begin

text \<open>
  The anchors of a stored session survive the document store: whatever order the members of the
  objects come back in, a snapshot passes its own checks.
\<close>

section \<open>Reordered objects\<close>

inductive_cases reordered_objE: "reordered (JObj kvs) w"
inductive_cases reordered_strE: "reordered (JStr x) w"
inductive_cases reordered_numE: "reordered (JNum x) w"
inductive_cases reordered_snocE: "reordered_fields (kv # kvs) mid"
inductive_cases reordered_nilE: "reordered_fields [] mid"

lemma reordered_fields_append:
  "reordered_fields (as @ bs) mid \<Longrightarrow> \<exists>as' bs'. mid = as' @ bs' \<and> reordered_fields as as' \<and> reordered_fields bs bs'"
proof (induction as arbitrary: mid)
  case Nil
  then show ?case using no_fields by auto
next
  case (Cons a as)
  obtain k v v' mid' where m: "a = (k, v)" "mid = (k, v') # mid'" "reordered v v'" "reordered_fields (as @ bs) mid'"
    using Cons.prems by (auto elim: reordered_snocE)
  from Cons.IH [OF m(4)] obtain as' bs' where "mid' = as' @ bs'" "reordered_fields as as'" "reordered_fields bs bs'" by blast
  then show ?case using m fields by (metis append_Cons)
qed

lemma reordered_fields_map_of: "reordered_fields kvs mid \<Longrightarrow> rel_option reordered (map_of kvs k) (map_of mid k)"
  by (induction kvs arbitrary: mid) (auto elim!: reordered_snocE reordered_nilE)

lemma map_of_mset: "mset xs = mset ys \<Longrightarrow> distinct (map fst xs) \<Longrightarrow> map_of xs = map_of ys"
  by (metis distinct_map map_of_inject_set mset_eq_setD mset_map mset_eq_imp_distinct_iff)

lemma reordered_get:
  assumes "reordered (JObj kvs) w"
  shows "\<exists>kvs'. w = JObj kvs' \<and> rel_option reordered (map_of kvs k) (map_of kvs' k)"
proof -
  consider (same) "w = JObj kvs"
    | (permuted) mid kvs' where "w = JObj kvs'" "reordered_fields kvs mid" "mset mid = mset kvs'" "distinct (map fst kvs)"
    using assms by (elim reordered_objE) blast+
  then show ?thesis
  proof cases
    case same
    then show ?thesis by (auto intro: option.rel_refl reordered_reordered_fields.same)
  next
    case permuted
    then have "map_of mid = map_of kvs'" using reordered_keys by (intro map_of_mset) simp_all
    then show ?thesis using permuted reordered_fields_map_of by metis
  qed
qed

lemma obj_remove_mset:
  assumes "distinct (map fst kvs)"
  shows "mset (obj_remove k kvs) = filter_mset (\<lambda>p. fst p \<noteq> k) (mset kvs)"
proof (cases "k \<in> fst ` set kvs")
  case False
  then have "filter (\<lambda>p. fst p \<noteq> k) kvs = kvs" by (auto simp: filter_id_conv)
  then show ?thesis using False by (simp add: obj_remove_def flip: mset_filter)
next
  case True
  then obtain as v bs where kvs: "kvs = as @ (k, v) # bs" "k \<notin> fst ` set as"
    using split_list_first_prop [of kvs "\<lambda>p. fst p = k"] by fastforce
  have "k \<notin> fst ` set bs" using kvs assms by auto
  then have "filter (\<lambda>p. fst p \<noteq> k) as = as" "filter (\<lambda>p. fst p \<noteq> k) bs = bs" using kvs(2) by (auto simp: filter_id_conv)
  moreover have "mset (last bs # butlast bs) = mset bs" if "bs \<noteq> []"
    using that by (cases bs rule: rev_cases) simp_all
  ultimately show ?thesis unfolding obj_remove_split [OF kvs] by (auto simp: kvs(1) simp flip: mset_filter)
qed

section \<open>Snapshots\<close>

lemma obj_remove_keys: "fst ` set (obj_remove k kvs) \<subseteq> fst ` set kvs"
proof (cases "k \<in> fst ` set kvs")
  case True
  then obtain as v bs where kvs: "kvs = as @ (k, v) # bs" "k \<notin> fst ` set as"
    using split_list_first_prop [of kvs "\<lambda>p. fst p = k"] by fastforce
  show ?thesis unfolding obj_remove_split [OF kvs] by (auto simp: kvs(1) dest: in_set_butlastD)
qed (simp add: obj_remove_def)

lemma hot_fields_anchor: "anchor_key \<notin> fst ` set (hot_fields s)"
proof -
  have "fst ` set (fold obj_remove ks kvs) \<subseteq> fst ` set kvs" for ks and kvs :: "(string \<times> json) list"
  proof (induction ks arbitrary: kvs)
    case (Cons k ks)
    from Cons.IH [of "obj_remove k kvs"] obj_remove_keys [of k kvs] show ?case by auto
  qed simp
  moreover have "anchor_key \<notin> fst ` set (session_fields s)"
    by (simp add: session_fields_def anchor_key_def)
  ultimately show ?thesis unfolding hot_fields_def by blast
qed

lemma obj_insert_new: "k \<notin> fst ` set kvs \<Longrightarrow> obj_insert k v kvs = kvs @ [(k, v)]"
  by (induction kvs) auto

definition anchor_of :: "lib \<Rightarrow> session \<Rightarrow> json" where
  "anchor_of L s =
     JObj [(''version'', json_int 1), (''snapshot_sha256'', JStr (anchor_digest L (JObj (hot_fields s)))),
           (''context_sha256'', JStr (anchor_digest L (context_value s)))]"

lemma snapshot_fields: "snapshot L s = JObj (hot_fields s @ [(anchor_key, anchor_of L s)])"
  by (simp add: snapshot_def anchor_of_def obj_insert_new [OF hot_fields_anchor])

lemma reordered_anchor:
  assumes "reordered (anchor_of L s) a"
  shows "idx a ''version'' = json_int 1" "idx a ''snapshot_sha256'' = JStr (anchor_digest L (JObj (hot_fields s)))"
    "idx a ''context_sha256'' = JStr (anchor_digest L (context_value s))"
  using reordered_get [OF assms [unfolded anchor_of_def], of "''version''"]
    reordered_get [OF assms [unfolded anchor_of_def], of "''snapshot_sha256''"]
    reordered_get [OF assms [unfolded anchor_of_def], of "''context_sha256''"]
  by (auto simp: idx_def json_int_def option_rel_Some1 elim!: reordered_strE reordered_numE)

lemma obj_remove_last: "k \<notin> fst ` set kvs \<Longrightarrow> obj_remove k (kvs @ [(k, v)]) = kvs"
  by (simp add: obj_remove_split [OF refl])

lemma reordered_snapshot:
  assumes "reordered (snapshot L s) v"
  obtains kvs a where "v = JObj kvs" "map_of kvs anchor_key = Some a" "reordered (anchor_of L s) a"
    "reordered (JObj (hot_fields s)) (JObj (obj_remove anchor_key kvs))"
proof -
  let ?kvs = "hot_fields s @ [(anchor_key, anchor_of L s)]"
  have new: "map_of (hot_fields s) anchor_key = None" using hot_fields_anchor by (simp add: map_of_eq_None_iff)
  obtain kvs where kvs: "v = JObj kvs" "rel_option reordered (map_of ?kvs anchor_key) (map_of kvs anchor_key)"
    using reordered_get [OF assms [unfolded snapshot_fields], of anchor_key] by blast
  then obtain a where a: "map_of kvs anchor_key = Some a" "reordered (anchor_of L s) a"
    using new by (auto simp: option_rel_Some1 map_add_def)
  consider (same) "kvs = ?kvs"
    | (permuted) mid where "reordered_fields ?kvs mid" "mset mid = mset kvs" "distinct (map fst ?kvs)"
    using assms [unfolded snapshot_fields kvs(1)] by (elim reordered_objE) auto
  then have "reordered (JObj (hot_fields s)) (JObj (obj_remove anchor_key kvs))"
  proof cases
    case same
    then show ?thesis by (simp add: obj_remove_last hot_fields_anchor reordered_reordered_fields.same)
  next
    case permuted
    obtain hot a' where mid: "mid = hot @ [(anchor_key, a')]" "reordered_fields (hot_fields s) hot"
      using reordered_fields_append [OF permuted(1)] by (auto elim!: reordered_snocE reordered_nilE)
    have "distinct (map fst mid)" using permuted reordered_keys by simp
    then have "distinct (map fst kvs)" using permuted(2) by (metis mset_eq_imp_distinct_iff mset_map)
    moreover have "filter_mset (\<lambda>p. fst p \<noteq> anchor_key) (mset mid) = mset hot"
    proof -
      have "anchor_key \<notin> fst ` set hot" using hot_fields_anchor [of s] reordered_keys [OF mid(2)] by (metis list.set_map)
      then have "filter (\<lambda>p. fst p \<noteq> anchor_key) hot = hot" by (force simp: filter_id_conv)
      then show ?thesis by (simp add: mid(1) flip: mset_filter)
    qed
    ultimately have "mset hot = mset (obj_remove anchor_key kvs)" using permuted(2) by (simp add: obj_remove_mset)
    then show ?thesis using permuted(3) by (auto intro: reordered_reordered_fields.objects [OF mid(2)])
  qed
  then show ?thesis using that kvs(1) a by blast
qed

lemma snapshot_anchors:
  assumes "reordered (snapshot L s) v"
  shows "validate_snapshot L v = Ok () \<and> validate_context L v s = Ok ()"
proof -
  from assms obtain kvs a where v: "v = JObj kvs" "map_of kvs anchor_key = Some a" "reordered (anchor_of L s) a"
    "reordered (JObj (hot_fields s)) (JObj (obj_remove anchor_key kvs))" by (rule reordered_snapshot)
  have "anchor_digest L (JObj (obj_remove anchor_key kvs)) = anchor_digest L (JObj (hot_fields s))"
    unfolding anchor_digest_def using canonical_json_reordered [OF v(4)] by simp
  then show ?thesis using v(1,2) reordered_anchor [OF v(3)]
    by (simp add: validate_snapshot_def validate_context_def idx_def json_int_def reject_if_def ok_or_def)
qed

end
