(* ===== verification/Loading_Proofs.thy ===== *)
theory Loading_Proofs
  imports Pages Integrity
begin

text \<open>
  What a loaded session is: everything that \<open>load\<close> accepts has passed both integrity anchors, and
  agrees with the rows it was read from.
\<close>

section \<open>Accepted snapshots\<close>

lemma hydrate_view:
  assumes "hydrate s records counts = Ok s'"
  shows "view s' = view s"
  using assms stage_diagnostics_view [of s]
  by (auto simp: hydrate_def Let_def result_simps refresh_completeness_def view_def split: if_splits)

lemma restore_Some:
  assumes "restore P L d r cx = Some (s, c)"
  shows "c = sr_config r \<and> context_matches s (sr_revision r) cx
    \<and> (\<exists>t. validate_context L (sr_state r) t = Ok () \<and> s_revision t = sr_revision r
          \<and> hydrate t (load_diagnostics (sr_state r) d) (load_counts d) = Ok s)"
  using assms unfolding restore_def by (auto split: option.splits if_splits sum.splits)

lemma load_Some:
  assumes "load P L i (d, n) = (Some (s, c), d', n')"
  shows "d' = px_others P n d \<and> (\<exists>r cx. load_row d' = Some (r, cx) \<and> validate_snapshot L (sr_state r) = Ok () \<and> restore P L d' r cx = Some (s, c))"
  using assms unfolding load_def Let_def by (auto split: option.splits if_splits)

lemma load_row_Some:
  "load_row d = Some (r, cx) \<longleftrightarrow> st_session d = Some r \<and> st_context d = Some cx \<and> sr_storage_version r = 6"
  by (auto simp: load_row_def split: option.splits)

lemma anchored_snapshot:
  assumes "validate_snapshot L v = Ok ()" "reordered (anchor_of L t) (idx v anchor_key)"
  obtains kvs where "v = JObj kvs" "anchor_digest L (JObj (obj_remove anchor_key kvs)) = anchor_digest L (JObj (hot_fields t))"
  using assms(1) reordered_anchor(2) [OF assms(2)] that
  by (cases v) (auto simp: validate_snapshot_def result_simps ok_or_def reject_if_Ok idx_def split: option.splits)

lemma anchored_context:
  assumes "validate_context L v s = Ok ()" "reordered (anchor_of L t) (idx v anchor_key)"
  shows "anchor_digest L (context_value s) = anchor_digest L (context_value t)"
  using assms(1) reordered_anchor(3) [OF assms(2)] by (simp add: validate_context_def reject_if_Ok)

end
