(* ===== verification/Actions.thy ===== *)
theory Actions
  imports Completion Effects
begin

text \<open>
  Durable tool actions (\<^verbatim>\<open>actions.rs\<close>): an action is journalled as an execution with a frozen
  identity before it is attempted, every attempt is recorded before and after it runs, and a
  restarted action is only attempted again where its recovery policy allows it.
\<close>

section \<open>Executions\<close>

definition audit :: "'w env \<Rightarrow> string \<Rightarrow> json \<Rightarrow> ('w, unit) eng" where
  "audit E kind body =
     ebind (ask (env_uuid E)) (\<lambda>u. ebind (ask (env_now E))
       (\<lambda>now. modify (\<lambda>s. s\<lparr>s_pending_transcript := s_pending_transcript s @
            [\<lparr>te_sequence = s_next_transcript_sequence s, te_message_id = u, te_kind = kind, te_payload = body,
              te_run_id = s_run_id s, te_decision_step = s_step_count s, te_created_at = now\<rparr>],
          s_next_transcript_sequence := s_next_transcript_sequence s + 1\<rparr>)))"

definition same_execution :: "json \<Rightarrow> json \<Rightarrow> bool" where
  "same_execution e v \<longleftrightarrow> json_eq (idx v ''execution_id'') (idx e ''execution_id'')"

fun replace_execution :: "json \<Rightarrow> json list \<Rightarrow> json list" where
  "replace_execution e [] = [e]"
| "replace_execution e (v # vs) = (if same_execution e v then e # vs else v # replace_execution e vs)"

definition stage_execution :: "json \<Rightarrow> session \<Rightarrow> session" where
  "stage_execution e s =
     s\<lparr>s_executions := replace_execution e (s_executions s),
       s_pending_execution_outbox := filter (\<lambda>v. \<not> same_execution e v) (s_pending_execution_outbox s) @ [e]\<rparr>"

definition push_attempt :: "json \<Rightarrow> session \<Rightarrow> session" where
  "push_attempt a s = s\<lparr>s_attempts_pending := s_attempts_pending s @ [a]\<rparr>"

definition close_blocked :: "string \<Rightarrow> session \<Rightarrow> session" where
  "close_blocked now s =
     s\<lparr>s_run_ended_at := Some now, s_run_termination_reason := Some ''recovery_required''\<rparr>"

definition action_checkpoint :: "'w env \<Rightarrow> json \<Rightarrow> ('w, unit) eng" where
  "action_checkpoint E event =
     ebind (gets (\<lambda>s. s_run_status s = ''blocked'' \<and> s_run_ended_at s = None))
       (\<lambda>b. ebind (ewhen b (ebind (ask (env_now E)) (\<lambda>now. modify (close_blocked now))))
          (\<lambda>_. ebind (emit E event) (\<lambda>_. acknowledge)))"

section \<open>Identity of an action\<close>

definition write_tool :: string where "write_tool = ''fixture_idempotent_write''"

definition receipts_target :: string where "receipts_target = ''fixture://action-receipts''"

definition action_target :: "string \<Rightarrow> string" where
  "action_target t = (if t = write_tool then receipts_target else ''tool://'' @ t)"

definition recovery_policy :: "config \<Rightarrow> string \<Rightarrow> json" where
  "recovery_policy cfg t =
     (case Option.bind (find (\<lambda>x. tl_name x = t) (c_tools cfg)) tl_recovery of
        Some p \<Rightarrow> p
      | None \<Rightarrow> JObj [(''mode'', JStr (if t = write_tool then ''idempotent'' else ''read_only'')),
                     (''max_attempts'', json_nat 2)])"

definition command_of :: "session \<Rightarrow> json" where
  "command_of s =
     unwrap_or (JObj [(''id'', json_opt (s_run_command_id s)), (''namespace'', JStr ''regression'')]) (s_command s)"

definition namespace_of :: "session \<Rightarrow> string" where
  "namespace_of s = unwrap_or ''regression'' (as_str (idx (command_of s) ''namespace''))"

definition key_algorithm :: string where "key_algorithm = ''agent-action-v1''"

definition recipient_contract :: json where
  "recipient_contract =
     JObj [(''target'', JStr receipts_target), (''key_scope'', JStr ''deployment''),
           (''retention_seconds'', JNull), (''outcome_query'', JBool True)]"

definition new_execution ::
  "lib \<Rightarrow> config \<Rightarrow> session \<Rightarrow> string \<Rightarrow> string \<Rightarrow> string \<Rightarrow> json \<Rightarrow> json result" where
  "new_execution L cfg s i call t args =
     rbind (action_key L (namespace_of s) (s_id s) i)
       (\<lambda>key. rbind (payload_key L t (action_target t) args)
          (\<lambda>sha. Ok (JObj ([(''execution_id'', JStr i), (''run_id'', json_opt (s_run_id s)),
               (''command_id'', json_opt (s_run_command_id s)), (''namespace'', JStr (namespace_of s)),
               (''target'', JStr (action_target t)), (''call_id'', JStr call), (''tool'', JStr t),
               (''arguments'', args), (''policy'', recovery_policy cfg t), (''idempotency_key'', JStr key),
               (''payload_sha256'', JStr sha), (''key_algorithm'', JStr key_algorithm),
               (''attempts'', json_nat 0), (''status'', JStr ''pending''), (''result'', JNull)]
              @ (if t = write_tool then [(''recipient'', recipient_contract)] else [])))))"

definition event :: "string \<Rightarrow> (string \<times> json) list \<Rightarrow> json" where
  "event kind fs = JObj ((''type'', JStr kind) # fs)"

text \<open>Find the journalled execution of a call, or journal a new one.\<close>

definition dispatch_intent :: "'w env \<Rightarrow> lib \<Rightarrow> config \<Rightarrow> string \<Rightarrow> string \<Rightarrow> json \<Rightarrow> ('w, json) eng" where
  "dispatch_intent E L cfg call t args =
     ebind (gets (\<lambda>s. find (\<lambda>e. idx e ''call_id'' = JStr call) (s_executions s)))
       (\<lambda>found. case found of
          Some e \<Rightarrow> ret e
        | None \<Rightarrow>
            ebind (ask (env_uuid E))
              (\<lambda>i. ebind (gets (\<lambda>s. new_execution L cfg s i call t args))
                 (\<lambda>r. ebind (lift r)
                    (\<lambda>e. ebind (modify (stage_execution e))
                       (\<lambda>_. ebind (audit E ''tool_intent'' e)
                          (\<lambda>_. ebind (action_checkpoint E (event ''tool_intent''
                                        [(''execution_id'', JStr i), (''tool_call_id'', JStr call)]))
                             (\<lambda>_. ret e)))))))"

definition identity_error :: string where
  "identity_error = ''frozen action identity differs from its ledger-derived key''"

definition payload_error :: string where "payload_error = ''frozen action payload changed''"

definition check_identity :: "lib \<Rightarrow> session \<Rightarrow> string \<Rightarrow> json \<Rightarrow> json \<Rightarrow> unit result" where
  "check_identity L s t args e =
     (if idx e ''namespace'' \<noteq> JStr (namespace_of s) \<or> idx e ''target'' \<noteq> JStr (action_target t)
         \<or> idx e ''key_algorithm'' \<noteq> JStr key_algorithm then Err identity_error
      else rbind (ok_or ''missing action identity'' (as_str (idx e ''execution_id'')))
        (\<lambda>i. rbind (action_key L (namespace_of s) (s_id s) i)
           (\<lambda>key. if idx e ''idempotency_key'' \<noteq> JStr key then Err identity_error
                  else if idx e ''tool'' \<noteq> JStr t \<or> \<not> json_eq (idx e ''arguments'') args then Err payload_error
                  else rbind (payload_key L t (unwrap_or [] (as_str (idx e ''target''))) args)
                         (\<lambda>sha. reject_if (idx e ''payload_sha256'' \<noteq> JStr sha) payload_error))))"

definition status_of :: "json \<Rightarrow> string option" where "status_of e = as_str (idx e ''status'')"

definition is_terminal :: "json \<Rightarrow> bool" where
  "is_terminal e \<longleftrightarrow> status_of e = Some ''succeeded'' \<or> status_of e = Some ''failed''"

section \<open>Attempts\<close>

definition attempt_records :: "json \<Rightarrow> json list" where
  "attempt_records e = unwrap_or [] (as_array (idx e ''attempt_records''))"

definition last_ordinal :: "json \<Rightarrow> int" where
  "last_ordinal e =
     (case List.map_filter (\<lambda>a. as_i64 (idx a ''attempt_number'')) (attempt_records e) of
        [] \<Rightarrow> unwrap_or 0 (as_i64 (idx e ''attempts''))
      | n # ns \<Rightarrow> fold max ns n)"

definition started_records :: "json \<Rightarrow> json list" where
  "started_records e = filter (\<lambda>a. idx a ''status'' = JStr ''started'') (attempt_records e)"

definition uncertain_record :: "string \<Rightarrow> json \<Rightarrow> json" where
  "uncertain_record now a =
     set_idx (set_idx (set_idx a ''status'' (JStr ''uncertain'')) ''finished_at'' (JStr now))
       ''evidence'' (JObj [(''reason'', JStr ''previous_owner_did_not_record_an_outcome'')])"

definition status_event :: "string \<Rightarrow> json" where
  "status_event t = event ''status'' [(''message'', JStr t)]"

definition settle_prior :: "'w env \<Rightarrow> json \<Rightarrow> ('w, unit) eng" where
  "settle_prior E e =
     ebind (efor (started_records e)
              (\<lambda>a. ebind (ask (env_now E))
                 (\<lambda>now. ebind (modify (push_attempt (uncertain_record now a)))
                    (\<lambda>_. audit E ''tool_attempt_settled'' (uncertain_record now a)))))
       (\<lambda>_. ebind (gets (\<lambda>s. s_attempts_pending s \<noteq> []))
          (\<lambda>b. ewhen b (action_checkpoint E (status_event ''Recorded prior attempt uncertainty.''))))"

definition mode_of :: "json \<Rightarrow> string" where
  "mode_of e = unwrap_or ''reconcile'' (as_str (idx (idx e ''policy'') ''mode''))"

definition attempt_record ::
  "session \<Rightarrow> json \<Rightarrow> string \<Rightarrow> string \<Rightarrow> int \<Rightarrow> string \<Rightarrow> json" where
  "attempt_record s e u kind ordinal now =
     JObj [(''attempt_id'', JStr u), (''execution_id'', idx e ''execution_id''),
           (''command_id'', idx (command_of s) ''id''), (''attempt_number'', json_int ordinal),
           (''kind'', JStr kind), (''status'', JStr ''started''), (''owner'', json_opt (s_execution_owner s)),
           (''fence'', (case s_execution_fence s of None \<Rightarrow> JNull | Some f \<Rightarrow> json_int f)),
           (''payload_sha256'', idx e ''payload_sha256''), (''started_at'', JStr now), (''finished_at'', JNull),
           (''evidence'', JNull)]"

text \<open>The lookup of the recipient's receipt; a failing statement and a missing row are alike here.\<close>

definition query_receipt :: "'w env \<Rightarrow> string \<Rightarrow> string option \<Rightarrow> 'w \<Rightarrow> (string \<times> json) option \<times> 'w" where
  "query_receipt E namespace key w =
     (case env_statement E w of (err, w') \<Rightarrow>
        (case (err, key) of
           (None, Some k) \<Rightarrow> (env_receipts E w' (namespace, k), w')
         | _ \<Rightarrow> (None, w')))"

definition settled_fields :: "json \<Rightarrow> (string \<times> json) list \<Rightarrow> json" where
  "settled_fields v fs = fold (\<lambda>(k, x) a. set_idx a k x) fs v"

definition verify_recovered ::
  "'w env \<Rightarrow> json \<Rightarrow> json \<Rightarrow> string \<Rightarrow> string \<Rightarrow> ('w, string option) eng" where
  "verify_recovered E e verification now result =
     (let v = settled_fields verification
                [(''finished_at'', JStr now), (''status'', JStr ''succeeded''),
                 (''external_reference'', idx e ''idempotency_key''),
                 (''evidence'', JObj [(''source'', JStr ''recipient-primary''), (''receipt_present'', JBool True),
                                    (''result'', JStr result)])];
          e' = settled_fields e [(''status'', JStr ''succeeded''), (''result'', JStr result), (''finished_at'', JStr now)]
      in ebind (modify (push_attempt v))
           (\<lambda>_. ebind (audit E ''tool_attempt_settled'' v)
              (\<lambda>_. ebind (modify (stage_execution e'))
                 (\<lambda>_. ebind (action_checkpoint E (status_event ''Recovered the committed recipient outcome.''))
                    (\<lambda>_. ret (Some result))))))"

definition verify_unknown :: "'w env \<Rightarrow> json \<Rightarrow> string \<Rightarrow> ('w, string option) eng" where
  "verify_unknown E verification now =
     (let v = settled_fields verification
                [(''finished_at'', JStr now), (''status'', JStr ''uncertain''),
                 (''evidence'', JObj [(''source'', JStr ''recipient-primary''), (''outcome'', JStr ''unknown'')])]
      in ebind (modify (push_attempt v))
           (\<lambda>_. ebind (audit E ''tool_attempt_settled'' v)
              (\<lambda>_. ebind (action_checkpoint E (status_event ''Recipient evidence did not establish an outcome.''))
                 (\<lambda>_. ret None))))"

definition dispatch_verify :: "'w env \<Rightarrow> lib \<Rightarrow> json \<Rightarrow> int \<Rightarrow> ('w, string option) eng" where
  "dispatch_verify E L e ordinal =
     ebind (ask (env_uuid E)) (\<lambda>u. ebind (ask (env_now E))
       (\<lambda>now. ebind (gets (\<lambda>s. attempt_record s e u ''verify'' ordinal now))
          (\<lambda>verification. ebind (modify (push_attempt verification))
             (\<lambda>_. ebind (audit E ''tool_attempt'' verification)
                (\<lambda>_. ebind (action_checkpoint E (status_event ''Verifying the original recipient receipt.''))
                   (\<lambda>_. ebind (gets namespace_of)
                      (\<lambda>namespace. ebind (ask (query_receipt E namespace (as_str (idx e ''idempotency_key''))))
                         (\<lambda>receipt. ebind (ask (env_now E))
                            (\<lambda>now'. case receipt of
                               Some (fingerprint, result) \<Rightarrow>
                                 if idx e ''payload_sha256'' = JStr fingerprint
                                 then ebind (lift (canonical L result)) (verify_recovered E e verification now')
                                 else verify_unknown E verification now'
                             | None \<Rightarrow> verify_unknown E verification now')))))))))"

section \<open>The recipient\<close>

definition receipt_value :: "string \<Rightarrow> json \<Rightarrow> json" where
  "receipt_value key args = JObj [(''effect_id'', JStr key), (''value'', idx args ''value'')]"

definition insert_receipt :: "receipts \<Rightarrow> string \<Rightarrow> string \<Rightarrow> string \<Rightarrow> json \<Rightarrow> receipts" where
  "insert_receipt tbl namespace key fingerprint result =
     (if tbl (namespace, key) = None then tbl((namespace, key) \<mapsto> (fingerprint, result)) else tbl)"

text \<open>One statement of the transaction: an error ends it and rolls it back.\<close>

definition statement :: "'w env \<Rightarrow> ('w, unit) eng" where
  "statement E = ebind (ask (env_statement E)) (\<lambda>err. case err of None \<Rightarrow> ret () | Some e \<Rightarrow> fail e)"

definition commit_receipts :: "'w env \<Rightarrow> receipts \<Rightarrow> ('w, unit) eng" where
  "commit_receipts E tbl =
     ebind (ask (\<lambda>w. case env_commit E w of ((err, applied), w') \<Rightarrow>
                       (err, if applied then env_set_receipts E tbl w' else w')))
       (\<lambda>err. case err of None \<Rightarrow> ret () | Some e \<Rightarrow> fail e)"

definition recipient :: "'w env \<Rightarrow> lib \<Rightarrow> string \<Rightarrow> string \<Rightarrow> json \<Rightarrow> ('w, string) eng" where
  "recipient E L namespace key args =
     ebind (lift (payload_key L write_tool receipts_target args))
       (\<lambda>fingerprint. ebind (statement E)
          (\<lambda>_. ebind (statement E)
             (\<lambda>_. ebind (ask (\<lambda>w. (insert_receipt (env_receipts E w) namespace key fingerprint (receipt_value key args), w)))
                (\<lambda>tbl. ebind (statement E)
                   (\<lambda>_. case tbl (namespace, key) of
                          None \<Rightarrow> fail ''no row''
                        | Some (stored, result) \<Rightarrow>
                            if stored \<noteq> fingerprint then fail ''recipient payload mismatch''
                            else ebind (commit_receipts E tbl) (\<lambda>_. lift (canonical L result)))))))"

section \<open>Dispatch\<close>

definition recovery_error :: "string \<Rightarrow> json" where
  "recovery_error message =
     JObj [(''code'', JStr ''recovery_required''), (''message'', JStr message), (''recoverable'', JBool True)]"

definition mark_blocked :: "string \<Rightarrow> session \<Rightarrow> session" where
  "mark_blocked message s =
     s\<lparr>s_status := ''failed'', s_run_status := ''blocked'', s_last_error := Some (recovery_error message)\<rparr>"

definition needs_operator :: "string \<Rightarrow> json \<Rightarrow> bool" where
  "needs_operator t e \<longleftrightarrow>
     idx e ''status'' \<noteq> JStr ''pending'' \<and> mode_of e \<notin> {''read_only'', ''repeatable''}
     \<and> \<not> (mode_of e = ''idempotent'' \<and> t = write_tool)"

definition dispatch_block :: "'w env \<Rightarrow> json \<Rightarrow> ('w, string) eng" where
  "dispatch_block E e =
     (let e' = set_idx e ''status'' (JStr ''blocked'')
      in ebind (modify (mark_blocked ''Safe recovery requires operator resolution''))
           (\<lambda>_. ebind (modify (stage_execution e'))
              (\<lambda>_. ebind (audit E ''tool_recovery_required'' e')
                 (\<lambda>_. ebind (action_checkpoint E (event ''error''
                               [(''code'', JStr ''recovery_required''),
                                (''message'', JStr ''Authoritative reconciliation is required''),
                                (''recoverable'', JBool True)]))
                    (\<lambda>_. fail ''recovery_required'')))))"

definition attempts_of :: "json \<Rightarrow> int" where
  "attempts_of e = unwrap_or 0 (as_i64 (idx e ''attempts''))"

definition max_attempts_of :: "json \<Rightarrow> int" where
  "max_attempts_of e = unwrap_or 2 (as_i64 (idx (idx e ''policy'') ''max_attempts''))"

definition started_execution :: "string \<Rightarrow> json \<Rightarrow> json" where
  "started_execution now e =
     (let e1 = set_idx (set_idx e ''status'' (JStr ''started'')) ''attempts'' (json_int (attempts_of e + 1))
      in if get e1 ''started_at'' = None then set_idx e1 ''started_at'' (JStr now) else e1)"

text \<open>Journal the attempt; the result is the attempt and the started execution.\<close>

definition dispatch_start :: "'w env \<Rightarrow> json \<Rightarrow> int \<Rightarrow> ('w, json \<times> json) eng" where
  "dispatch_start E e ordinal =
     ebind (ask (env_now E)) (\<lambda>now. ebind (ask (env_uuid E))
       (\<lambda>u. ebind (gets (\<lambda>s. attempt_record s e u ''dispatch'' (ordinal + 1) now))
          (\<lambda>attempt. let e' = started_execution now e
             in ebind (modify (push_attempt attempt))
                  (\<lambda>_. ebind (modify (stage_execution e'))
                     (\<lambda>_. ebind (audit E ''tool_attempt'' attempt)
                        (\<lambda>_. ebind (action_checkpoint E (event ''tool_started''
                                      [(''execution_id'', idx e' ''execution_id''), (''attempt'', json_int (attempts_of e + 1))]))
                           (\<lambda>_. ret (attempt, e'))))))))"

text \<open>Run the tool: \<open>Inl\<close> is a failure whose outcome is unknown.\<close>

definition execute_tool :: "'w env \<Rightarrow> lib \<Rightarrow> json \<Rightarrow> string \<Rightarrow> json \<Rightarrow> ('w, string result) eng" where
  "execute_tool E L e t args =
     (if t = write_tool
      then (\<lambda>(s, w). case recipient E L (namespace_of s) (unwrap_or [] (as_str (idx e ''idempotency_key''))) args (s, w) of
              (r, s', w') \<Rightarrow> (Ok r, s', w'))
      else ebind (ask (env_tool E t (unwrap_or [] (as_object args)))) (\<lambda>out. ret (Ok out)))"

definition dispatch_settle :: "'w env \<Rightarrow> json \<Rightarrow> json \<Rightarrow> string \<Rightarrow> string \<Rightarrow> ('w, string) eng" where
  "dispatch_settle E e attempt now result =
     (let status = (if is_error_output result then ''failed'' else ''succeeded'');
          a = settled_fields attempt [(''finished_at'', JStr now), (''status'', JStr status),
                                     (''evidence'', JObj [(''result'', JStr result)])];
          e' = settled_fields e [(''status'', JStr status), (''result'', JStr result), (''finished_at'', JStr now)]
      in ebind (modify (push_attempt a))
           (\<lambda>_. ebind (audit E ''tool_attempt_settled'' a)
              (\<lambda>_. ebind (modify (stage_execution e'))
                 (\<lambda>_. ebind (audit E ''tool_outcome'' (JObj [(''execution_id'', idx e' ''execution_id''),
                                 (''status'', JStr status), (''result'', JStr result)]))
                    (\<lambda>_. ebind (action_checkpoint E (event ''tool_settled'' [(''execution_id'', idx e' ''execution_id'')]))
                       (\<lambda>_. ret result))))))"

definition dispatch_uncertain :: "'w env \<Rightarrow> json \<Rightarrow> json \<Rightarrow> string \<Rightarrow> string \<Rightarrow> ('w, string) eng" where
  "dispatch_uncertain E e attempt now err =
     (let a = settled_fields attempt [(''finished_at'', JStr now), (''status'', JStr ''uncertain''),
                                     (''error'', JObj [(''message'', JStr err)])]
      in ebind (modify (mark_blocked ''Action outcome is uncertain''))
           (\<lambda>_. ebind (modify (push_attempt a))
              (\<lambda>_. ebind (audit E ''tool_attempt_settled'' a)
                 (\<lambda>_. ebind (modify (stage_execution (set_idx e ''status'' (JStr ''uncertain''))))
                    (\<lambda>_. ebind (action_checkpoint E (event ''error''
                                  [(''code'', JStr ''recovery_required''), (''message'', JStr ''Action outcome is uncertain''),
                                   (''recoverable'', JBool True)]))
                       (\<lambda>_. fail ''recovery_required''))))))"

definition dispatch_attempt :: "'w env \<Rightarrow> lib \<Rightarrow> json \<Rightarrow> int \<Rightarrow> string \<Rightarrow> json \<Rightarrow> ('w, string) eng" where
  "dispatch_attempt E L e ordinal t args =
     (if needs_operator t e then dispatch_block E e
      else if attempts_of e \<ge> max_attempts_of e then fail ''recovery_required: action dispatch bound reached''
      else if mode_of e = ''idempotent'' \<and> t \<noteq> write_tool
      then fail ''recovery_required: no trusted recipient guarantee''
      else ebind (dispatch_start E e ordinal)
        (\<lambda>(attempt, e'). ebind (execute_tool E L e' t args)
           (\<lambda>out. ebind (ask (env_now E))
              (\<lambda>now. case out of
                 Inr result \<Rightarrow> dispatch_settle E e' attempt now result
               | Inl err \<Rightarrow> dispatch_uncertain E e' attempt now err))))"

definition dispatch_recover :: "'w env \<Rightarrow> lib \<Rightarrow> json \<Rightarrow> string \<Rightarrow> json \<Rightarrow> ('w, string) eng" where
  "dispatch_recover E L e t args =
     ebind (settle_prior E e)
       (\<lambda>_. if idx e ''status'' \<noteq> JStr ''pending'' \<and> mode_of e = ''reconcile'' \<and> t = write_tool
            then ebind (dispatch_verify E L e (last_ordinal e + 1))
                   (\<lambda>r. case r of Some result \<Rightarrow> ret result
                      | None \<Rightarrow> dispatch_attempt E L e (last_ordinal e + 1) t args)
            else dispatch_attempt E L e (last_ordinal e) t args)"

definition dispatch :: "'w env \<Rightarrow> lib \<Rightarrow> config \<Rightarrow> string \<Rightarrow> string \<Rightarrow> json \<Rightarrow> ('w, string) eng" where
  "dispatch E L cfg call t args =
     ebind (dispatch_intent E L cfg call t args)
       (\<lambda>e. ebind (gets (\<lambda>s. check_identity L s t args e))
          (\<lambda>ok. ebind (lift ok)
             (\<lambda>_. if is_terminal e
                  then lift (ok_or ''terminal action lacks result'' (as_str (idx e ''result'')))
                  else dispatch_recover E L e t args)))"

section \<open>No unsafe repetition\<close>

text \<open>
  \<open>silent E P\<close>: the property \<open>P\<close> of the world is untouched by identifiers, clock, checkpoints
  and database statements, so only running a tool or committing a receipt can end it.  A
  dispatch that keeps every such property has not run the tool.
\<close>

definition silent :: "'w env \<Rightarrow> ('w \<Rightarrow> bool) \<Rightarrow> bool" where
  "silent E P \<longleftrightarrow>
     (\<forall>w. P w \<longrightarrow> P (snd (env_uuid E w)) \<and> P (snd (env_now E w)) \<and> P (snd (env_statement E w))
            \<and> (\<forall>ev s. P (snd (env_emit E ev s w))))"

abbreviation world :: "('w \<Rightarrow> bool) \<Rightarrow> session \<Rightarrow> 'w \<Rightarrow> bool" where
  "world P \<equiv> (\<lambda>s w. P w)"

named_theorems silent_keeps \<open>operations that run no tool\<close>

lemma keeps_world_modify [simp, silent_keeps]: "keeps (world P) (modify f)"
  by (rule keeps_modify)

lemma silent_ask [silent_keeps]:
  assumes "silent E P"
  shows "keeps (world P) (ask (env_uuid E))" "keeps (world P) (ask (env_now E))" "keeps (world P) (ask (env_statement E))"
  using assms by (auto intro!: keeps_ask simp: silent_def)

lemma silent_emit [silent_keeps]: "silent E P \<Longrightarrow> keeps (world P) (emit E ev)"
  by (auto simp: keeps_def emit_def silent_def split: prod.splits) (metis snd_conv)

lemma silent_acknowledge [silent_keeps]: "keeps (world P) acknowledge"
  by (simp add: acknowledge_def keeps_ebind)

lemma silent_audit [silent_keeps]: "silent E P \<Longrightarrow> keeps (world P) (audit E kind body)"
  by (simp add: audit_def keeps_ebind silent_ask)

lemma silent_action_checkpoint [silent_keeps]: "silent E P \<Longrightarrow> keeps (world P) (action_checkpoint E ev)"
  unfolding action_checkpoint_def
  by (intro keeps_ebind keeps_ewhen silent_emit silent_acknowledge keeps_pure silent_ask keeps_world_modify)

lemma silent_query [silent_keeps]: "silent E P \<Longrightarrow> keeps (world P) (ask (query_receipt E ns key))"
  by (intro keeps_ask) (auto simp: query_receipt_def silent_def split: prod.splits option.splits; metis snd_conv)

lemma silent_settle_prior [silent_keeps]: "silent E P \<Longrightarrow> keeps (world P) (settle_prior E e)"
  unfolding settle_prior_def
  by (intro keeps_ebind keeps_efor keeps_ewhen silent_keeps keeps_pure)

lemma silent_dispatch_verify [silent_keeps]:
  assumes "silent E P"
  shows "keeps (world P) (dispatch_verify E L e n)"
proof -
  have "keeps (world P) (verify_recovered E e v now r)" "keeps (world P) (verify_unknown E v now)" for v now r
    unfolding verify_recovered_def verify_unknown_def Let_def
    by (intro keeps_ebind silent_keeps keeps_pure assms)+
  then have "keeps (world P) (case receipt of
        Some (fingerprint, result) \<Rightarrow>
          if idx e ''payload_sha256'' = JStr fingerprint
          then ebind (lift (canonical L result)) (verify_recovered E e v now)
          else verify_unknown E v now
      | None \<Rightarrow> verify_unknown E v now)" for receipt v now
    by (auto split: option.split prod.split)
  then show ?thesis
    unfolding dispatch_verify_def
    by (intro keeps_ebind silent_keeps keeps_pure assms)
qed

lemma silent_dispatch_block [silent_keeps]: "silent E P \<Longrightarrow> keeps (world P) (dispatch_block E e)"
  unfolding dispatch_block_def Let_def
  by (intro keeps_ebind silent_keeps keeps_pure)

lemma silent_dispatch_intent [silent_keeps]:
  assumes "silent E P"
  shows "keeps (world P) (dispatch_intent E L cfg call t args)"
  unfolding dispatch_intent_def
  by (intro keeps_ebind keeps_pure)
     (auto split: option.split intro!: keeps_ebind silent_keeps assms)

definition forbidden_attempt :: "string \<Rightarrow> json \<Rightarrow> bool" where
  "forbidden_attempt t e \<longleftrightarrow>
     needs_operator t e \<or> attempts_of e \<ge> max_attempts_of e \<or> mode_of e = ''idempotent'' \<and> t \<noteq> write_tool"

lemma silent_forbidden_attempt:
  "silent E P \<Longrightarrow> forbidden_attempt t e \<Longrightarrow> keeps (world P) (dispatch_attempt E L e n t args)"
  by (auto simp: dispatch_attempt_def forbidden_attempt_def silent_dispatch_block)

lemma silent_forbidden_recover:
  assumes "silent E P" "forbidden_attempt t e"
  shows "keeps (world P) (dispatch_recover E L e t args)"
proof -
  have "keeps (world P) (case r of Some result \<Rightarrow> ret result | None \<Rightarrow> dispatch_attempt E L e n t args)" for r n
    using silent_forbidden_attempt [OF assms] by (simp split: option.split)
  then show ?thesis
    unfolding dispatch_recover_def
    by (intro keeps_ebind keeps_if silent_keeps silent_forbidden_attempt assms)
qed

definition journalled :: "string \<Rightarrow> json \<Rightarrow> session \<Rightarrow> bool" where
  "journalled call e s \<longleftrightarrow> find (\<lambda>e. idx e ''call_id'' = JStr call) (s_executions s) = Some e"

lemma dispatch_journalled:
  assumes "journalled call e s"
  shows "dispatch E L cfg call t args (s, w) =
     (case check_identity L s t args e of
        Inl err \<Rightarrow> (Err err, s, w)
      | Inr _ \<Rightarrow> (if is_terminal e then (ok_or ''terminal action lacks result'' (as_str (idx e ''result'')), s, w)
                 else dispatch_recover E L e t args (s, w)))"
  using assms
  by (simp add: dispatch_def dispatch_intent_def journalled_def ebind_def eng_simps split: sum.splits)

lemma dispatch_forbidden:
  assumes "silent E P" "journalled call e s" "forbidden_attempt t e" "P w"
    and run: "dispatch E L cfg call t args (s, w) = (r, s', w')"
  shows "P w'"
  using assms silent_forbidden_recover [OF assms(1,3), of L args]
  by (auto simp: dispatch_journalled keeps_def split: sum.splits if_splits)

text \<open>Nothing runs before its journal entries are accepted.\<close>

lemma emit_fails:
  assumes "\<And>ev s w. \<exists>e. fst (fst (env_emit E ev s w)) = Inl e"
  shows "fst (action_checkpoint E ev (s, w)) \<noteq> Ok u"
proof
  assume "fst (action_checkpoint E ev (s, w)) = Ok u"
  then obtain t v where "action_checkpoint E ev (s, w) = (Ok u, t, v)"
    by (cases "action_checkpoint E ev (s, w)") auto
  then obtain s1 w1 t1 v1 where "emit E ev (s1, w1) = (Ok (), t1, v1)"
    by (auto simp: action_checkpoint_def ebind_Ok)
  then show False using assms [of ev s1 w1] by (auto simp: emit_def split: prod.splits)
qed

lemma dispatch_write_ahead:
  assumes sil: "silent E P" and refused: "\<And>ev s w. \<exists>e. fst (fst (env_emit E ev s w)) = Inl e"
  shows "keeps (world P) (dispatch E L cfg call t args)"
proof -
  have start: "keeps (world P) (dispatch_start E e n)" for e n
    unfolding dispatch_start_def Let_def
    by (intro keeps_ebind silent_keeps keeps_pure sil)
  have never: "dispatch_start E e n (s, w) \<noteq> (Ok x, s', w')" for e n s w x s' w'
  proof
    assume "dispatch_start E e n (s, w) = (Ok x, s', w')"
    then obtain ev s1 w1 t v where "action_checkpoint E ev (s1, w1) = (Ok (), t, v)"
      by (auto simp: dispatch_start_def Let_def ebind_Ok)
    then show False using emit_fails [OF refused, where ev = ev and s = s1 and w = w1 and u = "()"] by simp
  qed
  have stop: "keeps (world P) (ebind (dispatch_start E e n) f)" for e n and f :: "json \<times> json \<Rightarrow> ('a, string) eng"
    unfolding keeps_def
  proof (intro allI impI)
    fix s w r s' w'
    assume P: "P w" and run: "ebind (dispatch_start E e n) f (s, w) = (r, s', w')"
    obtain a s1 w1 where d: "dispatch_start E e n (s, w) = (a, s1, w1)"
      by (cases "dispatch_start E e n (s, w)") auto
    then obtain err where "a = Inl err" using never [of e n s w] by (cases a) auto
    then have "w' = w1" using run d by (simp add: ebind_def)
    then show "P w'" using start [of e n] d P by (auto simp: keeps_def)
  qed
  have att: "keeps (world P) (dispatch_attempt E L e n t args)" for e n
    unfolding dispatch_attempt_def
    by (intro keeps_if silent_dispatch_block sil keeps_pure stop)
  have "keeps (world P) (case r of Some result \<Rightarrow> ret result | None \<Rightarrow> dispatch_attempt E L e n t args)" for r e n
    using att by (simp split: option.split)
  then show ?thesis
    unfolding dispatch_def dispatch_recover_def
    by (intro keeps_ebind keeps_if silent_keeps keeps_pure sil att)
qed

section \<open>Receipts are written once\<close>

text \<open>
  What the model needs of the database: a table read back is the table written, and nothing
  but a commit of this table changes it.
\<close>

definition receipts_env :: "'w env \<Rightarrow> bool" where
  "receipts_env E \<longleftrightarrow>
     (\<forall>w t. env_receipts E (env_set_receipts E t w) = t)
     \<and> (\<forall>w. env_receipts E (snd (env_uuid E w)) = env_receipts E w
          \<and> env_receipts E (snd (env_now E w)) = env_receipts E w
          \<and> env_receipts E (snd (env_statement E w)) = env_receipts E w
          \<and> env_receipts E (snd (env_commit E w)) = env_receipts E w
          \<and> (\<forall>ev s. env_receipts E (snd (env_emit E ev s w)) = env_receipts E w)
          \<and> (\<forall>t a. env_receipts E (snd (env_tool E t a w)) = env_receipts E w))"

lemma receipts_silent: "receipts_env E \<Longrightarrow> silent E (\<lambda>w. env_receipts E w = T)"
  by (auto simp: receipts_env_def silent_def)

text \<open>A recipient call runs the statements on the table it read and commits that one table.\<close>

lemma insert_receipt_keeps: "tbl k = Some v \<Longrightarrow> insert_receipt tbl ns key fp res k = Some v"
  by (auto simp: insert_receipt_def)

lemma statement_Ok:
  "statement E (s, w) = (Ok u, s', w') \<longleftrightarrow> env_statement E w = (None, w') \<and> s' = s"
  by (cases "env_statement E w") (auto simp: statement_def ebind_Ok eng_simps split: option.splits)

lemma recipient_keeps_receipts:
  assumes env: "receipts_env E"
  shows "keeps (world (\<lambda>w. env_receipts E w k = Some v)) (recipient E L ns key args)"
  unfolding keeps_def
proof (intro allI impI)
  fix s w r s' w'
  assume k: "env_receipts E w k = Some v" and run: "recipient E L ns key args (s, w) = (r, s', w')"
  note laws = env [unfolded receipts_env_def]
  obtain e1 w1 where w1: "env_statement E w = (e1, w1)" by (cases "env_statement E w")
  obtain e2 w2 where w2: "env_statement E w1 = (e2, w2)" by (cases "env_statement E w1")
  obtain e3 w3 where w3: "env_statement E w2 = (e3, w3)" by (cases "env_statement E w2")
  obtain e4 ap w4 where w4: "env_commit E w3 = ((e4, ap), w4)" by (cases "env_commit E w3") auto
  have same: "env_receipts E w1 = env_receipts E w" "env_receipts E w2 = env_receipts E w"
    "env_receipts E w3 = env_receipts E w" "env_receipts E w4 = env_receipts E w"
    using laws w1 w2 w3 w4 by (metis snd_conv)+
  have ins: "insert_receipt (env_receipts E w2) ns key fp (receipt_value key args) k = Some v" for fp
    using insert_receipt_keeps k same(2) by metis
  show "env_receipts E w' k = Some v"
    using run w1 w2 w3 w4 same k ins laws
    by (auto simp: recipient_def statement_def commit_receipts_def ebind_def eng_simps
        split: sum.splits option.splits prod.splits if_splits)
qed

text \<open>A repeated write with the same payload returns the stored outcome and changes nothing.\<close>

lemma recipient_repeat:
  assumes "receipts_env E" "payload_key L write_tool receipts_target args = Ok fp"
    "env_receipts E w (ns, key) = Some (fp, result)"
    "recipient E L ns key args (s, w) = (Ok out, s', w')"
  shows "canonical L result = Ok out \<and> env_receipts E w' = env_receipts E w"
proof -
  note laws = assms(1) [unfolded receipts_env_def]
  obtain e1 w1 where w1: "env_statement E w = (e1, w1)" by (cases "env_statement E w")
  obtain e2 w2 where w2: "env_statement E w1 = (e2, w2)" by (cases "env_statement E w1")
  obtain e3 w3 where w3: "env_statement E w2 = (e3, w3)" by (cases "env_statement E w2")
  obtain e4 ap w4 where w4: "env_commit E w3 = ((e4, ap), w4)" by (cases "env_commit E w3") auto
  have same: "env_receipts E w1 = env_receipts E w" "env_receipts E w2 = env_receipts E w"
    "env_receipts E w3 = env_receipts E w" "env_receipts E w4 = env_receipts E w"
    using laws w1 w2 w3 w4 by (metis snd_conv)+
  have ins: "insert_receipt (env_receipts E w2) ns key fp (receipt_value key args) = env_receipts E w"
    using assms(3) same(2) by (simp add: insert_receipt_def)
  show ?thesis
    using assms(2,3,4) w1 w2 w3 w4 same ins laws
    by (auto simp: recipient_def statement_def commit_receipts_def ebind_def eng_simps
        split: sum.splits option.splits prod.splits if_splits)
qed

lemma receipt_silent: "receipts_env E \<Longrightarrow> silent E (\<lambda>w. env_receipts E w k = Some v)"
  by (auto simp: receipts_env_def silent_def)

lemma dispatch_keeps_receipts:
  assumes env: "receipts_env E"
  shows "keeps (world (\<lambda>w. env_receipts E w k = Some v)) (dispatch E L cfg call t args)"
proof -
  let ?P = "\<lambda>w. env_receipts E w k = Some v"
  note sil = receipt_silent [OF env, of k v]
  have exec: "keeps (world ?P) (execute_tool E L e t args)" for e
  proof (cases "t = write_tool")
    case True
    then show ?thesis
      using recipient_keeps_receipts [OF env, of k v L _ _ args]
      by (force simp: execute_tool_def keeps_def split: prod.splits)
  next
    case False
    have "keeps (world ?P) (ask (env_tool E t (unwrap_or [] (as_object args))))"
      using env by (intro keeps_ask) (auto simp: receipts_env_def)
    then show ?thesis using False by (simp add: execute_tool_def keeps_ebind)
  qed
  have ends: "keeps (world ?P) (dispatch_settle E e a now r)" "keeps (world ?P) (dispatch_uncertain E e a now r)" for e a now r
    unfolding dispatch_settle_def dispatch_uncertain_def Let_def
    by (intro keeps_ebind silent_keeps keeps_pure sil)+
  have fin: "keeps (world ?P) (case out of Inr result \<Rightarrow> dispatch_settle E e a now result
      | Inl err \<Rightarrow> dispatch_uncertain E e a now err)" for out e a now
    using ends by (simp split: sum.split)
  have start: "keeps (world ?P) (dispatch_start E e n)" for e n
    unfolding dispatch_start_def Let_def
    by (intro keeps_ebind silent_keeps keeps_pure sil)
  have att: "keeps (world ?P) (dispatch_attempt E L e n t args)" for e n
    unfolding dispatch_attempt_def
    by (intro keeps_if keeps_ebind silent_keeps sil keeps_pure start)
       (auto intro!: keeps_ebind exec fin silent_ask sil)
  have "keeps (world ?P) (case r of Some result \<Rightarrow> ret result | None \<Rightarrow> dispatch_attempt E L e n t args)" for r e n
    using att by (simp split: option.split)
  then show ?thesis
    unfolding dispatch_def dispatch_recover_def
    by (intro keeps_ebind keeps_if silent_keeps keeps_pure sil att)
qed

section \<open>A settled action is replayed, not repeated\<close>

lemma idx_call_object: "idx e k = JStr x \<Longrightarrow> is_object e"
  by (cases e) (simp_all add: idx_def is_object_def)

lemma find_replace_execution:
  assumes "find (\<lambda>v. idx v ''call_id'' = JStr call) xs = Some e" "same_execution e' e" "idx e' ''call_id'' = JStr call"
  shows "find (\<lambda>v. idx v ''call_id'' = JStr call) (replace_execution e' xs) = Some e'"
  using assms by (induction xs) (auto split: if_splits)

lemma find_stage_new:
  assumes "find (\<lambda>v. idx v ''call_id'' = JStr call) xs = None" "idx e ''call_id'' = JStr call"
  shows "find (\<lambda>v. idx v ''call_id'' = JStr call) (replace_execution e xs) = Some e"
  using assms by (induction xs) (auto split: if_splits)

text \<open>The journalled execution of a call, in a session with the given identity.\<close>

definition holds :: "string \<Rightarrow> json \<Rightarrow> session \<Rightarrow> session \<Rightarrow> bool" where
  "holds call e s0 s \<longleftrightarrow>
     journalled call e s \<and> s_id s = s_id s0 \<and> s_command s = s_command s0 \<and> s_run_command_id s = s_run_command_id s0"

abbreviation sess :: "(session \<Rightarrow> bool) \<Rightarrow> session \<Rightarrow> 'w \<Rightarrow> bool" where
  "sess Q \<equiv> (\<lambda>s w. Q s)"

named_theorems hold_keeps \<open>operations that leave the journalled execution\<close>

lemma hold_ask [hold_keeps]: "keeps (sess Q) (ask f)"
  by (rule keeps_ask)

lemma hold_emit [hold_keeps]: "keeps (sess (holds call e s0)) (emit E ev)"
  by (auto simp: keeps_def emit_def holds_def journalled_def split: prod.splits)

lemma hold_acknowledge [hold_keeps]: "keeps (sess (holds call e s0)) acknowledge"
  unfolding acknowledge_def
  by (intro keeps_ebind keeps_if keeps_modify keeps_pure)
     (auto simp: holds_def journalled_def acknowledge_checkpoint_def clear_outboxes_def split: option.splits)

lemma hold_audit [hold_keeps]: "keeps (sess (holds call e s0)) (audit E kind body)"
  unfolding audit_def
  by (intro keeps_ebind hold_ask keeps_modify) (simp add: holds_def journalled_def)

lemma hold_push [hold_keeps]: "keeps (sess (holds call e s0)) (modify (push_attempt a))"
  by (rule keeps_modify) (simp add: holds_def journalled_def push_attempt_def)

lemma hold_action_checkpoint [hold_keeps]: "keeps (sess (holds call e s0)) (action_checkpoint E ev)"
  unfolding action_checkpoint_def
  by (intro keeps_ebind keeps_ewhen hold_keeps keeps_pure keeps_modify)
     (simp add: holds_def journalled_def close_blocked_def)

lemma hold_stage:
  assumes "holds call e s0 s" "same_execution e' e" "idx e' ''call_id'' = JStr call"
  shows "holds call e' s0 (stage_execution e' s)"
  using assms find_replace_execution [of call "s_executions s" e e'] by (simp add: holds_def journalled_def stage_execution_def)

lemma check_identity_frame:
  assumes "is_object e" "k \<notin> set [''namespace'', ''target'', ''key_algorithm'', ''execution_id'', ''idempotency_key'',
      ''tool'', ''arguments'', ''payload_sha256'']"
  shows "check_identity L s t args (set_idx e k v) = check_identity L s t args e"
proof -
  have same: "idx (set_idx e k v) ''namespace'' = idx e ''namespace''" "idx (set_idx e k v) ''target'' = idx e ''target''"
    "idx (set_idx e k v) ''key_algorithm'' = idx e ''key_algorithm''"
    "idx (set_idx e k v) ''execution_id'' = idx e ''execution_id''"
    "idx (set_idx e k v) ''idempotency_key'' = idx e ''idempotency_key''" "idx (set_idx e k v) ''tool'' = idx e ''tool''"
    "idx (set_idx e k v) ''arguments'' = idx e ''arguments''"
    "idx (set_idx e k v) ''payload_sha256'' = idx e ''payload_sha256''"
    using assms by (auto simp: idx_set_idx)
  show ?thesis unfolding check_identity_def same ..
qed

definition sound :: "lib \<Rightarrow> session \<Rightarrow> string \<Rightarrow> string \<Rightarrow> json \<Rightarrow> json \<Rightarrow> bool" where
  "sound L s0 call t args e \<longleftrightarrow> idx e ''call_id'' = JStr call \<and> check_identity L s0 t args e = Ok ()"

lemma sound_object: "sound L s0 call t args e \<Longrightarrow> is_object e"
  by (auto simp: sound_def intro: idx_call_object)

lemma sound_execution_id: "sound L s0 call t args e \<Longrightarrow> \<exists>i. idx e ''execution_id'' = JStr i"
  by (auto simp: sound_def check_identity_def result_simps split: if_splits elim: as_str.elims)

lemma sound_set_idx:
  assumes "sound L s0 call t args e" "k \<in> {''status'', ''attempts'', ''started_at'', ''result'', ''finished_at''}"
  shows "sound L s0 call t args (set_idx e k v) \<and> same_execution (set_idx e k v) e"
proof -
  note o = sound_object [OF assms(1)]
  have k: "k \<notin> set [''namespace'', ''target'', ''key_algorithm'', ''execution_id'', ''idempotency_key'',
      ''tool'', ''arguments'', ''payload_sha256'']" "k \<noteq> ''call_id''" "k \<noteq> ''execution_id''"
    using assms(2) by auto
  obtain i where "idx e ''execution_id'' = JStr i" using sound_execution_id [OF assms(1)] by blast
  then show ?thesis
    using assms(1) k o check_identity_frame [OF o k(1)] by (simp add: sound_def same_execution_def idx_set_idx)
qed

lemma same_execution_trans:
  "sound L s0 call t args a \<Longrightarrow> same_execution b a \<Longrightarrow> same_execution c b \<Longrightarrow> same_execution c a"
  using sound_execution_id [of L s0 call t args a]
  by (cases "idx b ''execution_id''"; cases "idx c ''execution_id''") (auto simp: same_execution_def)

abbreviation ready :: "lib \<Rightarrow> session \<Rightarrow> string \<Rightarrow> string \<Rightarrow> json \<Rightarrow> json \<Rightarrow> session \<Rightarrow> bool" where
  "ready L s0 call t args e \<equiv> (\<lambda>s. holds call e s0 s \<and> sound L s0 call t args e)"

definition settled :: "lib \<Rightarrow> session \<Rightarrow> string \<Rightarrow> string \<Rightarrow> json \<Rightarrow> string \<Rightarrow> session \<Rightarrow> bool" where
  "settled L s0 call t args r s \<longleftrightarrow>
     (\<exists>e. holds call e s0 s \<and> sound L s0 call t args e \<and> is_terminal e \<and> idx e ''result'' = JStr r)"

lemma keeps_conj_const: "keeps (sess Q) m \<Longrightarrow> keeps (sess (\<lambda>s. Q s \<and> c)) m"
  unfolding keeps_def by blast

lemma ready_keeps:
  assumes "keeps (sess (holds call e s0)) m"
  shows "yields (ready L s0 call t args e) m (\<lambda>_. ready L s0 call t args e)"
  using yields_keeps [OF keeps_conj_const [OF assms]] .

lemma settled_keeps:
  assumes "\<And>e. keeps (sess (holds call e s0)) m"
  shows "yields (settled L s0 call t args r) m (\<lambda>_. settled L s0 call t args r)"
  using assms unfolding settled_def yields_def keeps_def by blast

text \<open>The three fields a settled execution receives.\<close>

lemma stage_settled:
  assumes "holds call e s0 s" "sound L s0 call t args e" "st = ''succeeded'' \<or> st = ''failed''"
  shows "settled L s0 call t args r
     (stage_execution (settled_fields e [(''status'', JStr st), (''result'', JStr r), (''finished_at'', JStr now)]) s)"
proof -
  let ?a = "set_idx e ''status'' (JStr st)"
  let ?b = "set_idx ?a ''result'' (JStr r)"
  let ?c = "set_idx ?b ''finished_at'' (JStr now)"
  have a: "sound L s0 call t args ?a" "same_execution ?a e" using sound_set_idx [OF assms(2)] by simp_all
  have b: "sound L s0 call t args ?b" "same_execution ?b ?a" using sound_set_idx [OF a(1)] by simp_all
  have c: "sound L s0 call t args ?c" "same_execution ?c ?b" using sound_set_idx [OF b(1)] by simp_all
  have o: "is_object e" using sound_object [OF assms(2)] .
  have same: "same_execution ?c e"
    using same_execution_trans [OF assms(2) a(2)] b c same_execution_trans [OF a(1) b(2) c(2)] by blast
  have "is_terminal ?c" "idx ?c ''result'' = JStr r"
    using o assms(3) by (auto simp: is_terminal_def status_of_def idx_set_idx)
  moreover have "holds call ?c s0 (stage_execution ?c s)"
    using hold_stage [OF assms(1) same] c(1) by (simp add: sound_def)
  ultimately show ?thesis using c(1) by (auto simp: settled_def settled_fields_def)
qed

lemma settle_yields:
  "yields (ready L s0 call t args e) (dispatch_settle E e a now r) (\<lambda>x s. settled L s0 call t args x s)"
  unfolding dispatch_settle_def Let_def
  apply (rule yields_ebind [OF ready_keeps [OF hold_push]])
  apply (rule yields_ebind [OF ready_keeps [OF hold_audit]])
  apply (rule yields_ebind [where R = "\<lambda>_. settled L s0 call t args r", OF yields_modify])
   apply (rule stage_settled; auto)
  apply (rule yields_ebind [OF settled_keeps [OF hold_audit]])
  apply (rule yields_ebind [OF settled_keeps [OF hold_action_checkpoint]])
  apply (rule yields_ret; simp)
  done

lemma uncertain_never: "yields Q (dispatch_uncertain E e a now err) R" "yields Q (dispatch_block E e) R"
  by (auto simp: yields_def dispatch_uncertain_def dispatch_block_def Let_def ebind_Ok eng_simps)

lemma verify_yields:
  "yields (ready L s0 call t args e) (dispatch_verify E L e n)
     (\<lambda>x s. case x of None \<Rightarrow> ready L s0 call t args e s | Some r \<Rightarrow> settled L s0 call t args r s)"
proof -
  let ?R = "\<lambda>x s. case x of None \<Rightarrow> ready L s0 call t args e s | Some r \<Rightarrow> settled L s0 call t args r s"
  have rec: "yields (ready L s0 call t args e) (verify_recovered E e v now r) ?R" for v now r
    unfolding verify_recovered_def Let_def
    apply (rule yields_ebind [OF ready_keeps [OF hold_push]])
    apply (rule yields_ebind [OF ready_keeps [OF hold_audit]])
    apply (rule yields_ebind [where R = "\<lambda>_. settled L s0 call t args r", OF yields_modify])
     apply (rule stage_settled; auto)
    apply (rule yields_ebind [OF settled_keeps [OF hold_action_checkpoint]])
    apply (rule yields_ret; simp)
    done
  have unk: "yields (ready L s0 call t args e) (verify_unknown E v now) ?R" for v now
    unfolding verify_unknown_def Let_def
    by (intro yields_ebind [OF ready_keeps] hold_keeps yields_ret) simp
  have lifted: "yields (ready L s0 call t args e) (ebind (lift r) (verify_recovered E e v now)) ?R" for r v now
    by (rule yields_ebind [OF yields_lift rec]) simp
  have last: "yields (ready L s0 call t args e) (case receipt of
        Some (fingerprint, result) \<Rightarrow>
          if idx e ''payload_sha256'' = JStr fingerprint
          then ebind (lift (canonical L result)) (verify_recovered E e v now)
          else verify_unknown E v now
      | None \<Rightarrow> verify_unknown E v now) ?R" for receipt v now
    using lifted unk by (simp split: option.split prod.split)
  show ?thesis
    unfolding dispatch_verify_def
    by (intro yields_ebind [OF ready_keeps] hold_keeps keeps_pure last)
qed

lemma started_sound:
  assumes "sound L s0 call t args e"
  shows "sound L s0 call t args (started_execution now e) \<and> same_execution (started_execution now e) e"
proof -
  let ?a = "set_idx e ''status'' (JStr ''started'')"
  let ?b = "set_idx ?a ''attempts'' (json_int (attempts_of e + 1))"
  have a: "sound L s0 call t args ?a" "same_execution ?a e" using sound_set_idx [OF assms] by simp_all
  have b: "sound L s0 call t args ?b" "same_execution ?b ?a" using sound_set_idx [OF a(1)] by simp_all
  have c: "sound L s0 call t args (set_idx ?b ''started_at'' (JStr now))"
    "same_execution (set_idx ?b ''started_at'' (JStr now)) ?b" using sound_set_idx [OF b(1)] by simp_all
  have ba: "same_execution ?b e" using same_execution_trans [OF assms a(2) b(2)] .
  show ?thesis
    using b(1) c(1) ba same_execution_trans [OF assms ba c(2)] by (simp add: started_execution_def Let_def)
qed

lemma start_yields:
  "yields (ready L s0 call t args e) (dispatch_start E e n) (\<lambda>(a, e') s. ready L s0 call t args e' s)"
proof -
  have stage: "yields (ready L s0 call t args e) (modify (stage_execution (started_execution now e)))
      (\<lambda>_. ready L s0 call t args (started_execution now e))" for now
    using started_sound hold_stage by (intro yields_modify) (auto simp: sound_def)
  show ?thesis
    unfolding dispatch_start_def Let_def
    by (intro yields_ebind [OF ready_keeps] yields_ebind [OF stage] hold_keeps keeps_pure yields_ret) simp
qed

lemma execute_session: "execute_tool E L e t args (s, w) = (r, s', w') \<Longrightarrow> s' = s"
proof (cases "t = write_tool")
  case True
  have "recipient E L ns key args (s, w) = (x, s', w') \<Longrightarrow> s' = s" for ns key x
    by (auto simp: recipient_def statement_def commit_receipts_def ebind_def eng_simps
        split: sum.splits option.splits prod.splits if_splits)
  then show "execute_tool E L e t args (s, w) = (r, s', w') \<Longrightarrow> s' = s"
    using True by (auto simp: execute_tool_def split: prod.splits)
qed (auto simp: execute_tool_def ebind_def eng_simps)

lemma attempt_yields:
  "yields (ready L s0 call t args e) (dispatch_attempt E L e n t args) (settled L s0 call t args)"
proof -
  have exec: "yields (ready L s0 call t args e') (execute_tool E L e' t args) (\<lambda>_. ready L s0 call t args e')" for e'
    by (rule yields_keeps) (auto simp: keeps_def dest: execute_session)
  have fin: "yields (ready L s0 call t args e') (case out of Inr result \<Rightarrow> dispatch_settle E e' a now result
      | Inl err \<Rightarrow> dispatch_uncertain E e' a now err) (settled L s0 call t args)" for e' a now out
    by (cases out) (simp_all add: settle_yields uncertain_never)
  have run: "yields (ready L s0 call t args e') (ebind (execute_tool E L e' t args) (\<lambda>out. ebind (ask (env_now E))
      (\<lambda>now. case out of Inr result \<Rightarrow> dispatch_settle E e' a now result
        | Inl err \<Rightarrow> dispatch_uncertain E e' a now err))) (settled L s0 call t args)" for e' a
    by (rule yields_ebind [OF exec], rule yields_ebind [OF ready_keeps [OF hold_ask] fin])
  show ?thesis
    unfolding dispatch_attempt_def
    by (auto simp: uncertain_never intro!: yields_ebind [OF start_yields] run)
qed

lemma new_execution_call: "new_execution L cfg s i call t args = Ok e \<Longrightarrow> idx e ''call_id'' = JStr call"
  by (auto simp: new_execution_def result_simps idx_def)

lemma stage_new_holds:
  assumes "idx e ''call_id'' = JStr call" "find (\<lambda>e. idx e ''call_id'' = JStr call) (s_executions s) = None"
  shows "yields (\<lambda>x. x = s) (ebind (modify (stage_execution e)) (\<lambda>_. ebind (audit E k e)
      (\<lambda>_. ebind (action_checkpoint E ev) (\<lambda>_. ret e)))) (\<lambda>e x. holds call e s x)"
proof -
  have "yields (\<lambda>x. x = s) (modify (stage_execution e)) (\<lambda>_. holds call e s)"
    using find_stage_new [OF assms(2,1)]
    by (intro yields_modify) (simp add: holds_def journalled_def stage_execution_def)
  then show ?thesis
    by (rule yields_ebind)
       (intro yields_ebind [OF yields_keeps [OF hold_audit]] yields_ebind [OF yields_keeps [OF hold_action_checkpoint]] yields_ret)
qed

lemma intent_holds:
  assumes run: "dispatch_intent E L cfg call t args (s, w) = (Ok e, s', w')"
  shows "holds call e s s'"
proof (cases "find (\<lambda>e. idx e ''call_id'' = JStr call) (s_executions s)")
  case None
  let ?i = "fst (env_uuid E w)"
  let ?K = "\<lambda>e1. ebind (modify (stage_execution e1)) (\<lambda>_. ebind (audit E ''tool_intent'' e1)
      (\<lambda>_. ebind (action_checkpoint E (event ''tool_intent''
         [(''execution_id'', JStr ?i), (''tool_call_id'', JStr call)])) (\<lambda>_. ret e1))) (s, snd (env_uuid E w))"
  have "dispatch_intent E L cfg call t args (s, w) =
      (case new_execution L cfg s ?i call t args of Inl err \<Rightarrow> (Err err, s, snd (env_uuid E w)) | Inr e1 \<Rightarrow> ?K e1)"
    using None by (simp add: dispatch_intent_def ebind_def [of "gets _"] ebind_def [of "ask _"] ebind_def [of "lift _"]
        eng_simps split: sum.split)
  with run have eq: "(case new_execution L cfg s ?i call t args of
      Inl err \<Rightarrow> (Err err, s, snd (env_uuid E w)) | Inr e1 \<Rightarrow> ?K e1) = (Ok e, s', w')" by (simp only:)
  obtain e1 where e1: "new_execution L cfg s ?i call t args = Ok e1"
  proof (cases "new_execution L cfg s ?i call t args")
    case (Inl err)
    with eq have "(Err err, s, snd (env_uuid E w)) = (Ok e, s', w')" by (simp only: sum.case)
    then show thesis by simp
  qed (rule that)
  with eq have rest: "?K e1 = (Ok e, s', w')" by (simp only: sum.case)
  from stage_new_holds [OF new_execution_call [OF e1] None] refl rest show ?thesis
    by (rule yieldsD)
next
  case (Some e0)
  then have "e = e0 \<and> s' = s" using run by (auto simp: dispatch_intent_def ebind_Ok eng_simps)
  then show ?thesis using Some by (simp add: holds_def journalled_def)
qed

lemma recover_yields:
  "yields (ready L s0 call t args e) (dispatch_recover E L e t args) (settled L s0 call t args)"
proof -
  have prior: "yields (ready L s0 call t args e) (settle_prior E e) (\<lambda>_. ready L s0 call t args e)"
    unfolding settle_prior_def
    by (intro ready_keeps keeps_ebind keeps_efor keeps_ewhen hold_keeps keeps_pure)
  have after: "yields (\<lambda>s. case x of None \<Rightarrow> ready L s0 call t args e s | Some r \<Rightarrow> settled L s0 call t args r s)
      (case x of Some result \<Rightarrow> ret result | None \<Rightarrow> dispatch_attempt E L e n t args) (settled L s0 call t args)" for x n
    by (cases x) (simp_all add: attempt_yields yields_ret)
  show ?thesis
    unfolding dispatch_recover_def
    by (intro yields_ebind [OF prior] yields_if yields_ebind [OF verify_yields after] attempt_yields)
qed

lemma dispatch_settles:
  assumes run: "dispatch E L cfg call t args (s, w) = (Ok r, s', w')"
  shows "settled L s call t args r s'"
proof -
  obtain e s1 w1 where e: "dispatch_intent E L cfg call t args (s, w) = (Ok e, s1, w1)"
    and id: "check_identity L s1 t args e = Ok ()"
    and rest: "(if is_terminal e then lift (ok_or ''terminal action lacks result'' (as_str (idx e ''result'')))
                else dispatch_recover E L e t args) (s1, w1) = (Ok r, s', w')"
    using run by (auto simp: dispatch_def ebind_Ok eng_simps)
  note h = intent_holds [OF e]
  then have "check_identity L s1 t args e = check_identity L s t args e"
    by (simp add: holds_def check_identity_def namespace_of_def command_of_def)
  moreover have "idx e ''call_id'' = JStr call"
    using h by (auto simp: holds_def journalled_def find_Some_iff)
  ultimately have s: "sound L s call t args e" using id by (simp add: sound_def)
  show ?thesis
  proof (cases "is_terminal e")
    case True
    then show ?thesis using rest h s by (auto simp: eng_simps settled_def as_str_Some)
  next
    case False
    have "yields (ready L s call t args e) (dispatch_recover E L e t args) (settled L s call t args)"
      by (rule recover_yields)
    moreover have "ready L s call t args e s1" using h s by simp
    moreover have "dispatch_recover E L e t args (s1, w1) = (Ok r, s', w')" using rest False by simp
    ultimately show ?thesis by (rule yieldsD)
  qed
qed

lemma settled_replay:
  assumes "settled L s0 call t args r s" 
  shows "dispatch E L cfg call t args (s, w) = (Ok r, s, w)"
proof -
  obtain e where e: "holds call e s0 s" "sound L s0 call t args e" "is_terminal e" "idx e ''result'' = JStr r"
    using assms by (auto simp: settled_def)
  have "check_identity L s t args e = check_identity L s0 t args e"
    using e(1) by (simp add: holds_def check_identity_def namespace_of_def command_of_def)
  then have "check_identity L s t args e = Ok ()" using e(2) by (simp add: sound_def)
  then show ?thesis using e dispatch_journalled [of call e s E L cfg t args w] by (simp add: holds_def)
qed

end
