(* ===== verification/Ledger.thy ===== *)
theory Ledger
  imports History
begin

text \<open>
  Validation of a proposed summary (\<^verbatim>\<open>context.rs\<close>): fence removal, the XML and the heading
  formats, grounding of numbers in the source, and the canonical rendering that is stored.
\<close>

section \<open>Characters\<close>

definition xml_character :: "nat \<Rightarrow> bool" where
  "xml_character c \<longleftrightarrow>
     c = 0x09 \<or> c = 0x0A \<or> c = 0x0D \<or> 0x20 \<le> c \<and> c \<le> 0xD7FF \<or> 0xE000 \<le> c \<and> c \<le> 0xFFFD
     \<or> 0x10000 \<le> c \<and> c \<le> 0x10FFFF"

definition xml_name_start :: "nat \<Rightarrow> bool" where
  "xml_name_start c \<longleftrightarrow>
     c = 0x5F \<or> 0x41 \<le> c \<and> c \<le> 0x5A \<or> 0x61 \<le> c \<and> c \<le> 0x7A \<or> 0xC0 \<le> c \<and> c \<le> 0xD6
     \<or> 0xD8 \<le> c \<and> c \<le> 0xF6 \<or> 0xF8 \<le> c \<and> c \<le> 0x2FF \<or> 0x370 \<le> c \<and> c \<le> 0x37D
     \<or> 0x37F \<le> c \<and> c \<le> 0x1FFF \<or> 0x200C \<le> c \<and> c \<le> 0x200D \<or> 0x2070 \<le> c \<and> c \<le> 0x218F
     \<or> 0x2C00 \<le> c \<and> c \<le> 0x2FEF \<or> 0x3001 \<le> c \<and> c \<le> 0xD7FF \<or> 0xF900 \<le> c \<and> c \<le> 0xFDCF
     \<or> 0xFDF0 \<le> c \<and> c \<le> 0xFFFD \<or> 0x10000 \<le> c \<and> c \<le> 0xEFFFF"

definition xml_name_char :: "nat \<Rightarrow> bool" where
  "xml_name_char c \<longleftrightarrow>
     xml_name_start c \<or> c = 0x2D \<or> c = 0x2E \<or> 0x30 \<le> c \<and> c \<le> 0x39 \<or> c = 0xB7
     \<or> 0x300 \<le> c \<and> c \<le> 0x36F \<or> 0x203F \<le> c \<and> c \<le> 0x2040"

definition utf8_encode :: "nat \<Rightarrow> string" where
  "utf8_encode c =
     (if c < 0x80 then [char_of c]
      else if c < 0x800 then [char_of (0xC0 + c div 64), char_of (0x80 + c mod 64)]
      else if c < 0x10000 then
        [char_of (0xE0 + c div 4096), char_of (0x80 + c div 64 mod 64), char_of (0x80 + c mod 64)]
      else [char_of (0xF0 + c div 262144), char_of (0x80 + c div 4096 mod 64),
            char_of (0x80 + c div 64 mod 64), char_of (0x80 + c mod 64)])"

section \<open>Escaping\<close>

definition xml_escape :: "string \<Rightarrow> string" where
  "xml_escape s = replace_str ''>'' ''&gt;'' (replace_str ''<'' ''&lt;'' (replace_str ''&'' ''&amp;'' s))"

definition hex_val :: "char \<Rightarrow> nat option" where
  "hex_val c =
     (let x = byte c in
      if is_digit c then Some (x - 48)
      else if 97 \<le> x \<and> x \<le> 102 then Some (x - 87)
      else if 65 \<le> x \<and> x \<le> 70 then Some (x - 55) else None)"

text \<open>\<open>u32::from_str_radix\<close>: an optional plus sign and at least one digit, below \<open>2 ^ 32\<close>.\<close>

definition parse_u32 :: "(char \<Rightarrow> nat option) \<Rightarrow> nat \<Rightarrow> string \<Rightarrow> nat option" where
  "parse_u32 dv radix s =
     (let ds = (if s \<noteq> [] \<and> hd s = CHR ''+'' then tl s else s);
          v = foldl (\<lambda>n c. radix * n + unwrap_or 0 (dv c)) 0 ds
      in if ds \<noteq> [] \<and> (\<forall>c\<in>set ds. dv c \<noteq> None) \<and> v < 2 ^ 32 then Some v else None)"

definition dec_digit :: "char \<Rightarrow> nat option" where
  "dec_digit c = (if is_digit c then Some (digit_val c) else None)"

definition char_from_u32 :: "nat \<Rightarrow> nat option" where
  "char_from_u32 c = (if c < 0xD800 \<or> 0xE000 \<le> c \<and> c \<le> 0x10FFFF then Some c else None)"

definition bad_reference :: string where
  "bad_reference = ''invalid numeric XML character reference''"

definition entity_char :: "string \<Rightarrow> nat result" where
  "entity_char e =
     (if e = ''amp'' then Ok 0x26 else if e = ''lt'' then Ok 0x3C else if e = ''gt'' then Ok 0x3E
      else if e = ''quot'' then Ok 0x22 else if e = ''apos'' then Ok 0x27
      else if prefix ''#x'' e then
        ok_or bad_reference (Option.bind (parse_u32 hex_val 16 (drop 2 e)) char_from_u32)
      else if prefix ''#'' e then
        ok_or bad_reference (Option.bind (parse_u32 dec_digit 10 (drop 1 e)) char_from_u32)
      else Err ''custom XML entities are forbidden'')"

function xml_unescape :: "string \<Rightarrow> string result" where
  "xml_unescape s =
     (case split_once_char (CHR ''&'') s of
        None \<Rightarrow> Ok s
      | Some (before, tail) \<Rightarrow>
          (case split_once_char (CHR '';'') tail of
             None \<Rightarrow> Err ''malformed XML entity reference''
           | Some (entity, rest) \<Rightarrow>
               rbind (entity_char entity)
                 (\<lambda>c. if \<not> xml_character c then Err ''invalid XML character reference''
                      else (case xml_unescape rest of
                              Inl e \<Rightarrow> Err e
                            | Inr out \<Rightarrow> Ok (before @ utf8_encode c @ out)))))"
  by pat_completeness auto

termination
  by (relation "measure length") (auto dest!: split_once_char_Some)

declare xml_unescape.simps [simp del]

section \<open>The XML format\<close>

definition strip_fence :: "string \<Rightarrow> string" where
  "strip_fence proposal =
     (let text = trim proposal;
          fence = replicate 3 (CHR 0x60);
          lower = map (\<lambda>c. if 65 \<le> byte c \<and> byte c \<le> 90 then char_of (byte c + 32) else c)
      in (case Option.bind (strip_prefix_str fence text) (split_once_char (CHR 0x0A)) of
            None \<Rightarrow> text
          | Some (label, body) \<Rightarrow>
              (if lower (trim label) \<in> {[], ''xml'', ''text''}
               then (case strip_suffix_str fence (trim_end body) of
                       None \<Rightarrow> text | Some b \<Rightarrow> trim b)
               else text)))"

definition section_names :: "string list" where
  "section_names = [''USER_GOAL'', ''GLOBAL_LESSON_LEDGER'', ''DEAD_ENDS'', ''CURRENT_LOCAL_PIVOT'']"

record xml_state =
  x_stack :: "string list"
  x_sections :: "(string \<times> string) list"
  x_current :: string
  x_root_seen :: bool

text \<open>A closing tag.  The stack is kept with its top first.\<close>

definition xml_close :: "string \<Rightarrow> xml_state \<Rightarrow> xml_state result" where
  "xml_close close st =
     (case x_stack st of
        [] \<Rightarrow> Err ''mismatched XML tag''
      | opened # below \<Rightarrow>
          if opened \<noteq> close then Err ''mismatched XML tag''
          else if length below = 1
          then Ok (st\<lparr>x_stack := below, x_sections := obj_insert close (x_current st) (x_sections st),
                      x_current := []\<rparr>)
          else Ok (st\<lparr>x_stack := below\<rparr>))"

text \<open>An opening or self-closing tag.\<close>

definition xml_open :: "string \<Rightarrow> xml_state \<Rightarrow> xml_state result" where
  "xml_open tag st =
     (let name = trim_end (unwrap_or tag (strip_suffix_str ''/'' tag));
          cs = utf8_decode name
      in if \<not> (cs \<noteq> [] \<and> xml_name_start (hd cs)) \<or> \<not> (\<forall>c\<in>set cs. xml_name_char c)
         then Err ''XML attributes or invalid tags''
         else if x_stack st = [] \<and> (x_root_seen st \<or> name \<noteq> ''COMPACTED_STATE'')
         then Err ''invalid summary root''
         else if length (x_stack st) = 1
                 \<and> (name \<notin> set section_names \<or> name \<in> fst ` set (x_sections st))
         then Err ''invalid or duplicate summary section''
         else (let st' = (if x_stack st = [] then st\<lparr>x_root_seen := True\<rparr> else st)
               in if ends_with tag ''/''
                  then (if length (x_stack st) = 1
                        then Ok (st'\<lparr>x_sections := obj_insert name [] (x_sections st)\<rparr>)
                        else Ok st')
                  else Ok (st'\<lparr>x_stack := name # x_stack st\<rparr>)))"

definition xml_tag :: "string \<Rightarrow> xml_state \<Rightarrow> xml_state result" where
  "xml_tag tag st =
     rbind (case strip_prefix_str ''/'' tag of
              Some close \<Rightarrow> xml_close (trim_end close) st
            | None \<Rightarrow> xml_open tag st)
       (\<lambda>st'. if length (x_stack st') \<ge> 2 then Ok (st'\<lparr>x_current := x_current st' @ newline\<rparr>)
              else Ok st')"

definition xml_chars :: "string \<Rightarrow> xml_state \<Rightarrow> xml_state result" where
  "xml_chars text st =
     (if length (x_stack st) \<ge> 2
      then rbind (xml_unescape text) (\<lambda>t. Ok (st\<lparr>x_current := x_current st @ t\<rparr>))
      else if trim text \<noteq> [] then Err ''text outside summary section''
      else Ok st)"

function xml_loop :: "string \<Rightarrow> xml_state \<Rightarrow> xml_state result" where
  "xml_loop rest st =
     (if rest = [] then Ok st
      else if hd rest = CHR ''<'' then
        (case split_once_char (CHR ''>'') (tl rest) of
           None \<Rightarrow> Err ''incomplete XML tag''
         | Some (tag, rest') \<Rightarrow>
             (case xml_tag tag st of Inl e \<Rightarrow> Err e | Inr st' \<Rightarrow> xml_loop rest' st'))
      else
        (let text = takeWhile (\<lambda>c. c \<noteq> CHR ''<'') rest
         in (case xml_chars text st of
               Inl e \<Rightarrow> Err e
             | Inr st' \<Rightarrow> xml_loop (drop (length text) rest) st')))"
  by pat_completeness auto
termination
proof (relation "measure (\<lambda>(rest, st). length rest)", goal_cases)
  case (2 rest st p tag rest' st')
  then show ?case by (cases rest) (auto dest!: split_once_char_Some)
next
  case (3 rest st chunk st')
  then show ?case by (cases rest) auto
qed simp

declare xml_loop.simps [simp del]

text \<open>Splitting on any of several patterns, as \<open>str::split\<close> on a set of characters.\<close>

function split_any :: "string list \<Rightarrow> string \<Rightarrow> string \<Rightarrow> string list" where
  "split_any ps acc s =
     (case find (\<lambda>p. p \<noteq> [] \<and> prefix p s) ps of
        Some p \<Rightarrow> acc # split_any ps [] (drop (length p) s)
      | None \<Rightarrow> (case s of [] \<Rightarrow> [acc] | c # t \<Rightarrow> split_any ps (acc @ [c]) t))"
  by pat_completeness auto
termination
proof (relation "measure (\<lambda>(ps, acc, s). length s)", goal_cases)
  case (3 ps acc s p)
  then have "p \<noteq> []" "prefix p s" by (auto simp: find_Some_iff)
  then show ?case by (auto simp: prefix_def)
qed simp_all

declare split_any.simps [simp del]

definition line_separators :: "string list" where
  "line_separators = [[CHR 0x0A], [CHR 0x0D], [CHR 0xC2, CHR 0x85],
     [CHR 0xE2, CHR 0x80, CHR 0xA8], [CHR 0xE2, CHR 0x80, CHR 0xA9]]"

definition tidy_section :: "string \<Rightarrow> string" where
  "tidy_section s = join newline (filter (\<lambda>l. l \<noteq> []) (map trim (split_any line_separators [] s)))"

definition parse_xml_sections :: "string \<Rightarrow> string list result" where
  "parse_xml_sections proposal =
     (let normalized = replace_str [CHR 0x0D] newline (replace_str [CHR 0x0D, CHR 0x0A] newline proposal);
          text = strip_any [[CHR 0xEF, CHR 0xBB, CHR 0xBF]] normalized
      in if contains_str text '']]>'' then Err ''invalid XML character sequence''
         else if \<exists>c\<in>set (utf8_decode text). \<not> xml_character c then Err ''invalid XML character''
         else if contains_str text ''<!'' \<or> contains_str text ''<?''
         then Err ''XML declarations and comments are forbidden''
         else rbind (xml_loop (trim text)
                       \<lparr>x_stack = [], x_sections = [], x_current = [], x_root_seen = False\<rparr>)
                (\<lambda>st. if \<not> x_root_seen st \<or> x_stack st \<noteq> [] \<or> length (x_sections st) \<noteq> 4
                      then Err ''incomplete summary XML''
                      else mapM (\<lambda>name. case map_of (x_sections st) name of
                                          Some s \<Rightarrow> Ok (tidy_section s)
                                        | None \<Rightarrow> Err ''missing section'') section_names))"

section \<open>The heading format\<close>

definition heading_names :: "string list" where
  "heading_names = [''Core Objective'', ''Universal Truths Discovered'', ''Dead Ends'', ''Current Local Pivot'']"

text \<open>\<open>str::match_indices\<close> for a nonempty pattern.\<close>

function match_indices :: "string \<Rightarrow> nat \<Rightarrow> string \<Rightarrow> nat list" where
  "match_indices p off s =
     (if p = [] then []
      else if prefix p s then off # match_indices p (off + length p) (drop (length p) s)
      else (case s of [] \<Rightarrow> [] | c # t \<Rightarrow> match_indices p (off + 1) t))"
  by pat_completeness auto
termination
  by (relation "measure (\<lambda>(p, off, s). length s)") (auto simp: prefix_def)

declare match_indices.simps [simp del]

definition heading_of :: "string \<Rightarrow> string" where "heading_of name = ''- '' @ name @ '':''"

definition heading_matches :: "string \<Rightarrow> (nat \<times> nat \<times> string) list" where
  "heading_matches proposal =
     sort_key fst
       (concat (map (\<lambda>name. map (\<lambda>pos. (pos, length (heading_of name), name))
                                 (match_indices (heading_of name) 0 proposal)) heading_names))"

fun heading_sections :: "string \<Rightarrow> (nat \<times> nat \<times> string) list \<Rightarrow> string list" where
  "heading_sections proposal [] = []"
| "heading_sections proposal ((pos, len, name) # ms) =
     (let start = pos + len;
          finish = (case ms of [] \<Rightarrow> length proposal | (p, _) # _ \<Rightarrow> p)
      in trim (take (finish - start) (drop start proposal)) # heading_sections proposal ms)"

definition parse_heading_sections :: "string \<Rightarrow> string list result" where
  "parse_heading_sections proposal =
     (let ms = heading_matches proposal
      in if length ms \<noteq> length heading_names \<or> trim (take (fst (hd ms)) proposal) \<noteq> []
         then Err ''summary must contain exactly the four required ordered headings''
         else if map (snd \<circ> snd) ms \<noteq> heading_names
         then Err ''summary headings are missing, duplicated, or out of order''
         else Ok (heading_sections proposal ms))"

section \<open>Numbers\<close>

text \<open>
  The longest prefix matching \<open>[-+]?[0-9]+(,[0-9]{3})*(\.[0-9]+)?([eE][-+]?[0-9]+)?\<close>.  Every
  part after the first run of digits is optional, so greedy matching never backtracks into it.
\<close>

function scan_groups :: "string \<Rightarrow> string" where
  "scan_groups s =
     (if length s \<ge> 4 \<and> hd s = CHR '','' \<and> (\<forall>c\<in>set (take 3 (tl s)). is_digit c)
      then take 4 s @ scan_groups (drop 4 s) else [])"
  by pat_completeness auto
termination
  by (relation "measure length") auto

declare scan_groups.simps [simp del]

definition scan_sign :: "string \<Rightarrow> string" where
  "scan_sign s = (if s \<noteq> [] \<and> (hd s = CHR ''-'' \<or> hd s = CHR ''+'') then [hd s] else [])"

definition scan_fraction :: "string \<Rightarrow> string" where
  "scan_fraction s =
     (if s \<noteq> [] \<and> hd s = CHR ''.'' \<and> takeWhile is_digit (tl s) \<noteq> []
      then CHR ''.'' # takeWhile is_digit (tl s) else [])"

definition scan_exponent :: "string \<Rightarrow> string" where
  "scan_exponent s =
     (if s \<noteq> [] \<and> is_exp (hd s)
      then (let sg = scan_sign (tl s); ds = takeWhile is_digit (drop (length sg) (tl s))
            in if ds = [] then [] else hd s # sg @ ds)
      else [])"

definition scan_number :: "string \<Rightarrow> string option" where
  "scan_number s =
     (let sg = scan_sign s; s1 = drop (length sg) s; ds = takeWhile is_digit s1;
          s2 = drop (length ds) s1; gs = scan_groups s2; s3 = drop (length gs) s2;
          fr = scan_fraction s3; s4 = drop (length fr) s3
      in if ds = [] then None else Some (sg @ ds @ gs @ fr @ scan_exponent s4))"

definition word_char :: "char \<Rightarrow> bool" where
  "word_char c \<longleftrightarrow>
     is_digit c \<or> 65 \<le> byte c \<and> byte c \<le> 90 \<or> 97 \<le> byte c \<and> byte c \<le> 122
     \<or> c = CHR ''_'' \<or> c = CHR ''.'' \<or> c = CHR '',''"

function numbers_from :: "char option \<Rightarrow> string \<Rightarrow> string list" where
  "numbers_from prev s =
     (if s = [] then []
      else (case scan_number s of
              None \<Rightarrow> numbers_from (Some (hd s)) (tl s)
            | Some m \<Rightarrow>
                if m = [] then []
                else (let rest = drop (length m) s;
                          next = (case rest of [] \<Rightarrow> None | c # _ \<Rightarrow> Some c)
                      in (if is_some_and prev word_char \<or> is_some_and next word_char then [] else [m])
                         @ numbers_from (Some (last m)) rest)))"
  by pat_completeness auto
termination
  by (relation "measure (\<lambda>(prev, s). length s)") auto

declare numbers_from.simps [simp del]

definition number_list :: "string \<Rightarrow> string list" where
  "number_list text =
     List.map_filter (\<lambda>m. decimal_canonical (filter (\<lambda>c. c \<noteq> CHR '','') m)) (numbers_from None text)"

definition number_set :: "string \<Rightarrow> string set" where
  "number_set text = set (number_list text)"

section \<open>Rendering and validation\<close>

definition or_none :: "string list \<Rightarrow> string" where
  "or_none ls = (if ls = [] then ''- None.'' else join newline ls)"

definition render_ledger :: "ledger \<Rightarrow> bool \<Rightarrow> string" where
  "render_ledger l hybrid =
     (let claims = or_none (l_model_claims l); dead_ends = or_none (l_dead_ends l)
      in if hybrid
         then ''<COMPACTED_STATE><USER_GOAL>'' @ newline @ xml_escape (trim (l_goal l)) @ newline
              @ ''</USER_GOAL><GLOBAL_LESSON_LEDGER>'' @ newline @ xml_escape claims @ newline
              @ ''</GLOBAL_LESSON_LEDGER><DEAD_ENDS>'' @ newline @ xml_escape dead_ends @ newline
              @ ''</DEAD_ENDS><CURRENT_LOCAL_PIVOT>'' @ newline @ xml_escape (l_hypothesis l) @ newline
              @ ''</CURRENT_LOCAL_PIVOT></COMPACTED_STATE>''
         else ''- Core Objective:'' @ newline @ trim (l_goal l) @ newline
              @ ''- Universal Truths Discovered:'' @ newline @ claims @ newline
              @ ''- Dead Ends:'' @ newline @ dead_ends @ newline
              @ ''- Current Local Pivot:'' @ newline @ l_hypothesis l)"

definition ellipsis :: string where "ellipsis = [CHR 0xE2, CHR 0x80, CHR 0xA6]"

definition validate_ledger ::
  "lib \<Rightarrow> string \<Rightarrow> string \<Rightarrow> string \<Rightarrow> nat \<Rightarrow> bool \<Rightarrow> (ledger \<times> string) result" where
  "validate_ledger L proposal goal source max_bytes hybrid =
     (if trim proposal = [] then Err ''summary is empty''
      else if length proposal > max_bytes then Err ''summary exceeds ledger byte budget''
      else rbind ((if hybrid then parse_xml_sections else parse_heading_sections) (strip_fence proposal))
        (\<lambda>parsed.
           if length parsed \<noteq> 4 then Err ''summary requires four sections''
           else
             (let sections = trim goal # tl parsed in
              if \<exists>s\<in>set (tl sections). trim s = ''...'' \<or> trim s = ellipsis
              then Err ''summary reflection must not be an ellipsis placeholder''
              else if \<exists>s\<in>set sections. trim s = []
              then Err ''all summary sections must be populated''
              else
                (case find (\<lambda>n. n \<notin> number_set source) (number_list (join newline sections)) of
                   Some n \<Rightarrow> Err (''summary introduces numeric claim '' @ n @ '' absent from source'')
                 | None \<Rightarrow>
                     (let l = \<lparr>l_goal = goal,
                               l_model_claims = lines (sections ! 1),
                               l_dead_ends = lines (sections ! 2),
                               l_hypothesis = sections ! 3,
                               l_source_sha256 = sha256_hex L source,
                               l_verification = ''unverified_model_summary''\<rparr>;
                          rendered = render_ledger l hybrid
                      in if length rendered > max_bytes
                         then Err ''canonical ledger exceeds configured byte limit''
                         else Ok (l, rendered))))))"


section \<open>Escaping is undone by unescaping\<close>

lemma replace_str_single: "replace_str [a] q s = concat (map (\<lambda>c. if c = a then q else [c]) s)"
proof (induction s)
  case Nil
  then show ?case by (subst replace_str.simps) simp
next
  case (Cons c s)
  then show ?case by (subst replace_str.simps) (auto simp: prefix_def)
qed

definition escape_char :: "char \<Rightarrow> string" where
  "escape_char c =
     (if c = CHR ''&'' then ''&amp;'' else if c = CHR ''<'' then ''&lt;''
      else if c = CHR ''>'' then ''&gt;'' else [c])"

lemma xml_escape_concat: "xml_escape s = concat (map escape_char s)"
  unfolding xml_escape_def replace_str_single
  by (induction s) (simp_all add: escape_char_def)

lemma xml_unescape_plain:
  assumes "c \<noteq> CHR ''&''"
  shows "xml_unescape (c # t) = rbind (xml_unescape t) (\<lambda>out. Ok (c # out))"
proof (cases "split_once_char (CHR ''&'') t")
  case None
  with assms show ?thesis by (simp add: xml_unescape.simps [of "c # t"] xml_unescape.simps [of t])
next
  case (Some p)
  then obtain before tl where p: "split_once_char (CHR ''&'') t = Some (before, tl)" by (cases p) auto
  with assms show ?thesis
    by (cases "split_once_char (CHR '';'') tl")
       (auto simp: xml_unescape.simps [of "c # t"] xml_unescape.simps [of t] rbind_def
             split: sum.splits)
qed

lemma xml_unescape_entity:
  assumes "entity_char e = Ok c" "xml_character c" "CHR '';'' \<notin> set e"
  shows "xml_unescape (CHR ''&'' # e @ CHR '';'' # t)
         = rbind (xml_unescape t) (\<lambda>out. Ok (utf8_encode c @ out))"
  using assms
  by (simp add: xml_unescape.simps [of "CHR ''&'' # e @ CHR '';'' # t"] split_once_char_append
        rbind_def split: sum.splits)

lemma xml_unescape_escape_char:
  "xml_unescape (escape_char c @ t) = rbind (xml_unescape t) (\<lambda>out. Ok (c # out))"
proof -
  have amp: "utf8_encode 0x26 = ''&''" "utf8_encode 0x3C = ''<''" "utf8_encode 0x3E = ''>''"
    by (code_simp, code_simp, code_simp)
  have ok: "xml_character 0x26" "xml_character 0x3C" "xml_character 0x3E"
    by (simp_all add: xml_character_def)
  show ?thesis
    using xml_unescape_entity [of "''amp''" "0x26" t] xml_unescape_entity [of "''lt''" "0x3C" t]
      xml_unescape_entity [of "''gt''" "0x3E" t] xml_unescape_plain [of c t] amp ok
    by (simp add: escape_char_def entity_char_def)
qed

lemma xml_unescape_escape: "xml_unescape (xml_escape s) = Ok s"
proof (induction s)
  case Nil
  then show ?case by (simp add: xml_escape_concat xml_unescape.simps [of "[]"])
next
  case (Cons c s)
  then show ?case by (simp add: xml_escape_concat xml_unescape_escape_char)
qed

lemma xml_escape_no_markup: "CHR ''<'' \<notin> set (xml_escape s) \<and> CHR ''>'' \<notin> set (xml_escape s)"
  by (induction s) (auto simp: xml_escape_concat escape_char_def)

section \<open>What an accepted summary guarantees\<close>

lemma validate_ledger_Ok:
  assumes "validate_ledger L proposal goal source max_bytes hybrid = Inr (l, rendered)"
  obtains parsed where
    "(if hybrid then parse_xml_sections else parse_heading_sections) (strip_fence proposal) = Inr parsed"
    "length parsed = 4"
    "l = \<lparr>l_goal = goal, l_model_claims = lines (parsed ! 1), l_dead_ends = lines (parsed ! 2),
          l_hypothesis = parsed ! 3, l_source_sha256 = sha256_hex L source,
          l_verification = ''unverified_model_summary''\<rparr>"
    "rendered = render_ledger l hybrid" "length rendered \<le> max_bytes"
    "\<forall>s\<in>set (trim goal # tl parsed). trim s \<noteq> []"
    "\<forall>s\<in>set (tl parsed). trim s \<noteq> ''...'' \<and> trim s \<noteq> ellipsis"
    "number_set (join newline (trim goal # tl parsed)) \<subseteq> number_set source"
proof -
  from assms obtain parsed where
    p: "(if hybrid then parse_xml_sections else parse_heading_sections) (strip_fence proposal) = Inr parsed"
    and len: "length parsed = 4"
    and ell: "\<forall>s\<in>set (tl parsed). trim s \<noteq> ''...'' \<and> trim s \<noteq> ellipsis"
    and ne: "\<forall>s\<in>set (trim goal # tl parsed). trim s \<noteq> []"
    and num: "find (\<lambda>n. n \<notin> number_set source) (number_list (join newline (trim goal # tl parsed))) = None"
    and l: "l = \<lparr>l_goal = goal, l_model_claims = lines (tl parsed ! 0), l_dead_ends = lines (tl parsed ! 1),
          l_hypothesis = tl parsed ! 2, l_source_sha256 = sha256_hex L source,
          l_verification = ''unverified_model_summary''\<rparr>"
    and r: "rendered = render_ledger l hybrid" "length rendered \<le> max_bytes"
    by (auto simp: validate_ledger_def result_simps Let_def split: if_splits option.splits)
  from num have sub: "number_set (join newline (trim goal # tl parsed)) \<subseteq> number_set source"
    by (auto simp: find_None_iff number_set_def)
  from len have "tl parsed ! 0 = parsed ! 1" "tl parsed ! 1 = parsed ! 2" "tl parsed ! 2 = parsed ! 3"
    by (simp_all add: nth_tl numeral_2_eq_2 numeral_3_eq_3)
  with p len l r ne ell sub show ?thesis by (intro that) simp_all
qed

end
