(* ===== verification/Progress.thy ===== *)
theory Progress
  imports Completion Effects
begin

text \<open>
  Progress control of the run loop (\<^verbatim>\<open>engine.rs\<close>): the step allowance, the limit on consecutive
  invalid responses, the fingerprint of task progress and the limit on steps without it.
\<close>

section \<open>Model\<close>

definition run_allowance :: "config \<Rightarrow> int option \<Rightarrow> int" where
  "run_allowance cfg requested =
     (case opt_filter (\<lambda>v. v > 0) requested of
        Some v \<Rightarrow> v
      | None \<Rightarrow>
          (case opt_filter (\<lambda>v. v > 0) (mem_run_max_steps (c_memory cfg)) of
             Some v \<Rightarrow> v
           | None \<Rightarrow> mem_max_steps (c_memory cfg)))"

definition max_invalid :: "config \<Rightarrow> nat" where
  "max_invalid cfg = unwrap_or 3 (Option.bind (get (c_execution cfg) ''max_consecutive_invalid_responses'') as_u64)"

definition invalid_limit_text :: string where
  "invalid_limit_text = ''Consecutive invalid-response limit reached. Resume to retry.''"

definition fail_session :: "string \<Rightarrow> session \<Rightarrow> session" where
  "fail_session answer s = s\<lparr>s_status := ''failed'', s_run_status := ''failed'', s_final_answer := Some answer\<rparr>"

definition increment_invalid :: "config \<Rightarrow> session \<Rightarrow> bool \<times> session" where
  "increment_invalid cfg s =
     (let s1 = s\<lparr>s_consecutive_invalid_responses := s_consecutive_invalid_responses s + 1\<rparr>
      in if s_consecutive_invalid_responses s1 < max_invalid cfg then (False, s1)
         else (True, fail_session invalid_limit_text s1))"

definition all_complete_text :: string where
  "all_complete_text = ''All workflow phases are complete. Do not call tools; return the verified final answer now.''"

definition tools_off_text :: string where
  "tools_off_text = ''Tools are disabled. Return the requested final answer directly.''"

definition feedback_tail :: string where
  "feedback_tail = ''. Workflow phase labels are not function names. Supply JSON objects satisfying their schemas.'' @ newline"

definition action_feedback :: "lib \<Rightarrow> config \<Rightarrow> session \<Rightarrow> string option \<Rightarrow> string \<Rightarrow> string" where
  "action_feedback L cfg s ph name =
     (if c_workflow cfg \<noteq> None \<and> complete_wf cfg s then all_complete_text
      else if tools_disabled cfg then tools_off_text
      else
        (let allowed = filter (\<lambda>t. is_none_or ph (\<lambda>i. allowed_in_phase cfg i (tl_name t))) (c_tools cfg);
             selected = list_ex (\<lambda>t. tl_name t = name) allowed;
             schemas = map (\<lambda>t. tl_name t @ '' arguments JSON schema: '' @ json_text L (tl_parameters t))
                         (filter (\<lambda>t. \<not> selected \<or> tl_name t = name) allowed)
         in ''Use currently allowed functions: '' @ join '', '' (map tl_name allowed) @ feedback_tail
            @ join newline schemas))"

definition seen_cap :: nat where "seen_cap = 64"

definition trim_seen :: "'a list \<Rightarrow> 'a list" where
  "trim_seen xs = (if length xs > seen_cap then drop (length xs - seen_cap) xs else xs)"

definition output_hash :: "lib \<Rightarrow> string \<Rightarrow> (string \<times> json) list \<Rightarrow> string \<Rightarrow> string" where
  "output_hash L name args output = sha256_hex L (json_text L (JArr [JStr name, JObj args, JStr output]))"

definition record_progress_output ::
  "lib \<Rightarrow> string \<Rightarrow> (string \<times> json) list \<Rightarrow> string \<Rightarrow> session \<Rightarrow> session" where
  "record_progress_output L name args output s =
     (let hash = output_hash L name args output; seen = s_progress_seen_outputs s
      in s\<lparr>s_progress_seen_outputs := trim_seen (if hash \<in> set seen then seen else seen @ [hash])\<rparr>)"

definition transition_json :: "transition \<Rightarrow> json" where
  "transition_json t =
     JObj [(''from_phase'', JStr (t_from_phase t)), (''to_phase'', JStr (t_to_phase t)), (''reason'', JStr (t_reason t))]"

definition workflow_json :: "workflow \<Rightarrow> json" where
  "workflow_json w =
     JObj [(''active_phase'', json_opt (w_active_phase w)),
           (''completed_phases'', JArr (map JStr (w_completed_phases w))),
           (''observed_evidence'', JArr (map JStr (w_observed_evidence w))),
           (''transitions'', JArr (map transition_json (w_transitions w)))]"

definition progress_value :: "config \<Rightarrow> session \<Rightarrow> json" where
  "progress_value cfg s =
     JArr [if c_workflow cfg \<noteq> None then (case s_workflow s of None \<Rightarrow> JNull | Some w \<Rightarrow> workflow_json w) else JNull,
           s_completion_artifacts s,
           if c_workflow cfg = None then JArr (map JStr (s_progress_seen_outputs s)) else JArr []]"

definition progress_fingerprint :: "lib \<Rightarrow> config \<Rightarrow> session \<Rightarrow> string" where
  "progress_fingerprint L cfg s = sha256_hex L (json_text L (progress_value cfg s))"

definition max_no_progress :: "config \<Rightarrow> nat option" where
  "max_no_progress cfg = Option.bind (get (c_execution cfg) ''max_no_progress_steps'') as_u64"

definition guidance_text :: "lib \<Rightarrow> config \<Rightarrow> session \<Rightarrow> string" where
  "guidance_text L cfg s =
     unwrap_or ''Obtain new tool evidence or return the verified final deliverables.'' (instruction L cfg s)"

definition warning_text :: "nat \<Rightarrow> string \<Rightarrow> string" where
  "warning_text n guidance =
     ''No new task evidence in '' @ show_nat n
     @ '' decisions. Repeating a successful call does not complete missing requirements.'' @ newline @ guidance"

definition stalled_text :: "nat \<Rightarrow> string \<Rightarrow> string" where
  "stalled_text n guidance =
     ''No new task evidence in '' @ show_nat n @ '' decisions. '' @ guidance
     @ '' Resume after correcting the workflow or instructions.''"

definition interim :: "string \<Rightarrow> json \<Rightarrow> json" where
  "interim step data = JObj [(''type'', JStr ''interim_result''), (''step'', JStr step), (''data'', data)]"

definition error_event :: "string \<Rightarrow> json \<Rightarrow> json" where
  "error_event code message =
     JObj [(''type'', JStr ''error''), (''code'', JStr code), (''message'', message), (''recoverable'', JBool True)]"

definition note_progress :: "string \<Rightarrow> string \<Rightarrow> session \<Rightarrow> session" where
  "note_progress before current s =
     s\<lparr>s_no_progress_steps := (if current \<noteq> before then 0 else s_no_progress_steps s + 1),
       s_progress_fingerprint := Some current\<rparr>"

definition warn_stalled :: "'w env \<Rightarrow> nat \<Rightarrow> string \<Rightarrow> ('w, unit) eng" where
  "warn_stalled E n guidance =
     ebind (append_msg E (msg ''user'' (Some (warning_text n guidance))))
       (\<lambda>_. checkpoint E (interim ''no_progress_warning''
              (JObj [(''no_progress_steps'', json_nat n), (''message'', JStr (warning_text n guidance))])))"

definition stop_stalled :: "'w env \<Rightarrow> nat \<Rightarrow> string \<Rightarrow> ('w, unit) eng" where
  "stop_stalled E limit guidance =
     ebind (modify (fail_session (stalled_text limit guidance)))
       (\<lambda>_. checkpoint E (error_event ''no_progress_limit'' (JStr (stalled_text limit guidance))))"

definition observe_progress :: "'w env \<Rightarrow> lib \<Rightarrow> config \<Rightarrow> string \<Rightarrow> ('w, unit) eng" where
  "observe_progress E L cfg before =
     ebind (gets (progress_fingerprint L cfg))
       (\<lambda>current. ebind (modify (note_progress before current))
          (\<lambda>_. if current \<noteq> before then ret ()
               else (case max_no_progress cfg of
                       None \<Rightarrow> ret ()
                     | Some limit \<Rightarrow>
                         ebind (gets (\<lambda>s. (s_no_progress_steps s, guidance_text L cfg s)))
                           (\<lambda>(n, guidance).
                              ebind (ewhen (n = max (limit div 2) 1) (warn_stalled E n guidance))
                                (\<lambda>_. ewhen (n \<ge> limit) (stop_stalled E limit guidance))))))"

section \<open>Bounds\<close>

interpretation seen_cache: recent_cache trim_seen seen_cap
  by unfold_locales (auto simp: trim_seen_def seen_cap_def last_n_def)

lemma record_progress_output_bounded:
  assumes "length (s_progress_seen_outputs s) \<le> seen_cap"
  shows "length (s_progress_seen_outputs (record_progress_output L name args output s)) \<le> seen_cap"
    and "output_hash L name args output \<in> set (s_progress_seen_outputs (record_progress_output L name args output s))"
proof -
  have keep: "trim_seen (s_progress_seen_outputs s) = s_progress_seen_outputs s"
    using assms by (simp add: trim_seen_def)
  show "length (s_progress_seen_outputs (record_progress_output L name args output s)) \<le> seen_cap"
    "output_hash L name args output \<in> set (s_progress_seen_outputs (record_progress_output L name args output s))"
    using assms seen_cache.push_bounded [OF assms] seen_cache.push_newest [OF assms]
    by (simp_all add: record_progress_output_def Let_def keep)
qed

lemma run_allowance_positive:
  "0 < mem_max_steps (c_memory cfg) \<Longrightarrow> 0 < run_allowance cfg requested"
  by (auto simp: run_allowance_def split: option.splits)

lemma increment_invalid_effect:
  assumes "increment_invalid cfg s = (reached, s')"
  shows "reached \<longleftrightarrow> max_invalid cfg \<le> s_consecutive_invalid_responses s + 1"
    and "reached \<Longrightarrow> s_status s' = ''failed''"
    and "\<not> reached \<Longrightarrow> s_status s' = s_status s"
    and "s_consecutive_invalid_responses s' = s_consecutive_invalid_responses s + 1"
  using assms by (auto simp: increment_invalid_def Let_def fail_session_def split: if_splits)

end
