(* ===== verification/Compaction.thy ===== *)
theory Compaction
  imports Decision Ledger Progress
begin

text \<open>
  Context compaction (\<open>compact\<close> of \<^verbatim>\<open>engine.rs\<close>): measure the complete request, decide whether a
  summary is due, select the largest affordable prefix of whole interaction groups, ask the
  model for a ledger, validate it, and replace the prefix only if the complete request
  shrinks.  The passes and the attempts are bounded by the memory policy.
\<close>

section \<open>Doubles\<close>

text \<open>Rounding a rational to the nearest double, ties to even, in the range of normal numbers.\<close>

definition log2_floor :: "rat \<Rightarrow> int" where
  "log2_floor x =
     (case quotient_of x of (n, d) \<Rightarrow>
        let k = int (bitlen (nat n)) - int (bitlen (nat d))
        in if 2 powi k \<le> x then k else k - 1)"

definition round_even :: "rat \<Rightarrow> int" where
  "round_even q =
     (let f = \<lfloor>q\<rfloor>; r = q - of_int f
      in if r > 1 / 2 \<or> r = 1 / 2 \<and> odd f then f + 1 else f)"

definition round_f64 :: "rat \<Rightarrow> rat" where
  "round_f64 x =
     (if x = 0 then 0
      else (let u = 2 powi (log2_floor \<bar>x\<bar> - 52)
            in (if x < 0 then -1 else 1) * of_int (round_even (\<bar>x\<bar> / u)) * u))"

definition int_f64 :: "int \<Rightarrow> rat" where "int_f64 i = round_f64 (of_int i)"

definition f64_ratio :: "int \<Rightarrow> int \<Rightarrow> rat" where
  "f64_ratio a b = round_f64 (int_f64 a / int_f64 b)"

definition f64_to_i64 :: "rat \<Rightarrow> int" where
  "f64_to_i64 x = max i64_min (min i64_max (if x < 0 then \<lceil>x\<rceil> else \<lfloor>x\<rfloor>))"

section \<open>The summary request\<close>

definition xml_structure_a :: string where
  "xml_structure_a = ''Return one XML document with root COMPACTED_STATE and exactly four text-only child elements, in this order: USER_GOAL, GLOBAL_LESSON_LEDGER, DEAD_ENDS, CURRENT_LOCAL_PIVOT. Use this complete first child verbatim: <USER_GOAL>''"

definition xml_structure_b :: string where
  "xml_structure_b = ''</USER_GOAL>. Write concise source-grounded lessons in GLOBAL_LESSON_LEDGER, failed approaches in DEAD_ENDS, and a provisional next direction in CURRENT_LOCAL_PIVOT. Close every element and the root with its matching closing tag. Escape XML special characters in section text. Do not emit Markdown fences, tool calls, JSON messages, nested elements, or placeholder text.''"

definition heading_list :: string where
  "heading_list = join '', '' (map (\<lambda>n. quoted (heading_of n)) heading_names)"

definition heading_structure :: string where
  "heading_structure = ''Return exactly four ordered headings: '' @ heading_list @ ''. Put the original goal verbatim below the first heading, then source-grounded lessons, failed approaches, and a provisional next direction below the others. Do not emit placeholder text or tool calls.''"

definition none_mark :: string where "none_mark = quoted ''- None.''"

definition summary_rules :: string where
  "summary_rules = ''Summarize only the supplied historical prefix and previous ledger. Copy the original goal exactly. Do not reconstruct recent raw messages. Carry forward prior useful lessons and dead ends. Keep provisional hypotheses separate from observations; do not present guesses as verified facts. Use only numbers appearing in the source. Do not calculate or invent statistics. Fill every section, using '' @ none_mark @ '' if empty. No prose outside the structure. Escape XML special characters when using the XML format. Keep output short, within ''"

definition correction_head :: string where "correction_head = '' Previous replacement rejected: ''"

definition correction_tail :: string where
  "correction_tail = ''. Generate a complete corrected replacement from the source. Preserve the full original goal; replace every placeholder with source-grounded text or '' @ none_mark @ '' and check all closing tags.''"

definition summary_instruction :: "config \<Rightarrow> string \<Rightarrow> string option \<Rightarrow> string" where
  "summary_instruction cfg goal correction =
     summary_rules @ show_int (mem_max_summary_tokens (c_memory cfg)) @ '' UTF-8 bytes. ''
     @ (if mem_hybrid_reflection (c_memory cfg) then xml_structure_a @ xml_escape (trim goal) @ xml_structure_b
        else heading_structure)
     @ (case opt_filter (\<lambda>v. v \<noteq> []) correction of
          None \<Rightarrow> [] | Some feedback \<Rightarrow> correction_head @ feedback @ correction_tail)"

definition summary_payload :: "config \<Rightarrow> string \<Rightarrow> string \<Rightarrow> string option \<Rightarrow> json" where
  "summary_payload cfg goal source correction =
     JObj [(''model'', JStr (c_model cfg)),
           (''messages'', JArr [system_wire (summary_instruction cfg goal correction),
                              JObj [(''role'', JStr ''user''), (''content'', JStr source)]]),
           (''temperature'', json_nat 0),
           (''max_tokens'', json_int (mem_summary_output_tokens (c_memory cfg)))]"

definition summary_budget :: "lib \<Rightarrow> config \<Rightarrow> session \<Rightarrow> message list \<Rightarrow> string option \<Rightarrow> request_budget" where
  "summary_budget L cfg s historical correction =
     estimate_payload L
       (summary_payload cfg (s_goal s) (source_text L (s_goal s) historical (s_compacted_context s)) correction)
       (c_memory cfg)"

definition choice_content :: "json \<Rightarrow> string option" where
  "choice_content v = Option.bind (pointer v [''choices'', ''0'', ''message'', ''content'']) as_str"

fun mark_truncated :: "json list \<Rightarrow> json list" where
  "mark_truncated [] = []"
| "mark_truncated ds = butlast ds @ [set_idx (last ds) ''failure'' (JStr ''summary_truncated'')]"

definition compact_client ::
  "'w env \<Rightarrow> lib \<Rightarrow> config \<Rightarrow> string \<Rightarrow> string \<Rightarrow> string option \<Rightarrow> 'w \<Rightarrow> (string option \<times> json list) \<times> 'w" where
  "compact_client E L cfg goal source correction w =
     (case post_chat E L cfg (summary_payload cfg goal source correction) w of
        (Inl (_, _, diags), w') \<Rightarrow> ((None, diags), w')
      | (Inr (v, diags), w') \<Rightarrow>
          if Option.bind (pointer v [''choices'', ''0'', ''finish_reason'']) as_str = Some ''length''
          then ((choice_content v, mark_truncated diags), w')
          else ((opt_filter (\<lambda>t. trim t \<noteq> []) (choice_content v), diags), w'))"

section \<open>When compaction is due\<close>

definition interval_due :: "config \<Rightarrow> session \<Rightarrow> bool" where
  "interval_due cfg s =
     is_some_and (mem_compaction_interval_steps (c_memory cfg))
       (\<lambda>interval. interval > 0 \<and> s_step_count s - s_last_compaction_step s \<ge> interval)"

definition threshold_due :: "config \<Rightarrow> session \<Rightarrow> int \<Rightarrow> bool" where
  "threshold_due cfg s estimate \<longleftrightarrow>
     estimate \<ge> mem_max_tokens (c_memory cfg)
     \<and> is_none_or (s_last_compaction_estimated_tokens s)
         (\<lambda>last. estimate \<ge> last + mem_compaction_min_growth_tokens (c_memory cfg))"

definition compaction_due :: "config \<Rightarrow> session \<Rightarrow> int \<Rightarrow> bool" where
  "compaction_due cfg s estimate \<longleftrightarrow> threshold_due cfg s estimate \<or> interval_due cfg s"

definition budget_json :: "request_budget \<Rightarrow> json" where
  "budget_json b =
     JObj [(''estimated_input_tokens'', json_int (b_estimated_input_tokens b)),
           (''reserved_output_tokens'', json_int (b_reserved_output_tokens b)),
           (''safety_margin_tokens'', json_int (b_safety_margin_tokens b)),
           (''context_window_tokens'', json_int (b_context_window_tokens b)),
           (''fits'', JBool (b_fits b)), (''estimator'', JStr (b_estimator b))]"

definition budget_head :: string where
  "budget_head = ''context_budget_exceeded: complete request exceeds configured context budget; no model request was sent (''"

definition budget_error :: "lib \<Rightarrow> request_budget \<Rightarrow> string" where
  "budget_error L b = budget_head @ json_text L (budget_json b) @ '')''"

section \<open>One pass\<close>

record pass_info =
  pi_pass :: nat
  pi_measured :: request_budget
  pi_hard :: bool
  pi_pressure :: rat
  pi_assessment :: json

definition input_limit :: "config \<Rightarrow> request_budget \<Rightarrow> int" where
  "input_limit cfg b =
     mem_context_window_tokens (c_memory cfg) - b_reserved_output_tokens b - mem_safety_margin_tokens (c_memory cfg)"

definition trigger_reasons :: "bool \<Rightarrow> bool \<Rightarrow> bool \<Rightarrow> json list" where
  "trigger_reasons hard interval threshold =
     map JStr ((if hard then [''hard_budget''] else []) @ (if interval then [''cadence''] else [])
               @ (if threshold then [''soft_threshold''] else []))"

definition assess :: "config \<Rightarrow> session \<Rightarrow> nat \<Rightarrow> request_budget \<Rightarrow> pass_info" where
  "assess cfg s pass measured =
     (let hard = \<not> b_fits measured; estimate = b_estimated_input_tokens measured;
          limit = input_limit cfg measured; pressure = f64_ratio estimate (max limit 1);
          trigger = (if hard then ''hard_budget'' else if interval_due cfg s then ''cadence'' else ''soft_threshold'')
      in \<lparr>pi_pass = pass, pi_measured = measured, pi_hard = hard, pi_pressure = pressure,
          pi_assessment = JObj [(''step'', json_int (s_step_count s)), (''pass'', json_nat (pass + 1)),
             (''trigger'', JStr trigger),
             (''trigger_reasons'', JArr (trigger_reasons hard (interval_due cfg s) (threshold_due cfg s estimate))),
             (''before_estimated_tokens'', json_int estimate), (''input_budget_tokens'', json_int limit),
             (''headroom_tokens'', json_int (limit - estimate)), (''pressure_ratio'', json_rat pressure)]\<rparr>)"

definition skip :: "json \<Rightarrow> string \<Rightarrow> (string \<times> json) list \<Rightarrow> ('w, unit) eng" where
  "skip assessment reason extra =
     record_diag fam_decisions
       (JObj ([(''assessment'', assessment), (''outcome'', JStr ''skipped''), (''reason'', JStr reason)] @ extra))"

text \<open>Drop the newest old groups into the tail until the summary request fits.\<close>

fun select_source ::
  "lib \<Rightarrow> config \<Rightarrow> session \<Rightarrow> history_group list \<Rightarrow> history_group list \<Rightarrow> nat
     \<Rightarrow> message list \<times> history_group list \<times> history_group list" where
  "select_source L cfg s old kept 0 = ([], old, kept)"
| "select_source L cfg s old kept (Suc n) =
     (let historical = flatten old
      in if historical = [] \<or> b_fits (summary_budget L cfg s historical None) then (historical, old, kept)
         else if length old \<le> 1 then ([], old, kept)
         else select_source L cfg s (butlast old) (last old # kept) n)"

record source_info =
  so_old :: "history_group list"
  so_kept :: "history_group list"
  so_historical :: "message list"
  so_required :: int
  so_assessment :: json
  so_source :: string
  so_hash :: string
  so_previous :: "string option"

definition so_retained :: "source_info \<Rightarrow> message list" where
  "so_retained so = flatten (so_kept so)"

definition shifted_indexes :: "history_group list \<Rightarrow> json" where
  "shifted_indexes gs = JArr (map (\<lambda>i. json_nat (i + 1)) (concat (map g_indexes gs)))"

definition message_json :: "message \<Rightarrow> json" where
  "message_json m =
     JObj [(''message_id'', json_opt (m_message_id m)),
           (''sequence'', (case m_sequence m of None \<Rightarrow> JNull | Some i \<Rightarrow> json_int i)),
           (''created_at'', json_opt (m_created_at m)), (''role'', JStr (m_role m)),
           (''content'', json_opt (m_content m)), (''name'', json_opt (m_name m)),
           (''tool_call_id'', json_opt (m_tool_call_id m)), (''tool_calls'', unwrap_or JNull (m_tool_calls m))]"

definition ledger_json :: "ledger \<Rightarrow> json" where
  "ledger_json l =
     JObj [(''goal'', JStr (l_goal l)), (''model_claims'', JArr (map JStr (l_model_claims l))),
           (''dead_ends'', JArr (map JStr (l_dead_ends l))), (''hypothesis'', JStr (l_hypothesis l)),
           (''source_sha256'', JStr (l_source_sha256 l)), (''verification'', JStr (l_verification l))]"

definition replaced :: "message list \<Rightarrow> string option \<Rightarrow> session \<Rightarrow> session" where
  "replaced retained ctx s = s\<lparr>s_memory := take 1 (s_memory s) @ retained, s_compacted_context := ctx\<rparr>"

definition required_reduction :: "config \<Rightarrow> bool \<Rightarrow> int \<Rightarrow> int" where
  "required_reduction cfg hard estimate =
     (if hard then 1
      else max (max 1 (mem_optional_min_reduction_tokens (c_memory cfg)))
             (f64_to_i64 (of_int \<lceil>round_f64 (int_f64 estimate * mem_optional_min_reduction_ratio (c_memory cfg))\<rceil>)))"

text \<open>Everything a pass decides before it asks for a summary: \<open>None\<close> ends the passes.\<close>

definition optional_gate :: "config \<Rightarrow> session \<Rightarrow> pass_info \<Rightarrow> string option" where
  "optional_gate cfg s pn =
     (if pi_hard pn then None
      else if c_workflow cfg \<noteq> None \<and> complete_wf cfg s then Some ''completed_workflow''
      else if is_some_and (s_last_compaction_attempt_step s)
                (\<lambda>last. s_step_count s - last < mem_compaction_min_interval_steps (c_memory cfg))
      then Some ''minimum_spacing'' else None)"

definition pressure_gate :: "config \<Rightarrow> pass_info \<Rightarrow> int \<Rightarrow> int \<Rightarrow> string option" where
  "pressure_gate cfg pn reclaimable required =
     (if pi_hard pn then None
      else if pi_pressure pn < mem_optional_min_pressure_ratio (c_memory cfg) then Some ''low_pressure''
      else if reclaimable < max (mem_optional_min_reclaimable_tokens (c_memory cfg)) required
      then Some ''insufficient_reclaimable_history'' else None)"

definition settled_assessment :: "json \<Rightarrow> int \<Rightarrow> int \<Rightarrow> int \<Rightarrow> json" where
  "settled_assessment a protected_tokens reclaimable required =
     set_idx (set_idx (set_idx a ''protected_estimated_tokens'' (json_int protected_tokens))
       ''reclaimable_estimated_tokens'' (json_int reclaimable)) ''required_reduction_tokens'' (json_int required)"

text \<open>\<open>&s.memory[1..]\<close> panics on an empty memory.\<close>

definition slice_panic :: string where "slice_panic = ''range start index 1 out of range for slice of length 0''"

definition give_up :: "lib \<Rightarrow> pass_info \<Rightarrow> string \<Rightarrow> ('w, 'a option) eng" where
  "give_up L pn reason =
     ebind (skip (pi_assessment pn) reason [])
       (\<lambda>_. if pi_hard pn then fail (budget_error L (pi_measured pn)) else ret None)"

definition prepare_source ::
  "lib \<Rightarrow> config \<Rightarrow> pass_info \<Rightarrow> message list \<Rightarrow> history_group list \<Rightarrow> history_group list
     \<Rightarrow> ('w, source_info option) eng" where
  "prepare_source L cfg pn historical old kept =
     ebind (gets (\<lambda>s. (request_budget_of L cfg (replaced (flatten kept) None s), s)))
       (\<lambda>(fl, s). ebind (lift fl)
          (\<lambda>flr. let estimate = b_estimated_input_tokens (pi_measured pn);
                     reclaimable = max (estimate - b_estimated_input_tokens flr) 0;
                     required = required_reduction cfg (pi_hard pn) estimate;
                     assessment = settled_assessment (pi_assessment pn) (b_estimated_input_tokens flr) reclaimable required
                 in case pressure_gate cfg pn reclaimable required of
                      Some reason \<Rightarrow> ebind (skip assessment reason []) (\<lambda>_. ret None)
                    | None \<Rightarrow>
                        (let source = source_text L (s_goal s) historical (s_compacted_context s);
                             hash = sha256_hex L source
                         in if s_last_compaction_attempt_sha256 s = Some hash
                            then ebind (skip assessment ''unchanged_failed_source'' [(''source_sha256'', JStr hash)])
                                   (\<lambda>_. ret None)
                            else ret (Some \<lparr>so_old = old, so_kept = kept, so_historical = historical,
                                            so_required = required, so_assessment = assessment,
                                            so_source = source, so_hash = hash,
                                            so_previous = map_option l_source_sha256 (s_compaction_ledger s)\<rparr>))))"

definition open_pass :: "lib \<Rightarrow> config \<Rightarrow> nat \<Rightarrow> ('w, pass_info option) eng" where
  "open_pass L cfg pass =
     ebind (gets (request_budget_of L cfg))
       (\<lambda>r. ebind (lift r)
          (\<lambda>measured. ebind (modify (\<lambda>s. s\<lparr>s_request_budget := Some measured\<rparr>))
             (\<lambda>_. ebind (gets (\<lambda>s. (compaction_due cfg s (b_estimated_input_tokens measured), assess cfg s pass measured)))
                (\<lambda>(due, pn). if b_fits measured \<and> \<not> due then ret None else ret (Some pn)))))"

definition choose_source :: "lib \<Rightarrow> config \<Rightarrow> pass_info \<Rightarrow> ('w, source_info option) eng" where
  "choose_source L cfg pn =
     ebind (gets (\<lambda>s. s))
       (\<lambda>s. if s_memory s = [] then fail slice_panic
            else ebind (lift (split_history L (drop 1 (s_memory s)) (mem_raw_turns_to_keep (c_memory cfg))))
              (\<lambda>(old, kept).
                 if old = [] then give_up L pn ''no_historical_groups''
                 else (case optional_gate cfg s pn of
                         Some reason \<Rightarrow> ebind (skip (pi_assessment pn) reason []) (\<lambda>_. ret None)
                       | None \<Rightarrow>
                           (case select_source L cfg s old kept (Suc (length old)) of
                              (historical, old', kept') \<Rightarrow>
                                if historical = [] then give_up L pn ''summarizer_source_unaffordable''
                                else prepare_source L cfg pn historical old' kept'))))"

section \<open>One attempt\<close>

definition no_reduction :: string where
  "no_reduction = ''replacement does not reduce the complete decision request''"
definition small_reduction :: string where
  "small_reduction = ''replacement reduction is below the configured optional minimum''"
definition stale_proposal :: string where
  "stale_proposal = ''summary proposal is stale because protected context changed''"
definition no_proposal :: string where "no_proposal = ''summary model returned no usable proposal''"
definition request_too_big :: string where
  "request_too_big = ''summary request exceeds configured context budget''"

definition reduction :: "pass_info \<Rightarrow> request_budget \<Rightarrow> int" where
  "reduction pn after = b_estimated_input_tokens (pi_measured pn) - b_estimated_input_tokens after"

definition judge ::
  "lib \<Rightarrow> config \<Rightarrow> pass_info \<Rightarrow> source_info \<Rightarrow> string \<Rightarrow> session
     \<Rightarrow> (string + (ledger \<times> string \<times> request_budget)) result" where
  "judge L cfg pn so t s =
     (case validate_ledger L t (s_goal s) (so_source so) (nat (max (mem_max_summary_tokens (c_memory cfg)) 1))
             (mem_hybrid_reflection (c_memory cfg)) of
        Inl reason \<Rightarrow> Ok (Inl reason)
      | Inr (l, rendered) \<Rightarrow>
          rbind (request_budget_of L cfg (replaced (so_retained so) (Some rendered) s))
            (\<lambda>after. Ok (if reduction pn after \<le> 0 then Inl no_reduction
                         else if \<not> pi_hard pn \<and> reduction pn after < so_required so then Inl small_reduction
                         else Inr (l, rendered, after))))"

definition source_fields :: "source_info \<Rightarrow> (string \<times> json) list" where
  "source_fields so =
     [(''source_sha256'', JStr (so_hash so)), (''source_indexes'', shifted_indexes (so_old so)),
      (''source_messages'', JArr (map message_json (so_historical so))),
      (''retained_indexes'', shifted_indexes (so_kept so))]"

definition saving_fields :: "pass_info \<Rightarrow> request_budget \<Rightarrow> (string \<times> json) list" where
  "saving_fields pn after =
     [(''before_estimated_tokens'', json_int (b_estimated_input_tokens (pi_measured pn))),
      (''after_estimated_tokens'', json_int (b_estimated_input_tokens after)),
      (''reduction_tokens'', json_int (reduction pn after))]"

definition ratio_field :: "pass_info \<Rightarrow> request_budget \<Rightarrow> string \<times> json" where
  "ratio_field pn after =
     (''reduction_ratio'',
      json_rat (f64_ratio (reduction pn after) (max (b_estimated_input_tokens (pi_measured pn)) 1)))"

definition attempt_head :: "session \<Rightarrow> pass_info \<Rightarrow> int \<Rightarrow> (string \<times> json) list" where
  "attempt_head s pn used =
     [(''step'', json_int (s_step_count s)), (''pass'', json_nat (pi_pass pn + 1)), (''attempt'', json_int used)]"

definition accepted_attempt ::
  "session \<Rightarrow> pass_info \<Rightarrow> source_info \<Rightarrow> int \<Rightarrow> string \<Rightarrow> ledger \<Rightarrow> request_budget \<Rightarrow> json" where
  "accepted_attempt s pn so used t l after =
     JObj (attempt_head s pn used @ source_fields so @ [(''accepted'', JBool True)] @ saving_fields pn after
           @ [ratio_field pn after, (''proposal'', JStr t), (''ledger'', ledger_json l),
              (''previous_ledger_sha256'', json_opt (so_previous so))])"

definition message_ids :: "message list \<Rightarrow> json" where
  "message_ids ms = JArr (map JStr (List.map_filter m_message_id ms))"

definition summary_transcript ::
  "session \<Rightarrow> pass_info \<Rightarrow> source_info \<Rightarrow> int \<Rightarrow> string \<Rightarrow> ledger \<Rightarrow> string \<Rightarrow> request_budget \<Rightarrow> string option \<Rightarrow> json" where
  "summary_transcript s pn so used t l rendered after previous_id =
     JObj [(''content'', JStr rendered), (''proposal'', JStr t), (''ledger'', ledger_json l),
           (''source_sha256'', JStr (so_hash so)), (''source_message_ids'', message_ids (so_historical so)),
           (''retained_message_ids'', message_ids (drop 1 (s_memory s))), (''previous_ledger_id'', json_opt previous_id),
           (''efficiency'', JObj (attempt_head s pn used @ [(''source_sha256'', JStr (so_hash so))]
                                @ saving_fields pn after @ [ratio_field pn after]))]"

definition push_provenance :: "json \<Rightarrow> session \<Rightarrow> session" where
  "push_provenance v s = s\<lparr>s_compaction_provenance := s_compaction_provenance s @ [v]\<rparr>"

definition install_ledger :: "source_info \<Rightarrow> ledger \<Rightarrow> string \<Rightarrow> string \<Rightarrow> session \<Rightarrow> session" where
  "install_ledger so l rendered summary_id s =
     (replaced (so_retained so) (Some rendered) s)
       \<lparr>s_compaction_ledger := Some l, s_active_ledger_id := Some summary_id\<rparr>"

definition settle_ledger :: "request_budget \<Rightarrow> session \<Rightarrow> session" where
  "settle_ledger after s =
     s\<lparr>s_last_compaction_step := s_step_count s,
       s_last_compaction_estimated_tokens := Some (b_estimated_input_tokens after),
       s_last_compaction_attempt_sha256 := None, s_request_budget := Some after\<rparr>"

definition accepted_provenance ::
  "session \<Rightarrow> pass_info \<Rightarrow> source_info \<Rightarrow> int \<Rightarrow> string \<Rightarrow> ledger \<Rightarrow> string \<Rightarrow> request_budget \<Rightarrow> string option \<Rightarrow> string \<Rightarrow> json" where
  "accepted_provenance s pn so used t l rendered after previous_id summary_id =
     JObj (source_fields so @ [(''previous_ledger_sha256'', json_opt (so_previous so)), (''accepted'', JBool True)]
           @ saving_fields pn after
           @ [(''transcript_record_id'', JStr summary_id),
              (''transcript_payload'', summary_transcript s pn so used t l rendered after previous_id)])"

definition accepted_decision :: "session \<Rightarrow> pass_info \<Rightarrow> source_info \<Rightarrow> request_budget \<Rightarrow> json" where
  "accepted_decision s pn so after =
     JObj ([(''step'', json_int (s_step_count s)), (''outcome'', JStr ''accepted''), (''source_sha256'', JStr (so_hash so))]
           @ saving_fields pn after)"

text \<open>A diagnostic whose payload reads the session it is recorded in.\<close>

definition record_with :: "string \<Rightarrow> (session \<Rightarrow> json) \<Rightarrow> ('w, unit) eng" where
  "record_with family f = ebind (gets f) (\<lambda>v. record_diag family v)"

definition accept_proposal ::
  "'w env \<Rightarrow> pass_info \<Rightarrow> source_info \<Rightarrow> int \<Rightarrow> string \<Rightarrow> ledger \<Rightarrow> string \<Rightarrow> request_budget \<Rightarrow> ('w, unit) eng" where
  "accept_proposal E pn so used t l rendered after =
     ebind (gets s_active_ledger_id)
       (\<lambda>previous_id. ebind (ask (env_uuid E))
          (\<lambda>summary_id. ebind (modify (install_ledger so l rendered summary_id))
             (\<lambda>_. ebind (record_diag fam_events (JStr rendered))
                (\<lambda>_. ebind (modify (settle_ledger after))
                   (\<lambda>_. ebind (record_with fam_attempts (\<lambda>s. accepted_attempt s pn so used t l after))
                      (\<lambda>_. ebind (modify (\<lambda>s. push_provenance
                               (accepted_provenance s pn so used t l rendered after previous_id summary_id) s))
                         (\<lambda>_. record_with fam_decisions (\<lambda>s. accepted_decision s pn so after))))))))"

definition rejected_attempt ::
  "int \<Rightarrow> pass_info \<Rightarrow> source_info \<Rightarrow> int \<Rightarrow> string \<Rightarrow> string option \<Rightarrow> json" where
  "rejected_attempt step pn so used reason proposal =
     JObj ([(''step'', json_int step), (''pass'', json_nat (pi_pass pn + 1)), (''attempt'', json_int used)]
           @ source_fields so
           @ [(''accepted'', JBool False), (''reason'', JStr reason), (''proposal'', json_opt proposal),
              (''previous_ledger_sha256'', json_opt (so_previous so))])"

definition reject_proposal ::
  "'w env \<Rightarrow> session \<Rightarrow> pass_info \<Rightarrow> source_info \<Rightarrow> int \<Rightarrow> string \<Rightarrow> string option \<Rightarrow> ('w, unit) eng" where
  "reject_proposal E before pn so used reason proposal =
     (let attempt = rejected_attempt (s_step_count before) pn so used reason proposal
      in ebind (archive E ''compaction_rejected'' attempt) (\<lambda>_. record_diag fam_attempts attempt))"

definition start_attempt :: "source_info \<Rightarrow> session \<Rightarrow> session" where
  "start_attempt so s =
     s\<lparr>s_last_compaction_attempt_step := Some (s_step_count s), s_last_compaction_attempt_sha256 := Some (so_hash so)\<rparr>"

definition provider_failure :: "json list \<Rightarrow> string option" where
  "provider_failure diags =
     (case List.map_filter (\<lambda>d. as_str (idx d ''failure'')) (rev diags) of [] \<Rightarrow> None | f # _ \<Rightarrow> Some f)"

definition context_changed :: "session \<Rightarrow> session \<Rightarrow> bool" where
  "context_changed before s \<longleftrightarrow>
     map message_json (s_memory s) \<noteq> map message_json (s_memory before)
     \<or> s_compacted_context s \<noteq> s_compacted_context before \<or> s_step_count s \<noteq> s_step_count before"

text \<open>\<open>None\<close> when the proposal was installed, otherwise the reason it was not.\<close>

definition judge_proposal ::
  "'w env \<Rightarrow> lib \<Rightarrow> config \<Rightarrow> session \<Rightarrow> pass_info \<Rightarrow> source_info \<Rightarrow> int \<Rightarrow> string option \<Rightarrow> json list
     \<Rightarrow> ('w, string option) eng" where
  "judge_proposal E L cfg before pn so used proposal diags =
     ebind (gets (\<lambda>s. s))
       (\<lambda>s. if provider_failure diags = Some ''summary_truncated'' then ret (Some ''summary_truncated'')
            else if context_changed before s then ret (Some stale_proposal)
            else (case proposal of
                    None \<Rightarrow> ret (Some (unwrap_or no_proposal (provider_failure diags)))
                  | Some t \<Rightarrow>
                      ebind (lift (judge L cfg pn so t s))
                        (\<lambda>v. case v of
                               Inl reason \<Rightarrow> ret (Some reason)
                             | Inr (l, rendered, after) \<Rightarrow>
                                 ebind (accept_proposal E pn so used t l rendered after) (\<lambda>_. ret None))))"

definition one_attempt ::
  "'w env \<Rightarrow> lib \<Rightarrow> config \<Rightarrow> session \<Rightarrow> pass_info \<Rightarrow> source_info \<Rightarrow> int \<Rightarrow> string option \<Rightarrow> ('w, string option) eng" where
  "one_attempt E L cfg before pn so used correction =
     ebind (modify (start_attempt so))
       (\<lambda>_. ebind (gets s_goal)
          (\<lambda>goal. ebind (ask (compact_client E L cfg goal (so_source so) correction))
             (\<lambda>(proposal, diags).
                ebind (modify (\<lambda>s. s\<lparr>s_model_request_diagnostics := s_model_request_diagnostics s @ diags\<rparr>))
                  (\<lambda>_. ebind (judge_proposal E L cfg before pn so used proposal diags)
                     (\<lambda>verdict. case verdict of
                        None \<Rightarrow> ret None
                      | Some reason \<Rightarrow>
                          ebind (reject_proposal E before pn so used reason proposal) (\<lambda>_. ret (Some reason)))))))"

text \<open>
  \<open>while attempts_used < compaction_max_attempts\<close>: the last argument is the number of attempts
  left.  The result is whether a proposal was installed, the attempts used and the last reason.
\<close>

fun attempt_loop ::
  "'w env \<Rightarrow> lib \<Rightarrow> config \<Rightarrow> session \<Rightarrow> pass_info \<Rightarrow> source_info \<Rightarrow> int \<Rightarrow> string option \<Rightarrow> string \<Rightarrow> nat
     \<Rightarrow> ('w, bool \<times> int \<times> string) eng" where
  "attempt_loop E L cfg before pn so used correction reason 0 = ret (False, used, reason)"
| "attempt_loop E L cfg before pn so used correction reason (Suc left) =
     ebind (gets (\<lambda>s. summary_budget L cfg s (so_historical so) correction))
       (\<lambda>budget. if \<not> b_fits budget then ret (False, used, request_too_big)
            else ebind (one_attempt E L cfg before pn so (used + 1) correction)
                   (\<lambda>verdict. case verdict of
                      None \<Rightarrow> ret (True, used + 1, reason)
                    | Some r \<Rightarrow> attempt_loop E L cfg before pn so (used + 1) (Some r) r left))"

section \<open>The passes\<close>

definition attempts_left :: "config \<Rightarrow> int \<Rightarrow> nat" where
  "attempts_left cfg used = nat (mem_compaction_max_attempts (c_memory cfg) - used)"

definition rejected_provenance :: "pass_info \<Rightarrow> source_info \<Rightarrow> string \<Rightarrow> json" where
  "rejected_provenance pn so reason =
     JObj (source_fields so
           @ [(''previous_ledger_sha256'', json_opt (so_previous so)), (''accepted'', JBool False),
              (''before_estimated_tokens'', json_int (b_estimated_input_tokens (pi_measured pn))),
              (''reason'', JStr reason)])"

definition rejected_decision :: "source_info \<Rightarrow> string \<Rightarrow> session \<Rightarrow> json" where
  "rejected_decision so reason s =
     JObj [(''step'', json_int (s_step_count s)), (''outcome'', JStr ''rejected''),
           (''source_sha256'', JStr (so_hash so)), (''reason'', JStr reason)]"

definition reject_pass :: "pass_info \<Rightarrow> source_info \<Rightarrow> string \<Rightarrow> ('w, unit) eng" where
  "reject_pass pn so reason =
     ebind (modify (\<lambda>s. push_provenance (rejected_provenance pn so reason)
                          (s\<lparr>s_last_compaction_attempt_sha256 := Some (so_hash so)\<rparr>)))
       (\<lambda>_. record_with fam_decisions (rejected_decision so reason))"

text \<open>A pass returns whether another pass follows, whether it changed the context, and the attempts used.\<close>

definition finish_pass ::
  "config \<Rightarrow> pass_info \<Rightarrow> source_info \<Rightarrow> bool \<times> int \<times> string \<Rightarrow> ('w, bool \<times> bool \<times> int) eng" where
  "finish_pass cfg pn so = (\<lambda>(accepted, used, reason).
     if accepted
     then ebind (gets (\<lambda>s. is_some_and (s_request_budget s) b_fits)) (\<lambda>fits. ret (\<not> fits, True, used))
     else ebind (reject_pass pn so reason)
            (\<lambda>_. ret (\<not> (used \<ge> mem_compaction_max_attempts (c_memory cfg)) \<and> \<not> length (so_old so) \<le> 1, False, used)))"

definition summarise_source ::
  "'w env \<Rightarrow> lib \<Rightarrow> config \<Rightarrow> pass_info \<Rightarrow> source_info \<Rightarrow> int \<Rightarrow> ('w, bool \<times> bool \<times> int) eng" where
  "summarise_source E L cfg pn so used =
     ebind (gets (\<lambda>s. s))
       (\<lambda>before. ebind (record_diag fam_decisions
             (JObj [(''assessment'', so_assessment so), (''outcome'', JStr ''triggered''), (''source_sha256'', JStr (so_hash so))]))
          (\<lambda>_. ebind (attempt_loop E L cfg before pn so used None [] (attempts_left cfg used))
             (finish_pass cfg pn so)))"

definition one_pass :: "'w env \<Rightarrow> lib \<Rightarrow> config \<Rightarrow> nat \<Rightarrow> int \<Rightarrow> ('w, bool \<times> bool \<times> int) eng" where
  "one_pass E L cfg pass used =
     ebind (open_pass L cfg pass)
       (\<lambda>p. case p of
          None \<Rightarrow> ret (False, False, used)
        | Some pn \<Rightarrow>
            ebind (choose_source L cfg pn)
              (\<lambda>source. case source of
                 None \<Rightarrow> ret (False, False, used)
               | Some so \<Rightarrow> summarise_source E L cfg pn so used))"

fun passes :: "'w env \<Rightarrow> lib \<Rightarrow> config \<Rightarrow> nat list \<Rightarrow> bool \<Rightarrow> int \<Rightarrow> ('w, bool) eng" where
  "passes E L cfg [] changed used = ret changed"
| "passes E L cfg (pass # rest) changed used =
     ebind (one_pass E L cfg pass used)
       (\<lambda>(more, accepted, used'). if more then passes E L cfg rest (changed \<or> accepted) used' else ret (changed \<or> accepted))"

definition pass_list :: "config \<Rightarrow> nat list" where
  "pass_list cfg = [0..<nat (max (mem_compaction_max_passes (c_memory cfg)) 1)]"

definition final_budget :: "lib \<Rightarrow> config \<Rightarrow> ('w, unit) eng" where
  "final_budget L cfg =
     ebind (gets (request_budget_of L cfg))
       (\<lambda>r. ebind (lift r)
          (\<lambda>b. ebind (modify (\<lambda>s. s\<lparr>s_request_budget := Some b\<rparr>))
             (\<lambda>_. if b_fits b then ret () else fail (budget_error L b))))"

definition compact_session :: "'w env \<Rightarrow> lib \<Rightarrow> config \<Rightarrow> ('w, bool) eng" where
  "compact_session E L cfg =
     ebind (passes E L cfg (pass_list cfg) False 0)
       (\<lambda>changed. ebind (final_budget L cfg) (\<lambda>_. ret changed))"

section \<open>What the request depends on\<close>

lemma request_budget_of_cong:
  assumes "s_goal s' = s_goal s" "s_memory s' = s_memory s" "s_compacted_context s' = s_compacted_context s"
    "s_workflow s' = s_workflow s" "s_completion_artifacts s' = s_completion_artifacts s"
  shows "request_budget_of L cfg s' = request_budget_of L cfg s"
proof -
  have a: "active_phase s' = active_phase s" "observed s' = observed s" "complete_wf cfg s' = complete_wf cfg s"
    using assms by (simp_all add: active_phase_def observed_def complete_wf_def fun_eq_iff)
  have m: "missing L s' = missing L s" using a by (simp add: missing_def missing_evidence_def fun_eq_iff)
  have n: "allowed_names cfg s' = allowed_names cfg s" using a by (simp add: allowed_names_def)
  have i: "instruction L cfg s' = instruction L cfg s" by (simp only: instruction_def a(1) m n)
  have v: "artifact_value s' = artifact_value s" using assms by (simp add: artifact_value_def fun_eq_iff)
  have b: "bound_value cfg s' = bound_value cfg s" using assms by (simp add: bound_value_def artifact_for_label_def fun_eq_iff split: option.split)
  have t: "artifact_texts L cfg s' = artifact_texts L cfg s" using v by (simp add: artifact_texts_def)
  have p: "payload L cfg s' = payload L cfg s"
    by (simp only: payload_def payload_head_def payload_tail_def synthesis_parts_def assms a i b t)
  have w: "terminal_workflow cfg s' = terminal_workflow cfg s" by (simp only: terminal_workflow_def a)
  show ?thesis
    by (simp only: request_budget_of_def complete_request_payload_def decision_payload_def p w assms(2))
qed

lemma replaced_fields [simp]:
  "s_goal (replaced r c s) = s_goal s" "s_memory (replaced r c s) = take 1 (s_memory s) @ r"
  "s_compacted_context (replaced r c s) = c" "s_workflow (replaced r c s) = s_workflow s"
  "s_completion_artifacts (replaced r c s) = s_completion_artifacts s"
  by (simp_all add: replaced_def)

section \<open>A successful compaction leaves a request that fits\<close>

lemma final_budget_fits:
  assumes "final_budget L cfg (s, w) = (Ok u, s', w')"
  shows "\<exists>b. request_budget_of L cfg s' = Ok b \<and> b_fits b \<and> s_request_budget s' = Some b"
proof -
  from assms obtain b where b: "request_budget_of L cfg s = Ok b" "b_fits b" "s' = s\<lparr>s_request_budget := Some b\<rparr>"
    by (auto simp: final_budget_def ebind_def eng_simps split: sum.splits if_splits)
  then show ?thesis using request_budget_of_cong [of s' s L cfg] by simp
qed

lemma compact_fits:
  assumes "compact_session E L cfg (s, w) = (Ok changed, s', w')"
  shows "\<exists>b. request_budget_of L cfg s' = Ok b \<and> b_fits b \<and> s_request_budget s' = Some b"
proof -
  from assms obtain s1 w1 where "final_budget L cfg (s1, w1) = (Ok (), s', w')"
    unfolding compact_session_def ebind_Ok by (auto simp: ret_def split: prod.splits)
  then show ?thesis by (rule final_budget_fits)
qed

section \<open>Rejected sources\<close>

text \<open>The choice of a source changes nothing but the journal.\<close>

definition view_closed :: "(session \<Rightarrow> bool) \<Rightarrow> bool" where
  "view_closed Q \<longleftrightarrow> (\<forall>s t. view s = view t \<longrightarrow> Q s = Q t)"

lemma view_closed_intros [intro]:
  "view_closed (\<lambda>s. view s = v)" "view_closed Q \<Longrightarrow> view_closed R \<Longrightarrow> view_closed (\<lambda>s. Q s \<and> R s)"
  "view_closed (\<lambda>s. s_goal s = g)"
  unfolding view_closed_def by (metis, metis, simp add: view_def)

lemma record_diag_triple: "view_closed Q \<Longrightarrow> triple Q (record_diag f p) (\<lambda>_. Q) Q"
  unfolding record_diag_def view_closed_def by (rule triple_update) (metis record_diagnostic_view, assumption)

lemma record_with_triple: "view_closed Q \<Longrightarrow> triple Q (record_with f p) (\<lambda>_. Q) Q"
  unfolding record_with_def by (rule triple_ebind [where R = "\<lambda>_. Q"]) (simp_all add: triple_basic record_diag_triple)

lemma skip_triple: "view_closed Q \<Longrightarrow> triple Q (skip a r x) (\<lambda>_. Q) Q"
  unfolding skip_def by (rule record_diag_triple)

lemma archive_triple:
  "(\<And>u now s. Q (archive_record u now k p s) = Q s) \<Longrightarrow> triple Q (archive E k p) (\<lambda>_. Q) Q"
  unfolding archive_def by (intro triple_ebind [where R = "\<lambda>_. Q"] triple_basic) simp_all

lemma select_source_split:
  assumes "select_source L cfg s old kept n = (historical, old', kept')"
  shows "old' @ kept' = old @ kept" "historical = [] \<or> historical = flatten old'"
    "length (flatten kept) \<le> length (flatten kept')"
  using assms
proof (induction n arbitrary: old kept)
  case (Suc n)
  { case 1 then show ?case using Suc.IH(1) [of "butlast old" "last old # kept"]
      by (cases "old = []") (auto simp: Let_def split: if_splits)
  }
  { case 2 then show ?case using Suc.IH(2) [of "butlast old" "last old # kept"]
      by (auto simp: Let_def split: if_splits)
  }
  { case 3 then show ?case using Suc.IH(3) [of "butlast old" "last old # kept"]
      by (auto simp: Let_def split: if_splits)
  }
qed auto

text \<open>The number of steps given to \<open>select_source\<close> is enough: an empty source means none fits.\<close>

lemma select_source_exhausts:
  assumes "select_source L cfg s old kept n = ([], old', kept')" "length old < n" "\<forall>g\<in>set old. g_messages g \<noteq> []"
    "0 < k" "k \<le> length old"
  shows "\<not> b_fits (summary_budget L cfg s (flatten (take k old)) None)"
  using assms
proof (induction n arbitrary: old kept)
  case (Suc n)
  have ne: "flatten old \<noteq> []" using Suc.prems by (cases old) auto
  from Suc.prems(1) ne have nofit: "\<not> b_fits (summary_budget L cfg s (flatten old) None)"
    by (auto simp: Let_def split: if_splits)
  show ?case
  proof (cases "k = length old")
    case True then show ?thesis using nofit by simp
  next
    case False
    then have k: "k \<le> length (butlast old)" "length old > 1" using Suc.prems by auto
    have rec: "select_source L cfg s (butlast old) (last old # kept) n = ([], old', kept')"
      using Suc.prems(1) nofit ne k by (simp add: Let_def)
    have "\<not> b_fits (summary_budget L cfg s (flatten (take k (butlast old))) None)"
      using Suc.prems k by (intro Suc.IH [OF rec]) (auto dest: in_set_butlastD)
    then show ?thesis using k False Suc.prems by (simp add: take_butlast)
  qed
qed simp


section \<open>What compaction does to the history\<close>

definition tail_of :: "session \<Rightarrow> message list" where "tail_of s = drop 1 (s_memory s)"

text \<open>
  \<open>compacted_from keep s0 s\<close>: the history of \<open>s\<close> is that of \<open>s0\<close> without a prefix of whole
  interactions; the first message stays, at least \<open>keep\<close> messages stay raw, and a dropped prefix
  is represented by the ledger in the context.
\<close>

definition compacted_from :: "config \<Rightarrow> session \<Rightarrow> session \<Rightarrow> bool" where
  "compacted_from cfg s0 s \<longleftrightarrow>
     take 1 (s_memory s) = take 1 (s_memory s0)
     \<and> min (mem_raw_turns_to_keep (c_memory cfg)) (length (tail_of s0)) \<le> length (tail_of s)
     \<and> (\<exists>gone. tail_of s0 = gone @ tail_of s
          \<and> (if gone = [] then s_compacted_context s = s_compacted_context s0
             else correlated gone \<and> correlated (tail_of s)
                  \<and> (\<exists>l. s_compaction_ledger s = Some l \<and> l_goal l = s_goal s0
                         \<and> s_compacted_context s = Some (render_ledger l (mem_hybrid_reflection (c_memory cfg))))))
     \<and> s_goal s = s_goal s0 \<and> s_workflow s = s_workflow s0 \<and> s_completion_artifacts s = s_completion_artifacts s0
     \<and> s_step_count s = s_step_count s0 \<and> s_status s = s_status s0 \<and> s_executions s = s_executions s0
     \<and> s_pending_tool_calls s = s_pending_tool_calls s0 \<and> s_pending_tool_phase s = s_pending_tool_phase s0
     \<and> s_final_answer s = s_final_answer s0"

text \<open>A source selected for a session splits its history at a boundary between interactions.\<close>

definition fits_session :: "config \<Rightarrow> source_info \<Rightarrow> session \<Rightarrow> bool" where
  "fits_session cfg so s \<longleftrightarrow>
     s_memory s \<noteq> [] \<and> tail_of s = so_historical so @ so_retained so \<and> so_historical so \<noteq> []
     \<and> correlated (so_historical so) \<and> correlated (so_retained so)
     \<and> mem_raw_turns_to_keep (c_memory cfg) \<le> length (so_retained so)"

lemma compacted_from_refl: "compacted_from cfg s s"
  by (simp add: compacted_from_def)


lemma closed_invariants [intro]: "view_closed (compacted_from cfg s0)" "view_closed (fits_session cfg so)"
  by (simp_all add: view_closed_def view_def compacted_from_def fits_session_def tail_of_def)

lemma compacted_from_install:
  assumes c: "compacted_from cfg s0 s" and f: "fits_session cfg so s" and g: "l_goal l = s_goal s"
    and r: "rendered = render_ledger l (mem_hybrid_reflection (c_memory cfg))"
  shows "compacted_from cfg s0 (install_ledger so l rendered i s)"
proof -
  let ?s = "install_ledger so l rendered i s"
  from c obtain gone where gone: "tail_of s0 = gone @ tail_of s" "gone \<noteq> [] \<Longrightarrow> correlated gone"
    unfolding compacted_from_def by (metis correlated.corr_nil)
  from f have t: "tail_of ?s = so_retained so" "take 1 (s_memory ?s) = take 1 (s_memory s)"
    by (cases "s_memory s"; simp add: fits_session_def install_ledger_def tail_of_def)+
  let ?gone = "gone @ so_historical so"
  have rest: "s_goal ?s = s_goal s0" "s_workflow ?s = s_workflow s0" "s_completion_artifacts ?s = s_completion_artifacts s0"
    "s_step_count ?s = s_step_count s0" "s_status ?s = s_status s0" "s_executions ?s = s_executions s0"
    "s_pending_tool_calls ?s = s_pending_tool_calls s0" "s_goal s = s_goal s0"
    "s_pending_tool_phase ?s = s_pending_tool_phase s0" "s_final_answer ?s = s_final_answer s0"
    "take 1 (s_memory ?s) = take 1 (s_memory s0)"
    using c unfolding t(2) by (simp_all add: compacted_from_def install_ledger_def replaced_def)
  have ctx: "s_compaction_ledger ?s = Some l" "s_compacted_context ?s = Some rendered"
    by (simp_all add: install_ledger_def)
  have split: "tail_of s0 = ?gone @ tail_of ?s" using gone f t by (simp add: fits_session_def)
  have corr: "correlated ?gone" using gone f
    by (cases "gone = []") (auto simp: fits_session_def intro: correlated_append)
  have ne: "?gone \<noteq> []" "correlated (tail_of ?s)" using f t by (auto simp: fits_session_def)
  have keep: "min (mem_raw_turns_to_keep (c_memory cfg)) (length (tail_of s0)) \<le> length (tail_of ?s)"
    using f t(1) unfolding fits_session_def by (metis min.coboundedI1)
  show ?thesis
    unfolding compacted_from_def if_not_P [OF ne(1)]
    using keep rest split
    by (intro conjI exI [of _ ?gone]) (use corr ne ctx g r rest(8) in \<open>simp_all only: if_False simp_thms option.inject\<close>)
qed

lemma compacted_from_frame [simp]:
  "compacted_from cfg s0 (settle_ledger b s) = compacted_from cfg s0 s"
  "compacted_from cfg s0 (push_provenance v s) = compacted_from cfg s0 s"
  "compacted_from cfg s0 (start_attempt so s) = compacted_from cfg s0 s"
  "compacted_from cfg s0 (s\<lparr>s_model_request_diagnostics := ds\<rparr>) = compacted_from cfg s0 s"
  "compacted_from cfg s0 (s\<lparr>s_request_budget := rb\<rparr>) = compacted_from cfg s0 s"
  "compacted_from cfg s0 (s\<lparr>s_last_compaction_attempt_sha256 := h\<rparr>) = compacted_from cfg s0 s"
  "compacted_from cfg s0 (archive_record u now k p s) = compacted_from cfg s0 s"
  by (simp_all add: compacted_from_def tail_of_def settle_ledger_def push_provenance_def start_attempt_def archive_record_def)

lemma fits_session_frame [simp]:
  "fits_session cfg so (start_attempt so' s) = fits_session cfg so s"
  "fits_session cfg so (s\<lparr>s_model_request_diagnostics := ds\<rparr>) = fits_session cfg so s"
  "fits_session cfg so (s\<lparr>s_request_budget := rb\<rparr>) = fits_session cfg so s"
  "fits_session cfg so (archive_record u now k p s) = fits_session cfg so s"
  by (simp_all add: fits_session_def tail_of_def start_attempt_def archive_record_def)

section \<open>Every outcome of compaction keeps the history invariant\<close>

lemma judge_Ok:
  assumes "judge L cfg pn so t s = Ok (Inr (l, rendered, after))"
  shows "l_goal l = s_goal s" "rendered = render_ledger l (mem_hybrid_reflection (c_memory cfg))"
    "request_budget_of L cfg (replaced (so_retained so) (Some rendered) s) = Ok after"
    "0 < reduction pn after" "\<not> pi_hard pn \<Longrightarrow> so_required so \<le> reduction pn after"
proof -
  from assms obtain v where v: "validate_ledger L t (s_goal s) (so_source so) (nat (max (mem_max_summary_tokens (c_memory cfg)) 1))
      (mem_hybrid_reflection (c_memory cfg)) = Inr (l, rendered)"
    and b: "request_budget_of L cfg (replaced (so_retained so) (Some rendered) s) = Ok after"
      "0 < reduction pn after" "\<not> pi_hard pn \<Longrightarrow> so_required so \<le> reduction pn after"
    by (auto simp: judge_def result_simps split: sum.splits if_splits)
  from b show "request_budget_of L cfg (replaced (so_retained so) (Some rendered) s) = Ok after"
    "0 < reduction pn after" "\<not> pi_hard pn \<Longrightarrow> so_required so \<le> reduction pn after" by blast+
  from v show "l_goal l = s_goal s" "rendered = render_ledger l (mem_hybrid_reflection (c_memory cfg))"
    by (auto elim!: validate_ledger_Ok)
qed

lemma accept_proposal_triple:
  assumes "l_goal l = g" "rendered = render_ledger l (mem_hybrid_reflection (c_memory cfg))"
  shows "triple (\<lambda>s. compacted_from cfg s0 s \<and> fits_session cfg so s \<and> s_goal s = g)
      (accept_proposal E pn so used t l rendered after) (\<lambda>_. compacted_from cfg s0) (compacted_from cfg s0)"
  unfolding accept_proposal_def
  apply (rule triple_ebind [where R = "\<lambda>_ s. compacted_from cfg s0 s \<and> fits_session cfg so s \<and> s_goal s = g"], rule triple_basic, assumption)
  apply (rule triple_ebind [where R = "\<lambda>_ s. compacted_from cfg s0 s \<and> fits_session cfg so s \<and> s_goal s = g"], rule triple_basic, assumption)
  apply (rule triple_ebind [where R = "\<lambda>_. compacted_from cfg s0"], rule triple_basic)
  using assms apply (auto intro: compacted_from_install) []
  by (intro triple_ebind [where R = "\<lambda>_. compacted_from cfg s0"] record_diag_triple record_with_triple closed_invariants triple_basic)
     simp_all


text \<open>\<open>pending_source\<close>: the source still describes the session, so a further attempt may use it.\<close>

abbreviation pending_source :: "config \<Rightarrow> session \<Rightarrow> source_info \<Rightarrow> session \<Rightarrow> bool" where
  "pending_source cfg s0 so \<equiv> \<lambda>s. compacted_from cfg s0 s \<and> fits_session cfg so s"

abbreviation attempt_post :: "config \<Rightarrow> session \<Rightarrow> source_info \<Rightarrow> string option \<Rightarrow> session \<Rightarrow> bool" where
  "attempt_post cfg s0 so \<equiv> \<lambda>v s. compacted_from cfg s0 s \<and> (v \<noteq> None \<longrightarrow> fits_session cfg so s)"

lemma judge_proposal_triple:
  "triple (pending_source cfg s0 so) (judge_proposal E L cfg before pn so used proposal diags)
     (attempt_post cfg s0 so) (compacted_from cfg s0)"
  unfolding judge_proposal_def
proof (rule triple_ebind [where R = "\<lambda>x s. pending_source cfg s0 so s \<and> x = s"])
  fix cur
  show "triple (\<lambda>s. pending_source cfg s0 so s \<and> cur = s)
          (if provider_failure diags = Some ''summary_truncated'' then ret (Some ''summary_truncated'')
           else if context_changed before cur then ret (Some stale_proposal)
           else case proposal of
                  None \<Rightarrow> ret (Some (unwrap_or no_proposal (provider_failure diags)))
                | Some t \<Rightarrow>
                    ebind (lift (judge L cfg pn so t cur))
                      (\<lambda>v. case v of
                             Inl reason \<Rightarrow> ret (Some reason)
                           | Inr (l, rendered, after) \<Rightarrow>
                               ebind (accept_proposal E pn so used t l rendered after) (\<lambda>_. ret None)))
          (attempt_post cfg s0 so) (compacted_from cfg s0)"
  proof (intro triple_if triple_option triple_basic)
    fix t
    show "triple (\<lambda>s. pending_source cfg s0 so s \<and> cur = s)
           (ebind (lift (judge L cfg pn so t cur))
              (\<lambda>v. case v of
                     Inl reason \<Rightarrow> ret (Some reason)
                   | Inr (l, rendered, after) \<Rightarrow>
                       ebind (accept_proposal E pn so used t l rendered after) (\<lambda>_. ret None)))
           (attempt_post cfg s0 so) (compacted_from cfg s0)"
    proof (rule triple_ebind [where R = "\<lambda>v s. pending_source cfg s0 so s \<and> cur = s \<and> judge L cfg pn so t cur = Ok v"])
      fix v
      show "triple (\<lambda>s. pending_source cfg s0 so s \<and> cur = s \<and> judge L cfg pn so t cur = Ok v)
              (case v of
                 Inl reason \<Rightarrow> ret (Some reason)
               | Inr (l, rendered, after) \<Rightarrow>
                   ebind (accept_proposal E pn so used t l rendered after) (\<lambda>_. ret None))
              (attempt_post cfg s0 so) (compacted_from cfg s0)"
      proof (intro triple_sum triple_pair triple_basic)
        fix vv l x rendered after
        assume v: "v = Inr vv" "vv = (l, x)" "x = (rendered, after)"
        show "triple (\<lambda>s. pending_source cfg s0 so s \<and> cur = s \<and> judge L cfg pn so t cur = Ok v)
               (ebind (accept_proposal E pn so used t l rendered after) (\<lambda>_. ret None))
               (attempt_post cfg s0 so) (compacted_from cfg s0)"
        proof (cases "judge L cfg pn so t cur = Ok v")
          case True
          note j = judge_Ok(1,2) [OF True [unfolded v]]
          show ?thesis
            by (rule triple_ebind [where R = "\<lambda>_. compacted_from cfg s0"])
               (auto intro: triple_basic triple_weaken [OF accept_proposal_triple [OF j]])
        qed (simp add: triple_pre_False)
      qed auto
    qed (auto intro: triple_lift)
  qed auto
qed (auto intro: triple_basic)

lemma reject_proposal_triple:
  "triple (pending_source cfg s0 so) (reject_proposal E before pn so' used reason proposal)
     (\<lambda>_. pending_source cfg s0 so) (pending_source cfg s0 so)"
  unfolding reject_proposal_def Let_def
  by (intro triple_ebind [where R = "\<lambda>_. pending_source cfg s0 so"] archive_triple record_diag_triple
        view_closed_intros closed_invariants) simp

lemma conclude_attempt_triple:
  "triple (pending_source cfg s0 so)
      (ebind (judge_proposal E L cfg before pn so used proposal diags)
         (\<lambda>verdict. case verdict of
            None \<Rightarrow> ret None
          | Some reason \<Rightarrow> ebind (reject_proposal E before pn so used reason proposal) (\<lambda>_. ret (Some reason))))
      (attempt_post cfg s0 so) (compacted_from cfg s0)"
proof (rule triple_ebind [OF judge_proposal_triple], rule triple_option)
  show "triple (attempt_post cfg s0 so v)
      (ebind (reject_proposal E before pn so used reason proposal) (\<lambda>_. ret (Some reason)))
      (attempt_post cfg s0 so) (compacted_from cfg s0)" if "v = Some reason" for v reason
    by (rule triple_ebind [where R = "\<lambda>_. pending_source cfg s0 so"])
       (auto simp: that intro: triple_basic triple_weaken [OF reject_proposal_triple])
qed (auto intro: triple_basic)

lemma one_attempt_triple:
  "triple (pending_source cfg s0 so) (one_attempt E L cfg before pn so used correction)
     (attempt_post cfg s0 so) (compacted_from cfg s0)"
  unfolding one_attempt_def
  by ((rule triple_ebind [where R = "\<lambda>_. pending_source cfg s0 so"], rule triple_basic, simp)+,
      rule triple_pair, rule triple_ebind [where R = "\<lambda>_. pending_source cfg s0 so"], rule triple_basic, simp,
      rule conclude_attempt_triple)

lemma attempt_loop_triple:
  "triple (pending_source cfg s0 so) (attempt_loop E L cfg before pn so used correction reason n)
     (\<lambda>_. compacted_from cfg s0) (compacted_from cfg s0)"
proof (induction n arbitrary: used correction reason)
  case (Suc n)
  show ?case
    unfolding attempt_loop.simps
  proof (rule triple_ebind [where R = "\<lambda>_. pending_source cfg s0 so"], goal_cases)
    case (2 budget)
    have "triple (pending_source cfg s0 so)
        (ebind (one_attempt E L cfg before pn so (used + 1) correction)
           (\<lambda>verdict. case verdict of
              None \<Rightarrow> ret (True, used + 1, reason)
            | Some r \<Rightarrow> attempt_loop E L cfg before pn so (used + 1) (Some r) r n))
        (\<lambda>_. compacted_from cfg s0) (compacted_from cfg s0)"
      by (intro triple_ebind [OF one_attempt_triple] triple_option)
         (auto intro: triple_basic triple_weaken [OF Suc.IH])
    then show ?case by (auto intro: triple_basic)
  qed (auto intro: triple_basic)
qed (auto intro: triple_basic)


lemma give_up_triple: "view_closed Q \<Longrightarrow> triple Q (give_up L pn reason) (\<lambda>r s. r = None \<and> Q s) Q"
  unfolding give_up_def by (rule triple_ebind [OF skip_triple]) (auto intro: triple_basic)

lemma skip_None_triple:
  "view_closed Q \<Longrightarrow> triple Q (ebind (skip a r x) (\<lambda>_. ret None)) (\<lambda>r s. r = None \<and> Q s) Q"
  by (rule triple_ebind [OF skip_triple]) (auto intro: triple_basic)

text \<open>A prepared source is the one it was given, hashed against the session it was prepared for.\<close>

definition prepared :: "lib \<Rightarrow> session \<Rightarrow> message list \<Rightarrow> history_group list \<Rightarrow> history_group list \<Rightarrow> source_info \<Rightarrow> bool" where
  "prepared L s historical old kept so \<longleftrightarrow>
     so_historical so = historical \<and> so_old so = old \<and> so_kept so = kept
     \<and> so_source so = source_text L (s_goal s) historical (s_compacted_context s)
     \<and> so_hash so = sha256_hex L (so_source so) \<and> s_last_compaction_attempt_sha256 s \<noteq> Some (so_hash so)"

lemma prepare_source_triple:
  assumes "view_closed Q"
  shows "triple Q (prepare_source L cfg pn historical old kept)
     (\<lambda>r s. Q s \<and> (\<forall>so. r = Some so \<longrightarrow> prepared L s historical old kept so)) Q"
proof -
  let ?R = "\<lambda>r s. Q s \<and> (\<forall>so. r = Some so \<longrightarrow> prepared L s historical old kept so)"
  note sk = triple_weaken [OF skip_None_triple [OF assms], where R' = ?R]
  show ?thesis
    unfolding prepare_source_def
    apply (rule triple_ebind [where R = "\<lambda>(b, t) s. Q s \<and> s = t"], rule triple_basic, simp)
    apply (rule triple_pair)
    apply (rule triple_ebind [where R = "\<lambda>_ s. Q s \<and> s = b" for b], rule triple_lift, simp, simp)
    apply (unfold Let_def)
    apply (intro triple_option triple_if)
    by ((rule sk; simp) | (rule triple_basic, simp add: prepared_def))+
qed


lemma choose_source_cases:
  assumes "choose_source L cfg pn (s, w) = (Ok (Some so), s', w')"
  obtains old kept old' kept' historical where "s_memory s \<noteq> []"
    "split_history L (drop 1 (s_memory s)) (mem_raw_turns_to_keep (c_memory cfg)) = Ok (old, kept)" "old \<noteq> []"
    "select_source L cfg s old kept (Suc (length old)) = (historical, old', kept')" "historical \<noteq> []"
    "prepared L s historical old' kept' so" "view s' = view s"
proof -
  have never: "\<not> (m (s, w) = (Ok (Some so), s', w'))" if "triple (\<lambda>_. True) m (\<lambda>r s. r = None \<and> Q s) Q" for m Q
    using tripleD(1) [OF that] by blast
  have cl: "view_closed (\<lambda>_. True)" by (simp add: view_closed_def)
  note nv = never [OF give_up_triple [OF cl]] never [OF skip_None_triple [OF cl]]
  from assms obtain old kept old' kept' historical where *: "s_memory s \<noteq> []"
    "split_history L (drop 1 (s_memory s)) (mem_raw_turns_to_keep (c_memory cfg)) = Ok (old, kept)" "old \<noteq> []"
    "select_source L cfg s old kept (Suc (length old)) = (historical, old', kept')" "historical \<noteq> []"
    "prepare_source L cfg pn historical old' kept' (s, w) = (Ok (Some so), s', w')"
    using nv unfolding choose_source_def
    by (auto simp: ebind_Ok eng_simps gets_def lift_def simp del: select_source.simps split: if_splits option.splits prod.splits)
  have "view_closed (\<lambda>t. view t = view s)" by (rule view_closed_intros)
  from tripleD(1) [OF prepare_source_triple [OF this] refl *(6)] have v: "view s' = view s" "prepared L s' historical old' kept' so" by auto
  then have "prepared L s historical old' kept' so" by (auto simp: prepared_def view_def)
  with * v(1) show thesis by (intro that)
qed

lemma choose_source_keeps:
  assumes cl: "view_closed Q"
  shows "triple Q (choose_source L cfg pn) (\<lambda>_. Q) Q"
proof -
  note sk = triple_weaken [OF skip_None_triple [OF cl], where R' = "\<lambda>_. Q"]
    triple_weaken [OF give_up_triple [OF cl], where R' = "\<lambda>_. Q"]
    triple_weaken [OF prepare_source_triple [OF cl], where R' = "\<lambda>_. Q"]
  show ?thesis
    unfolding choose_source_def
    by (rule triple_ebind [where R = "\<lambda>_. Q"], rule triple_basic, assumption)
       (intro triple_if triple_ebind [OF triple_lift, where R = "\<lambda>_. Q"] triple_pair triple_option;
        ((rule triple_basic; assumption) | (rule sk; simp) | assumption)+)
qed

lemma choose_source_fits:
  assumes "choose_source L cfg pn (s, w) = (Ok (Some so), s', w')"
  shows "fits_session cfg so s'"
proof -
  from assms obtain old kept old' kept' historical where c: "s_memory s \<noteq> []"
    "split_history L (drop 1 (s_memory s)) (mem_raw_turns_to_keep (c_memory cfg)) = Ok (old, kept)" "old \<noteq> []"
    "select_source L cfg s old kept (Suc (length old)) = (historical, old', kept')" "historical \<noteq> []"
    "prepared L s historical old' kept' so" "view s' = view s"
    by (rule choose_source_cases)
  note split = split_history_sound [OF c(2)] and sel = select_source_split [OF c(4)]
  from split(4) have g: "\<And>g. g \<in> set (old' @ kept') \<Longrightarrow> correlated (g_messages g)"
    using interaction_groups_sound(4) sel(1) by metis
  have "flatten old' @ flatten kept' = drop 1 (s_memory s)"
    using split(1) sel(1) by (metis flatten_append)
  moreover have "length (flatten kept) \<le> length (flatten kept')"
    by (rule sel(3))
  ultimately have "fits_session cfg so s"
    using c g sel(2) split(5) unfolding fits_session_def prepared_def so_retained_def tail_of_def
    by (auto intro!: correlated_flatten)
  with c(7) show ?thesis using closed_invariants(2) [of cfg so] unfolding view_closed_def by blast
qed

lemma choose_source_triple:
  "triple (compacted_from cfg s0) (choose_source L cfg pn)
     (\<lambda>r s. compacted_from cfg s0 s \<and> (\<forall>so. r = Some so \<longrightarrow> fits_session cfg so s)) (compacted_from cfg s0)"
proof (rule tripleI)
  note keep = choose_source_keeps [OF closed_invariants(1) [of cfg s0]]
  show "compacted_from cfg s0 s' \<and> (\<forall>so. r = Some so \<longrightarrow> fits_session cfg so s')"
    if "compacted_from cfg s0 s" "choose_source L cfg pn (s, w) = (Ok r, s', w')" for s w r s' w'
    using tripleD(1) [OF keep that] choose_source_fits [where cfg = cfg and L = L and pn = pn and s = s and w = w] that(2)
    by auto
  show "compacted_from cfg s0 s'" if "compacted_from cfg s0 s" "choose_source L cfg pn (s, w) = (Err e, s', w')" for s w e s' w'
    using tripleD(2) [OF keep that] .
qed


lemma finish_pass_triple:
  "triple (compacted_from cfg s0) (finish_pass cfg' pn so r) (\<lambda>_. compacted_from cfg s0) (compacted_from cfg s0)"
  unfolding finish_pass_def reject_pass_def
  by (intro triple_pair triple_if triple_ebind [where R = "\<lambda>_. compacted_from cfg s0"] record_with_triple
        closed_invariants; rule triple_basic; simp)

lemma summarise_source_triple:
  "triple (pending_source cfg s0 so) (summarise_source E L cfg pn so used) (\<lambda>_. compacted_from cfg s0) (compacted_from cfg s0)"
  unfolding summarise_source_def
  by (rule triple_ebind [where R = "\<lambda>_. pending_source cfg s0 so"], rule triple_basic, assumption,
      rule triple_ebind [where R = "\<lambda>_. pending_source cfg s0 so"],
      rule triple_weaken [OF record_diag_triple [where Q = "pending_source cfg s0 so"]], blast, assumption+, simp,
      rule triple_ebind [OF attempt_loop_triple], rule finish_pass_triple)

lemma open_pass_triple:
  "triple (compacted_from cfg s0) (open_pass L cfg' pass) (\<lambda>_. compacted_from cfg s0) (compacted_from cfg s0)"
  unfolding open_pass_def
  by (intro triple_ebind [where R = "\<lambda>_. compacted_from cfg s0"] triple_pair triple_if triple_lift;
      (rule triple_basic)?; simp)

lemma one_pass_triple:
  "triple (compacted_from cfg s0) (one_pass E L cfg pass used) (\<lambda>_. compacted_from cfg s0) (compacted_from cfg s0)"
  unfolding one_pass_def
proof (rule triple_ebind [OF open_pass_triple], rule triple_option)
  show "triple (compacted_from cfg s0)
     (ebind (choose_source L cfg pn)
        (\<lambda>source. case source of None \<Rightarrow> ret (False, False, used) | Some so \<Rightarrow> summarise_source E L cfg pn so used))
     (\<lambda>_. compacted_from cfg s0) (compacted_from cfg s0)" for pn
    by (rule triple_ebind [OF choose_source_triple], rule triple_option)
       (auto intro: triple_basic triple_weaken [OF summarise_source_triple])
qed (auto intro: triple_basic)

lemma passes_triple:
  "triple (compacted_from cfg s0) (passes E L cfg ps changed used) (\<lambda>_. compacted_from cfg s0) (compacted_from cfg s0)"
proof (induction ps arbitrary: changed used)
  case (Cons p ps)
  show ?case unfolding passes.simps
    by (rule triple_ebind [OF one_pass_triple], intro triple_pair triple_if Cons.IH triple_basic)
qed (auto intro: triple_basic)

lemma compact_triple:
  "triple (compacted_from cfg s0) (compact_session E L cfg) (\<lambda>_. compacted_from cfg s0) (compacted_from cfg s0)"
  unfolding compact_session_def final_budget_def
  by (rule triple_ebind [OF passes_triple],
      intro triple_ebind [where R = "\<lambda>_. compacted_from cfg s0"] triple_if triple_lift; (rule triple_basic)?; simp)

lemma compact_history:
  "compact_session E L cfg (s, w) = (r, s', w') \<Longrightarrow> compacted_from cfg s s'"
  by (cases r) (simp_all add: tripleD [OF compact_triple compacted_from_refl])

section \<open>A rejected source is not tried again\<close>

lemma select_source_cong:
  assumes "s_goal s' = s_goal s" "s_compacted_context s' = s_compacted_context s"
  shows "select_source L cfg s' old kept n = select_source L cfg s old kept n"
proof (induction n arbitrary: old kept)
  case (Suc n)
  have "summary_budget L cfg s' h c = summary_budget L cfg s h c" for h c using assms by (simp add: summary_budget_def)
  then show ?case using Suc.IH by (simp only: select_source.simps)
qed simp

lemma rejected_source_not_retried:
  assumes first: "choose_source L cfg pn (s, w) = (Ok (Some so), s1, w1)"
    and same: "s_goal s' = s_goal s" "s_memory s' = s_memory s" "s_compacted_context s' = s_compacted_context s"
    and rejected: "s_last_compaction_attempt_sha256 s' = Some (so_hash so)"
  shows "choose_source L cfg pn' (s', w') \<noteq> (Ok (Some so'), s2, w2)"
proof
  assume second: "choose_source L cfg pn' (s', w') = (Ok (Some so'), s2, w2)"
  from second obtain a b a' b' h' where 2: "split_history L (drop 1 (s_memory s')) (mem_raw_turns_to_keep (c_memory cfg)) = Ok (a, b)"
    "select_source L cfg s' a b (Suc (length a)) = (h', a', b')" "prepared L s' h' a' b' so'"
    by (rule choose_source_cases)
  from first obtain c d c' d' h where 1: "split_history L (drop 1 (s_memory s)) (mem_raw_turns_to_keep (c_memory cfg)) = Ok (c, d)"
    "select_source L cfg s c d (Suc (length c)) = (h, c', d')" "prepared L s h c' d' so"
    by (rule choose_source_cases)
  have "h' = h" using 1 2 same select_source_cong [OF same(1,3)] by (simp del: select_source.simps)
  then show False using 1(3) 2(3) rejected same by (auto simp: prepared_def)
qed

section \<open>Nothing to compact\<close>

lemma pass_list_Cons: "pass_list cfg = 0 # [1..<nat (max (mem_compaction_max_passes (c_memory cfg)) 1)]"
  by (simp add: pass_list_def upt_conv_Cons)

lemma compact_idle:
  assumes "request_budget_of L cfg s = Ok b" "b_fits b" "\<not> compaction_due cfg s (b_estimated_input_tokens b)"
  shows "compact_session E L cfg (s, w) = (Ok False, s\<lparr>s_request_budget := Some b\<rparr>, w)"
proof -
  let ?s = "s\<lparr>s_request_budget := Some b\<rparr>"
  have due: "\<not> compaction_due cfg ?s (b_estimated_input_tokens b)"
    using assms(3) by (simp add: compaction_due_def threshold_due_def interval_due_def)
  have again: "request_budget_of L cfg ?s = Ok b"
    using assms(1) request_budget_of_cong [of ?s s L cfg] by simp
  have "open_pass L cfg 0 (s, w) = (Ok None, ?s, w)"
    using assms due by (simp add: open_pass_def ebind_def eng_simps)
  then have "passes E L cfg (pass_list cfg) False 0 (s, w) = (Ok False, ?s, w)"
    by (simp add: pass_list_Cons one_pass_def ebind_def eng_simps)
  then show ?thesis using again assms(2) by (simp add: compact_session_def final_budget_def ebind_def eng_simps)
qed

text \<open>The same function with the idle case decided first, which is how it is evaluated.\<close>

definition compact_passes :: "'w env \<Rightarrow> lib \<Rightarrow> config \<Rightarrow> ('w, bool) eng" where
  "compact_passes E L cfg =
     ebind (passes E L cfg (pass_list cfg) False 0)
       (\<lambda>changed. ebind (final_budget L cfg) (\<lambda>_. ret changed))"

lemma compact_session_code [code]:
  "compact_session E L cfg (s, w) =
     (case request_budget_of L cfg s of
        Inl e \<Rightarrow> compact_passes E L cfg (s, w)
      | Inr b \<Rightarrow> if b_fits b \<and> \<not> compaction_due cfg s (b_estimated_input_tokens b)
                 then (Ok False, s\<lparr>s_request_budget := Some b\<rparr>, w) else compact_passes E L cfg (s, w))"
  using compact_idle [of L cfg s _ E w] by (auto simp: compact_session_def compact_passes_def split: sum.split)

end
