(* ===== verification/Engine.thy ===== *)
theory Engine
  imports Actions Compaction
begin

text \<open>
  The run loop (\<open>Engine::run\<close> and \<open>settle_pending\<close> of \<^verbatim>\<open>engine.rs\<close>): each iteration advances
  the workflow, compacts the context, asks the model for a decision and carries it out, until
  the session is no longer active or the step allowance of the run is used up.
\<close>

section \<open>Settling a batch of tool calls\<close>

definition pending_id :: "json \<Rightarrow> string" where "pending_id call = unwrap_or [] (get_str call ''id'')"
definition pending_name :: "json \<Rightarrow> string" where "pending_name call = unwrap_or missing_name (get_str call ''name'')"

definition pending_args :: "json \<Rightarrow> (string \<times> json) list" where
  "pending_args call = unwrap_or [] (Option.bind (get call ''arguments'') as_object)"

definition rejection_text :: "lib \<Rightarrow> config \<Rightarrow> session \<Rightarrow> string option \<Rightarrow> json \<Rightarrow> string option" where
  "rejection_text L cfg s ph call =
     map_option (\<lambda>reason. reason @ ''. '' @ action_feedback L cfg s ph (pending_name call))
       (action_rejection L cfg s ph (pending_name call) (pending_args call) (get_str call ''error''))"

definition correction_text :: string where
  "correction_text = ''Runtime correction: invalid tool calls were rejected before execution. Use the advertised function names and JSON argument schemas.'' @ newline"

definition rejected_output :: "lib \<Rightarrow> config \<Rightarrow> session \<Rightarrow> string \<Rightarrow> string" where
  "rejected_output L cfg s reason =
     ''ERROR: action rejected before execution: '' @ reason @ newline @ correction_text
     @ unwrap_or [] (instruction L cfg s)"

definition disabled_output :: "string \<Rightarrow> string" where
  "disabled_output name =
     ''ERROR: tool '' @ quoted name @ '' is disabled or not allowed in the active workflow phase.''"

text \<open>The output of one call, and whether the tool was executed.\<close>

definition call_output ::
  "'w env \<Rightarrow> lib \<Rightarrow> config \<Rightarrow> string option \<Rightarrow> json \<Rightarrow> ('w, string \<times> bool) eng" where
  "call_output E L cfg ph call =
     ebind (gets (\<lambda>s. s))
       (\<lambda>s. case rejection_text L cfg s ph call of
              Some reason \<Rightarrow> ret (rejected_output L cfg s reason, False)
            | None \<Rightarrow>
                if allowed_in_phase_for_session cfg s ph (pending_name call)
                then ebind (dispatch E L cfg (pending_id call) (pending_name call) (JObj (pending_args call)))
                       (\<lambda>output. ret (output, True))
                else ret (disabled_output (pending_name call), False))"

definition note_output :: "lib \<Rightarrow> config \<Rightarrow> json \<Rightarrow> string \<Rightarrow> session \<Rightarrow> session" where
  "note_output L cfg call output s =
     (let s1 = capture_artifacts L cfg (pending_id call) (pending_name call) (pending_args call) output s;
          s2 = (if s_workflow s1 = None \<and> \<not> is_error_output output
                then record_progress_output L (pending_name call) (pending_args call) output s1 else s1)
      in record_evidence L cfg s2 (pending_name call) (pending_args call) output)"

definition drop_pending :: "session \<Rightarrow> session" where
  "drop_pending s =
     s\<lparr>s_pending_tool_calls := tl (s_pending_tool_calls s),
       s_pending_tool_phase := (if tl (s_pending_tool_calls s) = [] then None else s_pending_tool_phase s)\<rparr>"

definition completed_event :: "json \<Rightarrow> string \<Rightarrow> bool \<Rightarrow> json" where
  "completed_event call output executed =
     interim ''tool_completed''
       (JObj [(''tool'', JStr (pending_name call)), (''output'', JStr output),
              (''tool_call_id'', JStr (pending_id call)), (''executed'', JBool executed)])"

definition settle_one ::
  "'w env \<Rightarrow> lib \<Rightarrow> config \<Rightarrow> string option \<Rightarrow> bool \<Rightarrow> ('w, bool) eng" where
  "settle_one E L cfg ph rejected =
     ebind (gets (\<lambda>s. (hd (s_pending_tool_calls s), rejection_text L cfg s ph (hd (s_pending_tool_calls s)) \<noteq> None)))
       (\<lambda>(call, refused). ebind (call_output E L cfg ph call)
          (\<lambda>(output, executed).
             ebind (ewhen executed (modify (note_output L cfg call output)))
               (\<lambda>_. ebind (append_msg E (tool_result_message (pending_id call) (pending_name call) output))
                  (\<lambda>_. ebind (modify drop_pending)
                     (\<lambda>_. ebind (checkpoint E (completed_event call output executed))
                        (\<lambda>_. ret (rejected \<or> refused)))))))"

definition has_pending :: "bool \<Rightarrow> session \<Rightarrow> bool" where
  "has_pending _ s \<longleftrightarrow> s_pending_tool_calls s \<noteq> []"

definition settle_calls :: "'w env \<Rightarrow> lib \<Rightarrow> config \<Rightarrow> string option \<Rightarrow> nat \<Rightarrow> ('w, bool) eng" where
  "settle_calls E L cfg ph n = ewhile n has_pending (settle_one E L cfg ph) False"

definition bump_invalid :: "config \<Rightarrow> ('w, bool) eng" where
  "bump_invalid cfg = (\<lambda>(s, w). case increment_invalid cfg s of (b, s') \<Rightarrow> (Ok b, s', w))"

definition limit_error :: "'w env \<Rightarrow> ('w, unit) eng" where
  "limit_error E =
     ebind (gets s_final_answer) (\<lambda>answer. checkpoint E (error_event ''invalid_response_limit'' (json_opt answer)))"

definition batch_feedback :: "lib \<Rightarrow> config \<Rightarrow> string option \<Rightarrow> session \<Rightarrow> string" where
  "batch_feedback L cfg ph s =
     (case instruction L cfg s of
        Some t \<Rightarrow> correction_text @ t
      | None \<Rightarrow> ''Runtime correction: '' @ action_feedback L cfg s ph [])"

definition rejected_event :: "string \<Rightarrow> string \<Rightarrow> nat \<Rightarrow> json" where
  "rejected_event code message count =
     interim ''response_rejected''
       (JObj [(''code'', JStr code), (''message'', JStr message), (''consecutive_invalid_responses'', json_nat count)])"

definition reject_batch :: "'w env \<Rightarrow> lib \<Rightarrow> config \<Rightarrow> string option \<Rightarrow> ('w, unit) eng" where
  "reject_batch E L cfg ph =
     ebind (gets (batch_feedback L cfg ph))
       (\<lambda>feedback. ebind (bump_invalid cfg)
          (\<lambda>reached. ebind (gets s_consecutive_invalid_responses)
             (\<lambda>n. ebind (checkpoint E (rejected_event ''action_rejected'' feedback n))
                (\<lambda>_. ewhen reached (limit_error E)))))"

definition settle_pending :: "'w env \<Rightarrow> lib \<Rightarrow> config \<Rightarrow> ('w, unit) eng" where
  "settle_pending E L cfg =
     ebind (gets (\<lambda>s. (s_pending_tool_phase s, length (s_pending_tool_calls s))))
       (\<lambda>(ph, n). ebind (settle_calls E L cfg ph n)
          (\<lambda>rejected. if rejected then reject_batch E L cfg ph
               else modify (\<lambda>s. s\<lparr>s_consecutive_invalid_responses := 0\<rparr>)))"

section \<open>One decision\<close>

definition status_message :: "string \<Rightarrow> (string \<times> json) list \<Rightarrow> json" where
  "status_message message extra = JObj ([(''type'', JStr ''status''), (''message'', JStr message)] @ extra)"

definition phase_event :: "transition \<Rightarrow> json" where
  "phase_event t =
     JObj [(''type'', JStr ''interim_result''), (''step'', JStr ''phase_completed''), (''phase_id'', JStr (t_from_phase t)),
           (''next_phase'', JStr (t_to_phase t)), (''reason'', JStr (t_reason t))]"

definition advance_phase :: "'w env \<Rightarrow> lib \<Rightarrow> config \<Rightarrow> ('w, unit) eng" where
  "advance_phase E L cfg =
     ebind (gets (\<lambda>s. fst (advance L cfg s)))
       (\<lambda>t. ebind (modify (\<lambda>s. snd (advance L cfg s)))
          (\<lambda>_. case t of None \<Rightarrow> ret () | Some tr \<Rightarrow> checkpoint E (phase_event tr)))"

definition diagnostic_event :: "json \<Rightarrow> json" where
  "diagnostic_event d = JObj [(''type'', JStr ''model_request_diagnostic''), (''data'', d)]"

definition compaction_event :: "session \<Rightarrow> json" where
  "compaction_event s =
     interim ''compaction'' (JObj [(''compaction_count'', json_int (diag_count s fam_events))])"

text \<open>A panic unwinds through the engine; every other error of compaction ends the run with a report.\<close>

definition compaction_outcome :: "'w env \<Rightarrow> bool result \<Rightarrow> ('w, string option) eng" where
  "compaction_outcome E r =
     (case r of
        Inl e \<Rightarrow> if e = slice_panic then fail e else ret (Some e)
      | Inr changed \<Rightarrow>
          ebind (ewhen changed (ebind (gets compaction_event) (checkpoint E))) (\<lambda>_. ret None))"

definition compaction_code :: "string \<Rightarrow> string" where
  "compaction_code message =
     (if prefix ''context_integrity_error'' message then ''context_integrity_error'' else ''context_budget_exceeded'')"

definition compact_step :: "'w env \<Rightarrow> lib \<Rightarrow> config \<Rightarrow> ('w, string option) eng" where
  "compact_step E L cfg =
     ebind (gets (\<lambda>s. length (s_model_request_diagnostics s)))
       (\<lambda>start. ebind (ebind (outcome (compact_session E L cfg)) (compaction_outcome E))
          (\<lambda>error. ebind (gets (\<lambda>s. drop start (s_model_request_diagnostics s)))
             (\<lambda>ds. ebind (efor ds (\<lambda>d. checkpoint E (diagnostic_event d))) (\<lambda>_. ret error))))"

definition stop_compaction :: "'w env \<Rightarrow> string \<Rightarrow> ('w, unit) eng" where
  "stop_compaction E message =
     ebind (modify (fail_session message))
       (\<lambda>_. checkpoint E (error_event (compaction_code message) (JStr message)))"

definition take_diagnostics :: "json \<Rightarrow> json list" where
  "take_diagnostics d =
     (case d of JObj kvs \<Rightarrow> unwrap_or [] (Option.bind (map_of kvs ''_diagnostics'') as_array) | _ \<Rightarrow> [])"

definition strip_diagnostics :: "json \<Rightarrow> json" where
  "strip_diagnostics d = (case d of JObj kvs \<Rightarrow> JObj (obj_remove ''_diagnostics'' kvs) | _ \<Rightarrow> d)"

definition note_diagnostic :: "'w env \<Rightarrow> json \<Rightarrow> ('w, unit) eng" where
  "note_diagnostic E d =
     ebind (modify (\<lambda>s. s\<lparr>s_model_request_diagnostics := s_model_request_diagnostics s @ [d]\<rparr>))
       (\<lambda>_. checkpoint E (diagnostic_event d))"

definition decision_record :: "lib \<Rightarrow> json \<Rightarrow> json" where
  "decision_record L d =
     JObj [(''code'', idx d ''code''), (''type'', idx d ''type''),
           (''calls'', JArr (map (\<lambda>c. JObj [(''id'', idx c ''id''), (''name'', idx c ''name''),
                                          (''raw_arguments'', idx c ''raw_arguments'')])
                            (unwrap_or [] (as_array (idx d ''calls''))))),
           (''content'', idx d ''content''), (''parsed_decision_json'', JStr (python_json L d))]"

definition make_decision :: "'w env \<Rightarrow> lib \<Rightarrow> config \<Rightarrow> ('w, json) eng" where
  "make_decision E L cfg =
     ebind (gets (payload L cfg))
       (\<lambda>messages. ebind (decide E L cfg messages)
          (\<lambda>d. ebind (efor (take_diagnostics d) (note_diagnostic E))
             (\<lambda>_. ebind (modify (\<lambda>s. s\<lparr>s_step_count := s_step_count s + 1\<rparr>))
                (\<lambda>_. ebind (archive E ''model_decision'' (decision_record L (strip_diagnostics d)))
                   (\<lambda>_. ret (strip_diagnostics d))))))"

section \<open>Carrying out a decision\<close>

definition retry_text :: string where "retry_text = ''Return a valid tool call or a nonempty final answer.''"

definition handle_invalid :: "'w env \<Rightarrow> lib \<Rightarrow> config \<Rightarrow> string \<Rightarrow> json \<Rightarrow> ('w, unit) eng" where
  "handle_invalid E L cfg before d =
     (let code = unwrap_or ''invalid_model_response'' (as_str (idx d ''code''));
          message = unwrap_or retry_text (as_str (idx d ''content''))
      in ebind (bump_invalid cfg)
           (\<lambda>reached. ebind (append_msg E (msg ''user'' (Some (''Runtime correction: '' @ message @ ''. '' @ retry_text))))
              (\<lambda>_. ebind (gets s_consecutive_invalid_responses)
                 (\<lambda>n. ebind (checkpoint E (rejected_event code message n))
                    (\<lambda>_. ebind (ewhen reached (limit_error E)) (\<lambda>_. observe_progress E L cfg before))))))"

definition final_feedback :: "lib \<Rightarrow> config \<Rightarrow> session \<Rightarrow> string list \<Rightarrow> string" where
  "final_feedback L cfg s errors =
     (if c_workflow cfg \<noteq> None \<and> \<not> complete_wf cfg s
      then ''Runtime correction: '' @ incomplete_error L cfg s
      else ''Runtime correction: '' @ join '' '' errors)"

definition draft_event :: "string \<Rightarrow> string list \<Rightarrow> string \<Rightarrow> json" where
  "draft_event feedback errors x =
     interim ''response_rejected''
       (JObj [(''code'', JStr ''completion_rejected''), (''message'', JStr feedback),
              (''errors'', JArr (map JStr errors)), (''candidate_content'', JStr x)])"

definition reject_final :: "'w env \<Rightarrow> lib \<Rightarrow> config \<Rightarrow> string \<Rightarrow> string \<Rightarrow> string list \<Rightarrow> ('w, unit) eng" where
  "reject_final E L cfg before x errors =
     ebind (append_msg E (msg ''assistant'' (Some x)))
       (\<lambda>_. ebind (gets (\<lambda>s. final_feedback L cfg s errors))
          (\<lambda>feedback. ebind (append_msg E (msg ''user'' (Some feedback)))
             (\<lambda>_. ebind (checkpoint E (draft_event feedback errors x))
                (\<lambda>_. ebind (bump_invalid cfg)
                   (\<lambda>reached. ebind (ewhen reached (limit_error E)) (\<lambda>_. observe_progress E L cfg before))))))"

definition complete_session :: "string \<Rightarrow> session \<Rightarrow> session" where
  "complete_session x s =
     s\<lparr>s_consecutive_invalid_responses := 0, s_status := ''complete'', s_run_status := ''complete'',
       s_final_answer := Some x\<rparr>"

definition accept_final :: "'w env \<Rightarrow> string \<Rightarrow> ('w, unit) eng" where
  "accept_final E x =
     ebind (modify (complete_session x))
       (\<lambda>_. ebind (append_msg E (msg ''assistant'' (Some x)))
          (\<lambda>_. ebind (modify (\<lambda>s. s\<lparr>s_no_progress_steps := 0\<rparr>))
             (\<lambda>_. checkpoint E (JObj [(''type'', JStr ''final_result''), (''answer'', JStr x)]))))"

definition handle_final :: "'w env \<Rightarrow> lib \<Rightarrow> config \<Rightarrow> string \<Rightarrow> json \<Rightarrow> ('w, unit) eng" where
  "handle_final E L cfg before d =
     (let x = unwrap_or [] (as_str (idx d ''content''))
      in ebind (gets (\<lambda>s. (completion_errors L cfg s x, complete_wf cfg s)))
           (\<lambda>(errors, finished).
              if errors \<noteq> [] then reject_final E L cfg before x errors
              else ewhen finished (accept_final E x)))"

text \<open>Call identifiers already used by the session, also before a compaction, are replaced.\<close>

fun rename_known :: "'w env \<Rightarrow> string list \<Rightarrow> json list \<Rightarrow> ('w, json list) eng" where
  "rename_known E known [] = ret []"
| "rename_known E known (c # cs) =
     ebind (if list_ex (\<lambda>i. idx c ''id'' = JStr i) known
            then ebind (ask (env_uuid E)) (\<lambda>u. ret (set_idx c ''id'' (JStr u))) else ret c)
       (\<lambda>c'. ebind (rename_known E known cs) (\<lambda>cs'. ret (c' # cs')))"

definition reserve_ids :: "'w env \<Rightarrow> json list \<Rightarrow> ('w, json list) eng" where
  "reserve_ids E calls =
     ebind (gets (\<lambda>s. (s_repository s, s_id s)))
       (\<lambda>(repository, i). if \<not> repository then ret calls
          else ebind (ask (env_known_calls E i (List.map_filter (\<lambda>c. as_str (idx c ''id'')) calls)))
                 (\<lambda>r. ebind (lift r) (\<lambda>known. rename_known E known calls)))"

definition wire_call :: "json \<Rightarrow> json" where
  "wire_call c =
     JObj [(''id'', idx c ''id''), (''type'', JStr ''function''),
           (''function'', JObj [(''name'', idx c ''name''), (''arguments'', idx c ''raw_arguments'')])]"

definition batch_message :: "json \<Rightarrow> json list \<Rightarrow> message" where
  "batch_message d calls =
     message_default\<lparr>m_role := ''assistant'', m_content := as_str (idx d ''content''),
       m_tool_calls := Some (JArr (map wire_call calls))\<rparr>"

definition schedule :: "json list \<Rightarrow> session \<Rightarrow> session" where
  "schedule calls s = s\<lparr>s_pending_tool_phase := active_phase s, s_pending_tool_calls := calls\<rparr>"

definition handle_tools :: "'w env \<Rightarrow> lib \<Rightarrow> config \<Rightarrow> string \<Rightarrow> json \<Rightarrow> ('w, unit) eng" where
  "handle_tools E L cfg before d =
     ebind (reserve_ids E (unwrap_or [] (as_array (idx d ''calls''))))
       (\<lambda>calls. ebind (append_msg E (batch_message d calls))
          (\<lambda>_. ebind (modify (schedule calls))
             (\<lambda>_. ebind (checkpoint E (JObj [(''type'', JStr ''tool_batch_scheduled''), (''call_count'', json_nat (length calls))]))
                (\<lambda>_. ebind (settle_pending E L cfg) (\<lambda>_. observe_progress E L cfg before)))))"

definition carry_out :: "'w env \<Rightarrow> lib \<Rightarrow> config \<Rightarrow> string \<Rightarrow> json \<Rightarrow> ('w, unit) eng" where
  "carry_out E L cfg before d =
     (if idx d ''type'' = JStr ''invalid'' then handle_invalid E L cfg before d
      else if idx d ''type'' = JStr ''final'' then handle_final E L cfg before d
      else handle_tools E L cfg before d)"

section \<open>The run\<close>

text \<open>One iteration; the result says whether the loop was left by \<open>break\<close>.\<close>

definition run_step :: "'w env \<Rightarrow> lib \<Rightarrow> config \<Rightarrow> bool \<Rightarrow> ('w, bool) eng" where
  "run_step E L cfg _ =
     ebind (advance_phase E L cfg)
       (\<lambda>_. ebind (compact_step E L cfg)
          (\<lambda>error. case error of
             Some message \<Rightarrow> ebind (stop_compaction E message) (\<lambda>_. ret True)
           | None \<Rightarrow>
               ebind (gets (\<lambda>s. status_message ''Agent deciding next action.'' [(''step_count'', json_int (s_step_count s))]))
                 (\<lambda>ev. ebind (checkpoint E ev)
                    (\<lambda>_. ebind (gets (progress_fingerprint L cfg))
                       (\<lambda>before. ebind (make_decision E L cfg)
                          (\<lambda>d. ebind (carry_out E L cfg before d) (\<lambda>_. ret False)))))))"

definition unfinished :: "int \<Rightarrow> bool \<Rightarrow> session \<Rightarrow> bool" where
  "unfinished limit stop s \<longleftrightarrow> \<not> stop \<and> s_status s = ''active'' \<and> s_step_count s < limit"

definition steps_left :: "int \<Rightarrow> session \<Rightarrow> nat" where
  "steps_left limit s = nat (limit - s_step_count s)"

definition run_loop :: "'w env \<Rightarrow> lib \<Rightarrow> config \<Rightarrow> int \<Rightarrow> nat \<Rightarrow> ('w, bool) eng" where
  "run_loop E L cfg limit n = ewhile n (unfinished limit) (run_step E L cfg) False"

definition begin_run :: "lib \<Rightarrow> config \<Rightarrow> string \<Rightarrow> string \<Rightarrow> session \<Rightarrow> session" where
  "begin_run L cfg u now s =
     s\<lparr>s_progress_fingerprint := (case s_progress_fingerprint s of None \<Rightarrow> Some (progress_fingerprint L cfg s) | f \<Rightarrow> f),
       s_run_count := s_run_count s + 1,
       s_run_command_id := Option.bind (s_command s) (\<lambda>c. as_str (idx c ''id'')),
       s_run_id := Some u, s_run_started_at := Some now, s_run_ended_at := None,
       s_run_termination_reason := None, s_run_status := ''running''\<rparr>"

definition started_record :: "session \<Rightarrow> json" where
  "started_record s =
     JObj [(''fence'', (case s_execution_fence s of None \<Rightarrow> JNull | Some i \<Rightarrow> json_int i)),
           (''disconnect_policy'', JStr ''cancel_at_boundary'')]"

definition start_run :: "'w env \<Rightarrow> lib \<Rightarrow> config \<Rightarrow> ('w, unit) eng" where
  "start_run E L cfg =
     ebind (ask (env_uuid E))
       (\<lambda>u. ebind (ask (env_now E))
          (\<lambda>now. ebind (modify (begin_run L cfg u now))
             (\<lambda>_. ebind (gets started_record)
                (\<lambda>rec. ebind (archive E ''run_started'' rec)
                   (\<lambda>_. ebind (gets (\<lambda>s. status_message ''Agent run started.'' [(''run_count'', json_int (s_run_count s))]))
                      (checkpoint E))))))"

definition resume_pending :: "'w env \<Rightarrow> lib \<Rightarrow> config \<Rightarrow> ('w, unit) eng" where
  "resume_pending E L cfg =
     ebind (gets (\<lambda>s. (s_pending_tool_calls s \<noteq> [], progress_fingerprint L cfg s)))
       (\<lambda>(waiting, before). ewhen waiting
          (ebind (settle_pending E L cfg) (\<lambda>_. observe_progress E L cfg before)))"

definition limit_text :: "int \<Rightarrow> string" where
  "limit_text cap =
     ''Step limit ('' @ show_int cap @ '') reached without a final answer. Resume with another run request.''"

definition stop_at_limit :: "int \<Rightarrow> session \<Rightarrow> session" where
  "stop_at_limit cap s =
     s\<lparr>s_status := ''failed'', s_run_status := ''failed'', s_run_termination_reason := Some ''step_limit'',
       s_last_error := Some (JObj [(''code'', JStr ''step_limit''), (''message'', JStr (limit_text cap)),
                                 (''recoverable'', JBool True)]),
       s_final_answer := Some (limit_text cap)\<rparr>"

definition finish_limit :: "'w env \<Rightarrow> int \<Rightarrow> int \<Rightarrow> ('w, unit) eng" where
  "finish_limit E cap limit =
     ebind (gets (\<lambda>s. s_status s = ''active'' \<and> s_step_count s \<ge> limit))
       (\<lambda>reached. ewhen reached
          (ebind (modify (stop_at_limit cap))
             (\<lambda>_. checkpoint E (error_event ''step_limit'' (JStr (limit_text cap))))))"

definition close_over :: "session \<Rightarrow> session" where
  "close_over s = (if s_status s \<noteq> ''active'' then close_status s else s)"

definition finish_run :: "'w env \<Rightarrow> ('w, unit) eng" where
  "finish_run E =
     ebind (modify close_over)
       (\<lambda>_. ebind (gets (\<lambda>s. (s_run_status s \<noteq> ''running'', s_run_ended_at s = None)))
          (\<lambda>(ended, open_end).
             ewhen ended
               (ebind (ewhen open_end (ebind (ask (env_now E)) (\<lambda>now. modify (\<lambda>s. s\<lparr>s_run_ended_at := Some now\<rparr>))))
                  (\<lambda>_. modify (\<lambda>s. if s_run_termination_reason s = None
                                     then s\<lparr>s_run_termination_reason := Some (s_run_status s)\<rparr> else s)))))"

definition run :: "'w env \<Rightarrow> lib \<Rightarrow> config \<Rightarrow> int option \<Rightarrow> ('w, unit) eng" where
  "run E L cfg requested =
     ebind (gets (\<lambda>s. s_step_count s + run_allowance cfg requested))
       (\<lambda>limit. ebind (start_run E L cfg)
          (\<lambda>_. ebind (resume_pending E L cfg)
             (\<lambda>_. ebind (gets (steps_left limit))
                (\<lambda>n. ebind (run_loop E L cfg limit n)
                   (\<lambda>_. ebind (finish_limit E (run_allowance cfg requested) limit)
                      (\<lambda>_. finish_run E))))))"

section \<open>What an operation may change\<close>

text \<open>
  The standing of a session: the fields on which its invariants depend.  Bookkeeping
  (transcript, journal, checkpoint metadata, counters) leaves it alone.
\<close>

definition standing ::
  "session \<Rightarrow> string \<times> int \<times> workflow option \<times> json \<times> json list \<times> string option \<times> string \<times> string option" where
  "standing s = (s_goal s, s_step_count s, s_workflow s, s_completion_artifacts s, s_pending_tool_calls s,
     s_pending_tool_phase s, s_status s, s_final_answer s)"

definition closed_under :: "(session \<Rightarrow> 'p) \<Rightarrow> (session \<Rightarrow> bool) \<Rightarrow> bool" where
  "closed_under f Q \<longleftrightarrow> (\<forall>s t. f s = f t \<longrightarrow> Q s = Q t)"

abbreviation invariant :: "(session \<Rightarrow> bool) \<Rightarrow> ('w, 'a) eng \<Rightarrow> bool" where
  "invariant Q m \<equiv> triple Q m (\<lambda>_. Q) Q"

named_theorems inv_rules \<open>operations that keep every closed or robust property\<close>

lemma closed_underD: "closed_under f Q \<Longrightarrow> f s = f t \<Longrightarrow> Q s = Q t"
  unfolding closed_under_def by blast

lemma inv_ebind: "invariant Q m \<Longrightarrow> (\<And>x. invariant Q (f x)) \<Longrightarrow> invariant Q (ebind m f)"
  by (rule triple_ebind)

lemma inv_basic [inv_rules]:
  "invariant Q (ret x)" "invariant Q (fail e)" "invariant Q (gets g)" "invariant Q (ask a)" "invariant Q (lift r)"
  by (rule triple_basic triple_lift; assumption)+

lemma inv_modify: "(\<And>s. Q s \<Longrightarrow> Q (f s)) \<Longrightarrow> invariant Q (modify f)"
  by (rule triple_basic)

lemma inv_frame: "closed_under p Q \<Longrightarrow> (\<And>s. p (f s) = p s) \<Longrightarrow> invariant Q (modify f)"
  by (rule inv_modify) (metis closed_underD)

lemma inv_ewhen: "(b \<Longrightarrow> invariant Q m) \<Longrightarrow> invariant Q (ewhen b m)"
  by (rule triple_ewhen)

lemma inv_efor: "(\<And>x. invariant Q (f x)) \<Longrightarrow> invariant Q (efor xs f)"
  by (induction xs) (auto intro: inv_basic inv_ebind)

lemmas inv_intros = inv_ebind inv_ewhen inv_efor triple_if triple_option triple_sum triple_pair

lemma inv_execute_tool [inv_rules]: "invariant Q (execute_tool E L e t args)"
  unfolding triple_def by (auto dest: execute_session split: sum.splits)

lemma audit_archive: "audit E k p = archive E k p"
  unfolding audit_def archive_def archive_record_def [abs_def] ..

text \<open>
  A projection of the session that bookkeeping does not touch.  Checkpoints, archiving and the
  journal of executions then keep every property of it, and a dispatch keeps those which also
  survive its report that an operator is needed.
\<close>

locale bookkeeping =
  fixes proj :: "session \<Rightarrow> 'p"
  assumes ack_cell: "proj (s\<lparr>s_checkpoint_ack := a\<rparr>) = proj s"
    and acknowledged: "proj (acknowledge_checkpoint s) = proj s"
    and cleared: "proj (clear_outboxes s) = proj s"
    and closed_run: "proj (close_status s) = proj s" "proj (close_ended now s) = proj s" "proj (close_reason s) = proj s"
      "proj (close_blocked now s) = proj s"
    and staged: "stage_diagnostics s = Ok s' \<Longrightarrow> proj s' = proj s"
    and archived: "proj (archive_record u now k p s) = proj s"
    and execution: "proj (stage_execution e s) = proj s" "proj (push_attempt x s) = proj s"
begin

abbreviation framed :: "(session \<Rightarrow> bool) \<Rightarrow> bool" where "framed Q \<equiv> closed_under proj Q"

lemma keeps_primitive:
  assumes "framed Q"
  shows "invariant Q (modify acknowledge_checkpoint)" "invariant Q (modify clear_outboxes)"
    "invariant Q (modify close_status)" "invariant Q (modify (close_ended now))" "invariant Q (modify close_reason)"
    "invariant Q (modify (close_blocked now))" "invariant Q (modify (archive_record u now' k p))"
    "invariant Q (modify (stage_execution e))" "invariant Q (modify (push_attempt x))"
  by (rule inv_frame [OF assms], rule acknowledged cleared closed_run archived execution)+

lemma keeps_emit: "framed Q \<Longrightarrow> invariant Q (emit E ev)"
proof -
  assume "framed Q"
  then have "Q (s\<lparr>s_checkpoint_ack := a\<rparr>) = Q s" for s a using closed_underD ack_cell by metis
  then show ?thesis by (auto simp: triple_def emit_def split: prod.splits sum.splits)
qed

lemma keeps_acknowledge: "framed Q \<Longrightarrow> invariant Q acknowledge"
  unfolding acknowledge_def by (intro inv_intros inv_basic keeps_primitive)

lemma keeps_checkpoint: "framed Q \<Longrightarrow> invariant Q (checkpoint E ev)"
proof -
  assume Q: "framed Q"
  have "invariant Q (update stage_diagnostics)"
    by (rule triple_update) (metis Q closed_underD staged, assumption)
  then show ?thesis
    unfolding checkpoint_def close_run_def
    by (intro inv_intros inv_basic keeps_primitive keeps_emit keeps_acknowledge Q)
qed

lemma keeps_archive: "framed Q \<Longrightarrow> invariant Q (archive E k p)"
  unfolding archive_def by (intro inv_intros inv_basic keeps_primitive)

lemma keeps_action_checkpoint: "framed Q \<Longrightarrow> invariant Q (action_checkpoint E ev)"
  unfolding action_checkpoint_def by (intro inv_intros inv_basic keeps_primitive keeps_emit keeps_acknowledge)

lemmas keeps_simple = inv_basic inv_execute_tool keeps_primitive keeps_emit keeps_archive keeps_action_checkpoint

lemma keeps_recovery:
  assumes "framed Q"
  shows "invariant Q (settle_prior E e)" "invariant Q (dispatch_verify E L e n)"
  unfolding settle_prior_def dispatch_verify_def verify_recovered_def verify_unknown_def Let_def audit_archive
  by (intro inv_intros keeps_simple assms)+

lemma keeps_dispatch:
  assumes "framed Q" "\<And>s m. Q s \<Longrightarrow> Q (mark_blocked m s)"
  shows "invariant Q (dispatch E L cfg call t args)"
proof -
  have blocked: "invariant Q (modify (mark_blocked m))" for m by (rule inv_modify) (rule assms(2))
  have "invariant Q (dispatch_attempt E L e n t args)" for e n
    unfolding dispatch_attempt_def dispatch_block_def dispatch_start_def dispatch_settle_def dispatch_uncertain_def
      Let_def audit_archive
    by (intro inv_intros keeps_simple blocked assms(1))
  then show ?thesis
    unfolding dispatch_def dispatch_intent_def dispatch_recover_def audit_archive
    by (intro inv_intros keeps_simple keeps_recovery assms(1))
qed

end

interpretation st: bookkeeping standing
  by unfold_locales
     (auto simp: standing_def acknowledge_checkpoint_def clear_outboxes_def close_status_def close_ended_def
        close_reason_def close_blocked_def archive_record_def stage_execution_def push_attempt_def view_def
        dest: stage_diagnostics_view split: option.splits)

text \<open>The history as the model sees it.\<close>

definition wire_history :: "session \<Rightarrow> json list" where
  "wire_history s = map wire_message (s_memory s)"

interpretation wires: bookkeeping wire_history
  by unfold_locales
     (auto simp: wire_history_def acknowledge_checkpoint_wire clear_outboxes_def close_status_def close_ended_def
        close_reason_def close_blocked_def archive_record_def stage_execution_def push_attempt_def view_def
        dest: stage_diagnostics_view)

text \<open>A robust property of the standing also survives the end of a run by failure.\<close>

abbreviation closed :: "(session \<Rightarrow> bool) \<Rightarrow> bool" where "closed \<equiv> closed_under standing"

definition robust :: "(session \<Rightarrow> bool) \<Rightarrow> bool" where
  "robust Q \<longleftrightarrow> closed Q \<and> (\<forall>s a. Q s \<longrightarrow> Q (fail_session a s)) \<and> (\<forall>s m. Q s \<longrightarrow> Q (mark_blocked m s))"

lemma robust_closed: "robust Q \<Longrightarrow> closed Q" by (simp add: robust_def)

lemmas st_frame = inv_frame [where p = standing]

lemmas closedD = closed_underD [where f = standing]

lemmas [inv_rules] = st.keeps_emit st.keeps_checkpoint st.keeps_archive

lemma inv_append [inv_rules]: "closed Q \<Longrightarrow> invariant Q (append_msg E m)"
  unfolding append_msg_def
  by (intro inv_intros inv_rules st_frame) (auto simp: standing_def append_message_def Let_def)

lemma inv_dispatch [inv_rules]: "robust Q \<Longrightarrow> invariant Q (dispatch E L cfg call t args)"
  by (rule st.keeps_dispatch) (simp_all add: robust_def)

lemma inv_bump_invalid [inv_rules]:
  assumes "robust Q"
  shows "invariant Q (bump_invalid cfg)"
proof -
  have "Q (s\<lparr>s_consecutive_invalid_responses := n\<rparr>) = Q s" for s n
    by (rule closedD [OF robust_closed [OF assms]]) (simp add: standing_def)
  then show ?thesis using assms
    by (auto simp: triple_def bump_invalid_def increment_invalid_def robust_def Let_def split: prod.splits sum.splits if_splits)
qed

lemma inv_limit_error [inv_rules]: "closed Q \<Longrightarrow> invariant Q (limit_error E)"
  unfolding limit_error_def by (intro inv_intros inv_rules)

lemma inv_fail_session [inv_rules]: "robust Q \<Longrightarrow> invariant Q (modify (fail_session a))"
  by (rule inv_modify) (simp add: robust_def)

lemma inv_observe_progress [inv_rules]:
  assumes "robust Q"
  shows "invariant Q (observe_progress E L cfg before)"
proof -
  have noted: "invariant Q (modify (note_progress before current))" for current
    by (rule st_frame [OF robust_closed [OF assms]]) (simp add: standing_def note_progress_def)
  show ?thesis
    unfolding observe_progress_def warn_stalled_def stop_stalled_def
    using assms robust_closed [OF assms] by (intro inv_intros inv_rules noted)
qed

lemma inv_compact [inv_rules]: "closed Q \<Longrightarrow> invariant Q (compact_session E L cfg)"
proof (rule tripleI)
  assume Q: "closed Q"
  have st: "standing s' = standing s" if "compacted_from cfg s s'" for s s'
    using that by (simp add: compacted_from_def standing_def)
  show "Q s'" if "Q s" "compact_session E L cfg (s, w) = (Ok x, s', w')" for s w x s' w'
    using closedD [OF Q st [OF compact_history [OF that(2)]]] that(1) by simp
  show "Q s'" if "Q s" "compact_session E L cfg (s, w) = (Err x, s', w')" for s w x s' w'
    using closedD [OF Q st [OF compact_history [OF that(2)]]] that(1) by simp
qed

lemma inv_compact_step [inv_rules]: "closed Q \<Longrightarrow> invariant Q (compact_step E L cfg)"
  unfolding compact_step_def compaction_outcome_def by (intro inv_intros inv_rules triple_outcome)

lemma inv_stop_compaction [inv_rules]: "robust Q \<Longrightarrow> invariant Q (stop_compaction E m)"
  unfolding stop_compaction_def by (intro inv_intros inv_rules) (auto dest: robust_closed)

lemma inv_decide [inv_rules]: "invariant Q (decide E L cfg ms)"
proof -
  have choose: "invariant Q (choose_id E used raw)" for used raw
    unfolding choose_id_def fresh_call_id_def by (intro inv_intros inv_rules)
  have "invariant Q (parse_calls E L cfg raws used acc)" for raws used acc
    by (induction raws arbitrary: used acc) (auto intro!: inv_ebind choose inv_rules)
  then have "invariant Q (parse_decision E L cfg v ds)" for v ds
    unfolding parse_decision_def Let_def
    by (auto intro!: inv_ebind inv_rules simp del: parse_calls.simps split: option.split list.split json.split)
  then show ?thesis unfolding decide_def by (intro inv_intros inv_rules)
qed

lemma inv_reserve_ids [inv_rules]: "invariant Q (reserve_ids E calls)"
proof -
  have "invariant Q (rename_known E known cs)" for known cs
    by (induction cs) (auto intro!: inv_intros inv_rules)
  then show ?thesis unfolding reserve_ids_def by (intro inv_intros inv_rules)
qed

lemma inv_start_run [inv_rules]: "closed Q \<Longrightarrow> invariant Q (start_run E L cfg)"
  unfolding start_run_def by (intro inv_intros inv_rules st_frame) (simp_all add: standing_def begin_run_def)

lemma inv_finish_run [inv_rules]: "closed Q \<Longrightarrow> invariant Q (finish_run E)"
  unfolding finish_run_def
  by (intro inv_intros inv_rules st_frame) (simp_all add: standing_def close_over_def close_status_def)

lemma inv_finish_limit [inv_rules]:
  assumes "robust Q"
  shows "invariant Q (finish_limit E cap limit)"
proof -
  have "Q (stop_at_limit cap s) = Q (fail_session (limit_text cap) s)" for s
    by (rule closedD [OF robust_closed [OF assms]]) (simp add: standing_def stop_at_limit_def fail_session_def)
  then have "invariant Q (modify (stop_at_limit cap))"
    using assms by (intro inv_modify) (simp add: robust_def)
  then show ?thesis unfolding finish_limit_def
    using robust_closed [OF assms] by (intro inv_intros inv_rules)
qed

lemma inv_reject_batch [inv_rules]: "robust Q \<Longrightarrow> invariant Q (reject_batch E L cfg ph)"
  unfolding reject_batch_def by (intro inv_intros inv_rules) (auto dest: robust_closed)

lemma inv_handle_invalid [inv_rules]: "robust Q \<Longrightarrow> invariant Q (handle_invalid E L cfg before d)"
  unfolding handle_invalid_def Let_def by (intro inv_intros inv_rules) (auto dest: robust_closed)

lemma inv_reject_final [inv_rules]: "robust Q \<Longrightarrow> invariant Q (reject_final E L cfg before x errors)"
  unfolding reject_final_def by (intro inv_intros inv_rules) (auto dest: robust_closed)


section \<open>Invariants of a run\<close>

text \<open>The part of the standing that also failing keeps.\<close>

definition core :: "session \<Rightarrow> string \<times> int \<times> workflow option \<times> json \<times> json list \<times> string option" where
  "core s = (s_goal s, s_step_count s, s_workflow s, s_completion_artifacts s, s_pending_tool_calls s, s_pending_tool_phase s)"

lemma core_frame:
  "core (fail_session a s) = core s" "core (mark_blocked m s) = core s" "standing s = standing t \<Longrightarrow> core s = core t"
  by (simp_all add: core_def standing_def fail_session_def mark_blocked_def)

lemma robust_core: "robust (\<lambda>s. P (core s))"
  unfolding robust_def closed_under_def core_frame(1,2)
proof (intro conjI allI impI)
  show "P (core s) = P (core t)" if "standing s = standing t" for s t
    by (simp only: core_frame(3) [OF that])
qed

lemma robust_conj: "robust Q \<Longrightarrow> robust R \<Longrightarrow> robust (\<lambda>s. Q s \<and> R s)"
  unfolding robust_def closed_under_def by meson

text \<open>A call that the engine may execute: not refused, and allowed in the phase it was scheduled in.\<close>

definition executable :: "lib \<Rightarrow> config \<Rightarrow> string option \<Rightarrow> json \<Rightarrow> session \<Rightarrow> bool" where
  "executable L cfg ph call s \<longleftrightarrow>
     action_rejection L cfg s ph (pending_name call) (pending_args call) (get_str call ''error'') = None
     \<and> allowed_in_phase_for_session cfg s ph (pending_name call)"

lemma executable_cong:
  assumes "s_workflow t = s_workflow s" "s_completion_artifacts t = s_completion_artifacts s"
  shows "executable L cfg ph call t = executable L cfg ph call s"
proof -
  have a: "artifact_for_label cfg t = artifact_for_label cfg s"
    using assms by (simp add: artifact_for_label_def fun_eq_iff split: option.split)
  then have b: "bound_value cfg t = bound_value cfg s" by (simp add: bound_value_def fun_eq_iff)
  have c: "one_binding_error L cfg t = one_binding_error L cfg s"
    by (intro ext) (simp only: one_binding_error_def a b)
  have "binding_error L cfg t = binding_error L cfg s" by (intro ext) (simp only: binding_error_def c)
  with assms show ?thesis
    by (simp only: executable_def action_rejection_def allowed_in_phase_for_session_def)
qed

lemma executable_core: "core t = core s \<Longrightarrow> executable L cfg ph call t = executable L cfg ph call s"
  by (rule executable_cong) (simp_all add: core_def)

lemma triple_result:
  "triple Q m R F \<Longrightarrow> (\<And>s w x s' w'. Q s \<Longrightarrow> m (s, w) = (Inr x, s', w') \<Longrightarrow> T x) \<Longrightarrow> triple Q m (\<lambda>x s. R x s \<and> T x) F"
  unfolding triple_def by (fastforce split: sum.splits)

section \<open>Fields an event leaves alone\<close>

lemma capture_artifacts_only:
  "capture_artifacts L cfg i name args out s
   = s\<lparr>s_completion_artifacts := s_completion_artifacts (capture_artifacts L cfg i name args out s)\<rparr>"
proof -
  have one: "capture_one L i name args out ic s
      = s\<lparr>s_completion_artifacts := s_completion_artifacts (capture_one L i name args out ic s)\<rparr>" for ic s
    by (simp add: capture_one_def Let_def split: prod.split option.split)
  have "fold (capture_one L i name args out) ics s
      = s\<lparr>s_completion_artifacts := s_completion_artifacts (fold (capture_one L i name args out) ics s)\<rparr>" for ics s
  proof (induction ics arbitrary: s)
    case (Cons ic ics)
    let ?t = "capture_one L i name args out ic s"
    have "fold (capture_one L i name args out) ics ?t
        = ?t\<lparr>s_completion_artifacts := s_completion_artifacts (fold (capture_one L i name args out) ics ?t)\<rparr>"
      by (rule Cons.IH)
    also have "\<dots> = s\<lparr>s_completion_artifacts := s_completion_artifacts (fold (capture_one L i name args out) ics ?t)\<rparr>"
      by (subst one) simp
    finally show ?case by simp
  qed simp
  then show ?thesis unfolding capture_artifacts_def by simp
qed

lemma note_output_only:
  "\<exists>a w p. note_output L cfg call out s = s\<lparr>s_completion_artifacts := a, s_progress_seen_outputs := p, s_workflow := w\<rparr>"
proof -
  define t where "t = (let s1 = capture_artifacts L cfg (pending_id call) (pending_name call) (pending_args call) out s
      in if s_workflow s1 = None \<and> \<not> is_error_output out
         then record_progress_output L (pending_name call) (pending_args call) out s1 else s1)"
  obtain a where a: "capture_artifacts L cfg (pending_id call) (pending_name call) (pending_args call) out s
      = s\<lparr>s_completion_artifacts := a\<rparr>" using capture_artifacts_only by blast
  have t: "t = s\<lparr>s_completion_artifacts := a, s_progress_seen_outputs := s_progress_seen_outputs t\<rparr>"
    unfolding t_def a by (simp add: record_progress_output_def Let_def)
  have "note_output L cfg call out s = record_evidence L cfg t (pending_name call) (pending_args call) out"
    unfolding note_output_def t_def by (simp only: Let_def)
  also have "\<dots> = t\<lparr>s_workflow := s_workflow (record_evidence L cfg t (pending_name call) (pending_args call) out)\<rparr>"
    by (simp add: record_evidence_def split: option.split)
  finally have "note_output L cfg call out s = s\<lparr>s_completion_artifacts := a, s_progress_seen_outputs := s_progress_seen_outputs t,
      s_workflow := s_workflow (record_evidence L cfg t (pending_name call) (pending_args call) out)\<rparr>"
    by (subst (asm) (2) t)
  then show ?thesis by (intro exI)
qed

lemma note_output_frame:
  "s_pending_tool_calls (note_output L cfg call out s) = s_pending_tool_calls s"
  "s_step_count (note_output L cfg call out s) = s_step_count s"
  "s_status (note_output L cfg call out s) = s_status s"
  "s_final_answer (note_output L cfg call out s) = s_final_answer s"
  "s_memory (note_output L cfg call out s) = s_memory s"
  using note_output_only [of L cfg call out s] by auto


lemma drop_pending_frame:
  "s_pending_tool_calls (drop_pending s) = tl (s_pending_tool_calls s)" "s_step_count (drop_pending s) = s_step_count s"
  "s_status (drop_pending s) = s_status s" "s_memory (drop_pending s) = s_memory s"
  by (simp_all add: drop_pending_def)

lemma advance_frame:
  "s_step_count (snd (advance L cfg s)) = s_step_count s" "s_status (snd (advance L cfg s)) = s_status s"
  "s_final_answer (snd (advance L cfg s)) = s_final_answer s" "s_memory (snd (advance L cfg s)) = s_memory s"
  "s_completion_artifacts (snd (advance L cfg s)) = s_completion_artifacts s"
  by (simp_all add: advance_def enter_workflow_def Let_def split: option.split prod.split)

section \<open>Invariants by events\<close>

text \<open>An output that some dispatch of the call has returned.\<close>

definition dispatched :: "'w env \<Rightarrow> lib \<Rightarrow> config \<Rightarrow> string \<Rightarrow> string \<Rightarrow> (string \<times> json) list \<Rightarrow> string \<Rightarrow> bool" where
  "dispatched E L cfg i name args out \<longleftrightarrow>
     (\<exists>s w s' w'. dispatch E L cfg i name (JObj args) (s, w) = (Ok out, s', w'))"

text \<open>
  An invariant of settling: a property of the standing that survives the results of executed
  calls.  \<open>outputs\<close> is given what the engine guarantees of such a call.
\<close>

locale settle_invariant =
  fixes E :: "'w env" and L :: lib and cfg :: config and Q :: "session \<Rightarrow> bool"
  assumes robust: "robust Q"
    and outputs: "Q s \<Longrightarrow> executable L cfg ph call s
      \<Longrightarrow> dispatched E L cfg (pending_id call) (pending_name call) (pending_args call) out
      \<Longrightarrow> Q (note_output L cfg call out s)"
    and settles: "Q s \<Longrightarrow> Q (drop_pending s)"
begin

lemma Q_closed: "closed Q"
  by (rule robust_closed [OF robust])

lemma frames [inv_rules]:
  "invariant Q (modify (\<lambda>s. s\<lparr>s_no_progress_steps := n\<rparr>))"
  "invariant Q (modify (\<lambda>s. s\<lparr>s_consecutive_invalid_responses := m\<rparr>))"
  "invariant Q (modify (\<lambda>s. s\<lparr>s_model_request_diagnostics := s_model_request_diagnostics s @ ds\<rparr>))"
  by (rule st_frame [OF Q_closed]; simp add: standing_def)+

abbreviation returned :: "json \<Rightarrow> string \<Rightarrow> bool" where
  "returned call out \<equiv> dispatched E L cfg (pending_id call) (pending_name call) (pending_args call) out"

lemma call_output_executable:
  "triple Q (call_output E L cfg ph call)
     (\<lambda>(out, ran) s. Q s \<and> (ran \<longrightarrow> executable L cfg ph call s \<and> returned call out)) Q"
  unfolding call_output_def
proof (rule triple_ebind [where R = "\<lambda>x s. Q s \<and> x = s"])
  fix s0
  let ?R = "\<lambda>(out, ran) s. Q s \<and> (ran \<longrightarrow> executable L cfg ph call s \<and> returned call out)"
    and ?d = "dispatch E L cfg (pending_id call) (pending_name call) (JObj (pending_args call))"
  have run: "triple (\<lambda>s. Q s \<and> s0 = s) (ebind ?d (\<lambda>out. ret (out, True))) ?R Q" if "executable L cfg ph call s0"
  proof (rule triple_ebind [where R = "\<lambda>out s. (Q s \<and> core s = core s0) \<and> returned call out"])
    have rob: "robust (\<lambda>s. Q s \<and> core s = core s0)" by (intro robust_conj robust robust_core)
    have "triple (\<lambda>s. Q s \<and> s0 = s) ?d (\<lambda>_ s. Q s \<and> core s = core s0) Q"
      by (rule triple_weaken [OF inv_dispatch [OF rob]]) auto
    then show "triple (\<lambda>s. Q s \<and> s0 = s) ?d (\<lambda>out s. (Q s \<and> core s = core s0) \<and> returned call out) Q"
      by (rule triple_result) (auto simp: dispatched_def)
    show "triple (\<lambda>s. (Q s \<and> core s = core s0) \<and> returned call x) (ret (x, True)) ?R Q" for x
      by (rule triple_basic, unfold prod.case) (metis that executable_core)
  qed
  show "triple (\<lambda>s. Q s \<and> s0 = s)
      (case rejection_text L cfg s0 ph call of
         None \<Rightarrow> if allowed_in_phase_for_session cfg s0 ph (pending_name call)
                 then ebind ?d (\<lambda>out. ret (out, True))
                 else ret (disabled_output (pending_name call), False)
       | Some reason \<Rightarrow> ret (rejected_output L cfg s0 reason, False)) ?R Q"
    by (intro triple_option triple_if run) (auto simp: executable_def rejection_text_def intro!: triple_basic)
qed (auto intro: triple_basic)

lemma settle_one_keeps: "invariant Q (settle_one E L cfg ph rejected)"
proof -
  have noted: "triple (\<lambda>s. Q s \<and> (ran \<longrightarrow> executable L cfg ph call s \<and> returned call out))
      (ewhen ran (modify (note_output L cfg call out))) (\<lambda>_. Q) Q" for ran call out
    by (rule triple_ewhen) (auto intro: triple_basic outputs)
  have dropped: "invariant Q (modify drop_pending)" by (rule inv_modify) (rule settles)
  show ?thesis
    unfolding settle_one_def
    by (rule inv_ebind, rule inv_rules, rule triple_pair, rule triple_ebind [OF call_output_executable], rule triple_pair,
        simp only: prod.case, rule triple_ebind [OF noted], intro inv_intros inv_rules dropped Q_closed)
qed

lemma settle_pending_keeps: "invariant Q (settle_pending E L cfg)"
proof -
  have "triple Q (settle_calls E L cfg ph n) (\<lambda>_. Q) Q" for ph n
    unfolding settle_calls_def
    by (rule triple_weaken [OF triple_ewhile [where I = "\<lambda>_. Q"]])
       (auto intro: triple_weaken [OF settle_one_keeps])
  then show ?thesis unfolding settle_pending_def by (intro inv_intros inv_rules robust)
qed

end

text \<open>
  An invariant of a whole run.  A session that is not complete is \<open>live\<close>: only such a session
  advances, schedules and settles calls, or accepts a final answer.
\<close>

definition live :: "session \<Rightarrow> bool" where "live s \<longleftrightarrow> s_status s \<noteq> ''complete''"

lemma robust_live: "robust live"
  by (auto simp: robust_def closed_under_def standing_def live_def fail_session_def mark_blocked_def)

locale run_invariant =
  fixes E :: "'w env" and L :: lib and cfg :: config and Q :: "session \<Rightarrow> bool"
  assumes Q_robust: "robust Q"
    and Q_outputs: "Q s \<Longrightarrow> live s \<Longrightarrow> executable L cfg ph call s
      \<Longrightarrow> dispatched E L cfg (pending_id call) (pending_name call) (pending_args call) out
      \<Longrightarrow> Q (note_output L cfg call out s)"
    and Q_settles: "Q s \<Longrightarrow> live s \<Longrightarrow> Q (drop_pending s)"
    and Q_advances: "Q s \<Longrightarrow> live s \<Longrightarrow> Q (snd (advance L cfg s))"
    and Q_schedules: "Q s \<Longrightarrow> live s \<Longrightarrow> Q (schedule calls s)"
    and Q_counts: "Q s \<Longrightarrow> live s \<Longrightarrow> Q (s\<lparr>s_step_count := s_step_count s + 1\<rparr>)"
    and Q_finish: "Q s \<Longrightarrow> completion_errors L cfg s x = [] \<Longrightarrow> complete_wf cfg s \<Longrightarrow> Q (complete_session x s)"

sublocale run_invariant \<subseteq> unfinished: settle_invariant E L cfg "\<lambda>s. Q s \<and> live s"
proof unfold_locales
  show "robust (\<lambda>s. Q s \<and> live s)" by (rule robust_conj [OF Q_robust robust_live])
  show "Q (note_output L cfg call out s) \<and> live (note_output L cfg call out s)"
    if "Q s \<and> live s" "executable L cfg ph call s"
      "dispatched E L cfg (pending_id call) (pending_name call) (pending_args call) out" for s ph call out
    using that Q_outputs by (auto simp: live_def note_output_frame)
  show "Q (drop_pending s) \<and> live (drop_pending s)" if "Q s \<and> live s" for s
    using that Q_settles by (auto simp: live_def drop_pending_frame)
qed

context run_invariant
begin

abbreviation open_session :: "session \<Rightarrow> bool" where "open_session \<equiv> \<lambda>s. Q s \<and> live s"

lemmas open_closed = unfinished.Q_closed and open_robust = unfinished.robust

lemma drop_open: "invariant open_session m \<Longrightarrow> triple open_session m (\<lambda>_. Q) Q"
  by (erule triple_weaken) auto

lemma accept_final_keeps:
  "triple (\<lambda>s. Q s \<and> completion_errors L cfg s x = [] \<and> complete_wf cfg s) (accept_final E x) (\<lambda>_. Q) Q"
proof -
  have Q: "closed Q" by (rule robust_closed [OF Q_robust])
  have "invariant Q (modify (\<lambda>s. s\<lparr>s_no_progress_steps := 0\<rparr>))" by (rule st_frame [OF Q]) (simp add: standing_def)
  then show ?thesis
    unfolding accept_final_def
    by (intro triple_ebind [where R = "\<lambda>_. Q"] inv_rules Q) (auto intro: triple_basic Q_finish)
qed

lemma handle_final_keeps: "triple open_session (handle_final E L cfg before d) (\<lambda>_. Q) Q"
  unfolding handle_final_def Let_def
proof (rule triple_ebind [where R = "\<lambda>(errors, fin) s. open_session s
    \<and> errors = completion_errors L cfg s (unwrap_or [] (as_str (idx d ''content''))) \<and> fin = complete_wf cfg s"])
  show "triple (case p of (errors, fin) \<Rightarrow> \<lambda>s. open_session s
        \<and> errors = completion_errors L cfg s (unwrap_or [] (as_str (idx d ''content''))) \<and> fin = complete_wf cfg s)
      (case p of (errors, fin) \<Rightarrow> if errors \<noteq> [] then reject_final E L cfg before (unwrap_or [] (as_str (idx d ''content''))) errors
         else ewhen fin (accept_final E (unwrap_or [] (as_str (idx d ''content'')))))
      (\<lambda>_. Q) Q" for p
    by (cases p, simp only: prod.case, intro triple_if triple_ewhen)
       (auto intro: triple_weaken [OF inv_reject_final [OF open_robust]] triple_weaken [OF accept_final_keeps])
qed (auto intro: triple_basic)

lemma run_step_keeps: "triple open_session (run_step E L cfg stop) (\<lambda>_. Q) Q"
proof -
  have m: "invariant open_session (modify (\<lambda>s. snd (advance L cfg s)))" "invariant open_session (modify (schedule calls))"
    "invariant open_session (modify (\<lambda>s. s\<lparr>s_step_count := s_step_count s + 1\<rparr>))" for calls
    using Q_advances Q_schedules Q_counts
    by (auto intro!: inv_modify simp: live_def advance_frame schedule_def)
  have decision: "invariant open_session (make_decision E L cfg)"
    unfolding make_decision_def note_diagnostic_def
    by (intro inv_intros inv_basic inv_decide st.keeps_checkpoint st.keeps_archive m unfinished.frames open_closed)
  have tools: "invariant open_session (handle_tools E L cfg before d)" for before d
    unfolding handle_tools_def
    by (intro inv_intros inv_rules m open_closed open_robust unfinished.settle_pending_keeps)
  have phase: "invariant open_session (advance_phase E L cfg)"
    unfolding advance_phase_def by (intro inv_intros inv_rules m open_closed)
  have act: "triple open_session (ebind (carry_out E L cfg before d) (\<lambda>_. ret False)) (\<lambda>_. Q) Q" for before d
    unfolding carry_out_def
    by (rule triple_ebind [where R = "\<lambda>_. Q"], intro triple_if handle_final_keeps)
       (auto intro: drop_open tools inv_handle_invalid open_robust triple_basic)
  have stop: "triple open_session (ebind (stop_compaction E m) (\<lambda>_. ret True)) (\<lambda>_. Q) Q" for m
    by (rule drop_open) (intro inv_intros inv_rules open_robust)
  have first: "triple open_session m (\<lambda>_. open_session) Q" if "invariant open_session m" for m :: "('w, 'b) eng"
    by (rule triple_weaken [OF that]) auto
  show ?thesis
    unfolding run_step_def
    by (rule triple_ebind [OF first [OF phase]], rule triple_ebind [OF first [OF inv_compact_step [OF open_closed]]],
        rule triple_option, rule triple_ebind [OF first [OF inv_basic(3)]],
        rule triple_ebind [OF first [OF st.keeps_checkpoint [OF open_closed]]], rule triple_ebind [OF first [OF inv_basic(3)]],
        rule triple_ebind [OF first [OF decision]], rule act, rule stop)
qed

theorem run_keeps: "triple open_session (run E L cfg requested) (\<lambda>_. Q) Q"
proof -
  have body: "triple (\<lambda>s. Q s \<and> unfinished limit a s) (run_step E L cfg a) (\<lambda>_. Q) Q" for limit a
    by (rule triple_weaken [OF run_step_keeps]) (auto simp: unfinished_def live_def)
  have loop: "triple open_session (run_loop E L cfg limit n) (\<lambda>_. Q) Q" for limit n
    unfolding run_loop_def by (rule triple_weaken [OF triple_ewhile [where I = "\<lambda>_. Q"]]) (auto intro: body)
  have pending: "invariant open_session (resume_pending E L cfg)"
    unfolding resume_pending_def by (intro inv_intros inv_rules open_robust unfinished.settle_pending_keeps)
  have first: "triple open_session m (\<lambda>_. open_session) Q" if "invariant open_session m" for m :: "('w, 'b) eng"
    by (rule triple_weaken [OF that]) auto
  have last: "invariant Q (ebind (finish_limit E cap limit) (\<lambda>_. finish_run E))" for cap limit
    by (intro inv_intros inv_rules Q_robust robust_closed [OF Q_robust])
  show ?thesis
    unfolding run_def
    by (rule triple_ebind [OF first [OF inv_basic(3)]], rule triple_ebind [OF first [OF inv_start_run [OF open_closed]]],
        rule triple_ebind [OF first [OF pending]], rule triple_ebind [OF first [OF inv_basic(3)]],
        rule triple_ebind [OF loop], rule last)
qed

lemma run_preserves:
  assumes "Q s" "s_status s \<noteq> ''complete''" "run E L cfg requested (s, w) = (r, s', w')"
  shows "Q s'"
proof (cases r)
  case (Inl e)
  show ?thesis by (rule tripleD(2) [OF run_keeps _ assms(3) [unfolded Inl]]) (simp add: assms live_def)
next
  case (Inr x)
  show ?thesis by (rule tripleD(1) [OF run_keeps _ assms(3) [unfolded Inr]]) (simp add: assms live_def)
qed

end

section \<open>The loops end\<close>

lemma robust_pending: "robust (\<lambda>s. P (s_pending_tool_calls s))"
  using robust_core [of "\<lambda>(g, n, w, a, p, ph). P p"] by (simp add: core_def)

lemma robust_steps: "robust (\<lambda>s. P (s_step_count s))"
  using robust_core [of "\<lambda>(g, n, w, a, p, ph). P n"] by (simp add: core_def)

lemma call_output_pending: "invariant (\<lambda>s. P (s_pending_tool_calls s)) (call_output E L cfg ph call)"
  unfolding call_output_def by (intro inv_intros inv_rules robust_pending)

lemma settle_one_pending:
  "triple (\<lambda>s. s_pending_tool_calls s = p) (settle_one E L cfg ph rejected)
     (\<lambda>_ s. s_pending_tool_calls s = tl p) (\<lambda>_. True)"
proof -
  let ?P = "\<lambda>s. s_pending_tool_calls s = p" and ?R = "\<lambda>s. s_pending_tool_calls s = tl p"
  have noted: "invariant ?P (ewhen b (modify (note_output L cfg call out)))" for b call out
    by (intro inv_ewhen inv_modify) (simp add: note_output_frame)
  have first: "triple ?P m (\<lambda>_. ?P) (\<lambda>_. True)" if "invariant ?P m" for m :: "('w, 'b) eng"
    by (rule triple_weaken [OF that]) auto
  have rest: "triple ?R m (\<lambda>_. ?R) (\<lambda>_. True)" if "invariant ?R m" for m :: "('w, 'b) eng"
    by (rule triple_weaken [OF that]) auto
  show ?thesis
    unfolding settle_one_def
    apply (rule triple_ebind [OF first [OF inv_basic(3)]], rule triple_pair)
    apply (rule triple_ebind [OF first [OF call_output_pending]], rule triple_pair)
    apply (rule triple_ebind [OF first [OF noted]])
    apply (rule triple_ebind [OF first [OF inv_append [OF robust_closed [OF robust_pending]]]])
    apply (rule triple_ebind [where R = "\<lambda>_. ?R"], rule triple_basic, simp add: drop_pending_frame)
    by (rule rest, intro inv_intros inv_rules robust_closed [OF robust_pending])
qed

interpretation settling: bounded_loop "\<lambda>_. True" has_pending "settle_one E L cfg ph" "\<lambda>s. length (s_pending_tool_calls s)"
  for E :: "'w env" and L cfg ph
proof unfold_locales
  show "0 < length (s_pending_tool_calls s)" if "has_pending a s" for a s using that by (simp add: has_pending_def)
  show "True \<and> (has_pending b s' \<longrightarrow> length (s_pending_tool_calls s') < length (s_pending_tool_calls s))"
    if "has_pending a s" "settle_one E L cfg ph a (s, w) = (Ok b, s', w')" for a s w b s' w'
    using tripleD(1) [OF settle_one_pending refl that(2)] that(1) by (simp add: has_pending_def)
qed

lemma settle_invariant_steps: "settle_invariant E L cfg (\<lambda>s. P (s_step_count s))"
  by unfold_locales (simp_all add: robust_steps note_output_frame drop_pending_frame)

lemma carry_out_steps: "invariant (\<lambda>s. P (s_step_count s)) (carry_out E L cfg before d)"
proof -
  have m: "invariant (\<lambda>s. P (s_step_count s)) (modify (schedule calls))"
    "invariant (\<lambda>s. P (s_step_count s)) (modify (complete_session x))"
    "invariant (\<lambda>s. P (s_step_count s)) (modify (\<lambda>s. s\<lparr>s_no_progress_steps := 0\<rparr>))" for calls x
    by (rule inv_modify; simp add: schedule_def complete_session_def)+
  show ?thesis
    unfolding carry_out_def handle_final_def handle_tools_def accept_final_def Let_def
    by (intro inv_intros inv_rules m robust_steps robust_closed [OF robust_steps]
          settle_invariant.settle_pending_keeps [OF settle_invariant_steps])
qed

lemma make_decision_steps:
  "triple (\<lambda>s. s_step_count s = n) (make_decision E L cfg) (\<lambda>_ s. s_step_count s = n + 1)
     (\<lambda>s. s_step_count s \<in> {n, n + 1})"
proof -
  let ?F = "\<lambda>s. s_step_count s \<in> {n, n + 1}"
  have inv: "triple (\<lambda>s. s_step_count s = k) m (\<lambda>_ s. s_step_count s = k) ?F"
    if "invariant (\<lambda>s. s_step_count s = k) m" "k \<in> {n, n + 1}" for m :: "('w, 'b) eng" and k
    by (rule triple_weaken [OF that(1)]) (use that(2) in auto)
  have noted: "invariant (\<lambda>s. s_step_count s = k) (efor ds (note_diagnostic E))" for ds k
    unfolding note_diagnostic_def
    by (intro inv_intros inv_rules inv_modify robust_closed [OF robust_steps]) simp
  show ?thesis
    unfolding make_decision_def
    apply (rule triple_ebind [OF inv [OF inv_basic(3)]], simp)
    apply (rule triple_ebind [OF inv [OF inv_decide]], simp)
    apply (rule triple_ebind [OF inv [OF noted]], simp)
    apply (rule triple_ebind [where R = "\<lambda>_ s. s_step_count s = n + 1"], rule triple_basic, simp)
    by (rule inv; (intro inv_intros inv_rules robust_closed [OF robust_steps])?) simp
qed

lemma stop_compaction_fails:
  "triple (\<lambda>s. s_step_count s = n) (stop_compaction E m) (\<lambda>_ s. s_step_count s = n \<and> s_status s = ''failed'')
     (\<lambda>s. s_step_count s = n)"
proof -
  let ?R = "\<lambda>s. s_step_count s = n \<and> s_status s = ''failed''"
  have "closed ?R" by (auto simp: closed_under_def standing_def)
  then show ?thesis
    unfolding stop_compaction_def
    by (intro triple_ebind [where R = "\<lambda>_. ?R"] triple_weaken [OF st.keeps_checkpoint [where Q = ?R]])
       (auto intro: triple_basic simp: fail_session_def)
qed

lemma run_step_counts:
  "triple (\<lambda>s. s_step_count s = n) (run_step E L cfg stop0)
     (\<lambda>stop s. if stop then s_step_count s = n \<and> s_status s = ''failed'' else s_step_count s = n + 1)
     (\<lambda>s. s_step_count s \<in> {n, n + 1})"
proof -
  let ?F = "\<lambda>s. s_step_count s \<in> {n, n + 1}"
    and ?R = "\<lambda>stop s. if stop then s_step_count s = n \<and> s_status s = ''failed'' else s_step_count s = n + 1"
  have inv: "triple (\<lambda>s. s_step_count s = k) m (\<lambda>_ s. s_step_count s = k) ?F"
    if "invariant (\<lambda>s. s_step_count s = k) m" "k \<in> {n, n + 1}" for m :: "('w, 'b) eng" and k
    by (rule triple_weaken [OF that(1)]) (use that(2) in auto)
  have phase: "invariant (\<lambda>s. s_step_count s = n) (advance_phase E L cfg)"
    unfolding advance_phase_def
    by (intro inv_intros inv_rules inv_modify robust_closed [OF robust_steps]) (simp add: advance_frame)
  have stop: "triple (\<lambda>s. s_step_count s = n) (ebind (stop_compaction E m) (\<lambda>_. ret True)) ?R ?F" for m
    by (rule triple_ebind [where R = "\<lambda>_ s. s_step_count s = n \<and> s_status s = ''failed''"],
        rule triple_weaken [OF stop_compaction_fails]) (auto intro: triple_basic)
  have decide: "triple (\<lambda>s. s_step_count s = n)
      (ebind (make_decision E L cfg) (\<lambda>d. ebind (carry_out E L cfg before d) (\<lambda>_. ret False))) ?R ?F" for before
    by (rule triple_ebind [OF make_decision_steps], rule triple_ebind [OF inv [OF carry_out_steps]], simp)
       (auto intro: triple_basic)
  show ?thesis
    unfolding run_step_def
    by (rule triple_ebind [OF inv [OF phase]], simp, rule triple_ebind [OF inv [OF inv_compact_step]],
        rule robust_closed [OF robust_steps], simp, rule triple_option)
       (rule triple_ebind [OF inv], rule inv_rules, simp,
        rule triple_ebind [OF inv [OF st.keeps_checkpoint [OF robust_closed [OF robust_steps]]]], simp,
        rule triple_ebind [OF inv [OF inv_basic(3)]], simp, rule decide, rule stop)
qed

interpretation running: bounded_loop "\<lambda>_. True" "unfinished limit" "run_step E L cfg" "steps_left limit"
  for limit and E :: "'w env" and L cfg
proof unfold_locales
  show "0 < steps_left limit s" if "unfinished limit a s" for a s
    using that by (simp add: unfinished_def steps_left_def)
  show "True \<and> (unfinished limit b s' \<longrightarrow> steps_left limit s' < steps_left limit s)"
    if "unfinished limit a s" "run_step E L cfg a (s, w) = (Ok b, s', w')" for a s w b s' w'
    using tripleD(1) [OF run_step_counts refl that(2)] that(1) by (auto simp: unfinished_def steps_left_def)
qed

section \<open>How a run ends\<close>

definition run_over :: "session \<Rightarrow> bool" where
  "run_over s \<longleftrightarrow> s_status s \<noteq> ''active'' \<and> s_run_status s \<noteq> ''running'' \<and> s_run_ended_at s \<noteq> None
     \<and> s_run_termination_reason s \<noteq> None"

lemma finish_run_closes: "triple (\<lambda>s. s_status s \<noteq> ''active'') (finish_run E) (\<lambda>_. run_over) (\<lambda>_. True)"
proof -
  let ?C = "\<lambda>s. s_status s \<noteq> ''active'' \<and> s_run_status s \<noteq> ''running''"
  have close: "triple (\<lambda>s. s_status s \<noteq> ''active'') (modify close_over) (\<lambda>_. ?C) (\<lambda>_. True)"
    by (rule triple_basic) (simp add: close_over_def close_status_def)
  have ended: "triple (\<lambda>s. ?C s \<and> (open_end \<longleftrightarrow> s_run_ended_at s = None))
      (ewhen open_end (ebind (ask (env_now E)) (\<lambda>now. modify (\<lambda>s. s\<lparr>s_run_ended_at := Some now\<rparr>))))
      (\<lambda>_ s. ?C s \<and> s_run_ended_at s \<noteq> None) (\<lambda>_. True)" for open_end
    by (rule triple_ewhen, rule triple_ebind [where R = "\<lambda>_. ?C"]) (auto intro: triple_basic)
  have reason: "triple (\<lambda>s. ?C s \<and> s_run_ended_at s \<noteq> None)
      (modify (\<lambda>s. if s_run_termination_reason s = None then s\<lparr>s_run_termination_reason := Some (s_run_status s)\<rparr> else s))
      (\<lambda>_. run_over) (\<lambda>_. True)"
    by (rule triple_basic) (simp add: run_over_def)
  have read: "triple ?C (gets (\<lambda>s. (s_run_status s \<noteq> ''running'', s_run_ended_at s = None)))
      (\<lambda>(over, open_end) s. ?C s \<and> over \<and> (open_end \<longleftrightarrow> s_run_ended_at s = None)) (\<lambda>_. True)"
    by (rule triple_basic) auto
  have last: "triple (case p of (over, open_end) \<Rightarrow> \<lambda>s. ?C s \<and> over \<and> (open_end \<longleftrightarrow> s_run_ended_at s = None))
      (case p of (over, open_end) \<Rightarrow> ewhen over
         (ebind (ewhen open_end (ebind (ask (env_now E)) (\<lambda>now. modify (\<lambda>s. s\<lparr>s_run_ended_at := Some now\<rparr>))))
            (\<lambda>_. modify (\<lambda>s. if s_run_termination_reason s = None
                   then s\<lparr>s_run_termination_reason := Some (s_run_status s)\<rparr> else s))))
      (\<lambda>_. run_over) (\<lambda>_. True)" for p
    by (cases p, simp only: prod.case)
       (rule triple_ewhen, rule triple_weaken [OF triple_ebind [OF ended reason]], auto)
  show ?thesis
    unfolding finish_run_def
    by (rule triple_ebind [OF close], rule triple_ebind [OF read], rule last)
qed

lemma finish_limit_stops:
  "triple (\<lambda>s. s_status s \<noteq> ''active'' \<or> limit \<le> s_step_count s) (finish_limit E cap limit)
     (\<lambda>_ s. s_status s \<noteq> ''active'') (\<lambda>_. True)"
proof -
  let ?N = "\<lambda>s. s_status s \<noteq> ''active''"
  have cp: "triple ?N (checkpoint E ev) (\<lambda>_. ?N) (\<lambda>_. True)" for ev
    by (rule triple_weaken [OF st.keeps_checkpoint [where Q = ?N]]) (auto simp: closed_under_def standing_def)
  have stop: "triple (\<lambda>_. True) (ebind (modify (stop_at_limit cap)) (\<lambda>_. checkpoint E ev)) (\<lambda>_. ?N) (\<lambda>_. True)" for ev
    by (rule triple_ebind [OF _ cp]) (auto intro: triple_basic simp: stop_at_limit_def)
  show ?thesis
    unfolding finish_limit_def
    by (rule triple_ebind [where R = "\<lambda>reached s. reached \<or> ?N s"], rule triple_basic, force)
       (rule triple_ewhen, rule triple_weaken [OF stop], auto)
qed

lemma run_loop_ends:
  "triple (\<lambda>_. True) (run_loop E L cfg limit n) (\<lambda>_ s. s_status s \<noteq> ''active'' \<or> limit \<le> s_step_count s) (\<lambda>_. True)"
  unfolding run_loop_def
proof (rule triple_weaken [OF triple_ewhile [where I = "\<lambda>stop s. stop \<longrightarrow> s_status s \<noteq> ''active''"]])
  show "triple (\<lambda>s. (a \<longrightarrow> s_status s \<noteq> ''active'') \<and> unfinished limit a s) (run_step E L cfg a)
      (\<lambda>stop s. stop \<longrightarrow> s_status s \<noteq> ''active'') (\<lambda>_. True)" for a
    by (rule triple_assume, rule triple_weaken [OF run_step_counts]) auto
qed (auto simp: unfinished_def)

lemma triple_top: "triple Q m (\<lambda>_ _. True) (\<lambda>_. True)"
  by (simp add: triple_def split: sum.split)

lemma run_ends: "triple Q (run E L cfg requested) (\<lambda>_. run_over) (\<lambda>_. True)"
  unfolding run_def
  by (rule triple_ebind [OF triple_top], rule triple_ebind [OF triple_top], rule triple_ebind [OF triple_top],
      rule triple_ebind [OF triple_top], rule triple_ebind [OF run_loop_ends], rule triple_ebind [OF finish_limit_stops],
      rule finish_run_closes)

end
