(* ===== verification/Run_Invariants.thy ===== *)
theory Run_Invariants
  imports Engine
begin

text \<open>
  What a run keeps: the instances of the run invariants of \<open>Engine\<close>.  A session becomes complete
  only with a final answer that passes \<open>completion_errors\<close>; its workflow is a state that the
  configured phases reach from the results of dispatched calls; every completion artifact was
  captured from a dispatched call; the step counter stays within the allowance of the run; and
  settling answers every scheduled call, in order, with a tool message of its id.
\<close>

section \<open>Completion is verified\<close>

definition verified :: "lib \<Rightarrow> config \<Rightarrow> session \<Rightarrow> bool" where
  "verified L cfg s \<longleftrightarrow>
     (s_status s = ''complete'' \<longrightarrow> (\<exists>x. s_final_answer s = Some x \<and> completion_errors L cfg s x = []))"

lemma completion_errors_cong:
  assumes "s_workflow t = s_workflow s" "s_completion_artifacts t = s_completion_artifacts s"
  shows "completion_errors L cfg t x = completion_errors L cfg s x"
proof -
  have a: "active_phase t = active_phase s" "observed t = observed s" "complete_wf cfg t = complete_wf cfg s"
    "artifact_value t = artifact_value s"
    using assms by (simp_all add: active_phase_def observed_def complete_wf_def artifact_value_def fun_eq_iff)
  have "missing L t = missing L s" using a by (simp add: missing_def missing_evidence_def fun_eq_iff)
  moreover have "allowed_names cfg t = allowed_names cfg s" using a by (simp add: allowed_names_def)
  ultimately have i: "instruction L cfg t = instruction L cfg s" by (simp only: instruction_def a(1))
  have d: "deliverable_errors L t = deliverable_errors L s" by (intro ext) (simp only: deliverable_errors_def a(4))
  show ?thesis by (simp only: completion_errors_def incomplete_error_def a(3) i d)
qed

lemma verified_not_complete: "s_status s \<noteq> ''complete'' \<Longrightarrow> verified L cfg s"
  by (simp add: verified_def)

lemma robust_verified: "robust (verified L cfg)"
proof -
  have "verified L cfg s = verified L cfg t" if "standing s = standing t" for s t
    using that completion_errors_cong [of s t L cfg] by (simp add: verified_def standing_def)
  then have "closed (verified L cfg)" unfolding closed_under_def by blast
  moreover have "verified L cfg (fail_session a s)" "verified L cfg (mark_blocked m s)" for a m s
    by (simp_all add: verified_def fail_session_def mark_blocked_def)
  ultimately show ?thesis unfolding robust_def by blast
qed

interpretation completion: run_invariant E L cfg "verified L cfg"
  for E :: "'w env" and L cfg
proof unfold_locales
  show "verified L cfg (complete_session x s)" if "completion_errors L cfg s x = []" for s x
    using that completion_errors_cong [of "complete_session x s" s L cfg] by (simp add: verified_def complete_session_def)
qed (auto simp: robust_verified live_def note_output_frame drop_pending_frame advance_frame schedule_def
      intro!: verified_not_complete)

section \<open>The workflow is driven by executed calls\<close>

text \<open>An entry of the call log: the tool was allowed, and the output is one a dispatch returned.\<close>

definition logged :: "'w env \<Rightarrow> lib \<Rightarrow> config \<Rightarrow> call_log \<Rightarrow> bool" where
  "logged E L cfg hist \<longleftrightarrow>
     (\<forall>(i, name, args, out)\<in>set hist. \<not> tools_disabled cfg \<and> (\<exists>ph. allowed_in_phase cfg ph name)
        \<and> (\<exists>call. dispatched E L cfg call name args out))"

definition driven :: "'w env \<Rightarrow> lib \<Rightarrow> config \<Rightarrow> session \<Rightarrow> bool" where
  "driven E L cfg s \<longleftrightarrow> (\<exists>hist. wf_reach L cfg s hist \<and> logged E L cfg hist)"

lemma driven_frame: "s_workflow t = s_workflow s \<Longrightarrow> driven E L cfg s \<Longrightarrow> driven E L cfg t"
  unfolding driven_def by (meson wf_reach.frame)

lemma driven_note_output:
  assumes "driven E L cfg s" "executable L cfg ph call s"
    and d: "dispatched E L cfg (pending_id call) (pending_name call) (pending_args call) out"
  shows "driven E L cfg (note_output L cfg call out s)"
proof -
  define t where "t = (let s1 = capture_artifacts L cfg (pending_id call) (pending_name call) (pending_args call) out s
      in if s_workflow s1 = None \<and> \<not> is_error_output out
         then record_progress_output L (pending_name call) (pending_args call) out s1 else s1)"
  have wt: "s_workflow t = s_workflow s"
    by (simp add: t_def Let_def record_progress_output_def capture_artifacts_frame)
  have eq: "note_output L cfg call out s = record_evidence L cfg t (pending_name call) (pending_args call) out"
    unfolding note_output_def t_def by (simp only: Let_def)
  have t: "driven E L cfg t" by (rule driven_frame [OF wt assms(1)])
  show ?thesis
  proof (cases "Option.bind (active_phase t) (find_phase cfg)")
    case None
    then show ?thesis unfolding eq using t by (simp add: record_evidence_def)
  next
    case (Some p)
    then obtain i where i: "active_phase t = Some i" "find_phase cfg i = Some p" by (cases "active_phase t") auto
    then have "c_workflow cfg \<noteq> None" by (cases "c_workflow cfg") (auto simp: find_phase_def)
    then obtain q where q: "\<not> tools_disabled cfg" "allowed_in_phase cfg q (pending_name call)"
      using assms(2) by (auto simp: executable_def allowed_in_phase_for_session_def split: option.splits if_splits)
    obtain hist where h: "wf_reach L cfg t hist" "logged E L cfg hist" using t by (auto simp: driven_def)
    have "wf_reach L cfg (note_output L cfg call out s) (hist @ [(i, pending_name call, pending_args call, out)])"
      unfolding eq by (rule wf_reach.tool_result [OF h(1) i(1)])
    moreover have "logged E L cfg (hist @ [(i, pending_name call, pending_args call, out)])"
      using h(2) q d by (auto simp: logged_def)
    ultimately show ?thesis unfolding driven_def by blast
  qed
qed

interpretation workflow_log: run_invariant E L cfg "driven E L cfg"
  for E :: "'w env" and L cfg
proof unfold_locales
  show "robust (driven E L cfg)"
    unfolding robust_def closed_under_def
  proof (intro conjI allI impI)
    show "driven E L cfg s = driven E L cfg t" if "standing s = standing t" for s t
      using that driven_frame [of s t] driven_frame [of t s] by (auto simp: standing_def)
    show "driven E L cfg (fail_session a s)" "driven E L cfg (mark_blocked a s)" if "driven E L cfg s" for s a
      by (rule driven_frame [OF _ that], simp add: fail_session_def mark_blocked_def)+
  qed
  show "driven E L cfg (snd (advance L cfg s))" if "driven E L cfg s" for s
    using that unfolding driven_def by (meson wf_reach.advance)
qed (auto intro: driven_note_output driven_frame simp: drop_pending_def schedule_def complete_session_def)

section \<open>Artifacts come from executed calls\<close>

definition sourced :: "'w env \<Rightarrow> lib \<Rightarrow> config \<Rightarrow> session \<Rightarrow> bool" where
  "sourced E L cfg s \<longleftrightarrow> artifacts_backed L cfg {(i, name, args, out). dispatched E L cfg i name args out} s"

lemma artifacts_backed_cong:
  "s_completion_artifacts t = s_completion_artifacts s \<Longrightarrow> artifacts_backed L cfg A t = artifacts_backed L cfg A s"
  by (simp add: artifacts_backed_def)

lemma sourced_note_output:
  assumes "sourced E L cfg s" "dispatched E L cfg (pending_id call) (pending_name call) (pending_args call) out"
  shows "sourced E L cfg (note_output L cfg call out s)"
proof -
  let ?c = "capture_artifacts L cfg (pending_id call) (pending_name call) (pending_args call) out s"
  have "s_completion_artifacts (note_output L cfg call out s) = s_completion_artifacts ?c"
    by (simp add: note_output_def Let_def record_evidence_def record_progress_output_def split: option.split)
  moreover have "artifacts_backed L cfg {(i, name, args, out). dispatched E L cfg i name args out} ?c"
    using capture_artifacts_backed [OF assms(1) [unfolded sourced_def],
        of "pending_id call" "pending_name call" "pending_args call" out] assms(2)
    by (simp add: insert_absorb)
  ultimately show ?thesis unfolding sourced_def by (simp only: artifacts_backed_def)
qed

interpretation artifact_source: run_invariant E L cfg "sourced E L cfg"
  for E :: "'w env" and L cfg
proof unfold_locales
  show "robust (sourced E L cfg)"
    unfolding robust_def closed_under_def sourced_def
    by (auto simp: standing_def fail_session_def mark_blocked_def artifacts_backed_def)
qed (auto simp: sourced_note_output, auto simp: sourced_def artifacts_backed_def drop_pending_def schedule_def
      complete_session_def advance_frame)


section \<open>Steps of a run\<close>

lemma run_loop_steps:
  "triple (\<lambda>s. a \<le> s_step_count s \<and> s_step_count s \<le> max a limit) (run_loop E L cfg limit n)
     (\<lambda>_ s. a \<le> s_step_count s \<and> s_step_count s \<le> max a limit) (\<lambda>s. a \<le> s_step_count s \<and> s_step_count s \<le> max a limit)"
  unfolding run_loop_def
proof (rule triple_weaken [OF triple_ewhile [where I = "\<lambda>_ s. a \<le> s_step_count s \<and> s_step_count s \<le> max a limit"]])
  show "triple (\<lambda>s. (a \<le> s_step_count s \<and> s_step_count s \<le> max a limit) \<and> unfinished limit stop s) (run_step E L cfg stop)
      (\<lambda>_ s. a \<le> s_step_count s \<and> s_step_count s \<le> max a limit) (\<lambda>s. a \<le> s_step_count s \<and> s_step_count s \<le> max a limit)" for stop
    by (rule triple_assume, rule triple_weaken [OF run_step_counts])
       (auto simp: unfinished_def split: if_splits)
qed auto

lemma run_steps_bounded:
  assumes "run E L cfg requested (s, w) = (r, s', w')"
  shows "s_step_count s \<le> s_step_count s' \<and> s_step_count s' \<le> s_step_count s + max 0 (run_allowance cfg requested)"
proof -
  define a limit where "a = s_step_count s" and "limit = s_step_count s + run_allowance cfg requested"
  let ?Q = "\<lambda>t. a \<le> s_step_count t \<and> s_step_count t \<le> max a limit"
    and ?m = "ebind (start_run E L cfg) (\<lambda>_. ebind (resume_pending E L cfg) (\<lambda>_. ebind (gets (steps_left limit))
      (\<lambda>n. ebind (run_loop E L cfg limit n)
        (\<lambda>_. ebind (finish_limit E (run_allowance cfg requested) limit) (\<lambda>_. finish_run E)))))"
  note rob = robust_steps [of "\<lambda>n. a \<le> n \<and> n \<le> max a limit"] and cl = robust_closed [OF robust_steps [of "\<lambda>n. a \<le> n \<and> n \<le> max a limit"]]
  have pending: "invariant ?Q (resume_pending E L cfg)"
    unfolding resume_pending_def
    by (intro inv_intros inv_rules rob settle_invariant.settle_pending_keeps [OF settle_invariant_steps])
  have "invariant ?Q ?m"
    by (intro inv_intros inv_rules rob cl pending run_loop_steps)
  moreover have "?m (s, w) = (r, s', w')"
    using assms by (simp add: run_def ebind_def [of "gets _"] eng_simps limit_def)
  ultimately have inv: "invariant ?Q ?m" and run: "?m (s, w) = (r, s', w')" by simp_all
  have "?Q s'"
  proof (cases r)
    case (Inl e)
    show ?thesis by (rule tripleD(2) [OF inv _ run [unfolded Inl]]) (simp add: a_def)
  next
    case (Inr x)
    show ?thesis by (rule tripleD(1) [OF inv _ run [unfolded Inr]]) (simp add: a_def)
  qed
  then show ?thesis by (auto simp: a_def limit_def max_def split: if_splits)
qed

section \<open>Every scheduled call is answered\<close>

definition answers :: "json \<Rightarrow> json \<Rightarrow> bool" where
  "answers call r \<longleftrightarrow> (\<exists>out. r = wire_message (tool_result_message (pending_id call) (pending_name call) out))"

lemma append_msg_wire:
  "triple (\<lambda>s. wire_history s = h \<and> s_pending_tool_calls s = p) (append_msg E m)
     (\<lambda>_ s. wire_history s = h @ [wire_message m] \<and> s_pending_tool_calls s = p) (\<lambda>_. True)"
proof -
  let ?Q = "\<lambda>s. wire_history s = h \<and> s_pending_tool_calls s = p"
  have [simp]: "wire_message (m\<lparr>m_message_id := a, m_sequence := b, m_created_at := c\<rparr>) = wire_message m" for a b c
    by (simp add: wire_message_def)
  show ?thesis
    unfolding append_msg_def
    by (intro triple_ebind [where R = "\<lambda>_. ?Q"] triple_basic)
       (auto simp: append_message_def Let_def wire_history_def)
qed

definition both :: "session \<Rightarrow> json list \<times> json list" where
  "both s = (wire_history s, s_pending_tool_calls s)"

interpretation traffic: bookkeeping both
proof unfold_locales
  have *: "both s = both t" if "wire_history s = wire_history t" "standing s = standing t" for s t
    using that by (simp add: both_def standing_def)
  fix s :: session and a now u k p e x
  show "both (s\<lparr>s_checkpoint_ack := a\<rparr>) = both s" by (intro * wires.ack_cell st.ack_cell)
  show "both (acknowledge_checkpoint s) = both s" by (intro * wires.acknowledged st.acknowledged)
  show "both (clear_outboxes s) = both s" by (intro * wires.cleared st.cleared)
  show "both (close_status s) = both s" "both (close_ended now s) = both s" "both (close_reason s) = both s"
    "both (close_blocked now s) = both s" by (intro * wires.closed_run st.closed_run)+
  show "both (archive_record u now k p s) = both s" by (intro * wires.archived st.archived)
  show "both (stage_execution e s) = both s" "both (push_attempt x s) = both s" by (intro * wires.execution st.execution)+
  show "both s' = both s" if "stage_diagnostics s = Ok s'" for s'
    by (intro * wires.staged [OF that] st.staged [OF that])
qed

lemma call_output_traffic: "invariant (\<lambda>s. both s = v) (call_output E L cfg ph call)"
  unfolding call_output_def
  by (intro inv_intros inv_basic traffic.keeps_dispatch) (auto simp: closed_under_def both_def wire_history_def mark_blocked_def)

lemma settle_one_answers:
  assumes "settle_one E L cfg ph rejected (s, w) = (Ok b, s', w')" "s_pending_tool_calls s = call # p"
  shows "\<exists>r. answers call r \<and> wire_history s' = wire_history s @ [r] \<and> s_pending_tool_calls s' = p"
proof -
  let ?B = "\<lambda>h q s. both s = (h, q)"
  have [simp]: "both (note_output L cfg c out t) = both t" for c out t
    by (simp add: both_def wire_history_def note_output_frame)
  obtain out ran s1 w1 where o: "call_output E L cfg ph call (s, w) = (Ok (out, ran), s1, w1)"
    and rest: "ebind (ewhen ran (modify (note_output L cfg call out)))
               (\<lambda>_. ebind (append_msg E (tool_result_message (pending_id call) (pending_name call) out))
                  (\<lambda>_. ebind (modify drop_pending)
                     (\<lambda>_. ebind (checkpoint E (completed_event call out ran))
                        (\<lambda>_. ret (rejected \<or> rejection_text L cfg s ph call \<noteq> None))))) (s1, w1) = (Ok b, s', w')"
    using assms by (auto simp: settle_one_def ebind_Ok eng_simps)
  have s1: "both s1 = both s" by (rule tripleD(1) [OF call_output_traffic refl o])
  let ?r = "wire_message (tool_result_message (pending_id call) (pending_name call) out)"
  have "triple (\<lambda>s. both s = (h, call # p)) (ebind (ewhen ran (modify (note_output L cfg call out)))
               (\<lambda>_. ebind (append_msg E (tool_result_message (pending_id call) (pending_name call) out))
                  (\<lambda>_. ebind (modify drop_pending)
                     (\<lambda>_. ebind (checkpoint E (completed_event call out ran))
                        (\<lambda>_. ret (rejected \<or> rejection_text L cfg s ph call \<noteq> None)))))) (\<lambda>_ s. both s = (h @ [?r], p)) (\<lambda>_. True)" for h
    apply (rule triple_ebind [where R = "\<lambda>_ s. both s = (h, call # p)"])
     apply (rule triple_ewhen; (rule triple_basic)?; simp)
    apply (rule triple_ebind [where R = "\<lambda>_ s. both s = (h @ [?r], call # p)"])
     apply (rule triple_weaken [OF append_msg_wire]; simp add: both_def)
    apply (rule triple_ebind [where R = "\<lambda>_ s. both s = (h @ [?r], p)"])
     apply (rule triple_basic, simp add: both_def wire_history_def drop_pending_frame)
    apply (rule triple_ebind [where R = "\<lambda>_ s. both s = (h @ [?r], p)"])
     apply (rule triple_weaken [OF traffic.keeps_checkpoint]; simp add: closed_under_def)
    by (rule triple_basic)
  from tripleD(1) [OF this _ rest, of "wire_history s"] s1 assms(2)
  have "both s' = (wire_history s @ [?r], p)" by (simp add: both_def)
  then show ?thesis by (auto simp: both_def answers_def)
qed

lemma settle_calls_answers:
  assumes "ewhile n has_pending (settle_one E L cfg ph) rejected (s, w) = (Ok b, s', w')"
  shows "\<exists>done_calls rest rs. s_pending_tool_calls s = done_calls @ rest \<and> list_all2 answers done_calls rs
    \<and> wire_history s' = wire_history s @ rs \<and> s_pending_tool_calls s' = rest"
  using assms
proof (induction n arbitrary: rejected s w)
  case 0
  then show ?case by (intro exI [of _ "[]"] exI [of _ "s_pending_tool_calls s"]) (auto simp: ebind_def eng_simps split: if_splits)
next
  case (Suc n)
  show ?case
  proof (cases "s_pending_tool_calls s")
    case Nil
    then show ?thesis using Suc.prems by (auto simp: ebind_def eng_simps has_pending_def)
  next
    case (Cons call p)
    then obtain x s1 w1 where b: "settle_one E L cfg ph rejected (s, w) = (Ok x, s1, w1)"
      "ewhile n has_pending (settle_one E L cfg ph) x (s1, w1) = (Ok b, s', w')"
      using Suc.prems has_pending_def [of rejected s] by (auto simp: ebind_Ok eng_simps)
    obtain r where r: "answers call r" "wire_history s1 = wire_history s @ [r]" "s_pending_tool_calls s1 = p"
      using settle_one_answers [OF b(1) Cons] by blast
    obtain ds rest rs where "p = ds @ rest" "list_all2 answers ds rs" "wire_history s' = wire_history s1 @ rs"
      "s_pending_tool_calls s' = rest" using Suc.IH [OF b(2)] r(3) by auto
    then show ?thesis using r Cons
      by (intro exI [of _ "call # ds"] exI [of _ rest] exI [of _ "r # rs"]) auto
  qed
qed

lemma closed_both: "closed_under both (\<lambda>s. both s = v)"
  by (simp add: closed_under_def)

lemma reject_batch_traffic: "invariant (\<lambda>s. both s = v) (reject_batch E L cfg ph)"
proof -
  have "invariant (\<lambda>s. both s = v) (bump_invalid cfg)"
    by (auto simp: triple_def bump_invalid_def increment_invalid_def Let_def both_def wire_history_def fail_session_def
        split: prod.splits sum.splits if_splits)
  then show ?thesis unfolding reject_batch_def limit_error_def
    by (intro inv_intros inv_basic traffic.keeps_checkpoint closed_both)
qed

lemma settle_pending_answers:
  assumes "settle_pending E L cfg (s, w) = (Ok (), s', w')"
  shows "s_pending_tool_calls s' = [] \<and> (\<exists>rs. list_all2 answers (s_pending_tool_calls s) rs \<and> wire_history s' = wire_history s @ rs)"
proof -
  let ?ph = "s_pending_tool_phase s"
  obtain b s1 w1 where c: "ewhile (length (s_pending_tool_calls s)) has_pending (settle_one E L cfg ?ph) False (s, w) = (Ok b, s1, w1)"
    and t: "(if b then reject_batch E L cfg ?ph else modify (\<lambda>s. s\<lparr>s_consecutive_invalid_responses := 0\<rparr>)) (s1, w1) = (Ok (), s', w')"
    using assms by (auto simp: settle_pending_def settle_calls_def ebind_Ok eng_simps)
  have "s_pending_tool_calls s1 = []"
    using settling.exits [OF _ _ c] by (simp add: has_pending_def)
  moreover obtain ds rest rs where "s_pending_tool_calls s = ds @ rest" "list_all2 answers ds rs"
    "wire_history s1 = wire_history s @ rs" "s_pending_tool_calls s1 = rest" using settle_calls_answers [OF c] by blast
  moreover have "both s' = both s1"
  proof -
    have "invariant (\<lambda>s. both s = both s1)
        (if b then reject_batch E L cfg ?ph else modify (\<lambda>s. s\<lparr>s_consecutive_invalid_responses := 0\<rparr>))"
      by (intro triple_if reject_batch_traffic inv_modify) (simp add: both_def wire_history_def)
    from tripleD(1) [OF this refl t] show ?thesis .
  qed
  ultimately show ?thesis by (auto simp: both_def)
qed

end
