(* ===== verification/Samples.thy ===== *)
theory Samples
  imports Run_Invariants Config_Check Single_Call
begin

text \<open>
  Concrete instances for the witnesses: an environment whose world is a counter of identifiers,
  the tools run so far and the table of receipts, a profile with one tool and one phase, and a session of it.
\<close>

type_synonym sample_world = "nat \<times> string list \<times> receipts"

definition sample_lib :: lib where
  "sample_lib = \<lparr>f64_text = (\<lambda>_. ''0.5''), json_text = (\<lambda>_. ''{}''), read_json = (\<lambda>_. Ok (RMap [])),
     sha256_hex = (\<lambda>s. s), regex_search = (\<lambda>p s. Ok (p = s)), lowercase = (\<lambda>s. s), debug_text = (\<lambda>s. s),
     regex_escape = (\<lambda>s. s), regex_captures = (\<lambda>_ _. Ok []), json_debug = (\<lambda>_. ''Null'')\<rparr>"

definition sample_env :: "sample_world env" where
  "sample_env = \<lparr>env_uuid = (\<lambda>(n, q, t). (show_nat n, Suc n, q, t)), env_now = (\<lambda>w. (''now'', w)),
     env_emit = (\<lambda>ev s w. ((Ok (), None), w)), env_post = (\<lambda>url req w. (Send_Failed True 1, w)),
     env_tool = (\<lambda>name args (n, q, t). (''found'', n, name # q, t)), env_known_calls = (\<lambda>i ids w. (Ok [], w)),
     env_receipts = (\<lambda>(n, q, t). t), env_set_receipts = (\<lambda>t (n, q, _). (n, q, t)),
     env_statement = (\<lambda>w. (None, w)), env_commit = (\<lambda>w. ((None, True), w))\<rparr>"

definition sample_tool :: tool where
  "sample_tool = \<lparr>tl_name = ''look'', tl_description = ''d'', tl_parameters = JObj [], tl_recovery = None\<rparr>"

definition sample_evidence :: evidence where
  "sample_evidence = \<lparr>ev_description = ''e'', ev_tool = ''look'', ev_required = True, ev_arguments = JObj [],
     ev_result = JNull, ev_content_contains = [''found'']\<rparr>"

definition sample_phase :: phase where
  "sample_phase = \<lparr>ph_id = ''p'', ph_name = ''p'', ph_instruction = ''i'', ph_allowed_tools = Some [''look''],
     ph_completion = [sample_evidence],
     ph_transitions = [\<lparr>ed_to = ''complete'', ed_when = ''phase_complete'', ed_evidence = []\<rparr>]\<rparr>"

definition sample_workflow :: workflow_config where
  "sample_workflow = \<lparr>wc_entry_phase = ''p'', wc_phases = [sample_phase]\<rparr>"

definition sample_config :: config where
  "sample_config = \<lparr>c_name = ''a'', c_system_prompt = ''s'', c_model = ''m'', c_llm = llm_default ''http://h/v1'',
     c_memory = memory_default 1000 4 2, c_verbose_setup = False, c_tools = [sample_tool],
     c_workflow = Some sample_workflow, c_execution = JNull, c_completion = JObj []\<rparr>"

definition sample_session :: session where
  "sample_session = (session_default ''s1'' ''g'' ''active'')\<lparr>s_memory := [msg ''user'' (Some ''g'')]\<rparr>"

definition sample_start :: "session \<times> sample_world" where
  "sample_start = (sample_session, 0, [], \<lambda>_. None)"

lemma sample_fields:
  "s_status sample_session = ''active''" "s_workflow sample_session = None" "s_completion_artifacts sample_session = JObj []"
  by (simp_all add: sample_session_def session_default_def)

lemma sample_driven: "driven sample_env sample_lib sample_config sample_session"
  unfolding driven_def logged_def
  by (intro exI [of _ "[]"] conjI wf_reach.start sample_fields(2)) simp

lemma sample_env_laws:
  "silent sample_env (\<lambda>(n, q, t). q = [])" "receipts_env sample_env"
  by (auto simp: silent_def receipts_env_def sample_env_def)

text \<open>A call of the tool, an execution of it that was started before, and a batch with its result.\<close>

definition sample_call :: json where
  "sample_call = JObj [(''id'', JStr ''c1''), (''name'', JStr ''look''), (''arguments'', JObj []), (''error'', JNull)]"

definition sample_waiting :: session where
  "sample_waiting = sample_session\<lparr>s_pending_tool_calls := [sample_call]\<rparr>"

definition sample_execution :: json where
  "sample_execution = JObj [(''call_id'', JStr ''c1''), (''status'', JStr ''started'')]"

definition sample_batch :: message where
  "sample_batch = message_default\<lparr>m_role := ''assistant'',
     m_tool_calls := Some (JArr [JObj [(''id'', JStr ''c1'')]])\<rparr>"

definition sample_history :: "message list" where
  "sample_history = [sample_batch, tool_result_message ''c1'' ''t'' ''out'', msg ''user'' (Some ''go'')]"

text \<open>A longer history with its first pass of compaction, a response with a call, and a summary.\<close>

definition sample_long :: session where
  "sample_long = sample_session\<lparr>s_memory := map (\<lambda>t. msg ''user'' (Some t)) [''g'', ''a'', ''b'', ''c'']\<rparr>"

definition sample_pass :: pass_info where
  "sample_pass = \<lparr>pi_pass = 0, pi_measured = \<lparr>b_estimated_input_tokens = 40000, b_reserved_output_tokens = 1024,
       b_safety_margin_tokens = 256, b_context_window_tokens = 32768, b_fits = False, b_estimator = []\<rparr>,
     pi_hard = True, pi_pressure = 1, pi_assessment = JObj []\<rparr>"

definition sample_response :: json where
  "sample_response = JObj [(''choices'', JArr [JObj [(''message'', JObj [(''tool_calls'',
     JArr [JObj [(''function'', JObj [(''name'', JStr ''look''), (''arguments'', JStr ''{}'')])],
           JObj [(''id'', JStr ''c2''), (''function'', JObj [(''name'', JStr ''look''), (''arguments'', JStr ''{}'')])]])])]])]"

definition sample_summary :: string where
  "sample_summary = ''- Core Objective:x- Universal Truths Discovered:a- Dead Ends:b- Current Local Pivot:c''"

section \<open>Evaluations\<close>

lemma sample_summary_fits: "b_fits (summary_budget sample_lib sample_config s historical None)"
  by (simp add: summary_budget_def summary_payload_def estimate_payload_def sample_lib_def sample_config_def
      memory_default_def json_int_def json_nat_def get_arr_def i64_max_def)

lemma sample_chooses:
  "\<exists>so s1 w1. choose_source sample_lib sample_config sample_pass (sample_long, ()) = (Ok (Some so), s1, w1)"
proof -
  let ?g = "\<lambda>i t. \<lparr>g_messages = [msg ''user'' (Some t)], g_indexes = [i]\<rparr>"
  have split: "split_history sample_lib (drop 1 (s_memory sample_long)) 2 = Ok ([?g 0 ''a''], [?g 1 ''b'', ?g 2 ''c''])"
    by code_simp
  have "case request_budget_of sample_lib sample_config (replaced (flatten [?g 1 ''b'', ?g 2 ''c'']) None sample_long) of
      Inr _ \<Rightarrow> True | Inl _ \<Rightarrow> False" by code_simp
  then obtain b where b: "request_budget_of sample_lib sample_config (replaced (flatten [?g 1 ''b'', ?g 2 ''c'']) None sample_long) = Ok b"
    by (auto split: sum.splits)
  have "mem_raw_turns_to_keep (c_memory sample_config) = 2" by code_simp
  moreover have "s_memory sample_long \<noteq> []" "s_last_compaction_attempt_sha256 sample_long = None"
    by (simp_all add: sample_long_def sample_session_def session_default_def)
  moreover have "pi_hard sample_pass" by (simp add: sample_pass_def)
  ultimately show ?thesis using split b sample_summary_fits
    by (simp add: choose_source_def prepare_source_def optional_gate_def pressure_gate_def ebind_def eng_simps Let_def)
qed

lemma sample_ledger_valid:
  "\<exists>l rendered. validate_ledger sample_lib sample_summary ''g'' ''source'' 1000 False = Ok (l, rendered)"
proof -
  have "parse_heading_sections (strip_fence sample_summary) = Ok [''x'', ''a'', ''b'', ''c'']" by code_simp
  moreover have "trim sample_summary \<noteq> []" "length sample_summary \<le> 1000" by (code_simp, simp add: sample_summary_def)
  moreover have "trim ''g'' = ''g''" "trim ''a'' = ''a''" "trim ''b'' = ''b''" "trim ''c'' = ''c''" by code_simp+
  moreover have "number_list (join newline [''g'', ''a'', ''b'', ''c'']) = []" by code_simp
  moreover have "lines ''a'' = [''a'']" "lines ''b'' = [''b'']" by code_simp+
  ultimately show ?thesis
    by (simp add: validate_ledger_def ellipsis_def render_ledger_def or_none_def newline_def)
qed

end
