(* ===== verification/Service_Samples.thy ===== *)
theory Service_Samples
  imports Commands Timestamp Samples
begin

text \<open>
  Concrete instances for the witnesses of the service: a file system with one profile, a host whose world is the table of commands
  and the number of requests that reached a route, a finished command, a command that two workers
  claim in turn, and a leased session.
\<close>

definition sample_files :: files where
  "sample_files = \<lparr>fs_root = Ok [''config''], fs_canonicalize = (\<lambda>r. Ok [''config'', r]), fs_is_file = (\<lambda>_. True),
     fs_read = (\<lambda>_. Ok ''text''), fs_env = (\<lambda>_. None), fs_yaml = (\<lambda>_. Ok (JObj [(''agent'', JObj [])])),
     fs_decode = (\<lambda>_. Ok sample_config), fs_entries = (\<lambda>_. None)\<rparr>"

definition sample_host :: "(command_row list \<times> nat) host" where
  "sample_host = \<lparr>h_parse_uuid = Some, h_uuid = (\<lambda>w. (''u'', w)), h_clock = (\<lambda>w. (0, w)), h_statement = (\<lambda>w. (None, w)),
     h_commands = fst, h_set_commands = (\<lambda>rows w. (rows, snd w)), h_session_exists = (\<lambda>i w. True),
     h_files = sample_files, h_namespace = Some ''n'', h_next = (\<lambda>route body w. (json_reply 200 JNull, fst w, Suc (snd w)))\<rparr>"

definition sample_route :: string where "sample_route = ''/sessions/s/run''"

definition sample_body :: json where "sample_body = JObj [(''max_steps'', JNull)]"

definition sample_sha :: string where
  "sample_sha = (case request_sha256 sample_lib sample_route sample_body of Inr t \<Rightarrow> t | Inl _ \<Rightarrow> [])"

definition sample_row :: command_row where
  "sample_row = (new_row ''1'' ''n'' ''k'' sample_route JNull sample_sha (Some ''s''))
     \<lparr>cm_status := ''succeeded'', cm_response := Some (200, JStr ''answer'')\<rparr>"

definition sample_request :: request where
  "sample_request = \<lparr>rq_method = ''POST'', rq_keys = [Some ''k''], rq_path = sample_route, rq_small = True, rq_text = Ok ''{}''\<rparr>"

text \<open>A row that is claimed by one worker, and by a second one after its lease has expired.\<close>

definition sample_started :: "string \<Rightarrow> int \<Rightarrow> int \<Rightarrow> command_row" where
  "sample_started owner fence until = (new_row ''2'' ''n'' ''j'' sample_route JNull ''h'' (Some ''s''))
     \<lparr>cm_status := ''started'', cm_owner := Some owner, cm_fence := fence, cm_expires_at := Some until\<rparr>"

definition sample_token :: "string \<Rightarrow> int \<Rightarrow> json" where
  "sample_token owner fence = JObj [(''id'', JStr ''2''), (''owner'', JStr owner), (''fence'', json_int fence)]"

definition sample_lease :: lease where
  "sample_lease = \<lparr>le_owner = Some ''a'', le_fence = 1, le_expires_at = Some 10\<rparr>"

section \<open>Evaluations\<close>

lemma sample_host_laws: "database sample_lib sample_host" "quiet sample_host (\<lambda>w. snd w = 0)"
  by (auto simp: database_def quiet_def sample_host_def)

lemma sample_row_fields:
  "cm_response sample_row = Some (200, JStr ''answer'')" "cm_namespace sample_row = ''n''" "cm_key sample_row = ''k''"
  "cm_sha256 sample_row = sample_sha" "cm_route sample_row = sample_route" "table_ok [sample_row]"
  by (simp_all add: sample_row_def new_row_def table_ok_def row_ok_def)

lemma sample_body_normal: "normalize sample_lib Some sample_route (JObj []) = Ok sample_body"
proof -
  have r: "sample_route \<noteq> ''/sessions''" "ends_with sample_route ''/messages'' = False"
    "ends_with sample_route ''/cancel'' = False" "ends_with sample_route ''/resume'' = False" by code_simp+
  have "\<exists>t. canonical sample_lib sample_body = Ok t" by (simp add: sample_body_def)
  then show ?thesis using r
    by (auto simp: normalize_def normalize_fields_def normalize_run_def or_insert_def Let_def sample_body_def idx_def
        steps_in_range_def simp del: canonical.simps)
qed

lemma sample_request_read:
  "canonical_route Some sample_route = Some (sample_route, Some ''s'')" "valid_key ''k'' 1"
  "parse_strict_json sample_lib ''{}'' = Ok (JObj [])" "request_sha256 sample_lib sample_route sample_body = Ok sample_sha"
  by (code_simp, code_simp, code_simp)
     (simp add: sample_sha_def request_sha256_def digest_def sample_body_def sample_lib_def)

lemma sample_takeover:
  "claim_row 100 ''b'' (sample_started ''a'' 1 50) = Some (2, sample_started ''b'' 2 (100 + lease_span))"
  "guard 0 (sample_token ''a'' 1) [sample_started ''a'' 1 50] = Ok ()"
  "guard 100 (sample_token ''b'' 2) [sample_started ''b'' 2 (100 + lease_span)] = Ok ()"
  by code_simp+

lemma sample_claim_step:
  "table_step L [sample_started ''a'' 1 50] [sample_started ''b'' 2 (100 + lease_span)]"
proof (rule table_step.claimed)
  show "claim_command 100 ''2'' ''b'' [sample_started ''a'' 1 50] = Ok (Some 2, [sample_started ''b'' 2 (100 + lease_span)])"
    by code_simp
qed

end
