(* ===== verification/Save_Samples.thy ===== *)
theory Save_Samples
  imports Save_Proofs Integrity Service_Samples
begin

text \<open>
  A save that succeeds: the first commit of a session, by the worker that holds its command, on
  empty tables.
\<close>

definition sample_sha_lib :: lib where "sample_sha_lib = sample_lib\<lparr>sha256_hex := \<lambda>_. ''h''\<rparr>"

definition sample_px :: px where
  "sample_px = \<lparr>px_parse_uuid = Some, px_uuid = (\<lambda>n. CHR ''u'' # replicate n (CHR ''u'')), px_stamp = (\<lambda>_. ''now''), px_clock = (\<lambda>_. 0),
     px_fault = (\<lambda>_. None), px_others = (\<lambda>_ d. d), px_commit = (\<lambda>_. (None, True)), px_event_id = int,
     px_pick = (\<lambda>xs. case xs of [] \<Rightarrow> None | x # _ \<Rightarrow> Some x), px_time_json = id, px_time_text = id,
     px_decode_session = (\<lambda>_. Err ''session''), px_decode_config = (\<lambda>_. Ok (sample_config\<lparr>c_execution := JObj []\<rparr>)),
     px_decode_message = (\<lambda>_. Err ''message''), px_error_text = (\<lambda>_. ''error'')\<rparr>"

definition sample_created :: json where "sample_created = JObj [(''type'', JStr ''session_created'')]"

definition sample_new :: session where
  "sample_new = sample_session\<lparr>s_command := Some (sample_token ''a'' 1), s_config_ref := Some ''r'', s_config_sha256 := Some ''0123456789ab'',
     s_resolved_config_sha256 := Some ''h''\<rparr>"

definition sample_store :: store where
  "sample_store = \<lparr>st_session = None, st_transcript = [], st_calls = [], st_diagnostics = [], st_runs = [], st_executions = [],
     st_attempts = [], st_context = None, st_receipts = [], st_events = [], st_archives = [],
     st_commands = [sample_started ''a'' 1 50]\<rparr>"

definition sample_saved :: "(sql_error + unit) \<times> session \<times> store \<times> nat" where
  "sample_saved = save sample_px sample_sha_lib JNull sample_created (sample_new, sample_store, 0)"

section \<open>Canonical texts\<close>

text \<open>Values whose numbers are all in the range of exact integers have a canonical text.\<close>

fun exact_numbers :: "json \<Rightarrow> bool" where
  "exact_numbers (JNum n) = (case n of Float _ \<Rightarrow> True | _ \<Rightarrow> f64_mag (num_f64 n) \<le> max_safe)"
| "exact_numbers (JArr xs) = list_all exact_numbers xs"
| "exact_numbers (JObj kvs) = list_all (\<lambda>kv. exact_numbers (snd kv)) kvs"
| "exact_numbers _ = True"

lemma canonical_exact:
  "exact_numbers v \<Longrightarrow> \<exists>t. canonical L v = Ok t"
  "list_all exact_numbers xs \<Longrightarrow> \<exists>ts. canonical_items L xs = Ok ts"
  "list_all (\<lambda>kv. exact_numbers (snd kv)) kvs \<Longrightarrow> \<exists>ts. canonical_fields L kvs = Ok ts"
proof (induction L v and L xs and L kvs rule: canonical_canonical_items_canonical_fields.induct)
  case (4 L n)
  then show ?case by (auto simp: Let_def split: jnum.splits prod.splits)
qed auto

section \<open>Evaluation\<close>

definition sample_goal :: message where
  "sample_goal = (msg ''user'' (Some ''g''))\<lparr>m_message_id := Some ''u'', m_sequence := Some 1, m_created_at := Some ''now''\<rparr>"

definition sample_entry :: transcript_entry where
  "sample_entry = \<lparr>te_sequence = 1, te_message_id = ''u'', te_kind = ''message'', te_payload = wire_message sample_goal,
     te_run_id = None, te_decision_step = 0, te_created_at = ''now''\<rparr>"

definition sample_staged :: session where
  "sample_staged = sample_new\<lparr>s_memory := [sample_goal], s_next_transcript_sequence := 2, s_pending_transcript := [sample_entry],
     s_pending_commit_id := Some ''uuu''\<rparr>"

lemma sample_stage: "stage_save sample_px sample_created (sample_new, 0) = Inr (sample_staged, 3)"
  by (simp add: stage_save_def stage_diagnostics_def sample_new_def sample_session_def session_default_def
      stage_transcript_def stage_commit_def message_staged_def msg_def Let_def sample_px_def transcript_event_record_def event_type_def
      sample_created_def idx_def sample_staged_def sample_goal_def sample_entry_def message_default_def)

lemma obj_remove_exact: "list_all (\<lambda>kv. exact_numbers (snd kv)) kvs \<Longrightarrow> list_all (\<lambda>kv. exact_numbers (snd kv)) (obj_remove k kvs)"
proof (cases "k \<in> fst ` set kvs")
  case True
  assume all: "list_all (\<lambda>kv. exact_numbers (snd kv)) kvs"
  from True obtain as v bs where kvs: "kvs = as @ (k, v) # bs" "k \<notin> fst ` set as"
    using split_list_first_prop [of kvs "\<lambda>p. fst p = k"] by fastforce
  have "set (obj_remove k kvs) \<subseteq> set kvs" unfolding obj_remove_split [OF kvs] by (auto simp: kvs(1) dest: in_set_butlastD)
  then show ?thesis using all by (auto simp: list_all_iff)
qed (simp add: obj_remove_def)

lemma fold_remove_exact: "list_all (\<lambda>kv. exact_numbers (snd kv)) kvs \<Longrightarrow> list_all (\<lambda>kv. exact_numbers (snd kv)) (fold obj_remove ks kvs)"
  by (induction ks arbitrary: kvs) (simp_all add: obj_remove_exact)

lemma exact_opt: "exact_numbers (json_opt x)" "exact_numbers (json_strs xs)"
  by (auto simp: json_opt_def json_strs_def list_all_iff split: option.split)

lemma small_numbers: "rat_of_nat (round53 0) \<le> max_safe" "rat_of_nat (round53 (Suc 0)) \<le> max_safe" "rat_of_nat (round53 2) \<le> max_safe"
  by (simp_all add: round53_def max_safe_def)

lemmas sample_defs = sample_staged_def sample_new_def sample_session_def session_default_def sample_entry_def sample_goal_def
  msg_def message_default_def

lemma sample_staged_exact: "list_all (\<lambda>kv. exact_numbers (snd kv)) (session_fields sample_staged)"
  by (simp add: session_fields_def sample_defs exact_opt small_numbers json_int_def json_nat_def json_opt_value_def json_opt_int_def
      entry_value_def message_value_def wire_message_def opt_field_def)

lemma sample_resolved: "\<exists>t. resolved_config_hash sample_sha_lib (sample_config\<lparr>c_execution := JObj []\<rparr>) = Done (Ok (t, ''h''))"
  by (simp add: resolved_config_hash_def complete_config_value_def in_object_def config_fields_def or_insert_def idx_def
      sample_config_def resolved_value_def in_section_def llm_value_def Let_def sample_sha_lib_def)

lemma sample_preimage_exact: "exact_numbers (commit_preimage sample_sha_lib sample_staged ''h'' sample_created)"
proof -
  have "list_all (\<lambda>kv. exact_numbers (snd kv)) (fold obj_remove unstable_fields (hot_fields sample_staged @ [(anchor_key, anchor_of sample_sha_lib sample_staged)]))"
    unfolding hot_fields_def using sample_staged_exact
    by (intro fold_remove_exact) (simp add: fold_remove_exact anchor_of_def json_int_def small_numbers)
  then show ?thesis
    by (simp add: commit_preimage_def snapshot_fields sample_defs exact_opt small_numbers json_int_def json_opt_value_def json_opt_int_def
        entry_value_def message_value_def wire_message_def opt_field_def sample_created_def sample_token_def idx_def)
qed

lemma sample_fingerprint: "commit_fingerprint sample_px sample_sha_lib sample_staged JNull sample_created = Inr ''h''"
proof -
  from canonical_exact(1) [OF sample_preimage_exact]
  obtain t where "canonical sample_sha_lib (commit_preimage sample_sha_lib sample_staged ''h'' sample_created) = Ok t" ..
  moreover obtain u where "resolved_config_hash sample_sha_lib (sample_config\<lparr>c_execution := JObj []\<rparr>) = Done (Ok (u, ''h''))"
    using sample_resolved ..
  ultimately show ?thesis
    by (simp add: commit_fingerprint_def sample_px_def digest_def)
       (simp add: sample_sha_lib_def sample_staged_def sample_new_def)
qed

lemmas tx_defs = tbind_def tret_def tfail_def tlift_def tgets_def tmodify_def tcheck_def tstamp_def tstmt_def tselect_def tupdate_def
  tfetch_def tuuid_def tuuid_unwrap_def

lemmas store_defs = sample_store_def insert_session_def find_message_def insert_transcript_def max_sequence_def

definition sample_archived :: "session \<times> store" where
  "sample_archived =
     (sample_staged\<lparr>s_revision := 1, s_pending_commit_fingerprint := Some ''h''\<rparr>,
      sample_store\<lparr>st_session := Some (session_row_of sample_sha_lib (sample_staged\<lparr>s_revision := 1, s_pending_commit_fingerprint := Some ''h''\<rparr>) JNull 0),
        st_transcript := [entry_row sample_px sample_entry ''u'' 1]\<rparr>)"

lemma sample_px_simps:
  "px_parse_uuid sample_px x = Some x" "px_fault sample_px n = None" "px_clock sample_px n = 0" "px_stamp sample_px n = ''now''"
  "px_commit sample_px n = (None, True)" "px_others sample_px n d = d" "px_time_text sample_px t = t"
  by (simp_all add: sample_px_def)

lemma sample_write_archive:
  "\<exists>m. write_archive sample_px sample_sha_lib JNull None 0 (sample_staged\<lparr>s_pending_commit_fingerprint := Some ''h''\<rparr>, sample_store, n)
     = (Inr [sample_entry], fst sample_archived, snd sample_archived, m)"
  by (simp add: write_archive_def tx_defs sample_px_simps store_defs sample_archived_def Let_def
      sample_defs entry_changed_def set_sequence_def has_id_def wire_message_def opt_field_def)

lemma sample_write_outboxes:
  "\<exists>d m. write_outboxes sample_px sample_sha_lib sample_created (sample_token ''a'' 1) ''2'' ''s1'' [sample_entry] (fst sample_archived, snd sample_archived, n)
     = (Inr (), fst sample_archived, d, m) \<and> st_session d = st_session (snd sample_archived)
       \<and> (\<exists>r. st_commands d = [r] \<and> cm_id r = ''2'' \<and> command_held 0 ''a'' 1 r)"
  by (simp add: write_outboxes_def tx_defs sample_px_simps store_defs sample_archived_def Let_def
      sample_defs wire_message_def opt_field_def write_call_map_def get_arr_def write_diagnostics_def families_def check_family_def diag_count_def
      max_ordinal_def attach_session_def tcommand_def interrupt_origin_def write_run_state_def write_tool_executions_def
      reload_active_def active_rows_def entry_row_def write_context_def retention_write_def update_command_def upsert_context_def
      sample_started_def new_row_def command_held_def unexpired_def)

lemma sample_seal_commit:
  assumes "st_session d = st_session (snd sample_archived)" "st_commands d = [r]" "cm_id r = ''2''" "command_held 0 ''a'' 1 r"
  shows "fst (seal_commit sample_px sample_sha_lib JNull sample_created (sample_token ''a'' 1) ''2'' ''s1'' ''uuu'' ''h'' 0 (fst sample_archived, d, n)) = Inr ()"
  using assms
  by (cases "cm_expires_at r")
     (simp_all add: seal_commit_def tx_defs sample_px_simps sample_archived_def Let_def sample_defs attach_session_def tcommand_def update_command_def
      insert_commit_receipt_def write_event_def insert_event_def final_fence_def write_session_def store_session_def session_row_of_def
      tguard_def guard_def command_ident_def sample_token_def idx_def json_int_def command_held_def unexpired_def
      finish_command_def event_type_def sample_created_def finishing_events_def response_message_def finish_def i64_max_def)

lemma sample_transaction:
  "\<exists>s d m. transaction sample_px sample_sha_lib JNull sample_created ''s1'' ''uuu'' ''h''
      (sample_staged\<lparr>s_pending_commit_fingerprint := Some ''h''\<rparr>, sample_store, n) = (Inr Written, s, d, m)"
proof -
  let ?s = "sample_staged\<lparr>s_pending_commit_fingerprint := Some ''h''\<rparr>"
  have cmd: "s_command ?s = Some (sample_token ''a'' 1)" "s_revision ?s = 0" by (simp_all add: sample_defs)
  have written: "\<exists>s d m. write_commit sample_px sample_sha_lib JNull sample_created (sample_token ''a'' 1) ''2'' ''s1'' ''uuu'' ''h'' None
      (?s, sample_store, k) = (Inr Written, s, d, m)" for k
  proof -
    obtain m1 where a: "write_archive sample_px sample_sha_lib JNull None 0 (?s, sample_store, k)
      = (Inr [sample_entry], fst sample_archived, snd sample_archived, m1)" using sample_write_archive by blast
    obtain d m2 r where o: "write_outboxes sample_px sample_sha_lib sample_created (sample_token ''a'' 1) ''2'' ''s1'' [sample_entry]
        (fst sample_archived, snd sample_archived, m1) = (Inr (), fst sample_archived, d, m2)"
      "st_session d = st_session (snd sample_archived)" "st_commands d = [r]" "cm_id r = ''2''" "command_held 0 ''a'' 1 r"
      using sample_write_outboxes by blast
    from sample_seal_commit [OF o(2-5), of m2] a o(1) show ?thesis
      by (auto simp: write_commit_def tbind_def tret_def split: sum.splits prod.splits)
  qed
  have "guard 0 (sample_token ''a'' 1) (st_commands sample_store) = Ok ()"
    using sample_takeover(2) by (simp add: sample_store_def)
  moreover have "find (\<lambda>r. cm_id r = ''2'') (st_commands sample_store) \<noteq> None" "find_receipt ''uuu'' sample_store = None"
    "st_session sample_store = None" "as_str (idx (sample_token ''a'' 1) ''id'') = Some ''2''"
    by (simp_all add: sample_store_def find_receipt_def sample_started_def new_row_def sample_token_def idx_def)
  ultimately show ?thesis
    using cmd written [of "Suc (Suc (Suc (Suc (Suc n))))"]
    by (auto simp: transaction_def tx_defs sample_px_simps fresh_commit_def tguard_def check_previous_def)
qed

lemma sample_save_inner: "fst (save_inner sample_px sample_sha_lib JNull sample_created (sample_staged, sample_store, n)) = Inr ()"
proof -
  have st: "stage_transcript sample_px (sample_staged, n) = (sample_staged, n)"
    by (rule stage_transcript_done) (simp add: sample_defs message_staged_def)
  have f: "s_id sample_staged = ''s1''" "s_pending_commit_id sample_staged = Some ''uuu''" "s_pending_commit_fingerprint sample_staged = None"
    by (simp_all add: sample_defs)
  have p: "prepare_commit sample_px sample_sha_lib JNull sample_created (sample_staged, sample_store, n)
    = (Inr (''s1'', ''uuu'', ''h''), sample_staged\<lparr>s_pending_commit_fingerprint := Some ''h''\<rparr>, sample_store, n)"
    by (simp add: prepare_commit_def st tx_defs sample_px_simps sample_fingerprint f)
  obtain s d m where "transaction sample_px sample_sha_lib JNull sample_created ''s1'' ''uuu'' ''h''
      (sample_staged\<lparr>s_pending_commit_fingerprint := Some ''h''\<rparr>, sample_store, Suc n) = (Inr Written, s, d, m)"
    using sample_transaction by blast
  then show ?thesis
    using p by (simp add: save_inner_def tbind_def run_transaction_def commit_written_def sample_px_simps)
qed

lemma sample_saved_Inr: "fst sample_saved = Inr ()"
proof -
  have "\<not> s_needs_reload sample_staged" by (simp add: sample_defs)
  then show ?thesis
    using sample_save_inner [of 3] unfolding sample_saved_def save_def
    by (auto simp: sample_stage numeral_2_eq_2 split: sum.splits prod.splits)
qed

section \<open>A broken connection\<close>

definition sample_faulty :: px where "sample_faulty = sample_px\<lparr>px_fault := \<lambda>_. Some (Io_Error ''reset'')\<rparr>"

definition sample_failed :: "(sql_error + unit) \<times> session \<times> store \<times> nat" where
  "sample_failed = save sample_faulty sample_sha_lib JNull sample_created (sample_new, sample_store, 0)"

lemma sample_faulty_simps:
  "px_parse_uuid sample_faulty x = Some x" "px_fault sample_faulty n = Some (Io_Error ''reset'')" "px_others sample_faulty n d = d"
  "commit_fingerprint sample_faulty = commit_fingerprint sample_px"
  by (simp_all add: sample_faulty_def sample_px_def commit_fingerprint_def fun_eq_iff)

lemma sample_faulty_stage: "stage_save sample_faulty e (s, n) = stage_save sample_px e (s, n)"
proof -
  have m: "stage_messages sample_faulty ms sn = stage_messages sample_px ms sn" for ms sn
    by (induction ms arbitrary: sn) (auto simp: sample_faulty_def)
  have p: "stage_summaries sample_faulty ps sn = stage_summaries sample_px ps sn" for ps sn
    by (induction ps arbitrary: sn) (auto simp: sample_faulty_def split: option.split)
  have u: "px_uuid sample_faulty = px_uuid sample_px" "px_stamp sample_faulty = px_stamp sample_px" by (simp_all add: sample_faulty_def)
  have t: "stage_transcript sample_faulty sn = stage_transcript sample_px sn" for sn by (simp add: stage_transcript_def m)
  have "stage_commit sample_faulty e sn = stage_commit sample_px e sn" for sn
    unfolding stage_commit_def p u ..
  then show ?thesis by (simp add: stage_save_def t split: sum.split)
qed

lemma sample_failed_Inl: "\<exists>er. fst sample_failed = Inl er"
proof -
  have st: "stage_transcript sample_faulty (sample_staged, n) = (sample_staged, n)" for n
    by (rule stage_transcript_done) (simp add: sample_defs message_staged_def)
  have f: "s_id sample_staged = ''s1''" "s_pending_commit_id sample_staged = Some ''uuu''" "s_pending_commit_fingerprint sample_staged = None"
    "\<not> s_needs_reload sample_staged" by (simp_all add: sample_defs)
  have "save_inner sample_faulty sample_sha_lib JNull sample_created (sample_staged, sample_store, n)
    = (Inl (Io_Error ''reset''), sample_staged\<lparr>s_pending_commit_fingerprint := Some ''h''\<rparr>, sample_store, Suc n)" for n
    by (simp add: save_inner_def prepare_commit_def st tbind_def tret_def tlift_def tgets_def tmodify_def tcheck_def tuuid_def tuuid_unwrap_def
        sample_faulty_simps sample_fingerprint f run_transaction_def)
  then show ?thesis
    by (simp add: sample_failed_def save_def sample_faulty_stage sample_stage f numeral_2_eq_2)
qed

section \<open>A reordered snapshot\<close>

definition sample_reordered :: json where
  "sample_reordered = JObj (rev (hot_fields sample_session @ [(anchor_key, anchor_of sample_lib sample_session)]))"

lemma reordered_fields_refl: "reordered_fields kvs kvs"
  by (induction kvs) (auto intro: no_fields fields reordered_reordered_fields.same)

lemma obj_remove_distinct: "distinct (map fst kvs) \<Longrightarrow> distinct (map fst (obj_remove k kvs))"
proof -
  assume d: "distinct (map fst kvs)"
  then have "mset (obj_remove k kvs) = mset (filter (\<lambda>p. fst p \<noteq> k) kvs)" by (simp add: obj_remove_mset)
  then have "mset (map fst (obj_remove k kvs)) = mset (map fst (filter (\<lambda>p. fst p \<noteq> k) kvs))" by (metis mset_map)
  moreover have "distinct (map fst (filter (\<lambda>p. fst p \<noteq> k) kvs))" using d by (simp add: distinct_map_filter)
  ultimately show ?thesis by (metis mset_eq_imp_distinct_iff)
qed

lemma hot_fields_distinct: "distinct (map fst (hot_fields s))"
proof -
  have "distinct (map fst kvs) \<Longrightarrow> distinct (map fst (fold obj_remove ks kvs))" for ks and kvs :: "(string \<times> json) list"
    by (induction ks arbitrary: kvs) (simp_all add: obj_remove_distinct)
  moreover have "distinct (map fst (session_fields s))" by (simp add: session_fields_def)
  ultimately show ?thesis unfolding hot_fields_def by blast
qed

lemma sample_reordered_snapshot: "reordered (snapshot sample_lib sample_session) sample_reordered"
  unfolding snapshot_fields sample_reordered_def
  by (rule objects [OF reordered_fields_refl]) (use hot_fields_distinct hot_fields_anchor in \<open>auto simp: image_iff\<close>)

section \<open>Settled actions and profiles\<close>

definition sample_action :: json where
  "sample_action = JObj [(''execution_id'', JStr ''x''), (''status'', JStr ''succeeded''), (''result'', JStr ''done'')]"

definition sample_profile_files :: files where
  "sample_profile_files = sample_files\<lparr>fs_decode := \<lambda>_. Ok (sample_config\<lparr>c_execution := JObj []\<rparr>),
     fs_canonicalize := \<lambda>r. Ok [''config'', r]\<rparr>"

lemma sample_profile_loaded: "\<exists>v. cfg_load sample_lib sample_profile_files ''a.yaml'' = Done (Ok (sample_config\<lparr>c_execution := JObj []\<rparr>, v, ''text''))"
proof -
  have v: "validate_config sample_lib (sample_config\<lparr>c_execution := JObj []\<rparr>) = Ok ()" by code_simp
  have p: "profile_path sample_profile_files ''a.yaml'' = Ok [''config'', ''a.yaml'']" by code_simp
  have e: "get (expand (fs_env sample_profile_files) (JObj [(''agent'', JObj [])])) ''agent'' = Some (JObj [])" by code_simp
  have "\<not> (\<exists>m. complete_config_value (config_fields (sample_config\<lparr>c_execution := JObj []\<rparr>)) = Panic m)"
    unfolding complete_config_panics by (simp add: sample_config_def is_object_def)
  then obtain obj where "complete_config_value (config_fields (sample_config\<lparr>c_execution := JObj []\<rparr>)) = Done obj"
    by (cases "complete_config_value (config_fields (sample_config\<lparr>c_execution := JObj []\<rparr>))") auto
  moreover have "read_profile sample_lib sample_profile_files ''text'' = Ok (sample_config\<lparr>c_execution := JObj []\<rparr>)"
    using v e by (simp add: read_profile_def sample_profile_files_def sample_files_def ok_or_def)
  ultimately show ?thesis using p by (simp add: cfg_load_def sample_profile_files_def sample_files_def sample_lib_def)
qed

text \<open>
  A profile whose \<open>execution\<close> is null passes validation, and completing it panics.
\<close>

lemma null_execution_panics:
  "validate_config sample_lib sample_config = Ok () \<and> c_execution sample_config = JNull
   \<and> (\<exists>m. complete_config_value (config_fields sample_config) = Panic m)"
proof (intro conjI)
  show "validate_config sample_lib sample_config = Ok ()" by code_simp
  show "\<exists>m. complete_config_value (config_fields sample_config) = Panic m"
    unfolding complete_config_panics by (simp add: sample_config_def is_object_def)
qed (simp add: sample_config_def)

end
