(* ===== verification/Loading_Samples.thy ===== *)
theory Loading_Samples
  imports Loading_Proofs Save_Samples
begin

text \<open>Stored sessions that are read back.\<close>

section \<open>A session that loads\<close>

definition sample_id_lib :: lib where "sample_id_lib = sample_lib\<lparr>sha256_hex := id\<rparr>"

definition sample_kept :: session where
  "sample_kept = sample_session\<lparr>s_memory := [sample_goal], s_diagnostic_counts := map (\<lambda>f. (f, 0)) families\<rparr>"

definition sample_load_px :: px where "sample_load_px = sample_px\<lparr>px_decode_session := \<lambda>_. Ok sample_kept\<rparr>"

definition sample_session_row :: session_row where
  "sample_session_row = session_row_of sample_id_lib sample_kept JNull 0"

definition sample_rows :: "int \<Rightarrow> transcript_row" where
  "sample_rows i = \<lparr>tr_sequence = i, tr_message_id = ''u'', tr_kind = ''message'', tr_payload = wire_message sample_goal,
     tr_run_id = None, tr_decision_step = 0, tr_created_at = ''now''\<rparr>"

definition sample_context_row :: context_row where
  "sample_context_row = \<lparr>cx_revision = 0, cx_goal_message_id = ''u'', cx_ledger_record_id = None, cx_raw_message_ids = [], cx_ledger_state = JNull\<rparr>"

definition sample_filled :: "int list \<Rightarrow> store" where
  "sample_filled seqs = sample_store\<lparr>st_session := Some sample_session_row, st_context := Some sample_context_row,
     st_transcript := map sample_rows seqs\<rparr>"

lemma sample_hydrates: "hydrate sample_kept [] (map (\<lambda>f. (f, 0)) families) = Ok (refresh_completeness (sample_kept\<lparr>s_compaction_events := [],
    s_compaction_attempts := [], s_compaction_decisions := [], s_diagnostics_pending := []\<rparr>))"
  by (simp add: hydrate_def sample_kept_def sample_session_def session_default_def family_rows_def families_def Let_def diag_count_def
      result_simps fam_events_def fam_attempts_def fam_decisions_def)

lemma sample_loads: "\<exists>s n. load sample_load_px sample_id_lib ''s1'' (sample_filled [1], 0) = (Some (s, JNull), sample_filled [1], n)"
proof -
  have state: "sr_state sample_session_row = snapshot sample_id_lib sample_kept" "sr_revision sample_session_row = 0" "sr_config sample_session_row = JNull"
    by (simp_all add: sample_session_row_def session_row_of_def sample_kept_def sample_session_def session_default_def)
  have anchors: "validate_snapshot sample_id_lib (snapshot sample_id_lib sample_kept) = Ok ()"
    "validate_context sample_id_lib (snapshot sample_id_lib sample_kept) sample_kept = Ok ()"
    using snapshot_anchors [OF reordered_reordered_fields.same] by blast+
  have px: "px_parse_uuid sample_load_px x = Some x" "px_others sample_load_px n d = d" "px_fault sample_load_px n = None"
    "px_decode_session sample_load_px v = Ok sample_kept" for x n d v
    by (simp_all add: sample_load_px_def sample_px_def)
  have d: "load_diagnostics v (sample_filled [1]) = []" "load_counts (sample_filled [1]) = map (\<lambda>f. (f, 0)) families"
    "load_row (sample_filled [1]) = Some (sample_session_row, sample_context_row)" for v
    by (simp_all add: load_diagnostics_def recent_rows_def Let_def sample_filled_def sample_store_def load_counts_def max_ordinal_def
        load_row_def last_n_def sample_session_row_def session_row_of_def)
  have p: "\<exists>active. projection sample_load_px (sample_filled [1]) = Some active" by (simp add: projection_def sample_filled_def)
  have m: "context_matches (refresh_completeness (sample_kept\<lparr>s_compaction_events := [], s_compaction_attempts := [],
      s_compaction_decisions := [], s_diagnostics_pending := []\<rparr>)) 0 sample_context_row"
    by (simp add: context_matches_def refresh_completeness_def sample_kept_def sample_session_def session_default_def sample_goal_def
        sample_context_row_def msg_def message_default_def json_opt_value_def)
  have r: "s_revision sample_kept = 0" by (simp add: sample_kept_def sample_session_def session_default_def)
  show ?thesis using p m r by (auto simp: load_def px d state anchors restore_def sample_hydrates)
qed

lemma sample_anchor: "idx (sr_state sample_session_row) anchor_key = anchor_of sample_id_lib sample_kept"
  using hot_fields_anchor [of sample_kept]
  by (simp add: sample_session_row_def session_row_of_def snapshot_fields idx_def map_add_def map_of_eq_None_iff [THEN iffD2] split: option.split)

end
