(* ===== verification/Lifecycle.thy ===== *)
theory Lifecycle
  imports Loading Engine
begin

text \<open>
  The routes that run a session (\<open>run\<close>, \<open>lifecycle\<close> and \<open>cancel_session\<close> of \<^verbatim>\<open>main.rs\<close>, \<open>decorate\<close> of
  \<^verbatim>\<open>events.rs\<close>): a handler loads the session, claims its lease, and runs the engine with checkpoints
  that are commits.  The engine of \<open>Engine\<close> is instantiated here by \<open>service_env\<close>, whose checkpoint
  callback is \<open>save\<close> of \<open>Commit\<close>.

  The state of the service around one request is a \<open>service\<close>: the world of models and tools, the
  tables, the number of outside calls, the revision shared by the checkpoints, the events sent to
  the client, and whether the task has panicked.  Heartbeats, the watcher of a dropped connection
  and other workers are the \<open>px_others\<close> of the tables.
\<close>

section \<open>Statements outside of transactions\<close>

definition autocommit :: "px \<Rightarrow> (int \<Rightarrow> store \<Rightarrow> sql_error + 'a \<times> store) \<Rightarrow> store \<times> nat \<Rightarrow> (sql_error + 'a) \<times> store \<times> nat" where
  "autocommit P f dn =
     (case dn of (d, n) \<Rightarrow>
        (let d0 = px_others P n d
         in case px_fault P n of
              Some e \<Rightarrow> (Inl e, d0, Suc n)
            | None \<Rightarrow>
                (case f (px_clock P n) d0 of
                   Inl e \<Rightarrow> (Inl e, d0, Suc n)
                 | Inr (x, d1) \<Rightarrow>
                     (case px_commit P n of
                        (None, _) \<Rightarrow> (Inr x, d1, Suc n)
                      | (Some e, applied) \<Rightarrow> (Inl e, if applied then d1 else d0, Suc n)))))"

definition fetch :: "px \<Rightarrow> (int \<Rightarrow> store \<Rightarrow> sql_error + 'a) \<Rightarrow> store \<times> nat \<Rightarrow> (sql_error + 'a) \<times> store \<times> nat" where
  "fetch P f dn =
     (case dn of (d, n) \<Rightarrow>
        (let d0 = px_others P n d
         in (case px_fault P n of Some e \<Rightarrow> Inl e | None \<Rightarrow> f (px_clock P n) d0, d0, Suc n)))"

definition set_lease :: "lease option \<Rightarrow> store \<Rightarrow> store" where
  "set_lease l d =
     (case (st_session d, l) of
        (Some r, Some l') \<Rightarrow> d\<lparr>st_session := Some (r\<lparr>sr_lease := l'\<rparr>)\<rparr>
      | _ \<Rightarrow> d)"

definition claim_lease :: "px \<Rightarrow> store \<times> nat \<Rightarrow> (sql_error + string \<times> int) \<times> store \<times> nat" where
  "claim_lease P dn =
     (case dn of (d, n) \<Rightarrow>
        autocommit P (\<lambda>now d0.
            case acquire_execution_lease now (px_uuid P n) (map_option sr_lease (st_session d0)) of
              (Inl m, _) \<Rightarrow> Inl (if m = out_of_range then Database_Error m else Protocol m)
            | (Inr claim, l) \<Rightarrow> Inr (claim, set_lease l d0))
          (d, Suc n))"

definition drop_lease :: "px \<Rightarrow> string \<Rightarrow> int \<Rightarrow> store \<times> nat \<Rightarrow> store \<times> nat" where
  "drop_lease P owner fence dn =
     snd (autocommit P (\<lambda>now d0. Inr ((), set_lease (release_execution_lease owner fence (map_option sr_lease (st_session d0))) d0)) dn)"

definition request_cancel :: "(run_row \<Rightarrow> bool) \<Rightarrow> store \<Rightarrow> store" where
  "request_cancel p d =
     d\<lparr>st_runs := map (\<lambda>r. if p r \<and> rn_status r = ''running'' then r\<lparr>rn_cancel_requested := True\<rparr> else r) (st_runs d)\<rparr>"

section \<open>The service around the engine\<close>

record 'w service =
  sv_world :: 'w
  sv_store :: store
  sv_calls :: nat
  sv_revision :: int
  sv_sent :: "json list"
  sv_panic :: "string option"

text \<open>
  \<open>dp_env\<close> is what the engine uses besides the tables, \<open>dp_client\<close> the construction of the HTTP client,
  and \<open>dp_open\<close> whether the n-th outside call, a message to the client, finds its receiver.
\<close>

record 'w deps =
  dp_env :: "'w env"
  dp_client :: "config \<Rightarrow> unit result"
  dp_open :: "nat \<Rightarrow> bool"

definition on_world :: "('w \<Rightarrow> 'a \<times> 'w) \<Rightarrow> 'w service \<Rightarrow> 'a \<times> 'w service" where
  "on_world f v = (case f (sv_world v) of (x, w) \<Rightarrow> (x, v\<lparr>sv_world := w\<rparr>))"

definition on_tables :: "(store \<times> nat \<Rightarrow> 'a \<times> store \<times> nat) \<Rightarrow> 'w service \<Rightarrow> 'a \<times> 'w service" where
  "on_tables f v = (case f (sv_store v, sv_calls v) of (x, d, n) \<Rightarrow> (x, v\<lparr>sv_store := d, sv_calls := n\<rparr>))"

definition on_session :: "unit tx \<Rightarrow> session \<times> 'w service \<Rightarrow> (sql_error + unit) \<times> session \<times> 'w service" where
  "on_session m sv =
     (case sv of (s, v) \<Rightarrow>
        (case m (s, sv_store v, sv_calls v) of (r, s', d, n) \<Rightarrow> (r, s', v\<lparr>sv_store := d, sv_calls := n\<rparr>)))"

definition send :: "'w deps \<Rightarrow> json \<Rightarrow> 'w service \<Rightarrow> bool \<times> 'w service" where
  "send X e v =
     (if dp_open X (sv_calls v) then (True, v\<lparr>sv_calls := Suc (sv_calls v), sv_sent := sv_sent v @ [e]\<rparr>)
      else (False, v\<lparr>sv_calls := Suc (sv_calls v)\<rparr>))"

definition newest_event :: "int \<Rightarrow> store \<Rightarrow> int option" where
  "newest_event revision d =
     (let ids = map eo_event_id (filter (\<lambda>r. eo_revision r = revision) (st_events d)) in if ids = [] then None else Some (Max (set ids)))"

definition decorate :: "px \<Rightarrow> session \<Rightarrow> json \<Rightarrow> 'w service \<Rightarrow> json \<times> 'w service" where
  "decorate P s e v =
     (let e1 = (case s_command s of None \<Rightarrow> e | Some c \<Rightarrow> set_idx e ''command_id'' (idx c ''id''));
          e2 = set_idx e1 ''run_id'' (json_opt (s_run_id s))
      in case on_tables (fetch P (\<lambda>now d. Inr (newest_event (s_revision s) d))) v of
           (Inr (Some i), v') \<Rightarrow> (set_idx e2 ''event_id'' (json_int i), v')
         | (_, v') \<Rightarrow> (e2, v'))"

definition cancelled :: string where "cancelled = ''run_cancelled''"

definition find_run :: "string \<Rightarrow> store \<Rightarrow> run_row option" where
  "find_run i d = find (\<lambda>r. rn_run_id r = i) (st_runs d)"

text \<open>What a checkpoint of \<open>run\<close> and of \<open>lifecycle\<close> does after its commit.\<close>

definition after_commit :: "px \<Rightarrow> session \<Rightarrow> 'w service \<Rightarrow> unit result \<times> 'w service" where
  "after_commit P s v =
     (case s_run_id s of
        None \<Rightarrow> (Ok (), v)
      | Some i \<Rightarrow>
          (case on_tables (fetch P (\<lambda>now d. case find_run i d of None \<Rightarrow> Inl Row_Not_Found | Some r \<Rightarrow> Inr (rn_cancel_requested r))) v of
             (Inl e, v') \<Rightarrow> (Err (px_error_text P e), v')
           | (Inr flag, v') \<Rightarrow> (if flag then Err cancelled else Ok (), v')))"

definition stream_event :: "px \<Rightarrow> 'w deps \<Rightarrow> json \<Rightarrow> session \<Rightarrow> 'w service \<Rightarrow> unit result \<times> 'w service" where
  "stream_event P X e s v =
     (case decorate P s e v of
        (e', v1) \<Rightarrow>
          (case send X e' v1 of
             (True, v2) \<Rightarrow> (Ok (), v2)
           | (False, v2) \<Rightarrow>
               (Err cancelled,
                case s_run_id s of
                  None \<Rightarrow> v2
                | Some i \<Rightarrow> snd (on_tables (autocommit P (\<lambda>now d. Inr ((), request_cancel (\<lambda>r. rn_run_id r = i) d))) v2))))"

definition after_stream_commit :: "px \<Rightarrow> 'w deps \<Rightarrow> json \<Rightarrow> session \<Rightarrow> 'w service \<Rightarrow> unit result \<times> 'w service" where
  "after_stream_commit P X e s v =
     (case (case s_run_id s of
              None \<Rightarrow> (Inr False, v)
            | Some i \<Rightarrow> on_tables (fetch P (\<lambda>now d. Inr (is_some_and (find_run i d) rn_cancel_requested))) v)
      of (Inl e', v') \<Rightarrow> (Err (px_error_text P e'), v')
       | (Inr flag, v') \<Rightarrow> if flag then (Err cancelled, v') else stream_event P X e s v')"

text \<open>
  \<open>emit\<close>: the snapshot is committed at the shared revision.  The acknowledgement is the content of
  the shared cell.  A panic unwinds the task: nothing happens after it.
\<close>

definition service_emit ::
  "px \<Rightarrow> lib \<Rightarrow> json \<Rightarrow> (json \<Rightarrow> session \<Rightarrow> 'w service \<Rightarrow> unit result \<times> 'w service) \<Rightarrow> json \<Rightarrow> session \<Rightarrow> 'w service
     \<Rightarrow> (unit result \<times> checkpoint_ack option) \<times> 'w service" where
  "service_emit P L c post e s v =
     (case sv_panic v of
        Some m \<Rightarrow> ((Err m, s_checkpoint_ack s), v)
      | None \<Rightarrow>
          (case on_session (save P L c e) (s\<lparr>s_revision := sv_revision v\<rparr>, v) of
             (Inl (Panicked m), s', v') \<Rightarrow> ((Err m, s_checkpoint_ack s'), v'\<lparr>sv_panic := Some m\<rparr>)
           | (Inl er, s', v') \<Rightarrow> ((Err (px_error_text P er), s_checkpoint_ack s'), v')
           | (Inr _, s', v') \<Rightarrow>
               (case post e s' (v'\<lparr>sv_revision := s_revision s'\<rparr>) of (r, v'') \<Rightarrow> ((r, s_checkpoint_ack s'), v''))))"

definition known_calls :: "px \<Rightarrow> string list \<Rightarrow> store \<times> nat \<Rightarrow> string list result \<times> store \<times> nat" where
  "known_calls P ids dn =
     (case fetch P (\<lambda>now d. Inr (filter (\<lambda>i. i \<in> set ids) (map fst (st_calls d)))) dn of
        (Inl e, dn') \<Rightarrow> (Err (px_error_text P e), dn')
      | (Inr found, dn') \<Rightarrow> (Ok found, dn'))"

definition service_env ::
  "px \<Rightarrow> lib \<Rightarrow> 'w deps \<Rightarrow> json \<Rightarrow> (json \<Rightarrow> session \<Rightarrow> 'w service \<Rightarrow> unit result \<times> 'w service) \<Rightarrow> 'w service env" where
  "service_env P L X c post =
     \<lparr>env_uuid = on_world (env_uuid (dp_env X)), env_now = on_world (env_now (dp_env X)), env_emit = service_emit P L c post,
      env_post = (\<lambda>url req. on_world (env_post (dp_env X) url req)), env_tool = (\<lambda>t args. on_world (env_tool (dp_env X) t args)),
      env_known_calls = (\<lambda>_ ids. on_tables (known_calls P ids)), env_receipts = (\<lambda>v. env_receipts (dp_env X) (sv_world v)),
      env_set_receipts = (\<lambda>tbl v. v\<lparr>sv_world := env_set_receipts (dp_env X) tbl (sv_world v)\<rparr>),
      env_statement = on_world (env_statement (dp_env X)), env_commit = on_world (env_commit (dp_env X))\<rparr>"

definition execute ::
  "px \<Rightarrow> lib \<Rightarrow> 'w deps \<Rightarrow> (json \<Rightarrow> session \<Rightarrow> 'w service \<Rightarrow> unit result \<times> 'w service) \<Rightarrow> json \<Rightarrow> json \<Rightarrow> ('w service, unit) eng" where
  "execute P L X post c q sv =
     (case sv of (s, v) \<Rightarrow>
        (case rbind (px_decode_config P c) (\<lambda>cfg. rbind (dp_client X cfg) (\<lambda>_. Ok cfg)) of
           Inl e \<Rightarrow> (Err e, s, v)
         | Inr cfg \<Rightarrow> run (service_env P L X c post) L cfg (Option.bind (get q ''max_steps'') coerce_integer) (s\<lparr>s_repository := True\<rparr>, v)))"

text \<open>The engine reports an index out of range as an error of its own.\<close>

definition panicked :: "unit result \<Rightarrow> 'w service \<Rightarrow> string option" where
  "panicked r v = (case sv_panic v of Some m \<Rightarrow> Some m | None \<Rightarrow> if r = Err slice_panic then Some slice_panic else None)"

section \<open>Claiming the session\<close>

definition interrupted :: "string \<Rightarrow> session \<Rightarrow> session" where
  "interrupted now s =
     s\<lparr>s_run_status := ''interrupted'', s_run_ended_at := Some now, s_run_termination_reason := Some ''previous_worker_abandoned''\<rparr>"

definition interrupted_event :: json where
  "interrupted_event = JObj [(''type'', JStr ''run_interrupted''), (''reason'', JStr ''previous_worker_abandoned'')]"

text \<open>A fallible step of a handler ends it with a reply, or with a panic.\<close>

definition failed_reply :: "px \<Rightarrow> sql_error \<Rightarrow> reply outcome" where
  "failed_reply P e = (case e of Panicked m \<Rightarrow> Panic m | _ \<Rightarrow> Done (internal P e))"

definition release :: "px \<Rightarrow> string \<Rightarrow> int \<Rightarrow> 'w service \<Rightarrow> 'w service" where
  "release P owner fence v = snd (on_tables (\<lambda>dn. ((), drop_lease P owner fence dn)) v)"

text \<open>The lease is released after a failed save, but not when the task panics.\<close>

definition release_unless_panic :: "px \<Rightarrow> sql_error \<Rightarrow> string \<Rightarrow> int \<Rightarrow> 'w service \<Rightarrow> 'w service" where
  "release_unless_panic P e owner fence v = (case e of Panicked _ \<Rightarrow> v | _ \<Rightarrow> release P owner fence v)"

definition stamp :: "px \<Rightarrow> 'w service \<Rightarrow> string \<times> 'w service" where
  "stamp P v = (px_stamp P (sv_calls v), v\<lparr>sv_calls := Suc (sv_calls v)\<rparr>)"

definition claim_session ::
  "px \<Rightarrow> lib \<Rightarrow> json \<Rightarrow> session \<times> 'w service \<Rightarrow> (reply outcome + session \<times> string \<times> int) \<times> 'w service" where
  "claim_session P L c sv =
     (case sv of (s, v) \<Rightarrow>
        (case on_tables (claim_lease P) v of
           (Inl e, v') \<Rightarrow>
             (Inl (if contains_str (px_error_text P e) ''ownership conflict'' then Done (detail 409 (px_error_text P e))
                   else Done (internal P e)), v')
         | (Inr (owner, fence), v') \<Rightarrow>
             (let s1 = s\<lparr>s_execution_owner := Some owner, s_execution_fence := Some fence\<rparr>
              in if s_run_status s1 \<noteq> ''running'' then (Inr (s1, owner, fence), v')
                 else (case stamp P v' of (now, v1) \<Rightarrow>
                         (case on_session (save P L c interrupted_event) (interrupted now s1, v1) of
                            (Inl e, _, v2) \<Rightarrow> (Inl (failed_reply P e), release_unless_panic P e owner fence v2)
                          | (Inr _, s2, v2) \<Rightarrow> (Inr (s2, owner, fence), v2))))))"

section \<open>The run route\<close>

definition find_finished :: "json \<Rightarrow> store \<Rightarrow> (nat \<times> json) option" where
  "find_finished q d =
     Option.bind (as_str (idx (idx q ''_command'') ''id''))
       (\<lambda>i. Option.bind (find (\<lambda>r. cm_id r = i \<and> cm_response r \<noteq> None) (st_commands d)) cm_response)"

definition http_status :: "nat \<Rightarrow> nat" where
  "http_status n = (let m = n mod 2 ^ 16 in if 100 \<le> m \<and> m \<le> 999 then m else 500)"

definition committed_command_response :: "px \<Rightarrow> json \<Rightarrow> 'w service \<Rightarrow> reply \<times> 'w service" where
  "committed_command_response P q v =
     (case on_tables (fetch P (\<lambda>now d. case find_finished q d of None \<Rightarrow> Inl Row_Not_Found | Some x \<Rightarrow> Inr x)) v of
        (Inl e, v') \<Rightarrow> (internal P e, v')
      | (Inr (status, body), v') \<Rightarrow> (json_reply (http_status status) body, v'))"

definition recovery_required :: string where "recovery_required = ''recovery_required''"

definition stopped_message :: "string \<Rightarrow> string" where
  "stopped_message error =
     (if error = cancelled then ''Run cancelled; use /resume to recover committed work.''
      else ''Safe recovery requires resolving the original action.'')"

definition stop_run :: "string \<Rightarrow> string \<Rightarrow> session \<Rightarrow> session" where
  "stop_run error now s =
     (let s1 = (if error = cancelled then acknowledge_committed_outboxes s else s);
          reason = (if error = cancelled then cancelled else recovery_required)
      in s1\<lparr>s_status := ''failed'', s_run_status := (if error = cancelled then ''cancelled'' else ''blocked''), s_run_ended_at := Some now,
            s_run_termination_reason := Some reason, s_final_answer := Some (stopped_message error),
            s_last_error := Some (JObj [(''code'', JStr reason), (''message'', JStr (stopped_message error)), (''recoverable'', JBool True)])\<rparr>)"

definition finished_event :: "string \<Rightarrow> json" where
  "finished_event status = JObj [(''type'', JStr ''run_finished''), (''status'', JStr status)]"

definition finish_ok :: "px \<Rightarrow> lib \<Rightarrow> json \<Rightarrow> json \<Rightarrow> session \<times> 'w service \<Rightarrow> reply outcome \<times> 'w service" where
  "finish_ok P L c q sv =
     (case sv of (s, v) \<Rightarrow>
        (case on_session (save P L c (finished_event (s_status s))) (s\<lparr>s_revision := sv_revision v\<rparr>, v) of
           (Inl e, _, v') \<Rightarrow> (failed_reply P e, v')
         | (Inr _, _, v') \<Rightarrow> (case committed_command_response P q v' of (r, v'') \<Rightarrow> (Done r, v''))))"

definition finish_stopped :: "px \<Rightarrow> lib \<Rightarrow> json \<Rightarrow> json \<Rightarrow> string \<Rightarrow> session \<times> 'w service \<Rightarrow> reply outcome \<times> 'w service" where
  "finish_stopped P L c q error sv =
     (case sv of (s, v) \<Rightarrow>
        (case stamp P v of (now, v1) \<Rightarrow>
           (let s1 = stop_run error now (s\<lparr>s_revision := sv_revision v\<rparr>)
            in case on_session (save P L c (finished_event (s_run_status s1))) (s1, v1) of
                 (Inl e, _, v') \<Rightarrow> (failed_reply P e, v')
               | (Inr _, s2, v') \<Rightarrow>
                   if s_run_status s1 \<noteq> ''blocked''
                   then (case committed_command_response P q v' of (r, v'') \<Rightarrow> (Done r, v''))
                   else (Done (json_reply 202 (JObj [(''session'', session_value s2), (''message'', JStr (stopped_message error))])), v'))))"

definition finish_request :: "px \<Rightarrow> lib \<Rightarrow> json \<Rightarrow> json \<Rightarrow> unit result \<Rightarrow> session \<times> 'w service \<Rightarrow> reply outcome \<times> 'w service" where
  "finish_request P L c q r sv =
     (case r of
        Inr _ \<Rightarrow> finish_ok P L c q sv
      | Inl error \<Rightarrow>
          if error = cancelled \<or> prefix recovery_required error then finish_stopped P L c q error sv
          else (Done (detail 502 (''Model service response was invalid: '' @ error)), snd sv))"

definition run_claimed :: "px \<Rightarrow> lib \<Rightarrow> 'w deps \<Rightarrow> json \<Rightarrow> json \<Rightarrow> session \<Rightarrow> string \<Rightarrow> int \<Rightarrow> 'w service \<Rightarrow> reply outcome \<times> 'w service" where
  "run_claimed P L X c q s owner fence v =
     (case execute P L X (\<lambda>_. after_commit P) c q (s, v\<lparr>sv_revision := s_revision s\<rparr>) of
        (r, s1, v1) \<Rightarrow>
          (case panicked r v1 of
             Some m \<Rightarrow> (Panic m, v1)
           | None \<Rightarrow>
               (case finish_request P L c q r (s1, v1) of
                  (Panic m, v2) \<Rightarrow> (Panic m, v2)
                | (Done reply, v2) \<Rightarrow> (Done reply, release P owner fence v2))))"

text \<open>\<open>free\<close>: no other task of this process holds the lock of the session.\<close>

definition run_route :: "px \<Rightarrow> lib \<Rightarrow> 'w deps \<Rightarrow> bool \<Rightarrow> string \<Rightarrow> json \<Rightarrow> 'w service \<Rightarrow> reply outcome \<times> 'w service" where
  "run_route P L X free i q v =
     (case validate_body q of
        Some e \<Rightarrow> (Done (validation_error [e]), v)
      | None \<Rightarrow>
          (case validate_max_steps q of
             Some e \<Rightarrow> (Done (validation_error [e]), v)
           | None \<Rightarrow>
               if \<not> free then (Done (detail 409 ''session ownership conflict''), v)
               else (case on_tables (load P L i) v of
                       (None, v') \<Rightarrow> (Done not_found, v')
                     | (Some (s, c), v') \<Rightarrow>
                         if s_status s \<noteq> ''active''
                         then (Done (detail 409 ''Session is terminal; use POST /sessions/{id}/resume to continue it.''), v')
                         else (case claim_session P L c (attach s q, v') of
                                 (Inl r, v1) \<Rightarrow> (r, v1)
                               | (Inr (s1, owner, fence), v1) \<Rightarrow> run_claimed P L X c q s1 owner fence v1))))"

section \<open>Streamed runs\<close>

definition lifecycle_errors :: "bool \<Rightarrow> json \<Rightarrow> json list" where
  "lifecycle_errors resume q =
     (case validate_max_steps q of None \<Rightarrow> [] | Some e \<Rightarrow> [e])
     @ (if \<not> resume then []
        else (case get q ''content'' of
                None \<Rightarrow> []
              | Some x \<Rightarrow> if is_null x then [] else (case string_error ''content'' x of None \<Rightarrow> [] | Some e \<Rightarrow> [e])))"

definition resumed_event :: "json \<Rightarrow> json" where
  "resumed_event q =
     JObj [(''type'', JStr ''session_resumed''), (''has_new_user_message'', JBool (is_some_and (as_str (idx q ''content'')) (\<lambda>x. x \<noteq> [])))]"

definition resumed :: "px \<Rightarrow> json \<Rightarrow> session \<times> 'w service \<Rightarrow> session \<times> 'w service" where
  "resumed P q sv =
     (case sv of (s, v) \<Rightarrow>
        (case (case as_str (idx q ''content'') of
                 None \<Rightarrow> (s, v)
               | Some x \<Rightarrow>
                   (append_message (px_uuid P (sv_calls v)) (px_stamp P (Suc (sv_calls v))) (msg ''user'' (Some x)) s,
                    v\<lparr>sv_calls := Suc (Suc (sv_calls v))\<rparr>))
         of (s1, v1) \<Rightarrow> (reset_resume_counters (s1\<lparr>s_status := ''active'', s_final_answer := None\<rparr>), v1)))"

definition error_message :: "string \<Rightarrow> json" where
  "error_message m = JObj [(''type'', JStr ''error''), (''code'', JStr ''persistence_error''), (''message'', JStr m), (''recoverable'', JBool True)]"

text \<open>
  A commit of the task itself, with its event sent to the client.  When it fails the client gets
  the given message, the lease is released and the task ends.
\<close>

definition task_save ::
  "px \<Rightarrow> lib \<Rightarrow> 'w deps \<Rightarrow> json \<Rightarrow> string \<Rightarrow> int \<Rightarrow> (string \<Rightarrow> json) \<Rightarrow> json \<Rightarrow> session \<times> 'w service \<Rightarrow> session option \<times> 'w service" where
  "task_save P L X c owner fence failure e sv =
     (case on_session (save P L c e) sv of
        (Inl (Panicked m), _, v) \<Rightarrow> (None, v\<lparr>sv_panic := Some m\<rparr>)
      | (Inl er, _, v) \<Rightarrow> (None, release P owner fence (snd (send X (failure (px_error_text P er)) v)))
      | (Inr _, s, v) \<Rightarrow> (Some s, v))"

definition send_decorated :: "px \<Rightarrow> 'w deps \<Rightarrow> json \<Rightarrow> session \<times> 'w service \<Rightarrow> 'w service" where
  "send_decorated P X e sv = (case sv of (s, v) \<Rightarrow> (case decorate P s e v of (e', v') \<Rightarrow> snd (send X e' v')))"

definition restored_event :: json where
  "restored_event = status_message ''Session restored from PostgreSQL; resuming agent work.'' []"

definition setup_event :: "bool \<Rightarrow> session \<Rightarrow> json" where
  "setup_event resume s =
     status_message (if resume then ''Restored immutable config, workflow evidence, memory, and compaction ledger.''
                     else ''Agent initialized from persisted session state.'') [(''config_ref'', json_opt (s_config_ref s))]"

definition announce ::
  "px \<Rightarrow> lib \<Rightarrow> 'w deps \<Rightarrow> json \<Rightarrow> string \<Rightarrow> int \<Rightarrow> (string \<Rightarrow> json) \<Rightarrow> bool \<Rightarrow> (session \<Rightarrow> json) \<Rightarrow> session option \<times> 'w service \<Rightarrow> session option \<times> 'w service" where
  "announce P L X c owner fence failure wanted e sv =
     (case sv of
        (None, v) \<Rightarrow> (None, v)
      | (Some s, v) \<Rightarrow>
          if \<not> wanted then (Some s, v)
          else (case task_save P L X c owner fence failure (e s) (s, v) of
                  (None, v') \<Rightarrow> (None, v')
                | (Some s', v') \<Rightarrow> (Some s', send_decorated P X (e s) (s', v'))))"

definition verbose :: "px \<Rightarrow> json \<Rightarrow> bool" where
  "verbose P c = (case px_decode_config P c of Inl _ \<Rightarrow> False | Inr cfg \<Rightarrow> c_verbose_setup cfg)"

definition unresolved_mark :: string where "unresolved_mark = ''commit_outcome_unresolved''"

definition abandon :: "px \<Rightarrow> session \<Rightarrow> 'w service \<Rightarrow> 'w service" where
  "abandon P s v =
     (case s_command s of
        None \<Rightarrow> v
      | Some c \<Rightarrow> snd (on_tables (autocommit P (\<lambda>now d. Inr ((), d\<lparr>st_commands := abandon_command c (st_commands d)\<rparr>))) v))"

definition fail_run :: "string \<Rightarrow> string \<Rightarrow> session \<Rightarrow> session" where
  "fail_run error now s =
     (let s1 = (if error = cancelled then acknowledge_committed_outboxes s else s);
          status = (if error = cancelled then ''cancelled'' else if prefix recovery_required error then ''blocked'' else ''failed'')
      in s1\<lparr>s_status := ''failed'', s_run_status := status,
            s_final_answer := Some (if error = cancelled then stopped_message cancelled else ''Agent run failed: '' @ error),
            s_run_ended_at := Some now,
            s_run_termination_reason := Some (if error = cancelled then cancelled
                                              else if status = ''blocked'' then recovery_required else ''run_failed''),
            s_last_error := Some (JObj [(''code'', JStr (if error = cancelled then cancelled else ''run_failed'')),
                                        (''message'', JStr (if error = cancelled then stopped_message cancelled else error)),
                                        (''recoverable'', JBool True)])\<rparr>)"

definition failure_event :: "session \<Rightarrow> json" where
  "failure_event s =
     JObj [(''type'', JStr ''error''), (''message'', json_opt_value (Option.bind (s_last_error s) (\<lambda>e. get e ''message''))),
           (''code'', json_opt_value (Option.bind (s_last_error s) (\<lambda>e. get e ''code''))), (''recoverable'', JBool True)]"

text \<open>The end of the task: a failure is committed before the end of the run.\<close>

definition settle_failure :: "px \<Rightarrow> lib \<Rightarrow> 'w deps \<Rightarrow> json \<Rightarrow> string \<Rightarrow> int \<Rightarrow> string \<Rightarrow> session \<times> 'w service \<Rightarrow> session option \<times> 'w service" where
  "settle_failure P L X c owner fence error sv =
     (case sv of (s, v) \<Rightarrow>
        if contains_str error unresolved_mark
        then (None, release P owner fence (snd (send X (error_message
               ''Commit outcome is unresolved; inspect the original command before recovery.'') (abandon P s v))))
        else (case stamp P v of (now, v1) \<Rightarrow>
                (let s1 = fail_run error now s
                 in case task_save P L X c owner fence (\<lambda>m. error_message (''Unable to persist run failure: '' @ m)) (failure_event s1) (s1, v1) of
                      (None, v2) \<Rightarrow> (None, v2)
                    | (Some s2, v2) \<Rightarrow> (Some s2, snd (send X (failure_event s1) (v2\<lparr>sv_revision := s_revision s2\<rparr>))))))"

definition finish_task :: "px \<Rightarrow> lib \<Rightarrow> 'w deps \<Rightarrow> json \<Rightarrow> string \<Rightarrow> int \<Rightarrow> session option \<times> 'w service \<Rightarrow> 'w service" where
  "finish_task P L X c owner fence sv =
     (case sv of
        (None, v) \<Rightarrow> v
      | (Some s, v) \<Rightarrow>
          (let s1 = s\<lparr>s_revision := sv_revision v\<rparr>; e = finished_event (s_status s1)
           in case task_save P L X c owner fence (\<lambda>m. error_message (''Unable to persist run completion: '' @ m)) e (s1, v) of
                (None, v1) \<Rightarrow> v1
              | (Some s2, v1) \<Rightarrow> release P owner fence (send_decorated P X e (s2, v1))))"

definition run_task :: "px \<Rightarrow> lib \<Rightarrow> 'w deps \<Rightarrow> json \<Rightarrow> json \<Rightarrow> string \<Rightarrow> int \<Rightarrow> session option \<times> 'w service \<Rightarrow> 'w service" where
  "run_task P L X c q owner fence sv =
     (case sv of
        (None, v) \<Rightarrow> v
      | (Some s, v) \<Rightarrow>
          (case execute P L X (after_stream_commit P X) c q (s, v\<lparr>sv_revision := s_revision s\<rparr>) of
             (r, s1, v1) \<Rightarrow>
               (case panicked r v1 of
                  Some m \<Rightarrow> v1\<lparr>sv_panic := Some m\<rparr>
                | None \<Rightarrow>
                    finish_task P L X c owner fence
                      (case r of
                         Inr _ \<Rightarrow> (Some s1, v1)
                       | Inl error \<Rightarrow> settle_failure P L X c owner fence error (s1\<lparr>s_revision := sv_revision v1\<rparr>, v1)))))"

definition lifecycle_task :: "px \<Rightarrow> lib \<Rightarrow> 'w deps \<Rightarrow> json \<Rightarrow> json \<Rightarrow> bool \<Rightarrow> session \<Rightarrow> string \<Rightarrow> int \<Rightarrow> 'w service \<Rightarrow> 'w service" where
  "lifecycle_task P L X c q resume s owner fence v =
     run_task P L X c q owner fence
       (announce P L X c owner fence (\<lambda>m. JObj [(''type'', JStr ''error''), (''message'', JStr m), (''recoverable'', JBool True)])
          (verbose P c) (setup_event resume)
          (announce P L X c owner fence error_message resume (\<lambda>_. restored_event) (Some s, v)))"

definition stream_reply :: reply where
  "stream_reply =
     \<lparr>rp_status = 200, rp_body = Raw_Body, rp_stream = True, rp_headers = [(''cache-control'', ''no-cache''), (''connection'', ''keep-alive'')]\<rparr>"

text \<open>
  The task runs beside the reply; here the service is returned as the task leaves it.  A panic of
  the task shows in the service and not in the reply.
\<close>

definition lifecycle_claimed ::
  "px \<Rightarrow> lib \<Rightarrow> 'w deps \<Rightarrow> json \<Rightarrow> json \<Rightarrow> bool \<Rightarrow> session \<Rightarrow> string \<Rightarrow> int \<Rightarrow> 'w service \<Rightarrow> reply outcome \<times> 'w service" where
  "lifecycle_claimed P L X c q resume s owner fence v =
     (if \<not> resume then (Done stream_reply, lifecycle_task P L X c q resume s owner fence v)
      else (case resumed P q (s, v) of (s1, v1) \<Rightarrow>
              (case on_session (save P L c (resumed_event q)) (s1, v1) of
                 (Inl e, _, v2) \<Rightarrow> (failed_reply P e, release_unless_panic P e owner fence v2)
               | (Inr _, s2, v2) \<Rightarrow> (Done stream_reply, lifecycle_task P L X c q resume s2 owner fence v2))))"

definition lifecycle :: "px \<Rightarrow> lib \<Rightarrow> 'w deps \<Rightarrow> bool \<Rightarrow> string \<Rightarrow> json \<Rightarrow> bool \<Rightarrow> 'w service \<Rightarrow> reply outcome \<times> 'w service" where
  "lifecycle P L X free i q resume v =
     (case validate_body q of
        Some e \<Rightarrow> (Done (validation_error [e]), v)
      | None \<Rightarrow>
          if lifecycle_errors resume q \<noteq> [] then (Done (validation_error (lifecycle_errors resume q)), v)
          else if \<not> free then (Done (detail 409 ''session ownership conflict''), v)
          else (case on_tables (load P L i) v of
                  (None, v') \<Rightarrow> (Done not_found, v')
                | (Some (s, c), v') \<Rightarrow>
                    if \<not> resume \<and> s_status s \<noteq> ''active''
                    then (Done (detail 409 ''Session is terminal; use POST /sessions/{id}/resume to continue it''), v')
                    else (case claim_session P L c (attach s q, v') of
                            (Inl r, v1) \<Rightarrow> (r, v1)
                          | (Inr (s1, owner, fence), v1) \<Rightarrow> lifecycle_claimed P L X c q resume s1 owner fence v1)))"

section \<open>Cancellation\<close>

definition cancel_message :: "string \<Rightarrow> string list \<Rightarrow> json" where
  "cancel_message i runs =
     JObj [(''session_id'', JStr i), (''cancel_requested_for'', json_strs runs),
           (''message'', JStr ''Cancellation is cooperative; in-flight effects are not undone.'')]"

definition target_runs :: "string option \<Rightarrow> store \<Rightarrow> string list" where
  "target_runs target d =
     (case target of None \<Rightarrow> [] | Some i \<Rightarrow> map rn_run_id (filter (\<lambda>r. rn_run_id r = i \<and> rn_status r = ''running'') (st_runs d)))"

definition cancel_runs :: "string option \<Rightarrow> store \<Rightarrow> store" where
  "cancel_runs target d = (case target of None \<Rightarrow> d | Some i \<Rightarrow> request_cancel (\<lambda>r. rn_run_id r = i) d)"

text \<open>The statements of the transaction; the session of the transaction monad is not used.\<close>

definition cancel_tx :: "px \<Rightarrow> string \<Rightarrow> json \<Rightarrow> (json option) tx" where
  "cancel_tx P i q =
     tbind (tselect P (\<lambda>now d. st_session d \<noteq> None))
       (\<lambda>exists. if \<not> exists then tret None
          else tbind (tguard P (idx q ''_command''))
            (\<lambda>_. tbind (tstmt P (\<lambda>now d. let target = as_str (idx q ''run_id'') in Inr (target_runs target d, cancel_runs target d)))
               (\<lambda>runs. tbind (tcommand P (\<lambda>now. finish now (idx q ''_command'') 200 (cancel_message i runs)))
                  (\<lambda>_. tret (Some (cancel_message i runs))))))"

text \<open>A transaction that is not committed leaves the tables as they were when it began.\<close>

definition in_transaction :: "px \<Rightarrow> session \<Rightarrow> ('a option) tx \<Rightarrow> store \<times> nat \<Rightarrow> (sql_error + 'a option) \<times> store \<times> nat" where
  "in_transaction P s body dn =
     (case dn of (d, n) \<Rightarrow>
        (let d0 = px_others P n d
         in case px_fault P n of
              Some e \<Rightarrow> (Inl e, d0, Suc n)
            | None \<Rightarrow>
                (case body (s, d0, Suc n) of
                   (Inl e, _, _, n') \<Rightarrow> (Inl e, d0, n')
                 | (Inr None, _, _, n') \<Rightarrow> (Inr None, d0, n')
                 | (Inr (Some x), _, d1, n') \<Rightarrow>
                     (case px_commit P n' of
                        (None, _) \<Rightarrow> (Inr (Some x), d1, Suc n')
                      | (Some e, applied) \<Rightarrow> (Inl e, if applied then d1 else d0, Suc n')))))"

definition cancel_session :: "px \<Rightarrow> lib \<Rightarrow> string \<Rightarrow> json \<Rightarrow> handler" where
  "cancel_session P L i q dn =
     (case load P L i dn of
        (None, dn') \<Rightarrow> (Done not_found, dn')
      | (Some (s, _), dn') \<Rightarrow>
          (case in_transaction P s (cancel_tx P i q) dn' of
             (Inl e, dn'') \<Rightarrow> (failed_reply P e, dn'')
           | (Inr None, dn'') \<Rightarrow> (Done not_found, dn'')
           | (Inr (Some body), dn'') \<Rightarrow> (Done (json_reply 200 body), dn'')))"

end
