(* ===== verification/World_Invariants.thy ===== *)
theory World_Invariants
  imports Engine
begin

text \<open>
  What a run does to the world.  The engine reaches the outside only through its environment, so a
  property of the world that every operation of the environment keeps is kept by a whole run, on
  every path and also when the run fails.  The theory of the lifecycle instantiates the world by
  the tables of the session.
\<close>

section \<open>Properties of the world\<close>

named_theorems world_rules \<open>operations that keep every property of the world that the environment keeps\<close>

definition wkeeps :: "('w \<Rightarrow> bool) \<Rightarrow> ('w, 'a) eng \<Rightarrow> bool" where
  "wkeeps J m \<longleftrightarrow> keeps (\<lambda>_. J) m"

lemma wkeepsD: "wkeeps J m \<Longrightarrow> m (s, w) = (r, s', w') \<Longrightarrow> J w \<Longrightarrow> J w'"
  unfolding wkeeps_def keeps_def by blast

lemma wkeepsI: "(\<And>s w r s' w'. m (s, w) = (r, s', w') \<Longrightarrow> J w \<Longrightarrow> J w') \<Longrightarrow> wkeeps J m"
  unfolding wkeeps_def keeps_def by blast

lemma wkeeps_ebind [world_rules]: "wkeeps J m \<Longrightarrow> (\<And>x. wkeeps J (f x)) \<Longrightarrow> wkeeps J (ebind m f)"
  unfolding wkeeps_def by (rule keeps_ebind)

lemma wkeeps_basic [world_rules]:
  "wkeeps J (ret x)" "wkeeps J (fail e)" "wkeeps J (lift r)" "wkeeps J (gets f)" "wkeeps J (modify g)" "wkeeps J (update u)"
  unfolding wkeeps_def by (auto intro: keeps_modify keeps_update)

lemma wkeeps_ask: "(\<And>w. J w \<Longrightarrow> J (snd (f w))) \<Longrightarrow> wkeeps J (ask f)"
  unfolding wkeeps_def by (rule keeps_ask)

lemma wkeeps_ewhen [world_rules]: "wkeeps J m \<Longrightarrow> wkeeps J (ewhen b m)"
  by (simp add: ewhen_def wkeeps_basic)

lemma wkeeps_efor [world_rules]: "(\<And>x. wkeeps J (f x)) \<Longrightarrow> wkeeps J (efor xs f)"
  by (induction xs) (auto intro: world_rules)

lemma wkeeps_if [world_rules]: "wkeeps J m \<Longrightarrow> wkeeps J m' \<Longrightarrow> wkeeps J (if b then m else m')"
  by simp

lemma wkeeps_option [world_rules]:
  "wkeeps J m \<Longrightarrow> (\<And>x. wkeeps J (f x)) \<Longrightarrow> wkeeps J (case v of None \<Rightarrow> m | Some x \<Rightarrow> f x)"
  by (cases v) auto

lemma wkeeps_sum [world_rules]:
  "(\<And>x. wkeeps J (g x)) \<Longrightarrow> (\<And>x. wkeeps J (f x)) \<Longrightarrow> wkeeps J (case v of Inl x \<Rightarrow> g x | Inr x \<Rightarrow> f x)"
  by (cases v) auto

lemma wkeeps_pair [world_rules]: "(\<And>x y. wkeeps J (f x y)) \<Longrightarrow> wkeeps J (case p of (x, y) \<Rightarrow> f x y)"
  by (cases p) auto

lemma wkeeps_list [world_rules]:
  "wkeeps J m \<Longrightarrow> (\<And>x xs. wkeeps J (f x xs)) \<Longrightarrow> wkeeps J (case v of [] \<Rightarrow> m | x # xs \<Rightarrow> f x xs)"
  by (cases v) auto

lemma wkeeps_let [world_rules]: "(\<And>x. wkeeps J (f x)) \<Longrightarrow> wkeeps J (let x = v in f x)"
  by (simp add: Let_def)

lemma wkeeps_outcome [world_rules]: "wkeeps J m \<Longrightarrow> wkeeps J (outcome m)"
  by (rule wkeepsI) (auto simp: outcome_def dest: wkeepsD split: prod.splits)

lemma wkeeps_ewhile [world_rules]: "(\<And>x. wkeeps J (body x)) \<Longrightarrow> wkeeps J (ewhile n cond body x)"
  by (induction n arbitrary: x) (auto intro!: world_rules)

section \<open>Environments\<close>

locale world_invariant =
  fixes E :: "'w env" and J :: "'w \<Rightarrow> bool"
  assumes w_uuid: "J w \<Longrightarrow> J (snd (env_uuid E w))"
    and w_now: "J w \<Longrightarrow> J (snd (env_now E w))"
    and w_emit: "J w \<Longrightarrow> J (snd (env_emit E e s w))"
    and w_post: "J w \<Longrightarrow> J (snd (env_post E url req w))"
    and w_tool: "J w \<Longrightarrow> J (snd (env_tool E t args w))"
    and w_known: "J w \<Longrightarrow> J (snd (env_known_calls E i ids w))"
    and w_set_receipts: "J w \<Longrightarrow> J (env_set_receipts E tbl w)"
    and w_statement: "J w \<Longrightarrow> J (snd (env_statement E w))"
    and w_commit: "J w \<Longrightarrow> J (snd (env_commit E w))"
begin

lemma w_results:
  "env_uuid E w = (x, w') \<Longrightarrow> J w \<Longrightarrow> J w'"
  "env_emit E e s w = (y, w') \<Longrightarrow> J w \<Longrightarrow> J w'"
  "env_post E url req w = (z, w') \<Longrightarrow> J w \<Longrightarrow> J w'"
  "env_statement E w = (u, w') \<Longrightarrow> J w \<Longrightarrow> J w'"
  "env_commit E w = (v, w') \<Longrightarrow> J w \<Longrightarrow> J w'"
  using w_uuid [of w] w_emit [of w e s] w_post [of w url req] w_statement [of w] w_commit [of w] by simp_all

lemma world_asks [world_rules]:
  "wkeeps J (ask (env_uuid E))" "wkeeps J (ask (env_now E))" "wkeeps J (ask (env_tool E t args))"
  "wkeeps J (ask (env_known_calls E i ids))" "wkeeps J (ask (env_statement E))"
  by (intro wkeeps_ask w_uuid w_now w_tool w_known w_statement; assumption)+

text \<open>Checkpoints.\<close>

lemma world_append_msg [world_rules]: "wkeeps J (append_msg E x)"
  unfolding append_msg_def by (intro world_rules)

lemma world_archive [world_rules]: "wkeeps J (archive E x y)"
  unfolding archive_def by (intro world_rules)

lemma world_record_diag [world_rules]: "wkeeps J (record_diag x y)"
  unfolding record_diag_def by (intro world_rules)

lemma world_close_run [world_rules]: "wkeeps J (close_run E)"
  unfolding close_run_def by (intro world_rules)

lemma world_emit [world_rules]: "wkeeps J (emit E e)"
  by (rule wkeepsI) (auto simp: emit_def dest: w_results split: prod.splits)

lemma world_acknowledge [world_rules]: "wkeeps J acknowledge"
  unfolding acknowledge_def by (intro world_rules)

lemma world_checkpoint [world_rules]: "wkeeps J (checkpoint E x)"
  unfolding checkpoint_def by (intro world_rules)

text \<open>Decisions.\<close>

lemma draw_keeps: "J w \<Longrightarrow> J (snd (draw_call_id E used n w))"
  by (induction n arbitrary: w) (auto dest: w_results split: prod.splits)

lemma world_fresh_call_id [world_rules]: "wkeeps J (fresh_call_id E used)"
  unfolding fresh_call_id_def by (intro world_rules wkeeps_ask draw_keeps)

lemma world_choose_id [world_rules]: "wkeeps J (choose_id E x y)"
  unfolding choose_id_def by (intro world_rules)

lemma world_parse_calls [world_rules]: "wkeeps J (parse_calls E L cfg raws used calls)"
  by (induction raws arbitrary: used calls) (auto intro!: world_rules)

lemma world_parse_decision [world_rules]: "wkeeps J (parse_decision E L cfg x y)"
  unfolding parse_decision_def by (intro world_rules) (auto split: json.split list.split intro!: world_rules)

lemma post_urls_keeps: "J w \<Longrightarrow> J (snd (post_urls E L cfg req diag urls ds w))"
  by (induction urls arbitrary: ds w) (auto simp: Let_def dest: w_results split: prod.splits http_outcome.splits option.splits sum.splits)

lemma post_chat_keeps: "J w \<Longrightarrow> J (snd (post_chat E L cfg req w))"
  by (simp add: post_chat_def Let_def post_urls_keeps)

lemma world_decide [world_rules]: "wkeeps J (decide E L cfg messages)"
  unfolding decide_def by (intro world_rules wkeeps_ask post_chat_keeps)

text \<open>Actions.\<close>

lemma world_audit [world_rules]: "wkeeps J (audit E x y)"
  unfolding audit_def by (intro world_rules)

lemma world_action_checkpoint [world_rules]: "wkeeps J (action_checkpoint E x)"
  unfolding action_checkpoint_def by (intro world_rules)

lemma world_dispatch_intent [world_rules]: "wkeeps J (dispatch_intent E L cfg x y z)"
  unfolding dispatch_intent_def by (intro world_rules)

lemma world_settle_prior [world_rules]: "wkeeps J (settle_prior E x)"
  unfolding settle_prior_def by (intro world_rules)

lemma world_verify_recovered [world_rules]: "wkeeps J (verify_recovered E x y z u)"
  unfolding verify_recovered_def by (intro world_rules)

lemma world_verify_unknown [world_rules]: "wkeeps J (verify_unknown E x y)"
  unfolding verify_unknown_def by (intro world_rules)

lemma query_receipt_keeps: "J w \<Longrightarrow> J (snd (query_receipt E namespace key w))"
  by (auto simp: query_receipt_def dest: w_results split: prod.splits option.splits)

lemma world_dispatch_verify [world_rules]: "wkeeps J (dispatch_verify E L e k)"
  unfolding dispatch_verify_def by (intro world_rules wkeeps_ask query_receipt_keeps)

lemma world_statement [world_rules]: "wkeeps J (statement E)"
  unfolding statement_def by (intro world_rules)

lemma world_commit_receipts [world_rules]: "wkeeps J (commit_receipts E tbl)"
  unfolding commit_receipts_def by (intro world_rules wkeeps_ask) (auto dest: w_results w_set_receipts split: prod.splits)

lemma world_recipient [world_rules]: "wkeeps J (recipient E L namespace key args)"
  unfolding recipient_def by (intro world_rules wkeeps_ask) simp

lemma world_dispatch_block [world_rules]: "wkeeps J (dispatch_block E x)"
  unfolding dispatch_block_def by (intro world_rules)

lemma world_dispatch_start [world_rules]: "wkeeps J (dispatch_start E x y)"
  unfolding dispatch_start_def by (intro world_rules)

lemma world_execute_tool [world_rules]: "wkeeps J (execute_tool E L e t args)"
proof -
  have "wkeeps J (\<lambda>(s, w). case recipient E L (ns s) key args (s, w) of (r, s', w') \<Rightarrow> (Ok r, s', w'))" for ns key
    by (rule wkeepsI) (auto dest: wkeepsD [OF world_recipient] split: prod.splits)
  then show ?thesis unfolding execute_tool_def by (auto intro!: world_rules)
qed

lemma world_dispatch_settle [world_rules]: "wkeeps J (dispatch_settle E x y z u)"
  unfolding dispatch_settle_def by (intro world_rules)

lemma world_dispatch_uncertain [world_rules]: "wkeeps J (dispatch_uncertain E x y z u)"
  unfolding dispatch_uncertain_def by (intro world_rules)

lemma world_dispatch_attempt [world_rules]: "wkeeps J (dispatch_attempt E L x y z u)"
  unfolding dispatch_attempt_def by (intro world_rules)

lemma world_dispatch_recover [world_rules]: "wkeeps J (dispatch_recover E L x y z)"
  unfolding dispatch_recover_def by (intro world_rules)

lemma world_dispatch [world_rules]: "wkeeps J (dispatch E L cfg x y z)"
  unfolding dispatch_def by (intro world_rules)

text \<open>Progress.\<close>

lemma world_warn_stalled [world_rules]: "wkeeps J (warn_stalled E x y)"
  unfolding warn_stalled_def by (intro world_rules)

lemma world_stop_stalled [world_rules]: "wkeeps J (stop_stalled E x y)"
  unfolding stop_stalled_def by (intro world_rules)

lemma world_observe_progress [world_rules]: "wkeeps J (observe_progress E L cfg x)"
  unfolding observe_progress_def by (intro world_rules)

text \<open>Compaction.\<close>

lemma world_skip [world_rules]: "wkeeps J (skip x y z)"
  unfolding skip_def by (intro world_rules)

lemma world_give_up [world_rules]: "wkeeps J (give_up L x y)"
  unfolding give_up_def by (intro world_rules)

lemma world_prepare_source [world_rules]: "wkeeps J (prepare_source L cfg x y z u)"
  unfolding prepare_source_def by (intro world_rules)

lemma world_open_pass [world_rules]: "wkeeps J (open_pass L cfg x)"
  unfolding open_pass_def by (intro world_rules)

lemma world_choose_source [world_rules]: "wkeeps J (choose_source L cfg x)"
  unfolding choose_source_def by (intro world_rules)

lemma world_record_with [world_rules]: "wkeeps J (record_with x y)"
  unfolding record_with_def by (intro world_rules)

lemma world_accept_proposal [world_rules]: "wkeeps J (accept_proposal E x y z u v p q)"
  unfolding accept_proposal_def by (intro world_rules)

lemma world_reject_proposal [world_rules]: "wkeeps J (reject_proposal E x y z u v p)"
  unfolding reject_proposal_def by (intro world_rules)

lemma world_judge_proposal [world_rules]: "wkeeps J (judge_proposal E L cfg x y z u v p)"
  unfolding judge_proposal_def by (intro world_rules)

lemma compact_client_keeps: "J w \<Longrightarrow> J (snd (compact_client E L cfg goal source correction w))"
  unfolding compact_client_def using post_chat_keeps by (auto simp: Let_def split: prod.splits sum.splits) (metis snd_conv)+

lemma world_one_attempt [world_rules]: "wkeeps J (one_attempt E L cfg before pn so used correction)"
  unfolding one_attempt_def by (intro world_rules wkeeps_ask compact_client_keeps)

lemma world_attempt_loop [world_rules]: "wkeeps J (attempt_loop E L cfg before pn so used correction reason n)"
  by (induction n arbitrary: used correction reason) (auto intro!: world_rules)

lemma world_reject_pass [world_rules]: "wkeeps J (reject_pass x y z)"
  unfolding reject_pass_def by (intro world_rules)

lemma world_finish_pass [world_rules]: "wkeeps J (finish_pass cfg x y z)"
  unfolding finish_pass_def by (intro world_rules)

lemma world_summarise_source [world_rules]: "wkeeps J (summarise_source E L cfg x y z)"
  unfolding summarise_source_def by (intro world_rules)

lemma world_one_pass [world_rules]: "wkeeps J (one_pass E L cfg x y)"
  unfolding one_pass_def by (intro world_rules)

lemma world_passes [world_rules]: "wkeeps J (passes E L cfg ps changed used)"
  by (induction ps arbitrary: changed used) (auto intro!: world_rules)

lemma world_final_budget [world_rules]: "wkeeps J (final_budget L cfg)"
  unfolding final_budget_def by (intro world_rules)

lemma world_compact_session [world_rules]: "wkeeps J (compact_session E L cfg)"
  unfolding compact_session_def by (intro world_rules)

text \<open>The run.\<close>

lemma world_call_output [world_rules]: "wkeeps J (call_output E L cfg x y)"
  unfolding call_output_def by (intro world_rules)

lemma world_settle_one [world_rules]: "wkeeps J (settle_one E L cfg x y)"
  unfolding settle_one_def by (intro world_rules)

lemma world_settle_calls [world_rules]: "wkeeps J (settle_calls E L cfg x y)"
  unfolding settle_calls_def by (intro world_rules)

lemma world_bump_invalid [world_rules]: "wkeeps J (bump_invalid cfg)"
  by (rule wkeepsI) (auto simp: bump_invalid_def split: prod.splits)

lemma world_limit_error [world_rules]: "wkeeps J (limit_error E)"
  unfolding limit_error_def by (intro world_rules)

lemma world_reject_batch [world_rules]: "wkeeps J (reject_batch E L cfg x)"
  unfolding reject_batch_def by (intro world_rules)

lemma world_settle_pending [world_rules]: "wkeeps J (settle_pending E L cfg)"
  unfolding settle_pending_def by (intro world_rules)

lemma world_advance_phase [world_rules]: "wkeeps J (advance_phase E L cfg)"
  unfolding advance_phase_def by (intro world_rules)

lemma world_compaction_outcome [world_rules]: "wkeeps J (compaction_outcome E x)"
  unfolding compaction_outcome_def by (intro world_rules)

lemma world_compact_step [world_rules]: "wkeeps J (compact_step E L cfg)"
  unfolding compact_step_def by (intro world_rules)

lemma world_stop_compaction [world_rules]: "wkeeps J (stop_compaction E x)"
  unfolding stop_compaction_def by (intro world_rules)

lemma world_note_diagnostic [world_rules]: "wkeeps J (note_diagnostic E x)"
  unfolding note_diagnostic_def by (intro world_rules)

lemma world_make_decision [world_rules]: "wkeeps J (make_decision E L cfg)"
  unfolding make_decision_def by (intro world_rules)

lemma world_handle_invalid [world_rules]: "wkeeps J (handle_invalid E L cfg x y)"
  unfolding handle_invalid_def by (intro world_rules)

lemma world_reject_final [world_rules]: "wkeeps J (reject_final E L cfg x y z)"
  unfolding reject_final_def by (intro world_rules)

lemma world_accept_final [world_rules]: "wkeeps J (accept_final E x)"
  unfolding accept_final_def by (intro world_rules)

lemma world_handle_final [world_rules]: "wkeeps J (handle_final E L cfg x y)"
  unfolding handle_final_def by (intro world_rules)

lemma world_rename_known [world_rules]: "wkeeps J (rename_known E known cs)"
  by (induction cs) (auto intro!: world_rules)

lemma world_reserve_ids [world_rules]: "wkeeps J (reserve_ids E x)"
  unfolding reserve_ids_def by (intro world_rules)

lemma world_handle_tools [world_rules]: "wkeeps J (handle_tools E L cfg x y)"
  unfolding handle_tools_def by (intro world_rules)

lemma world_carry_out [world_rules]: "wkeeps J (carry_out E L cfg x y)"
  unfolding carry_out_def by (intro world_rules)

lemma world_run_step [world_rules]: "wkeeps J (run_step E L cfg x)"
  unfolding run_step_def by (intro world_rules)

lemma world_run_loop [world_rules]: "wkeeps J (run_loop E L cfg x y)"
  unfolding run_loop_def by (intro world_rules)

lemma world_start_run [world_rules]: "wkeeps J (start_run E L cfg)"
  unfolding start_run_def by (intro world_rules)

lemma world_resume_pending [world_rules]: "wkeeps J (resume_pending E L cfg)"
  unfolding resume_pending_def by (intro world_rules)

lemma world_finish_limit [world_rules]: "wkeeps J (finish_limit E x y)"
  unfolding finish_limit_def by (intro world_rules)

lemma world_finish_run [world_rules]: "wkeeps J (finish_run E)"
  unfolding finish_run_def by (intro world_rules)

lemma world_run [world_rules]: "wkeeps J (run E L cfg x)"
  unfolding run_def by (intro world_rules)

end

end
