(* ===== verification/Lifecycle_Proofs.thy ===== *)
theory Lifecycle_Proofs
  imports Lifecycle World_Invariants Save_Proofs
begin

text \<open>
  What a request does to the tables, from its first statement to its last.  \<open>table_invariant\<close> is
  the interface: a property of the archived tables that every save and every other worker keeps is
  kept by whole requests, through all runs of the engine, failures, cancellations and panics.
\<close>

section \<open>Requests as steps on the tables\<close>

definition archived :: "store \<Rightarrow> transcript_row list \<times> commit_receipt list \<times> json list" where
  "archived d = (st_transcript d, st_receipts d, st_executions d)"

lemma archived_lease: "archived (set_lease l d) = archived d"
  by (simp add: archived_def set_lease_def split: option.split)

lemma archived_cancel: "archived (request_cancel p d) = archived d" "archived (cancel_runs target d) = archived d"
  by (simp_all add: archived_def request_cancel_def cancel_runs_def split: option.split)

definition tables_kept :: "(store \<Rightarrow> bool) \<Rightarrow> (store \<times> nat \<Rightarrow> 'a \<times> store \<times> nat) \<Rightarrow> bool" where
  "tables_kept J f \<longleftrightarrow> (\<forall>d n x d' n'. f (d, n) = (x, d', n') \<longrightarrow> J d \<longrightarrow> J d')"

definition service_kept :: "(store \<Rightarrow> bool) \<Rightarrow> ('w service \<Rightarrow> 'a \<times> 'w service) \<Rightarrow> bool" where
  "service_kept J f \<longleftrightarrow> (\<forall>v x v'. f v = (x, v') \<longrightarrow> J (sv_store v) \<longrightarrow> J (sv_store v'))"

lemma tables_keptD: "tables_kept J f \<Longrightarrow> f (d, n) = (x, d', n') \<Longrightarrow> J d \<Longrightarrow> J d'"
  unfolding tables_kept_def by blast

lemma service_keptD: "service_kept J f \<Longrightarrow> f v = (x, v') \<Longrightarrow> J (sv_store v) \<Longrightarrow> J (sv_store v')"
  unfolding service_kept_def by blast

lemma service_keptI: "(\<And>v x v'. f v = (x, v') \<Longrightarrow> J (sv_store v) \<Longrightarrow> J (sv_store v')) \<Longrightarrow> service_kept J f"
  unfolding service_kept_def by blast

lemma service_kept_snd: "service_kept J f \<Longrightarrow> J (sv_store v) \<Longrightarrow> J (sv_store (snd (f v)))"
  by (cases "f v") (auto dest: service_keptD)

lemma tables_kept_snd: "tables_kept J f \<Longrightarrow> J (fst dn) \<Longrightarrow> J (fst (snd (f dn)))"
  by (cases dn; cases "f dn") (auto dest: tables_keptD)

lemma kept_on_tables: "tables_kept J f \<Longrightarrow> service_kept J (on_tables f)"
  by (auto simp: service_kept_def on_tables_def dest: tables_keptD split: prod.splits)

lemma kept_on_world: "service_kept J (on_world f)"
  by (auto simp: service_kept_def on_world_def split: prod.splits)

locale table_invariant =
  fixes P :: px and L :: lib and J :: "store \<Rightarrow> bool"
  assumes saved: "save P L c e (s, d, n) = (r, s', d', n') \<Longrightarrow> J d \<Longrightarrow> J d'"
    and others: "J d \<Longrightarrow> J (px_others P n d)"
    and frame: "archived d' = archived d \<Longrightarrow> J d \<Longrightarrow> J d'"
begin

abbreviation holds :: "'w service \<Rightarrow> bool" where "holds v \<equiv> J (sv_store v)"

lemma kept_autocommit:
  assumes "\<And>now d x d'. f now d = Inr (x, d') \<Longrightarrow> archived d' = archived d"
  shows "tables_kept J (autocommit P f)"
  unfolding tables_kept_def
proof (intro allI impI)
  fix d n x d' n'
  assume run: "autocommit P f (d, n) = (x, d', n')" and "J d"
  then have d0: "J (px_others P n d)" by (rule_tac others)
  have "d' = px_others P n d \<or> (\<exists>now y. f now (px_others P n d) = Inr (y, d'))"
    using run by (auto simp: autocommit_def Let_def split: option.splits sum.splits prod.splits if_splits)
  then show "J d'" using d0 assms frame by metis
qed

lemma kept_fetch: "tables_kept J (fetch P f)"
  by (auto simp: tables_kept_def fetch_def Let_def others)

lemma kept_load: "tables_kept J (load P L i)"
  unfolding tables_kept_def load_def Let_def
  by (auto simp: others split: option.splits if_splits)

lemma kept_claim_lease: "tables_kept J (claim_lease P)"
proof -
  have "tables_kept J (autocommit P (\<lambda>now d0. case acquire_execution_lease now u (map_option sr_lease (st_session d0)) of
              (Inl m, _) \<Rightarrow> Inl (if m = out_of_range then Database_Error m else Protocol m)
            | (Inr claim, l) \<Rightarrow> Inr (claim, set_lease l d0)))" for u
    by (rule kept_autocommit) (auto simp: archived_lease split: prod.splits sum.splits)
  from tables_keptD [OF this] show ?thesis by (auto simp: tables_kept_def claim_lease_def)
qed

lemma kept_on_session: "on_session (save P L c e) (s, v) = (r, s', v') \<Longrightarrow> holds v \<Longrightarrow> holds v'"
proof -
  assume run: "on_session (save P L c e) (s, v) = (r, s', v')" and ok: "holds v"
  obtain r1 s1 d1 n1 where sv: "save P L c e (s, sv_store v, sv_calls v) = (r1, s1, d1, n1)" by (metis prod_cases4)
  from saved [OF sv ok] run sv show "holds v'" by (auto simp: on_session_def)
qed

lemma holds_release: "holds v \<Longrightarrow> holds (release P owner fence v)"
proof -
  assume ok: "holds v"
  let ?f = "\<lambda>now d0. Inr ((), set_lease (release_execution_lease owner fence (map_option sr_lease (st_session d0))) d0)"
  have "tables_kept J (autocommit P ?f)" by (rule kept_autocommit) (auto simp: archived_lease)
  from tables_kept_snd [OF this, of "(sv_store v, sv_calls v)"] ok show ?thesis
    by (auto simp: release_def on_tables_def drop_lease_def split: prod.splits)
qed

lemma holds_autocommit:
  assumes "\<And>now d x d'. f now d = Inr (x, d') \<Longrightarrow> archived d' = archived d" "holds v"
  shows "holds (snd (on_tables (autocommit P f) v))"
  by (rule service_kept_snd [OF kept_on_tables [OF kept_autocommit [OF assms(1)]] assms(2)])

lemma holds_send: "send X e v = (b, v') \<Longrightarrow> holds v \<Longrightarrow> holds v'"
  by (auto simp: send_def split: if_splits)

lemma holds_stamp: "stamp P v = (now, v') \<Longrightarrow> holds v \<Longrightarrow> holds v'"
  by (auto simp: stamp_def)

lemma kept_decorate: "decorate P s e v = (e', v') \<Longrightarrow> holds v \<Longrightarrow> holds v'"
  using service_keptD [OF kept_on_tables [OF kept_fetch]]
  by (auto simp: decorate_def Let_def split: prod.splits sum.splits option.splits)

lemma holds_send_snd: "holds v \<Longrightarrow> holds (snd (send X e v))"
  by (simp add: send_def)

text \<open>Checkpoints and the engine.\<close>

lemma kept_after_commit: "after_commit P s v = (r, v') \<Longrightarrow> holds v \<Longrightarrow> holds v'"
  using service_keptD [OF kept_on_tables [OF kept_fetch]]
  by (auto simp: after_commit_def split: prod.splits sum.splits option.splits)

lemma kept_stream_event: "stream_event P X e s v = (r, v') \<Longrightarrow> holds v \<Longrightarrow> holds v'"
proof -
  assume run: "stream_event P X e s v = (r, v')" and ok: "holds v"
  obtain e1 v1 where d: "decorate P s e v = (e1, v1)" by fastforce
  obtain b v2 where b: "send X e1 v1 = (b, v2)" by fastforce
  have v2: "holds v2" using holds_send [OF b kept_decorate [OF d ok]] .
  have "holds (snd (on_tables (autocommit P (\<lambda>now d. Inr ((), request_cancel p d))) v2))" for p
    by (rule holds_autocommit) (auto simp: archived_cancel v2)
  then show "holds v'" using run d b v2 by (auto simp: stream_event_def split: bool.splits option.splits)
qed

lemma kept_after_stream_commit: "after_stream_commit P X e s v = (r, v') \<Longrightarrow> holds v \<Longrightarrow> holds v'"
  using service_keptD [OF kept_on_tables [OF kept_fetch]]
  by (auto simp: after_stream_commit_def dest: kept_stream_event split: prod.splits sum.splits option.splits if_splits)

lemma kept_emit:
  assumes "\<And>e s v r v'. post e s v = (r, v') \<Longrightarrow> holds v \<Longrightarrow> holds v'" "holds v"
  shows "holds (snd (service_emit P L c post e s v))"
proof -
  obtain r1 s1 v1 where sv: "on_session (save P L c e) (s\<lparr>s_revision := sv_revision v\<rparr>, v) = (r1, s1, v1)" by (metis prod_cases3)
  have v1: "holds v1" by (rule kept_on_session [OF sv assms(2)])
  show ?thesis
  proof (cases r1)
    case (Inl er)
    then show ?thesis using sv v1 assms(2) by (cases er) (simp_all add: service_emit_def split: option.split)
  next
    case (Inr x)
    obtain r v' where post: "post e s1 (v1\<lparr>sv_revision := s_revision s1\<rparr>) = (r, v')" by fastforce
    then show ?thesis using assms(1) [OF post] v1 sv Inr assms(2) by (simp add: service_emit_def split: option.split)
  qed
qed

lemma kept_known_calls: "tables_kept J (known_calls P ids)"
  using tables_keptD [OF kept_fetch] by (auto simp: tables_kept_def known_calls_def split: prod.splits sum.splits)

lemma env_kept:
  assumes "\<And>e s v r v'. post e s v = (r, v') \<Longrightarrow> holds v \<Longrightarrow> holds v'"
  shows "world_invariant (service_env P L X c post) holds"
proof
  show "holds (snd (env_emit (service_env P L X c post) e s w))" if "holds w" for w e s
    using kept_emit [of post, OF assms that] by (simp add: service_env_def)
  show "holds (snd (env_known_calls (service_env P L X c post) i ids w))" if "holds w" for w i ids
    using service_kept_snd [OF kept_on_tables [OF kept_known_calls] that] by (simp add: service_env_def)
qed (simp_all add: service_env_def service_kept_snd [OF kept_on_world])

lemma kept_execute:
  assumes "\<And>e s v r v'. post e s v = (r, v') \<Longrightarrow> holds v \<Longrightarrow> holds v'"
    and "execute P L X post c q (s, v) = (r, s', v')" "holds v"
  shows "holds v'"
proof -
  have "wkeeps holds (run (service_env P L X c post) L cfg requested)" for cfg requested
    by (rule world_invariant.world_run [OF env_kept [OF assms(1)]])
  then show ?thesis using assms(2,3) wkeepsD by (fastforce simp: execute_def split: sum.splits)
qed

text \<open>The run route.\<close>

lemma kept_claim_session: "claim_session P L c (s, v) = (r, v') \<Longrightarrow> holds v \<Longrightarrow> holds v'"
proof -
  assume run: "claim_session P L c (s, v) = (r, v')" and ok: "holds v"
  obtain x v1 where a: "on_tables (claim_lease P) v = (x, v1)" by fastforce
  have v1: "holds v1" by (rule service_keptD [OF kept_on_tables [OF kept_claim_lease] a ok])
  show "holds v'"
  proof (cases x)
    case (Inl e)
    then show ?thesis using run a v1 by (simp add: claim_session_def)
  next
    case (Inr y)
    obtain owner fence where y: "y = (owner, fence)" by fastforce
    define s1 where "s1 = s\<lparr>s_execution_owner := Some owner, s_execution_fence := Some fence\<rparr>"
    obtain now v2 where st: "stamp P v1 = (now, v2)" by fastforce
    obtain r3 s3 v3 where sv: "on_session (save P L c interrupted_event) (interrupted now s1, v2) = (r3, s3, v3)" by (metis prod_cases3)
    have v3: "holds v3" by (rule kept_on_session [OF sv holds_stamp [OF st v1]])
    then have "holds (release_unless_panic P er owner fence v3)" for er by (cases er) (simp_all add: release_unless_panic_def holds_release)
    then show ?thesis using run a v1 v3 Inr y st sv
      by (auto simp: claim_session_def s1_def [symmetric] split: if_splits sum.splits)
  qed
qed

lemma kept_committed: "committed_command_response P q v = (r, v') \<Longrightarrow> holds v \<Longrightarrow> holds v'"
  using service_keptD [OF kept_on_tables [OF kept_fetch]]
  by (auto simp: committed_command_response_def split: prod.splits sum.splits)

lemma kept_finish_ok: "finish_ok P L c q (s, v) = (r, v') \<Longrightarrow> holds v \<Longrightarrow> holds v'"
proof -
  assume run: "finish_ok P L c q (s, v) = (r, v')" and ok: "holds v"
  obtain r1 s1 v1 where sv: "on_session (save P L c (finished_event (s_status s))) (s\<lparr>s_revision := sv_revision v\<rparr>, v) = (r1, s1, v1)"
    by (metis prod_cases3)
  from kept_on_session [OF sv ok] run sv show "holds v'"
    by (auto simp: finish_ok_def dest: kept_committed split: sum.splits prod.splits)
qed

lemma kept_finish_stopped: "finish_stopped P L c q error (s, v) = (r, v') \<Longrightarrow> holds v \<Longrightarrow> holds v'"
proof -
  assume run: "finish_stopped P L c q error (s, v) = (r, v')" and ok: "holds v"
  obtain now v1 where st: "stamp P v = (now, v1)" by fastforce
  define s1 where "s1 = stop_run error now (s\<lparr>s_revision := sv_revision v\<rparr>)"
  obtain r2 s2 v2 where sv: "on_session (save P L c (finished_event (s_run_status s1))) (s1, v1) = (r2, s2, v2)" by (metis prod_cases3)
  from kept_on_session [OF sv holds_stamp [OF st ok]] run sv st show "holds v'"
    by (auto simp: finish_stopped_def Let_def s1_def [symmetric] dest: kept_committed split: sum.splits prod.splits if_splits)
qed

lemma kept_finish_request: "finish_request P L c q r (s, v) = (x, v') \<Longrightarrow> holds v \<Longrightarrow> holds v'"
  by (auto simp: finish_request_def dest: kept_finish_ok kept_finish_stopped split: sum.splits if_splits)

lemma kept_run_claimed: "run_claimed P L X c q s owner fence v = (r, v') \<Longrightarrow> holds v \<Longrightarrow> holds v'"
proof -
  assume run: "run_claimed P L X c q s owner fence v = (r, v')" and ok: "holds v"
  obtain r1 s1 v1 where e: "execute P L X (\<lambda>_. after_commit P) c q (s, v\<lparr>sv_revision := s_revision s\<rparr>) = (r1, s1, v1)" by (metis prod_cases3)
  have v1: "holds v1" by (rule kept_execute [OF _ e]) (use ok kept_after_commit in auto)
  obtain x v2 where f: "finish_request P L c q r1 (s1, v1) = (x, v2)" by fastforce
  have v2: "holds v2" by (rule kept_finish_request [OF f v1])
  then show "holds v'" using run e f v1 holds_release [OF v2]
    by (auto simp: run_claimed_def split: option.splits outcome.splits)
qed

lemma run_route_keeps: "run_route P L X free i q v = (r, v') \<Longrightarrow> holds v \<Longrightarrow> holds v'"
proof -
  assume run: "run_route P L X free i q v = (r, v')" and ok: "holds v"
  obtain x v1 where l: "on_tables (load P L i) v = (x, v1)" by fastforce
  have v1: "holds v1" by (rule service_keptD [OF kept_on_tables [OF kept_load] l ok])
  show "holds v'"
    using run ok l v1 by (auto simp: run_route_def dest: kept_claim_session kept_run_claimed
        split: option.splits if_splits prod.splits sum.splits)
qed

text \<open>Streamed runs.\<close>

lemma kept_task_save: "task_save P L X c owner fence failure e (s, v) = (x, v') \<Longrightarrow> holds v \<Longrightarrow> holds v'"
proof -
  assume run: "task_save P L X c owner fence failure e (s, v) = (x, v')" and ok: "holds v"
  obtain r1 s1 v1 where sv: "on_session (save P L c e) (s, v) = (r1, s1, v1)" by (metis prod_cases3)
  have v1: "holds v1" by (rule kept_on_session [OF sv ok])
  show "holds v'"
  proof (cases r1)
    case (Inl er)
    then show ?thesis using run sv v1 holds_release [OF holds_send_snd [OF v1]] by (cases er) (auto simp: task_save_def)
  qed (use run sv v1 in \<open>auto simp: task_save_def\<close>)
qed

lemma holds_send_decorated: "holds v \<Longrightarrow> holds (send_decorated P X e (s, v))"
proof -
  assume ok: "holds v"
  obtain e' v' where d: "decorate P s e v = (e', v')" by fastforce
  from holds_send_snd [OF kept_decorate [OF d ok]] d show ?thesis by (simp add: send_decorated_def)
qed

lemma kept_announce: "announce P L X c owner fence failure wanted e (o1, v) = (x, v') \<Longrightarrow> holds v \<Longrightarrow> holds v'"
  by (auto simp: announce_def dest: kept_task_save intro: holds_send_decorated split: option.splits if_splits prod.splits)

lemma holds_abandon: "holds v \<Longrightarrow> holds (abandon P s v)"
  unfolding abandon_def by (auto split: option.split intro!: holds_autocommit simp: archived_def)

lemma kept_settle_failure: "settle_failure P L X c owner fence error (s, v) = (x, v') \<Longrightarrow> holds v \<Longrightarrow> holds v'"
proof -
  assume run: "settle_failure P L X c owner fence error (s, v) = (x, v')" and ok: "holds v"
  obtain now v1 where st: "stamp P v = (now, v1)" by fastforce
  define s1 where "s1 = fail_run error now s"
  obtain y v2 where sv: "task_save P L X c owner fence (\<lambda>m. error_message (''Unable to persist run failure: '' @ m)) (failure_event s1) (s1, v1) = (y, v2)"
    by fastforce
  have v2: "holds v2" by (rule kept_task_save [OF sv holds_stamp [OF st ok]])
  then have "holds (snd (send X e (v2\<lparr>sv_revision := k\<rparr>)))" for e k by (simp add: holds_send_snd)
  then show "holds v'" using run st sv v2 holds_release [OF holds_send_snd [OF holds_abandon [OF ok]]]
    by (auto simp: settle_failure_def Let_def s1_def [symmetric] split: if_splits option.splits)
qed

lemma holds_finish_task: "holds v \<Longrightarrow> holds (finish_task P L X c owner fence (o1, v))"
proof (cases o1)
  case (Some s)
  assume ok: "holds v"
  define s1 where "s1 = s\<lparr>s_revision := sv_revision v\<rparr>"
  obtain y v2 where sv: "task_save P L X c owner fence (\<lambda>m. error_message (''Unable to persist run completion: '' @ m)) (finished_event (s_status s1)) (s1, v) = (y, v2)"
    by fastforce
  have v2: "holds v2" by (rule kept_task_save [OF sv ok])
  then show ?thesis using Some sv holds_release [OF holds_send_decorated [OF v2]]
    by (cases y) (simp_all add: finish_task_def Let_def s1_def)
qed (simp add: finish_task_def)

lemma holds_run_task: "holds v \<Longrightarrow> holds (run_task P L X c q owner fence (o1, v))"
proof (cases o1)
  case (Some s)
  assume ok: "holds v"
  obtain r1 s1 v1 where e: "execute P L X (after_stream_commit P X) c q (s, v\<lparr>sv_revision := s_revision s\<rparr>) = (r1, s1, v1)" by (metis prod_cases3)
  have v1: "holds v1" by (rule kept_execute [OF _ e]) (use ok kept_after_stream_commit in auto)
  have "holds (finish_task P L X c owner fence (case r1 of Inr _ \<Rightarrow> (Some s1, v1)
      | Inl error \<Rightarrow> settle_failure P L X c owner fence error (s1\<lparr>s_revision := sv_revision v1\<rparr>, v1)))"
  proof (cases r1)
    case (Inl error)
    obtain y v2 where f: "settle_failure P L X c owner fence error (s1\<lparr>s_revision := sv_revision v1\<rparr>, v1) = (y, v2)" by fastforce
    from holds_finish_task [OF kept_settle_failure [OF f v1]] f Inl show ?thesis by simp
  qed (simp add: holds_finish_task v1)
  then show ?thesis using Some e v1 by (simp add: run_task_def split: option.split)
qed (simp add: run_task_def)

lemma holds_lifecycle_task: "holds v \<Longrightarrow> holds (lifecycle_task P L X c q resume s owner fence v)"
  unfolding lifecycle_task_def by (metis holds_run_task kept_announce surj_pair)

lemma kept_lifecycle_claimed: "lifecycle_claimed P L X c q resume s owner fence v = (r, v') \<Longrightarrow> holds v \<Longrightarrow> holds v'"
proof (cases resume)
  case True
  assume run: "lifecycle_claimed P L X c q resume s owner fence v = (r, v')" and ok: "holds v"
  obtain s1 v1 where rs: "resumed P q (s, v) = (s1, v1)" by fastforce
  then have v1: "holds v1" using ok by (auto simp: resumed_def split: option.splits)
  obtain r2 s2 v2 where sv: "on_session (save P L c (resumed_event q)) (s1, v1) = (r2, s2, v2)" by (metis prod_cases3)
  have v2: "holds v2" by (rule kept_on_session [OF sv v1])
  then have "holds (release_unless_panic P er owner fence v2)" for er by (cases er) (simp_all add: release_unless_panic_def holds_release)
  then show ?thesis using run True rs sv holds_lifecycle_task [OF v2] by (auto simp: lifecycle_claimed_def split: sum.splits)
qed (auto simp: lifecycle_claimed_def holds_lifecycle_task)

lemma lifecycle_keeps: "lifecycle P L X free i q resume v = (r, v') \<Longrightarrow> holds v \<Longrightarrow> holds v'"
proof -
  assume run: "lifecycle P L X free i q resume v = (r, v')" and ok: "holds v"
  obtain x v1 where l: "on_tables (load P L i) v = (x, v1)" by fastforce
  have v1: "holds v1" by (rule service_keptD [OF kept_on_tables [OF kept_load] l ok])
  show "holds v'"
    using run ok l v1 by (auto simp: lifecycle_def dest: kept_claim_session kept_lifecycle_claimed
        split: option.splits if_splits prod.splits sum.splits)
qed

text \<open>Cancellation, creation and messages.\<close>

lemma kept_in_transaction:
  assumes "\<And>s d n r s' d' n'. body (s, d, n) = (r, s', d', n') \<Longrightarrow> archived d' = archived d"
  shows "tables_kept J (in_transaction P s body)"
  unfolding tables_kept_def
proof (intro allI impI)
  fix d n x d' n'
  assume run: "in_transaction P s body (d, n) = (x, d', n')" and "J d"
  then have d0: "J (px_others P n d)" by (rule_tac others)
  obtain r1 s1 d1 n1 where b: "body (s, px_others P n d, Suc n) = (r1, s1, d1, n1)" by (metis prod_cases4)
  have "d' = px_others P n d \<or> d' = d1"
    using run b by (auto simp: in_transaction_def Let_def split: option.splits sum.splits prod.splits if_splits)
  then show "J d'" using d0 frame [OF assms [OF b] d0] by blast
qed

end

section \<open>Histories\<close>

text \<open>The cancellation leaves the archived tables alone.\<close>

interpretation same_archive: kept_relation "\<lambda>a b. archived (snd b) = archived (snd a)"
  by unfold_locales auto

lemma cancel_tx_archived: "cancel_tx P i q (s, d, n) = (r, s', d', n') \<Longrightarrow> archived d' = archived d"
proof -
  have t: "tkeeps (\<lambda>a b. archived (snd b) = archived (snd a))
      (tstmt P (\<lambda>now d. let target = as_str (idx q ''run_id'') in Inr (target_runs target d, cancel_runs target d)))"
    by (rule same_archive.keeps_tstmt) (auto simp: Let_def archived_cancel)
  have c: "tkeeps (\<lambda>a b. archived (snd b) = archived (snd a)) (tcommand P f)" for f
    unfolding tcommand_def by (rule same_archive.keeps_tstmt) (auto simp: archived_def result_simps)
  have "tkeeps (\<lambda>a b. archived (snd b) = archived (snd a)) (cancel_tx P i q)"
    unfolding cancel_tx_def by (auto intro!: same_archive.keeps_basic t c)
  then show "cancel_tx P i q (s, d, n) = (r, s', d', n') \<Longrightarrow> archived d' = archived d" by (auto dest: tkeepsD)
qed

context table_invariant
begin

lemma cancel_session_keeps: "cancel_session P L i q (d, n) = (r, d', n') \<Longrightarrow> J d \<Longrightarrow> J d'"
proof -
  assume run: "cancel_session P L i q (d, n) = (r, d', n')" and ok: "J d"
  obtain x d1 n1 where l: "load P L i (d, n) = (x, d1, n1)" by (metis prod_cases3)
  have d1: "J d1" by (rule tables_keptD [OF kept_load l ok])
  have "tables_kept J (in_transaction P s (cancel_tx P i q))" for s by (rule kept_in_transaction) (rule cancel_tx_archived)
  then show "J d'" using run l d1
    by (auto simp: cancel_session_def dest: tables_keptD split: option.splits prod.splits sum.splits)
qed

lemma message_route_keeps: "message_route P L free i q (d, n) = (r, d', n') \<Longrightarrow> J d \<Longrightarrow> J d'"
proof -
  assume run: "message_route P L free i q (d, n) = (r, d', n')" and ok: "J d"
  obtain x d1 n1 where l: "load P L i (d, n) = (x, d1, n1)" by (metis prod_cases3)
  have d1: "J d1" by (rule tables_keptD [OF kept_load l ok])
  have "J d'" if "message_saved P L q s c (d1, n1) = (r, d', n')" for s c
    using that saved [OF _ d1] by (auto simp: message_saved_def split: prod.splits)
  then show "J d'" using run l d1 ok
    by (auto simp: message_route_def split: option.splits if_splits)
qed

lemma create_keeps: "create P L F q (d, n) = (r, d', n') \<Longrightarrow> J d \<Longrightarrow> J d'"
proof -
  assume run: "create P L F q (d, n) = (r, d', n')" and ok: "J d"
  have "J d'" if "create_saved P L q goal c raw ref h resolved (d, n) = (r, d', n')" for goal c raw ref h resolved
    using that saved [OF _ ok] by (auto simp: create_saved_def split: prod.splits option.splits)
  then show "J d'" using run ok
    by (auto simp: create_def Let_def split: option.splits if_splits outcome.splits sum.splits prod.splits)
qed

end

text \<open>
  What every party keeps of the archived tables: they only grow, without gaps, and the identity and
  the results of actions stay.
\<close>

definition history_kept :: "store \<Rightarrow> store \<Rightarrow> bool" where
  "history_kept d d' \<longleftrightarrow> append_only d d' \<and> actions_kept d d' \<and> (numbered d \<longrightarrow> numbered d')"

definition respectful :: "px \<Rightarrow> bool" where
  "respectful P \<longleftrightarrow> (\<forall>n d. history_kept d (px_others P n d))"

lemma history_kept_refl: "history_kept d d"
  by (simp add: history_kept_def archive.D_refl actions.D_refl)

lemma history_kept_trans: "history_kept a b \<Longrightarrow> history_kept b c \<Longrightarrow> history_kept a c"
  unfolding history_kept_def using archive.D_trans actions.D_trans by blast

lemma history_kept_archived: "archived d' = archived d \<Longrightarrow> history_kept d d'"
  using archive.D_refl [of d] actions.D_refl [of d]
  by (simp add: history_kept_def archived_def append_only_def actions_kept_def executions_ok_def numbered_def)

lemma history_kept_save:
  assumes "respectful P" "save P L c e (s, d, n) = (r, s', d', n')"
  shows "history_kept d d'"
proof -
  have o: "append_only d (px_others P n d)" "actions_kept d (px_others P n d)" "numbered d \<Longrightarrow> numbered (px_others P n d)" for n d
    using assms(1) by (auto simp: respectful_def history_kept_def)
  show ?thesis unfolding history_kept_def
    using archive.keeps_save [OF o(1) assms(2)] actions.keeps_save [OF o(2) assms(2)] numbering.keeps_save [OF o(3) _ assms(2)] by blast
qed

interpretation history: table_invariant P L "\<lambda>d. respectful P \<longrightarrow> history_kept d0 d" for P L d0
proof
  show "respectful P \<longrightarrow> history_kept d0 d'"
    if "save P L c e (s, d, n) = (r, s', d', n')" "respectful P \<longrightarrow> history_kept d0 d" for c e s d n r s' d' n'
    using that history_kept_save history_kept_trans by blast
  show "respectful P \<longrightarrow> history_kept d0 (px_others P n d)" if "respectful P \<longrightarrow> history_kept d0 d" for d n
    using that history_kept_trans unfolding respectful_def by blast
  show "respectful P \<longrightarrow> history_kept d0 d'" if "archived d' = archived d" "respectful P \<longrightarrow> history_kept d0 d" for d' d
    using that history_kept_archived history_kept_trans by blast
qed

text \<open>The engine as it runs behind the two routes.\<close>

interpretation service_run: world_invariant "service_env P L X c (\<lambda>_. after_commit P)" "\<lambda>v. respectful P \<longrightarrow> history_kept d0 (sv_store v)"
  for P L X c d0
  by (rule history.env_kept) (rule history.kept_after_commit)

interpretation service_stream: world_invariant "service_env P L X c (after_stream_commit P X)"
  "\<lambda>v. respectful P \<longrightarrow> history_kept d0 (sv_store v)" for P L X c d0
  by (rule history.env_kept) (rule history.kept_after_stream_commit)

end
