(* ===== verification/Run_Cancellation.thy ===== *)
theory Run_Cancellation
  imports Lifecycle_Proofs
begin

text \<open>
  A run whose cancellation is requested stops at its next checkpoint: no save withdraws the
  request, and the checkpoint that finds it reports an error to the engine.
\<close>

section \<open>A save keeps the run\<close>

interpretation run_named: commit_effects "\<lambda>a b. s_run_id (fst b) = s_run_id (fst a)"
  by unfold_locales auto

lemma transaction_run_id:
  assumes "transaction P L c e sid i fingerprint (s, d, n) = (r, s', d', n')"
  shows "s_run_id s' = s_run_id s"
proof -
  let ?R = "\<lambda>a b. s_run_id (fst b) = s_run_id (fst a)"
  have "tkeeps ?R (replay_commit P fingerprint rc)" for rc
    unfolding replay_commit_def
    by (intro run_named.keeps_tbind run_named.keeps_basic run_named.keeps_tmodify) (simp_all add: clear_commit_def)
  then have "tkeeps ?R (transaction P L c e sid i fingerprint)"
    unfolding transaction_def
    by (intro run_named.keeps_tbind run_named.keeps_tgets) (auto intro!: run_named.keeps_basic run_named.keeps_fresh_commit split: option.split)
  from tkeepsD [OF this assms] show ?thesis by simp
qed

lemma run_transaction_run_id:
  assumes "run_transaction P (transaction P L c e sid i fingerprint) (s, d, n) = (r, s', d', n')"
  shows "s_run_id s' = s_run_id s"
proof -
  obtain v s1 d1 n1 where t: "transaction P L c e sid i fingerprint (s, px_others P n d, Suc n) = (v, s1, d1, n1)" by (metis prod_cases4)
  from transaction_run_id [OF t] assms t show ?thesis
    by (auto simp: run_transaction_def commit_written_def commit_known_def clear_commit_def Let_def
        split: option.splits sum.splits verdict.splits prod.splits if_splits)
qed

lemma staged_core_run_id: "staged_core s' = staged_core s \<Longrightarrow> s_run_id s' = s_run_id s"
proof -
  have "s_run_id (staged_core s) = s_run_id s" for s by (simp add: staged_core_def core_def)
  then show "staged_core s' = staged_core s \<Longrightarrow> s_run_id s' = s_run_id s" by metis
qed

lemma save_inner_run_id:
  assumes "save_inner P L c e (s, d, n) = (r, s', d', n')"
  shows "s_run_id s' = s_run_id s"
proof -
  obtain p s1 d1 n1 where p: "prepare_commit P L c e (s, d, n) = (p, s1, d1, n1)" by (metis prod_cases4)
  note same = staged_core_run_id [OF prepare_commit_core [OF p]]
  show ?thesis using assms p same
    by (cases p) (auto simp: save_inner_def tbind_def dest: run_transaction_run_id)
qed

lemma try_commit_run_id: "try_commit P L c e staged k (d, n) = (r, s', d', n') \<Longrightarrow> s_run_id s' = s_run_id staged"
proof (induction k arbitrary: d n)
  case 0
  then show ?case by (auto dest: save_inner_run_id)
next
  case (Suc k)
  obtain r1 s1 d1 n1 where "save_inner P L c e (staged, d, n) = (r1, s1, d1, n1)" by (metis prod_cases4)
  then show ?case using Suc save_inner_run_id by (auto split: sum.splits if_splits)
qed

lemma stage_save_run_id:
  assumes "stage_save P e (s, n) = Inr (staged, n')"
  shows "s_run_id staged = s_run_id s"
proof -
  obtain s1 s2 n2 where st: "stage_diagnostics s = Ok s1" "stage_transcript P (s1, n) = (s2, n2)" "stage_commit P e (s2, n2) = (staged, n')"
    using assms by (cases "stage_diagnostics s") (auto simp: stage_save_def, metis surj_pair)
  have "s_run_id s1 = s_run_id s" using stage_diagnostics_view [OF st(1)] by (simp add: view_def)
  moreover have "s_run_id s2 = s_run_id s1" by (rule staged_core_run_id [OF stage_transcript_core [OF st(2)]])
  moreover have "s_run_id staged = s_run_id s2" using st(3) unfolding stage_commit_def
    by (auto simp: archive_record_def Let_def dest!: stage_summaries_core staged_core_run_id split: option.splits if_splits prod.splits)
  ultimately show ?thesis by simp
qed

lemma save_run_id:
  assumes "save P L c e (s, d, n) = (r, s', d', n')"
  shows "s_run_id s' = s_run_id s"
proof (cases "stage_save P e (s, n)")
  case (Inr st)
  obtain staged n1 where st: "st = (staged, n1)" by fastforce
  obtain r1 s1 d1 n2 where t: "try_commit P L c e staged 2 (d, n1) = (r1, s1, d1, n2)" by (metis prod_cases4)
  have [simp]: "s_run_id (acknowledged x) = s_run_id x" "s_run_id (retained y x) = s_run_id x" for x y
    by (simp_all add: acknowledged_def retained_def Let_def)
  show ?thesis using assms Inr st t try_commit_run_id [OF t] stage_save_run_id [OF Inr [unfolded st]]
    by (auto simp: save_def split: if_splits sum.splits)
qed (use assms in \<open>simp add: save_def\<close>)

section \<open>Requests for cancellation\<close>

definition flagged :: "string \<Rightarrow> store \<Rightarrow> bool" where
  "flagged i d \<longleftrightarrow> is_some_and (find_run i d) rn_cancel_requested"

lemma find_run_map:
  assumes "\<And>r. rn_run_id (f r) = rn_run_id r"
  shows "find (\<lambda>r. rn_run_id r = i) (map f rs) = map_option f (find (\<lambda>r. rn_run_id r = i) rs)"
  using assms by (induction rs) auto

lemma flagged_upsert: "flagged i d \<Longrightarrow> flagged i (upsert_run r d)"
proof -
  have app: "find p (xs @ ys) = (case find p xs of None \<Rightarrow> find p ys | Some x \<Rightarrow> Some x)" for p and xs ys :: "run_row list"
    by (induction xs) auto
  show "flagged i d \<Longrightarrow> flagged i (upsert_run r d)"
    by (auto simp: flagged_def find_run_def upsert_run_def find_run_map app split: option.split)
qed

interpretation flags_one: save_effects "\<lambda>d d'. flagged i d \<longrightarrow> flagged i d'" for i
proof unfold_locales
  show "flagged i (snd (s, d)) \<longrightarrow> flagged i (snd (s, upsert_run r d))" for s d r using flagged_upsert by auto
qed (auto simp: flagged_def find_run_def write_defs)

text \<open>What follows the commit of a checkpoint finds the request.\<close>

definition notices :: "string \<Rightarrow> (json \<Rightarrow> session \<Rightarrow> 'w service \<Rightarrow> unit result \<times> 'w service) \<Rightarrow> bool" where
  "notices i post \<longleftrightarrow>
     (\<forall>e s v r v'. post e s v = (r, v') \<longrightarrow> flagged i (sv_store v) \<longrightarrow> s_run_id s = Some i \<longrightarrow>
        (\<exists>m. r = Err m) \<and> sv_world v' = sv_world v \<and> sv_sent v' = sv_sent v)"

lemma after_commit_notices: "(\<And>n d. flagged i d \<Longrightarrow> flagged i (px_others P n d)) \<Longrightarrow> notices i (\<lambda>_. after_commit P)"
proof -
  assume others: "\<And>n d. flagged i d \<Longrightarrow> flagged i (px_others P n d)"
  show ?thesis unfolding notices_def
  proof (intro allI impI)
    fix s :: session and v :: "'a service" and r v'
    assume run: "after_commit P s v = (r, v')" and f: "flagged i (sv_store v)" and s: "s_run_id s = Some i"
    have "flagged i (px_others P (sv_calls v) (sv_store v))" by (rule others [OF f])
    then show "(\<exists>m. r = Err m) \<and> sv_world v' = sv_world v \<and> sv_sent v' = sv_sent v"
      using run s by (auto simp: after_commit_def on_tables_def fetch_def Let_def flagged_def split: option.splits)
  qed
qed

lemma after_stream_commit_notices:
  "(\<And>n d. flagged i d \<Longrightarrow> flagged i (px_others P n d)) \<Longrightarrow> notices i (after_stream_commit P X)"
proof -
  assume others: "\<And>n d. flagged i d \<Longrightarrow> flagged i (px_others P n d)"
  show ?thesis unfolding notices_def
  proof (intro allI impI)
    fix e and s :: session and v :: "'a service" and r v'
    assume run: "after_stream_commit P X e s v = (r, v')" and f: "flagged i (sv_store v)" and s: "s_run_id s = Some i"
    have "flagged i (px_others P (sv_calls v) (sv_store v))" by (rule others [OF f])
    then show "(\<exists>m. r = Err m) \<and> sv_world v' = sv_world v \<and> sv_sent v' = sv_sent v"
      using run s by (auto simp: after_stream_commit_def on_tables_def fetch_def Let_def flagged_def split: option.splits)
  qed
qed

lemma emit_notices:
  assumes "notices i post" "\<And>n d. flagged i d \<Longrightarrow> flagged i (px_others P n d)" "flagged i (sv_store v)" "s_run_id s = Some i"
    and run: "service_emit P L c post e s v = ((r, ack), v')"
  shows "(\<exists>m. r = Err m) \<and> sv_world v' = sv_world v \<and> sv_sent v' = sv_sent v"
proof -
  obtain r1 s1 d1 n1 where sv: "save P L c e (s\<lparr>s_revision := sv_revision v\<rparr>, sv_store v, sv_calls v) = (r1, s1, d1, n1)" by (metis prod_cases4)
  have id: "s_run_id s1 = Some i" using save_run_id [OF sv] assms(4) by simp
  have d1: "flagged i d1" using flags_one.keeps_save [OF _ sv] assms(2,3) by blast
  show ?thesis
  proof (cases r1)
    case (Inl er)
    then show ?thesis using run sv by (cases er) (auto simp: service_emit_def on_session_def split: option.splits)
  next
    case (Inr x)
    obtain r2 v2 where post: "post e s1 (v\<lparr>sv_store := d1, sv_calls := n1, sv_revision := s_revision s1\<rparr>) = (r2, v2)" by fastforce
    have "(\<exists>m. r2 = Err m) \<and> sv_world v2 = sv_world v \<and> sv_sent v2 = sv_sent v"
      using assms(1) [unfolded notices_def, rule_format, OF post] d1 id by simp
    then show ?thesis using run sv Inr post by (auto simp: service_emit_def on_session_def split: option.splits)
  qed
qed

lemma checkpoint_notices:
  assumes "notices i post" "\<And>n d. flagged i d \<Longrightarrow> flagged i (px_others P n d)" "flagged i (sv_store v)" "s_run_id s = Some i"
    and run: "checkpoint (service_env P L X c post) e (s, v) = (r, s', v')"
  shows "(\<exists>m. r = Err m) \<and> sv_world v' \<in> {sv_world v, snd (env_now (dp_env X) (sv_world v))} \<and> sv_sent v' = sv_sent v"
proof -
  let ?E = "service_env P L X c post"
  obtain r1 s1 v1 where c: "close_run ?E (s, v) = (r1, s1, v1)" by (metis prod_cases3)
  have v1: "sv_store v1 = sv_store v" "sv_sent v1 = sv_sent v" "sv_world v1 \<in> {sv_world v, snd (env_now (dp_env X) (sv_world v))}"
    "s_run_id s1 = s_run_id s" "\<exists>u. r1 = Ok u"
    using c by (auto simp: close_run_def ebind_def eng_simps ewhen_def service_env_def on_world_def close_status_def close_reason_def
        close_ended_def split: if_splits prod.splits)
  show ?thesis
  proof (cases "stage_diagnostics s1")
    case (Inl er)
    then show ?thesis using run c v1 by (auto simp: checkpoint_def ebind_def eng_simps)
  next
    case (Inr s2)
    have id: "s_run_id s2 = Some i" using stage_diagnostics_view [OF Inr] v1(4) assms(4) by (simp add: view_def)
    obtain r3 ack v3 where e: "service_emit P L c post e s2 v1 = ((r3, ack), v3)" by (metis surj_pair)
    have "flagged i (sv_store v1)" using v1(1) assms(3) by simp
    from emit_notices [OF assms(1,2) this id e] obtain m where m: "r3 = Err m" "sv_world v3 = sv_world v1" "sv_sent v3 = sv_sent v1" by blast
    then show ?thesis using run c v1 Inr e
      by (auto simp: checkpoint_def ebind_def eng_simps emit_def service_env_def)
  qed
qed

end
