(* ===== verification/Reconcile.thy ===== *)
theory Reconcile
  imports Lifecycle
begin

text \<open>
  Operator recovery of abandoned runs (\<open>cli\<close> of \<^verbatim>\<open>reconcile.rs\<close>), for the runs of one session, and the
  routes that list its executions, runs and archives and the abandoned runs (\<^verbatim>\<open>main.rs\<close>).  \<open>started\<close> is the order of stored times, \<open>render\<close> the
  object of a row as \<open>to_jsonb\<close> gives it.
\<close>

section \<open>Abandoned runs\<close>

text \<open>A running run is abandoned when the lease of its session is free.\<close>

definition abandoned_rows :: "(string \<Rightarrow> int) \<Rightarrow> int \<Rightarrow> store \<Rightarrow> run_row list" where
  "abandoned_rows started now d =
     (case st_session d of
        None \<Rightarrow> []
      | Some r \<Rightarrow>
          if lease_available now (sr_lease r) then sort_key (\<lambda>x. started (rn_started_at x)) (filter (\<lambda>x. rn_status x = ''running'') (st_runs d))
          else [])"

definition reconcile_route :: string where "reconcile_route = ''/admin/reconcile''"

definition run_ident :: "string \<Rightarrow> string \<Rightarrow> json" where
  "run_ident i rid = JObj [(''session_id'', JStr i), (''run_id'', JStr rid)]"

text \<open>The command that the recovery of a run is recorded under.\<close>

definition reconcile_command :: "px \<Rightarrow> lib \<Rightarrow> string result \<Rightarrow> string \<Rightarrow> string \<Rightarrow> store \<times> nat \<Rightarrow> (sql_error + json) \<times> store \<times> nat" where
  "reconcile_command P L namespace i rid dn =
     (case namespace of
        Inl e \<Rightarrow> (Inl (Protocol e), dn)
      | Inr ns \<Rightarrow>
          (case dn of (d, n) \<Rightarrow>
             (case request_sha256 L reconcile_route (run_ident i rid) of
                Inl e \<Rightarrow> (Inl (Protocol e), d, n + 2)
              | Inr sha \<Rightarrow>
                  (case autocommit P (\<lambda>now d. case insert_started
                            (administrative_row now (px_uuid P n) ns reconcile_route (run_ident i rid) sha i (px_uuid P (Suc n))) (st_commands d) of
                          Inl e \<Rightarrow> Inl (Database_Error e)
                        | Inr rows \<Rightarrow> Inr ((), d\<lparr>st_commands := rows\<rparr>)) (d, n + 2) of
                     (Inl e, dn') \<Rightarrow> (Inl e, dn')
                   | (Inr _, dn') \<Rightarrow>
                       (Inr (JObj [(''id'', JStr (px_uuid P n)), (''owner'', JStr (px_uuid P (Suc n))), (''fence'', json_int 1),
                                   (''namespace'', JStr ns), (''route'', JStr reconcile_route)]), dn')))))"

text \<open>A command that is finished in a transaction of its own.\<close>

definition finish_alone :: "px \<Rightarrow> json \<Rightarrow> nat \<Rightarrow> json \<Rightarrow> store \<times> nat \<Rightarrow> (sql_error + unit) \<times> store \<times> nat" where
  "finish_alone P command status body dn =
     (case in_transaction P (session_default [] [] []) (tbind (tcommand P (\<lambda>now. finish now command status body)) (\<lambda>_. tret (Some ()))) dn of
        (Inl e, dn') \<Rightarrow> (Inl e, dn')
      | (Inr _, dn') \<Rightarrow> (Inr (), dn'))"

definition abandoned_answer :: string where
  "abandoned_answer = ''Abandoned run detected; use /resume to recover committed work.''"

definition reconciled_session :: "json \<Rightarrow> string \<times> int \<Rightarrow> string \<Rightarrow> session \<Rightarrow> session" where
  "reconciled_session command claim now s =
     s\<lparr>s_command := Some command, s_execution_owner := Some (fst claim), s_execution_fence := Some (snd claim),
       s_run_status := ''interrupted'', s_run_ended_at := Some now, s_run_termination_reason := Some ''worker_abandoned'',
       s_status := ''failed'', s_final_answer := Some abandoned_answer,
       s_last_error := Some (JObj [(''code'', JStr ''run_abandoned''), (''message'', JStr abandoned_answer), (''recoverable'', JBool True)])\<rparr>"

definition reconciled_event :: "string \<Rightarrow> json" where
  "reconciled_event rid = JObj [(''type'', JStr ''run_reconciled''), (''run_id'', JStr rid), (''reason'', JStr ''worker_abandoned'')]"

text \<open>The recovery under the lease: \<open>True\<close> when the run was settled here.\<close>

definition settle_abandoned :: "px \<Rightarrow> lib \<Rightarrow> string \<Rightarrow> string \<Rightarrow> json \<Rightarrow> string \<times> int \<Rightarrow> store \<times> nat \<Rightarrow> (sql_error + bool) \<times> store \<times> nat" where
  "settle_abandoned P L i rid command claim dn =
     (case load P L i dn of
        (None, dn1) \<Rightarrow> (Inl (Protocol ''invalid session snapshot''), dn1)
      | (Some (s, c), d1, n1) \<Rightarrow>
          if s_run_id s \<noteq> Some rid \<or> s_run_status s \<noteq> ''running''
          then (case finish_alone P command 200 (JObj [(''message'', JStr ''Lifecycle already settled'')]) (d1, n1) of
                  (Inl e, dn2) \<Rightarrow> (Inl e, dn2)
                | (Inr _, dn2) \<Rightarrow> (Inr False, dn2))
          else (case save P L c (reconciled_event rid) (reconciled_session command claim (px_stamp P n1) s, d1, Suc n1) of
                  (Inl e, _, dn2) \<Rightarrow> (Inl e, dn2)
                | (Inr _, _, dn2) \<Rightarrow> (Inr True, dn2)))"

definition reconcile_run :: "px \<Rightarrow> lib \<Rightarrow> string result \<Rightarrow> string \<Rightarrow> string \<Rightarrow> store \<times> nat \<Rightarrow> (sql_error + bool) \<times> store \<times> nat" where
  "reconcile_run P L namespace i rid dn =
     (case reconcile_command P L namespace i rid dn of
        (Inl e, dn1) \<Rightarrow> (Inl e, dn1)
      | (Inr command, dn1) \<Rightarrow>
          (case claim_lease P dn1 of
             (Inl _, dn2) \<Rightarrow>
               (case finish_alone P command 409 (JObj [(''detail'', JStr ''Session ownership changed'')]) dn2 of
                  (Inl e, dn3) \<Rightarrow> (Inl e, dn3)
                | (Inr _, dn3) \<Rightarrow> (Inr False, dn3))
           | (Inr claim, dn2) \<Rightarrow>
               (case settle_abandoned P L i rid command claim dn2 of
                  (Inl (Panicked m), dn3) \<Rightarrow> (Inl (Panicked m), dn3)
                | (r, dn3) \<Rightarrow> (r, drop_lease P (fst claim) (snd claim) dn3))))"

fun reconcile_all :: "px \<Rightarrow> lib \<Rightarrow> string result \<Rightarrow> string \<Rightarrow> run_row list \<Rightarrow> json list \<Rightarrow> store \<times> nat \<Rightarrow> (sql_error + json) \<times> store \<times> nat" where
  "reconcile_all P L namespace i [] completed dn = (Inr (JObj [(''reconciled'', JArr completed)]), dn)"
| "reconcile_all P L namespace i (r # rs) completed dn =
     (case reconcile_run P L namespace i (rn_run_id r) dn of
        (Inl e, dn') \<Rightarrow> (Inl e, dn')
      | (Inr done_here, dn') \<Rightarrow>
          reconcile_all P L namespace i rs (if done_here then completed @ [run_ident i (rn_run_id r)] else completed) dn')"

fun limit_option :: "string list \<Rightarrow> string option" where
  "limit_option (a # b # rest) = (if a = ''--limit'' then Some b else limit_option (b # rest))"
| "limit_option _ = None"

definition reconcile_cli ::
  "px \<Rightarrow> lib \<Rightarrow> string result \<Rightarrow> (string \<Rightarrow> int) \<Rightarrow> string \<Rightarrow> string list \<Rightarrow> store \<times> nat \<Rightarrow> (sql_error + json) \<times> store \<times> nat" where
  "reconcile_cli P L namespace started i args dn =
     (case (case limit_option args of None \<Rightarrow> Some 100 | Some raw \<Rightarrow> parse_int in_i64 raw) of
        None \<Rightarrow> (Inl (Protocol ''invalid digit found in string''), dn)
      | Some k \<Rightarrow>
          if k < 1 \<or> 1000 < k then (Inl (Protocol ''limit must be between 1 and 1000''), dn)
          else (case fetch P (\<lambda>now d. Inr (take (nat k) (abandoned_rows started now d))) dn of
                  (Inl e, dn') \<Rightarrow> (Inl e, dn')
                | (Inr rows, dn') \<Rightarrow> reconcile_all P L namespace i rows [] dn'))"

section \<open>Listings\<close>

definition list_limit :: "query \<Rightarrow> nat option" where
  "list_limit q =
     (case map_of q ''limit'' of
        None \<Rightarrow> Some 100
      | Some raw \<Rightarrow> map_option nat (opt_filter (\<lambda>x. 1 \<le> x \<and> x \<le> 1000) (parse_usize raw)))"

definition bad_limit :: reply where "bad_limit = detail 422 ''limit must be between 1 and 1000''"

text \<open>
  The three listings of a session differ in their query alone: limit and cursor are checked, the
  session must load, and the cursor of the answer is the key of its last row.
\<close>

definition list_route ::
  "px \<Rightarrow> lib \<Rightarrow> string \<Rightarrow> query \<Rightarrow> string \<Rightarrow> string \<Rightarrow> string \<Rightarrow> (string option \<Rightarrow> nat \<Rightarrow> store \<Rightarrow> json list) \<Rightarrow> handler" where
  "list_route P L i q field key bad rows dn =
     (case list_limit q of
        None \<Rightarrow> (Done bad_limit, dn)
      | Some k \<Rightarrow>
          if map_of q ''after'' \<noteq> None \<and> Option.bind (map_of q ''after'') (px_parse_uuid P) = None then (Done (detail 422 bad), dn)
          else (case load P L i dn of
                  (None, dn') \<Rightarrow> (Done not_found, dn')
                | (Some _, dn') \<Rightarrow>
                    (case fetch P (\<lambda>now d. Inr (rows (Option.bind (map_of q ''after'') (px_parse_uuid P)) k d)) dn' of
                       (Inl e, dn'') \<Rightarrow> (Done (internal P e), dn'')
                     | (Inr found, dn'') \<Rightarrow>
                         (let cursor = (if found = [] then None else as_str (idx (last found) key))
                          in (Done (json_reply 200 (JObj
                                [(''session_id'', JStr i), (field, JArr found),
                                 (''next_after'', json_opt (if cursor = None then map_of q ''after'' else cursor))])), dn'')))))"

definition execution_entry :: "(json \<Rightarrow> json) \<Rightarrow> json \<Rightarrow> json" where
  "execution_entry render e =
     (case render e of JObj kvs \<Rightarrow> JObj (filter (\<lambda>kv. fst kv \<noteq> ''payload'' \<and> fst kv \<noteq> ''owner'') kvs) | v \<Rightarrow> v)"

definition execution_id :: "json \<Rightarrow> string" where "execution_id e = unwrap_or [] (as_str (idx e ''execution_id''))"

definition execution_rows :: "(json \<Rightarrow> json) \<Rightarrow> string option \<Rightarrow> nat \<Rightarrow> store \<Rightarrow> json list" where
  "execution_rows render after k d =
     map (execution_entry render)
       (take k (sort_key execution_id (filter (\<lambda>e. is_none_or after (\<lambda>a. a < execution_id e)) (st_executions d))))"

definition executions_route :: "(json \<Rightarrow> json) \<Rightarrow> px \<Rightarrow> lib \<Rightarrow> string \<Rightarrow> query \<Rightarrow> handler" where
  "executions_route render P L i q =
     list_route P L i q ''executions'' ''execution_id'' ''after must be an execution UUID'' (execution_rows render)"

definition run_key :: "(string \<Rightarrow> int) \<Rightarrow> run_row \<Rightarrow> int \<times> string" where
  "run_key started r = (started (rn_started_at r), rn_run_id r)"

text \<open>An unknown cursor compares with nothing.\<close>

definition run_rows :: "(string \<Rightarrow> int) \<Rightarrow> (run_row \<Rightarrow> json) \<Rightarrow> string option \<Rightarrow> nat \<Rightarrow> store \<Rightarrow> json list" where
  "run_rows started render after k d =
     map (\<lambda>r. case render r of JObj kvs \<Rightarrow> JObj (filter (\<lambda>kv. fst kv \<noteq> ''owner'') kvs) | v \<Rightarrow> v)
       (take k (sort_key (run_key started)
          (filter (\<lambda>r. is_none_or after (\<lambda>a. is_some_and (find_run a d) (\<lambda>x. run_key started x < run_key started r))) (st_runs d))))"

definition runs_route :: "(string \<Rightarrow> int) \<Rightarrow> (run_row \<Rightarrow> json) \<Rightarrow> px \<Rightarrow> lib \<Rightarrow> string \<Rightarrow> query \<Rightarrow> handler" where
  "runs_route started render P L i q = list_route P L i q ''runs'' ''run_id'' ''after must be a run UUID'' (run_rows started render)"

definition archive_entry :: "(json \<Rightarrow> string) \<Rightarrow> json \<Rightarrow> json" where
  "archive_entry created m =
     JObj [(''archive_id'', idx m ''archive_id''), (''snapshot_revision'', idx m ''snapshot_revision''), (''sha256'', idx m ''sha256''),
           (''manifest'', m), (''created_at'', JStr (created m))]"

definition archive_key :: "json \<Rightarrow> string" where "archive_key m = unwrap_or [] (as_str (idx m ''archive_id''))"

definition archive_rows :: "(json \<Rightarrow> string) \<Rightarrow> string option \<Rightarrow> nat \<Rightarrow> store \<Rightarrow> json list" where
  "archive_rows created after k d =
     map (archive_entry created)
       (take k (sort_key archive_key (filter (\<lambda>m. is_none_or after (\<lambda>a. a < archive_key m)) (st_archives d))))"

definition archives_route :: "(json \<Rightarrow> string) \<Rightarrow> px \<Rightarrow> lib \<Rightarrow> string \<Rightarrow> query \<Rightarrow> handler" where
  "archives_route created P L i q =
     list_route P L i q ''archives'' ''archive_id'' ''after must be an archive UUID'' (archive_rows created)"

definition abandoned_entry :: "string \<Rightarrow> run_row \<Rightarrow> json" where
  "abandoned_entry i r =
     JObj [(''session_id'', JStr i), (''run_id'', JStr (rn_run_id r)), (''status'', JStr (rn_status r)),
           (''last_decision_step'', json_int (rn_last_decision_step r))]"

definition abandoned_route :: "(string \<Rightarrow> int) \<Rightarrow> px \<Rightarrow> string \<Rightarrow> query \<Rightarrow> handler" where
  "abandoned_route started P i q dn =
     (case list_limit q of
        None \<Rightarrow> (Done bad_limit, dn)
      | Some k \<Rightarrow>
          (case fetch P (\<lambda>now d. Inr (take k (abandoned_rows started now d))) dn of
             (Inl e, dn') \<Rightarrow> (Done (internal P e), dn')
           | (Inr rows, dn') \<Rightarrow> (Done (json_reply 200 (JObj [(''runs'', JArr (map (abandoned_entry i) rows))])), dn')))"

end
