(* ===== verification/Archives.thy ===== *)
theory Archives
  imports Lifecycle
begin

text \<open>
  Archives of a session (\<open>verify\<close>, \<open>export\<close> and \<open>cli\<close> of \<^verbatim>\<open>retention.rs\<close>).  An archive is a file of lines: a
  header, every row of every table of the session, and a manifest with the digests, counts and
  watermarks of the rows.  Pruning takes a verified archive and hands its manifest to a commit.

  Files are a map from paths to contents.  \<open>ax_rows\<close> are the rows of a table as \<open>to_jsonb\<close> gives
  them, in the order of the query, \<open>ax_line\<close> the decoding of a line, \<open>ax_path\<close> the canonical path, \<open>ax_write\<close> a failure
  of the n-th call, with the number of bytes that are written all the same, and \<open>ax_body\<close> the
  value that is read back from the body of a reply.
\<close>

type_synonym disk = "string \<Rightarrow> string option"

record ax =
  ax_rows :: "store \<Rightarrow> string \<Rightarrow> json list"
  ax_line :: "string \<Rightarrow> string result"
  ax_path :: "string \<Rightarrow> string result"
  ax_open :: "nat \<Rightarrow> string option"
  ax_write :: "nat \<Rightarrow> (string \<times> nat) option"
  ax_body :: "json \<Rightarrow> json result"
  ax_namespace :: "string result"

definition archive_tables :: "string list" where
  "archive_tables =
     [''agent_sessions'', ''agent_session_context'', ''agent_session_transcript'', ''agent_session_events'', ''agent_session_diagnostics'',
      ''agent_runs'', ''agent_tool_executions'', ''agent_session_calls'', ''agent_archive_receipts'', ''agent_commands'',
      ''agent_commit_receipts'', ''agent_action_attempts'']"

section \<open>Verification\<close>

definition archive_format :: string where "archive_format = ''sda-archive-2''"

definition check_header :: "px \<Rightarrow> json \<Rightarrow> unit result" where
  "check_header P header =
     rbind (reject_if (\<not> json_eq (idx header ''format'') (JStr archive_format) \<or> map_option length (as_object header) \<noteq> Some 4
                       \<or> unwrap_or 0 (as_i64 (idx header ''snapshot_revision'')) < 1) ''invalid archive header'')
       (\<lambda>_. rbind (ok_or ''missing archive UUID'' (as_str (idx header ''archive_id'')))
          (\<lambda>a. rbind (ok_or ''invalid UUID'' (px_parse_uuid P a))
             (\<lambda>_. rbind (ok_or ''missing archive UUID'' (as_str (idx header ''session_id'')))
                (\<lambda>b. rbind (ok_or ''invalid UUID'' (px_parse_uuid P b)) (\<lambda>_. Ok ())))))"

text \<open>The texts that have been fed to the digests, the counts and the watermarks.\<close>

record scan =
  sc_text :: string
  sc_tables :: "string \<Rightarrow> string"
  sc_counts :: "string \<Rightarrow> int"
  sc_marks :: json
  sc_manifest :: "json option"

definition scan_start :: "lib \<Rightarrow> json \<Rightarrow> scan" where
  "scan_start L header =
     \<lparr>sc_text = archive_line L header, sc_tables = (\<lambda>_. []), sc_counts = (\<lambda>_. 0),
      sc_marks = JObj [(''events'', json_int 0), (''diagnostics'', JObj [])], sc_manifest = None\<rparr>"

definition mark_event :: "json \<Rightarrow> json \<Rightarrow> json result" where
  "mark_event row marks =
     rbind (ok_or ''invalid event id'' (as_i64 (idx row ''event_id'')))
       (\<lambda>i. Ok (set_idx marks ''events'' (json_int (max (unwrap_or 0 (as_i64 (idx marks ''events''))) i))))"

definition mark_diagnostic :: "json \<Rightarrow> json \<Rightarrow> json result" where
  "mark_diagnostic row marks =
     rbind (ok_or ''missing family'' (as_str (idx row ''family'')))
       (\<lambda>f. rbind (reject_if (f \<notin> set families) ''invalid diagnostic family'')
          (\<lambda>_. rbind (ok_or ''invalid ordinal'' (as_i64 (idx row ''ordinal'')))
             (\<lambda>i. let all = idx marks ''diagnostics''
                  in Ok (set_idx marks ''diagnostics'' (set_idx all f (json_int (max (unwrap_or 0 (as_i64 (idx all f))) i)))))))"

definition scan_row :: "lib \<Rightarrow> json \<Rightarrow> json \<Rightarrow> string \<Rightarrow> scan \<Rightarrow> scan result" where
  "scan_row L header v table sc =
     rbind (reject_if (table \<notin> set archive_tables \<or> \<not> json_eq (idx (idx v ''row'') ''session_id'') (idx header ''session_id'')
                       \<or> map_option length (as_object v) \<noteq> Some 2) ''unknown table or cross-session archive row'')
       (\<lambda>_. let row = idx v ''row''; text = archive_line L v;
                sc' = sc\<lparr>sc_text := sc_text sc @ text, sc_tables := (sc_tables sc)(table := sc_tables sc table @ text),
                         sc_counts := (sc_counts sc)(table := sc_counts sc table + 1)\<rparr>
            in rbind (if table = ''agent_session_events'' then mark_event row (sc_marks sc)
                      else if table = ''agent_session_diagnostics'' then mark_diagnostic row (sc_marks sc) else Ok (sc_marks sc))
                 (\<lambda>marks. Ok (sc'\<lparr>sc_marks := marks\<rparr>)))"

definition scan_line :: "ax \<Rightarrow> lib \<Rightarrow> json \<Rightarrow> string \<Rightarrow> scan \<Rightarrow> scan result" where
  "scan_line A L header raw sc =
     rbind (ax_line A raw)
       (\<lambda>text. rbind (parse_strict_json L text)
          (\<lambda>v. if sc_manifest sc \<noteq> None then Err ''trailing archive data''
               else (case get v ''manifest'' of
                       Some m \<Rightarrow> Ok (sc\<lparr>sc_manifest := Some m\<rparr>)
                     | None \<Rightarrow> rbind (ok_or ''missing table'' (as_str (idx v ''table''))) (\<lambda>table. scan_row L header v table sc))))"

fun scan_lines :: "ax \<Rightarrow> lib \<Rightarrow> json \<Rightarrow> string list \<Rightarrow> scan \<Rightarrow> scan result" where
  "scan_lines A L header [] sc = Ok sc"
| "scan_lines A L header (raw # raws) sc = rbind (scan_line A L header raw sc) (scan_lines A L header raws)"

definition manifest_matches :: "lib \<Rightarrow> scan \<Rightarrow> json \<Rightarrow> bool" where
  "manifest_matches L sc m \<longleftrightarrow>
     json_eq (idx m ''sha256'') (JStr (sha256_hex L (sc_text sc)))
     \<and> json_eq (idx m ''counts'') (JObj (map (\<lambda>t. (t, json_int (sc_counts sc t))) archive_tables))
     \<and> json_eq (idx m ''table_sha256'') (JObj (map (\<lambda>t. (t, JStr (sha256_hex L (sc_tables sc t)))) archive_tables))
     \<and> json_eq (idx m ''watermarks'') (sc_marks sc)"

definition verify :: "px \<Rightarrow> ax \<Rightarrow> lib \<Rightarrow> disk \<Rightarrow> string \<Rightarrow> json result" where
  "verify P A L k path =
     rbind (ok_or ''no such file'' (k path))
       (\<lambda>content. case lines content of
          [] \<Rightarrow> Err ''empty archive''
        | first # raws \<Rightarrow>
            rbind (ax_line A first)
              (\<lambda>text. rbind (parse_strict_json L text)
                 (\<lambda>header. rbind (check_header P header)
                    (\<lambda>_. rbind (scan_lines A L header raws (scan_start L header))
                       (\<lambda>sc. rbind (ok_or ''archive manifest missing'' (sc_manifest sc))
                          (\<lambda>m. rbind (reject_if (\<not> manifest_matches L sc m) ''archive manifest mismatch'')
                             (\<lambda>_. rbind (ok_or ''invalid manifest'' (as_object m))
                                (\<lambda>fields. rbind (ax_path A path)
                                   (\<lambda>p. Ok (set_idx (foldl (\<lambda>r kv. set_idx r (fst kv) (snd kv)) header fields)
                                               ''archive_path'' (JStr p)))))))))))"

section \<open>Operations on files and tables\<close>

type_synonym 'a op = "disk \<times> store \<times> nat \<Rightarrow> (sql_error + 'a) \<times> disk \<times> store \<times> nat"

definition oret :: "'a \<Rightarrow> 'a op" where "oret x = (\<lambda>st. (Inr x, st))"

definition ofail :: "sql_error \<Rightarrow> 'a op" where "ofail e = (\<lambda>st. (Inl e, st))"

definition olift :: "sql_error + 'a \<Rightarrow> 'a op" where "olift r = (\<lambda>st. (r, st))"

definition op_bind :: "'a op \<Rightarrow> ('a \<Rightarrow> 'b op) \<Rightarrow> 'b op" where
  "op_bind m f = (\<lambda>st. case m st of (Inl e, st') \<Rightarrow> (Inl e, st') | (Inr x, st') \<Rightarrow> f x st')"

definition on_db :: "(store \<times> nat \<Rightarrow> (sql_error + 'a) \<times> store \<times> nat) \<Rightarrow> 'a op" where
  "on_db f = (\<lambda>(k, dn). case f dn of (r, dn') \<Rightarrow> (r, k, dn'))"

text \<open>The transaction of an export reads one state of the tables.\<close>

definition begin_read :: "px \<Rightarrow> unit op" where
  "begin_read P = (\<lambda>(k, d, n). (case px_fault P n of None \<Rightarrow> Inr () | Some e \<Rightarrow> Inl e, k, px_others P n d, Suc n))"

definition read_tables :: "px \<Rightarrow> (store \<Rightarrow> sql_error + 'a) \<Rightarrow> 'a op" where
  "read_tables P f = (\<lambda>(k, d, n). (case px_fault P n of None \<Rightarrow> f d | Some e \<Rightarrow> Inl e, k, d, Suc n))"

definition draw :: "px \<Rightarrow> string op" where
  "draw P = (\<lambda>(k, d, n). (Inr (px_uuid P n), k, d, Suc n))"

definition create_file :: "ax \<Rightarrow> string \<Rightarrow> unit op" where
  "create_file A path =
     (\<lambda>(k, d, n). case ax_open A n of
        Some e \<Rightarrow> (Inl (Protocol e), k, d, Suc n)
      | None \<Rightarrow> if k path \<noteq> None then (Inl (Protocol ''File exists''), k, d, Suc n) else (Inr (), k(path \<mapsto> []), d, Suc n))"

definition write_all :: "ax \<Rightarrow> string \<Rightarrow> string \<Rightarrow> unit op" where
  "write_all A path text =
     (\<lambda>(k, d, n). case ax_write A n of
        None \<Rightarrow> (Inr (), k(path \<mapsto> unwrap_or [] (k path) @ text), d, Suc n)
      | Some (e, written) \<Rightarrow> (Inl (Protocol e), k(path \<mapsto> unwrap_or [] (k path) @ take written text), d, Suc n))"

section \<open>Export\<close>

record tally =
  ty_text :: string
  ty_counts :: "(string \<times> json) list"
  ty_hashes :: "(string \<times> json) list"
  ty_marks :: json

definition row_line :: "string \<Rightarrow> json \<Rightarrow> json" where
  "row_line table row = JObj [(''table'', JStr table), (''row'', row)]"

definition mark_row :: "string \<Rightarrow> json \<Rightarrow> json \<Rightarrow> sql_error + json" where
  "mark_row table row marks =
     (if table = ''agent_session_events'' then Inr (set_idx marks ''events'' (idx row ''event_id''))
      else if table = ''agent_session_diagnostics''
      then (case as_str (idx row ''family'') of
              None \<Rightarrow> Inl (Panicked ''family'')
            | Some f \<Rightarrow> Inr (set_idx marks ''diagnostics'' (set_idx (idx marks ''diagnostics'') f (idx row ''ordinal''))))
      else Inr marks)"

fun export_rows :: "ax \<Rightarrow> lib \<Rightarrow> string \<Rightarrow> string \<Rightarrow> json list \<Rightarrow> string \<times> string \<times> json \<Rightarrow> (string \<times> string \<times> json) op" where
  "export_rows A L path table [] acc = oret acc"
| "export_rows A L path table (row # rows) (text, hashed, marks) =
     op_bind (olift (mark_row table row marks))
       (\<lambda>marks'. let t = archive_line L (row_line table row)
                 in op_bind (write_all A path t) (\<lambda>_. export_rows A L path table rows (text @ t, hashed @ t, marks')))"

definition export_table :: "px \<Rightarrow> ax \<Rightarrow> lib \<Rightarrow> string \<Rightarrow> string \<Rightarrow> tally \<Rightarrow> tally op" where
  "export_table P A L path table ty =
     op_bind (read_tables P (\<lambda>d. Inr (ax_rows A d table)))
       (\<lambda>rows. op_bind (export_rows A L path table rows (ty_text ty, [], ty_marks ty))
          (\<lambda>(text, hashed, marks).
             oret \<lparr>ty_text = text, ty_counts = obj_insert table (json_int (int (length rows))) (ty_counts ty),
                   ty_hashes = obj_insert table (JStr (sha256_hex L hashed)) (ty_hashes ty), ty_marks = marks\<rparr>))"

fun export_tables :: "px \<Rightarrow> ax \<Rightarrow> lib \<Rightarrow> string \<Rightarrow> string list \<Rightarrow> tally \<Rightarrow> tally op" where
  "export_tables P A L path [] ty = oret ty"
| "export_tables P A L path (t # ts) ty = op_bind (export_table P A L path t ty) (export_tables P A L path ts)"

definition archive_header :: "string \<Rightarrow> string \<Rightarrow> int \<Rightarrow> json" where
  "archive_header aid i revision =
     JObj [(''format'', JStr archive_format), (''archive_id'', JStr aid), (''session_id'', JStr i),
           (''snapshot_revision'', json_int revision)]"

definition manifest_of :: "lib \<Rightarrow> tally \<Rightarrow> json" where
  "manifest_of L ty =
     JObj [(''counts'', JObj (ty_counts ty)), (''table_sha256'', JObj (ty_hashes ty)), (''watermarks'', ty_marks ty),
           (''sha256'', JStr (sha256_hex L (ty_text ty)))]"

definition tally_start :: "string \<Rightarrow> tally" where
  "tally_start text =
     \<lparr>ty_text = text, ty_counts = [], ty_hashes = [], ty_marks = JObj [(''events'', json_int 0), (''diagnostics'', JObj [])]\<rparr>"

definition export :: "px \<Rightarrow> ax \<Rightarrow> lib \<Rightarrow> string \<Rightarrow> string \<Rightarrow> json op" where
  "export P A L i path =
     op_bind (begin_read P)
       (\<lambda>_. op_bind (read_tables P (\<lambda>d. Inr ()))
          (\<lambda>_. op_bind (read_tables P (\<lambda>d. Inr ()))
             (\<lambda>_. op_bind (read_tables P (\<lambda>d. case st_session d of None \<Rightarrow> Inl Row_Not_Found | Some r \<Rightarrow> Inr (sr_revision r)))
                (\<lambda>revision. op_bind (create_file A path)
                   (\<lambda>_. op_bind (draw P)
                      (\<lambda>aid. let text = archive_line L (archive_header aid i revision)
                         in op_bind (write_all A path text)
                              (\<lambda>_. op_bind (export_tables P A L path archive_tables (tally_start text))
                                 (\<lambda>ty. op_bind (write_all A path (archive_line L (JObj [(''manifest'', manifest_of L ty)])))
                                    (\<lambda>_. op_bind (write_all A path [])
                                       (\<lambda>_. op_bind (read_tables P (\<lambda>d. Inr ()))
                                          (\<lambda>_ st. (protocol (verify P A L (fst st) path), st))))))))))))"

section \<open>Pruning\<close>

fun check_receipts :: "px \<Rightarrow> ax \<Rightarrow> lib \<Rightarrow> disk \<Rightarrow> json list \<Rightarrow> sql_error + unit" where
  "check_receipts P A L k [] = Inr ()"
| "check_receipts P A L k (receipt # rest) =
     (case as_str (idx receipt ''archive_path'') of
        None \<Rightarrow> Inl (Protocol ''archive dependency path missing'')
      | Some path \<Rightarrow>
          (case verify P A L k path of
             Inl e \<Rightarrow> Inl (Protocol e)
           | Inr prior \<Rightarrow>
               if json_eq (idx prior ''sha256'') (json_opt (as_str (idx receipt ''sha256''))) then check_receipts P A L k rest
               else Inl (Protocol ''prior archive dependency is corrupt'')))"

definition prune_route :: string where "prune_route = ''/admin/retention/prune''"

definition prune_input :: "string \<Rightarrow> json \<Rightarrow> json" where
  "prune_input i manifest = JObj [(''session_id'', JStr i), (''archive_id'', idx manifest ''archive_id'')]"

definition prune_row :: "int \<Rightarrow> string \<Rightarrow> string \<Rightarrow> json \<Rightarrow> string \<Rightarrow> string \<Rightarrow> string \<Rightarrow> command_row" where
  "prune_row now command namespace input sha i owner =
     (new_row command namespace command prune_route (JObj [(''input'', input), (''admission'', JObj [])]) sha (Some i))
       \<lparr>cm_status := ''started'', cm_owner := Some owner, cm_fence := 1, cm_expires_at := Some (now + 300 * 1000000)\<rparr>"

definition insert_prune :: "command_row \<Rightarrow> store \<Rightarrow> sql_error + unit \<times> store" where
  "insert_prune row d =
     (case insert_started row (st_commands d) of Inl e \<Rightarrow> Inl (Database_Error e) | Inr rows \<Rightarrow> Inr ((), d\<lparr>st_commands := rows\<rparr>))"

definition pruned_session :: "string \<Rightarrow> string \<Rightarrow> string \<Rightarrow> string \<times> int \<Rightarrow> json \<Rightarrow> session \<Rightarrow> session" where
  "pruned_session command owner namespace claim item s =
     s\<lparr>s_command := Some (JObj [(''id'', JStr command), (''owner'', JStr owner), (''fence'', json_int 1), (''namespace'', JStr namespace),
                              (''route'', JStr prune_route)]),
       s_execution_owner := Some (fst claim), s_execution_fence := Some (snd claim), s_retention_pending := Some item,
       s_last_archive_id := as_str (idx item ''archive_id'')\<rparr>"

definition archived_event :: "json \<Rightarrow> json" where
  "archived_event item = JObj [(''type'', JStr ''telemetry_archived''), (''archive_id'', idx item ''archive_id'')]"

text \<open>The commit that prunes, under a lease that is released whatever its outcome.\<close>

definition prune_commit :: "px \<Rightarrow> lib \<Rightarrow> string \<Rightarrow> json \<Rightarrow> json \<Rightarrow> string \<times> int \<Rightarrow> session \<Rightarrow> json op" where
  "prune_commit P L i c item claim s =
     on_db (\<lambda>(d, n). case save P L c (archived_event item) (s, d, n) of
        (Inl (Panicked m), _, dn) \<Rightarrow> (Inl (Panicked m), dn)
      | (r, s', dn) \<Rightarrow>
          (case r of
             Inl e \<Rightarrow> Inl e
           | Inr _ \<Rightarrow> Inr (JObj [(''session_id'', JStr i), (''revision'', json_int (s_revision s')),
                               (''archive_id'', json_opt (s_last_archive_id s'))]),
           drop_lease P (fst claim) (snd claim) dn))"

definition prune_admit :: "px \<Rightarrow> ax \<Rightarrow> lib \<Rightarrow> string \<Rightarrow> json \<Rightarrow> int \<Rightarrow> int \<Rightarrow> session \<times> json \<Rightarrow> json op" where
  "prune_admit P A L i manifest keep_diagnostics keep_events sc =
     op_bind (olift (protocol (ax_namespace A)))
       (\<lambda>namespace. op_bind (draw P)
          (\<lambda>command. op_bind (draw P)
             (\<lambda>owner. op_bind (olift (protocol (request_sha256 L prune_route (prune_input i manifest))))
                (\<lambda>sha. op_bind (on_db (autocommit P (\<lambda>now. insert_prune (prune_row now command namespace (prune_input i manifest) sha i owner))))
                   (\<lambda>_. op_bind (on_db (claim_lease P))
                      (\<lambda>claim.
                         let item = set_idx (set_idx manifest ''keep_diagnostics'' (json_int keep_diagnostics)) ''keep_events'' (json_int keep_events)
                         in prune_commit P L i (snd sc) item claim (pruned_session command owner namespace claim item (fst sc))))))))"

type_synonym args = "string list"

fun option_of :: "args \<Rightarrow> string \<Rightarrow> string option" where
  "option_of (a # b # rest) name = (if a = name then Some b else option_of (b # rest) name)"
| "option_of _ name = None"

definition prune_telemetry :: "px \<Rightarrow> ax \<Rightarrow> lib \<Rightarrow> args \<Rightarrow> string \<Rightarrow> string \<Rightarrow> session \<times> json \<Rightarrow> json op" where
  "prune_telemetry P A L args i path sc =
     op_bind (\<lambda>st. (protocol (verify P A L (fst st) path), st))
       (\<lambda>manifest.
          if \<not> json_eq (idx manifest ''session_id'') (JStr i)
             \<or> \<not> json_eq (idx manifest ''snapshot_revision'') (json_int (s_revision (fst sc)))
          then ofail (Protocol ''stale or wrong-session export; export again'')
          else (case (parse_int in_i64 (unwrap_or ''32'' (option_of args ''--keep-diagnostics'')),
                      parse_int in_i64 (unwrap_or ''100'' (option_of args ''--keep-events''))) of
                  (Some kd, Some ke) \<Rightarrow>
                    if kd < 32 \<or> ke < 1 then ofail (Protocol ''retain at least 32 diagnostics and one event'')
                    else op_bind (on_db (fetch P (\<lambda>now d. Inr (st_archives d))))
                           (\<lambda>receipts. op_bind (\<lambda>st. (check_receipts P A L (fst st) receipts, st))
                              (\<lambda>_. prune_admit P A L i manifest kd ke sc))
                | _ \<Rightarrow> ofail (Protocol ''invalid digit found in string'')))"

section \<open>The command line\<close>

definition retention_plan_cli :: "px \<Rightarrow> ax \<Rightarrow> lib \<Rightarrow> string \<Rightarrow> json op" where
  "retention_plan_cli P A L i =
     on_db (\<lambda>dn. case retention_plan_route P L i dn of
        (Panic m, dn') \<Rightarrow> (Inl (Panicked m), dn')
      | (Done reply, dn') \<Rightarrow>
          (if rp_status reply \<noteq> 200 then Inl (Protocol ''retention plan unavailable'')
           else (case rp_body reply of
                   Json_Body v \<Rightarrow> protocol (ax_body A v)
                 | _ \<Rightarrow> Inl (Protocol ''EOF while parsing a value'')), dn'))"

definition retention_cli :: "px \<Rightarrow> ax \<Rightarrow> lib \<Rightarrow> args \<Rightarrow> json op" where
  "retention_cli P A L args =
     (case args of
        [] \<Rightarrow> ofail (Protocol ''retention {plan|export|verify|prune-telemetry}'')
      | action # _ \<Rightarrow>
          (let path = unwrap_or [] (option_of args ''--archive'')
           in if action = ''verify'' then (\<lambda>st. (protocol (verify P A L (fst st) path), st))
              else (case px_parse_uuid P (unwrap_or [] (option_of args ''--session-id'')) of
                      None \<Rightarrow> ofail (Protocol ''invalid UUID'')
                    | Some i \<Rightarrow>
                        if action = ''export'' then export P A L i path
                        else op_bind (on_db (\<lambda>dn. case load P L i dn of
                                       (None, dn') \<Rightarrow> (Inl (Protocol ''invalid session snapshot''), dn')
                                     | (Some sc, dn') \<Rightarrow> (Inr sc, dn')))
                               (\<lambda>sc. if action = ''plan'' then retention_plan_cli P A L i
                                     else if action \<noteq> ''prune-telemetry'' then ofail (Protocol ''unknown retention action'')
                                     else prune_telemetry P A L args i path sc))))"

end
