(* ===== verification/Operator_Proofs.thy ===== *)
theory Operator_Proofs
  imports Lifecycle_Proofs Reconcile Archives
begin

text \<open>
  The commands of operators keep what requests keep, and recovery leaves live runs alone.  \<open>served\<close> is
  every history of the service, whoever asks.
\<close>

section \<open>Operations of operators\<close>

definition op_kept :: "(store \<Rightarrow> bool) \<Rightarrow> 'a op \<Rightarrow> bool" where
  "op_kept J m \<longleftrightarrow> (\<forall>k d n r k' d' n'. m (k, d, n) = (r, k', d', n') \<longrightarrow> J d \<longrightarrow> J d')"

lemma op_keptD: "op_kept J m \<Longrightarrow> m (k, d, n) = (r, k', d', n') \<Longrightarrow> J d \<Longrightarrow> J d'"
  unfolding op_kept_def by blast

lemma op_kept_bind:
  assumes "op_kept J m" "\<And>x. op_kept J (f x)"
  shows "op_kept J (op_bind m f)"
  unfolding op_kept_def
proof (intro allI impI)
  fix k d n r k' d' n'
  assume run: "op_bind m f (k, d, n) = (r, k', d', n')" and ok: "J d"
  obtain r1 k1 d1 n1 where one: "m (k, d, n) = (r1, k1, d1, n1)" by (metis prod_cases4)
  show "J d'"
    using run one op_keptD [OF assms(1) one ok] op_keptD [OF assms(2)]
    by (cases r1) (auto simp: op_bind_def)
qed

lemma op_kept_pure:
  "op_kept J (oret x)" "op_kept J (ofail e)" "op_kept J (olift r)" "op_kept J (draw P)" "op_kept J (\<lambda>st. (h st, st))"
  "op_kept J (read_tables P f)" "op_kept J (create_file A path)" "op_kept J (write_all A path t)"
  by (auto simp: op_kept_def oret_def ofail_def olift_def draw_def read_tables_def create_file_def write_all_def split: option.splits if_splits)

lemma op_kept_on_db: "tables_kept J f \<Longrightarrow> op_kept J (on_db f)"
  by (fastforce simp: op_kept_def on_db_def dest: tables_keptD split: prod.splits)

lemma op_kept_export_rows: "op_kept J (export_rows A L path table rows acc)"
  by (induction A L path table rows acc rule: export_rows.induct) (auto simp: Let_def intro!: op_kept_bind op_kept_pure)

lemma op_kept_export_tables: "op_kept J (export_tables P A L path ts ty)"
  by (induction P A L path ts ty rule: export_tables.induct)
    (auto simp: export_table_def intro!: op_kept_bind op_kept_pure op_kept_export_rows split: prod.split)

context table_invariant
begin

lemma kept_drop: "J d \<Longrightarrow> drop_lease P owner fence (d, n) = (d', n') \<Longrightarrow> J d'"
proof -
  assume ok: "J d" and run: "drop_lease P owner fence (d, n) = (d', n')"
  let ?f = "\<lambda>(now::int) d0. Inr ((), set_lease (release_execution_lease owner fence (map_option sr_lease (st_session d0))) d0) :: sql_error + unit \<times> store"
  obtain r where r: "autocommit P ?f (d, n) = (r, d', n')" using run by (cases "autocommit P ?f (d, n)") (auto simp: drop_lease_def)
  show "J d'" by (rule tables_keptD [OF kept_autocommit r ok]) (auto simp: archived_lease)
qed

lemma kept_commands: "tables_kept J (autocommit P (\<lambda>now d. case f now (st_commands d) of Inl e \<Rightarrow> Inl (g e) | Inr rows \<Rightarrow> Inr ((), d\<lparr>st_commands := rows\<rparr>)))"
  by (rule kept_autocommit) (auto simp: archived_def split: sum.splits)

lemma kept_reconcile_command: "reconcile_command P L namespace i rid (d, n) = (r, d', n') \<Longrightarrow> J d \<Longrightarrow> J d'"
  using tables_keptD [OF kept_commands]
  by (fastforce simp: reconcile_command_def split: sum.splits prod.splits)

lemma kept_finish_alone: "finish_alone P command status body (d, n) = (r, d', n') \<Longrightarrow> J d \<Longrightarrow> J d'"
proof -
  have c: "tkeeps (\<lambda>a b. archived (snd b) = archived (snd a)) (tcommand P f)" for f
    unfolding tcommand_def by (rule same_archive.keeps_tstmt) (auto simp: archived_def result_simps)
  have "tkeeps (\<lambda>a b. archived (snd b) = archived (snd a)) (tbind (tcommand P f) (\<lambda>_. tret (Some ())))" for f
    by (intro same_archive.keeps_tbind c same_archive.keeps_tret)
  from tkeepsD [OF this] have t: "tables_kept J (in_transaction P s (tbind (tcommand P f) (\<lambda>_. tret (Some ()))))" for s f
    by (intro kept_in_transaction) force
  show "finish_alone P command status body (d, n) = (r, d', n') \<Longrightarrow> J d \<Longrightarrow> J d'"
    using tables_keptD [OF t] by (auto simp: finish_alone_def split: sum.splits prod.splits)
qed

lemma kept_settle_abandoned: "settle_abandoned P L i rid command claim (d, n) = (r, d', n') \<Longrightarrow> J d \<Longrightarrow> J d'"
proof -
  assume run: "settle_abandoned P L i rid command claim (d, n) = (r, d', n')" and ok: "J d"
  obtain x d1 n1 where l: "load P L i (d, n) = (x, d1, n1)" by (metis prod_cases3)
  have d1: "J d1" by (rule tables_keptD [OF kept_load l ok])
  show "J d'"
  proof (cases x)
    case None
    then show ?thesis using run l d1 by (simp add: settle_abandoned_def)
  next
    case (Some sc)
    obtain s c where sc: "sc = (s, c)" by fastforce
    obtain r2 s2 d2 n2 where sv: "save P L c (reconciled_event rid) (reconciled_session command claim (px_stamp P n1) s, d1, Suc n1) = (r2, s2, d2, n2)"
      by (metis prod_cases4)
    obtain r3 d3 n3 where f: "finish_alone P command 200 (JObj [(''message'', JStr ''Lifecycle already settled'')]) (d1, n1) = (r3, d3, n3)"
      by (metis prod_cases3)
    show ?thesis using run l Some sc sv f saved [OF sv d1] kept_finish_alone [OF f d1]
      by (auto simp: settle_abandoned_def split: if_splits sum.splits)
  qed
qed

lemma kept_reconcile_run: "reconcile_run P L namespace i rid (d, n) = (r, d', n') \<Longrightarrow> J d \<Longrightarrow> J d'"
proof -
  assume run: "reconcile_run P L namespace i rid (d, n) = (r, d', n')" and ok: "J d"
  obtain x d1 n1 where c: "reconcile_command P L namespace i rid (d, n) = (x, d1, n1)" by (metis prod_cases3)
  have d1: "J d1" by (rule kept_reconcile_command [OF c ok])
  obtain y d2 n2 where l: "claim_lease P (d1, n1) = (y, d2, n2)" by (metis prod_cases3)
  have d2: "J d2" by (rule tables_keptD [OF kept_claim_lease l d1])
  show "J d'"
  proof (cases x)
    case (Inl e)
    then show ?thesis using run c d1 by (simp add: reconcile_run_def)
  next
    case (Inr command)
    show ?thesis
    proof (cases y)
      case (Inl e)
      then show ?thesis using run c l Inr d2 kept_finish_alone
        by (auto simp: reconcile_run_def split: prod.splits sum.splits)
    next
      case claimed: (Inr claim)
      obtain z d3 n3 where s: "settle_abandoned P L i rid command claim (d2, n2) = (z, d3, n3)" by (metis prod_cases3)
      have d3: "J d3" by (rule kept_settle_abandoned [OF s d2])
      obtain d4 n4 where drop: "drop_lease P (fst claim) (snd claim) (d3, n3) = (d4, n4)" by fastforce
      have "d' = d3 \<or> d' = d4" using run c l Inr claimed s drop
        by (auto simp: reconcile_run_def split: sum.splits sql_error.splits)
      then show ?thesis using d3 kept_drop [OF d3 drop] by blast
    qed
  qed
qed

lemma kept_reconcile_all: "reconcile_all P L namespace i rs done_so_far (d, n) = (r, d', n') \<Longrightarrow> J d \<Longrightarrow> J d'"
proof (induction rs arbitrary: done_so_far d n)
  case (Cons x rs)
  obtain y d1 n1 where one: "reconcile_run P L namespace i (rn_run_id x) (d, n) = (y, d1, n1)" by (metis prod_cases3)
  show ?case using Cons.prems(1) one kept_reconcile_run [OF one Cons.prems(2)] Cons.IH
    by (auto split: sum.splits if_splits)
qed simp

lemma reconcile_cli_keeps: "reconcile_cli P L namespace started i args (d, n) = (r, d', n') \<Longrightarrow> J d \<Longrightarrow> J d'"
proof -
  assume run: "reconcile_cli P L namespace started i args (d, n) = (r, d', n')" and ok: "J d"
  obtain x d1 n1 where f: "fetch P (\<lambda>now d. Inr (take k (abandoned_rows started now d))) (d, n) = (x k, d1, n1)" for k
    by (auto simp: fetch_def Let_def)
  have "J d1" by (rule tables_keptD [OF kept_fetch f ok])
  then show "J d'" using run f ok kept_reconcile_all
    by (auto simp: reconcile_cli_def split: option.splits if_splits sum.splits)
qed

text \<open>Archives.\<close>

lemma kept_begin_read: "op_kept J (begin_read P)"
  by (auto simp: op_kept_def begin_read_def others split: option.splits)

lemma kept_export: "op_kept J (export P A L i path)"
  unfolding export_def Let_def
  by (intro op_kept_bind kept_begin_read op_kept_pure op_kept_export_tables)

lemma kept_prune_commit: "op_kept J (prune_commit P L i c item claim s)"
  unfolding prune_commit_def
proof (rule op_kept_on_db, unfold tables_kept_def prod.case, intro allI impI)
  fix d n x d' n'
  assume run: "(case save P L c (archived_event item) (s, d, n) of
        (Inl (Panicked m), _, dn) \<Rightarrow> (Inl (Panicked m), dn)
      | (r, s', dn) \<Rightarrow>
          (case r of
             Inl e \<Rightarrow> Inl e
           | Inr _ \<Rightarrow> Inr (JObj [(''session_id'', JStr i), (''revision'', json_int (s_revision s')),
                               (''archive_id'', json_opt (s_last_archive_id s'))]),
           drop_lease P (fst claim) (snd claim) dn)) = (x, d', n')" and ok: "J d"
  obtain r1 s1 d1 n1 where sv: "save P L c (archived_event item) (s, d, n) = (r1, s1, d1, n1)" by (metis prod_cases4)
  have d1: "J d1" by (rule saved [OF sv ok])
  obtain d2 n2 where drop: "drop_lease P (fst claim) (snd claim) (d1, n1) = (d2, n2)" by fastforce
  have "d' = d1 \<or> d' = d2" using run sv drop by (auto split: sum.splits sql_error.splits)
  then show "J d'" using d1 kept_drop [OF d1 drop] by blast
qed

lemma kept_prune_admit: "op_kept J (prune_admit P A L i manifest kd ke sc)"
proof -
  have "tables_kept J (autocommit P (\<lambda>now. insert_prune (row now)))" for row
    by (rule kept_autocommit) (auto simp: insert_prune_def archived_def split: sum.splits)
  then show ?thesis
    unfolding prune_admit_def Let_def
    by (intro op_kept_bind op_kept_pure op_kept_on_db kept_claim_lease kept_prune_commit)
qed

lemma kept_prune_telemetry: "op_kept J (prune_telemetry P A L args i path sc)"
  unfolding prune_telemetry_def
  by (auto intro!: op_kept_bind op_kept_pure op_kept_on_db kept_fetch kept_prune_admit split: option.split)

lemma kept_plan: "op_kept J (retention_plan_cli P A L i)"
  unfolding retention_plan_cli_def
proof (rule op_kept_on_db)
  have "tables_kept J (retention_plan_route P L i)"
    using tables_keptD [OF kept_load] others
    by (auto simp: tables_kept_def retention_plan_route_def Let_def split: prod.splits option.splits)
  then show "tables_kept J (\<lambda>dn. case retention_plan_route P L i dn of
        (Panic m, dn') \<Rightarrow> (Inl (Panicked m), dn')
      | (Done reply, dn') \<Rightarrow>
          (if rp_status reply \<noteq> 200 then Inl (Protocol ''retention plan unavailable'')
           else (case rp_body reply of
                   Json_Body v \<Rightarrow> protocol (ax_body A v)
                 | _ \<Rightarrow> Inl (Protocol ''EOF while parsing a value'')), dn'))"
    unfolding tables_kept_def by (fastforce split: prod.splits outcome.splits)
qed

lemma retention_cli_keeps: "retention_cli P A L args (k, d, n) = (r, k', d', n') \<Longrightarrow> J d \<Longrightarrow> J d'"
proof -
  have l: "tables_kept J (\<lambda>dn. case load P L i dn of
        (None, dn') \<Rightarrow> (Inl (Protocol ''invalid session snapshot''), dn') | (Some sc, dn') \<Rightarrow> (Inr sc, dn'))" for i
    using tables_keptD [OF kept_load] by (auto simp: tables_kept_def split: prod.splits option.splits)
  have "op_kept J (retention_cli P A L args)"
    unfolding retention_cli_def Let_def
    by (auto intro!: op_kept_bind op_kept_pure op_kept_on_db kept_export l kept_plan kept_prune_telemetry split: list.split option.split)
  then show "retention_cli P A L args (k, d, n) = (r, k', d', n') \<Longrightarrow> J d \<Longrightarrow> J d'" by (rule op_keptD)
qed

end

section \<open>Live runs\<close>

text \<open>
  A property of the tables that does not depend on the commands, that the other workers keep, and
  under which the lease of the session is held.
\<close>

definition lease_kept :: "px \<Rightarrow> (store \<Rightarrow> bool) \<Rightarrow> bool" where
  "lease_kept P J \<longleftrightarrow>
     (\<forall>n d. J d \<longrightarrow> J (px_others P n d)) \<and> (\<forall>d rows. J d \<longrightarrow> J (d\<lparr>st_commands := rows\<rparr>))
     \<and> (\<forall>n d r. J d \<longrightarrow> st_session d = Some r \<longrightarrow> \<not> lease_available (px_clock P n) (sr_lease r))"

lemma live_others: "lease_kept P J \<Longrightarrow> J d \<Longrightarrow> J (px_others P n d)"
  by (simp add: lease_kept_def)

lemma live_claim:
  assumes "lease_kept P J" "claim_lease P (d, n) = (x, d', n')" "J d"
  shows "J d' \<and> (\<exists>e. x = Inl e)"
proof -
  let ?d0 = "px_others P (Suc n) d"
  have ok: "J ?d0" by (rule live_others [OF assms(1,3)])
  then have "fst (acquire_execution_lease (px_clock P (Suc n)) u (map_option sr_lease (st_session ?d0))) = Inl lease_conflict" for u
    using assms(1) by (auto simp: lease_kept_def acquire_execution_lease_def split: option.split)
  then show ?thesis using assms(2) ok
    by (auto simp: claim_lease_def autocommit_def Let_def split: option.splits prod.splits sum.splits)
       (metis fst_conv sum.distinct(1))+
qed

lemma live_command:
  assumes "lease_kept P J" "reconcile_command P L namespace i rid (d, n) = (x, d', n')" "J d"
  shows "J d'"
  using assms live_others [OF assms(1,3)]
  by (auto simp: reconcile_command_def autocommit_def Let_def lease_kept_def split: sum.splits option.splits prod.splits if_splits)

interpretation commands_only: kept_relation "\<lambda>a b. \<exists>rows. snd b = (snd a)\<lparr>st_commands := rows\<rparr>"
proof
  show "\<exists>rows. snd a = (snd a)\<lparr>st_commands := rows\<rparr>" for a :: "session \<times> store"
    by (rule exI [of _ "st_commands (snd a)"]) simp
qed auto

lemma live_finish:
  assumes "lease_kept P J" "finish_alone P command status body (d, n) = (x, d', n')" "J d"
  shows "J d'"
proof -
  let ?body = "tbind (tcommand P (\<lambda>now. finish now command status body)) (\<lambda>_. tret (Some ()))" and ?s = "session_default [] [] []"
  have "tkeeps (\<lambda>a b. \<exists>rows. snd b = (snd a)\<lparr>st_commands := rows\<rparr>) ?body"
    unfolding tcommand_def
    by (intro commands_only.keeps_tbind commands_only.keeps_tret commands_only.keeps_tstmt) (auto simp: result_simps)
  note kept = tkeepsD [OF this]
  obtain r1 s1 d1 n1 where b: "?body (?s, px_others P n d, Suc n) = (r1, s1, d1, n1)" by (metis prod_cases4)
  obtain y d2 n2 where t: "in_transaction P ?s ?body (d, n) = (y, d2, n2)" by (metis prod_cases3)
  have "d2 = px_others P n d \<or> d2 = d1"
    using t b by (auto simp: in_transaction_def Let_def split: option.splits sum.splits prod.splits if_splits)
  moreover have "d' = d2" using assms(2) t by (auto simp: finish_alone_def split: sum.splits)
  ultimately show ?thesis using kept [OF b] live_others [OF assms(1,3)] assms(1) by (auto simp: lease_kept_def)
qed

lemma live_reconcile_run:
  assumes "lease_kept P J" "reconcile_run P L namespace i rid (d, n) = (x, d', n')" "J d"
  shows "J d' \<and> x \<noteq> Inr True"
proof -
  obtain y d1 n1 where c: "reconcile_command P L namespace i rid (d, n) = (y, d1, n1)" by (metis prod_cases3)
  have d1: "J d1" by (rule live_command [OF assms(1) c assms(3)])
  obtain z d2 n2 where l: "claim_lease P (d1, n1) = (z, d2, n2)" by (metis prod_cases3)
  from live_claim [OF assms(1) l d1] obtain e where z: "J d2" "z = Inl e" by blast
  show ?thesis using assms(2) c d1 l z live_finish [OF assms(1) _ z(1)]
    by (auto simp: reconcile_run_def split: sum.splits prod.splits)
qed

lemma live_reconcile_all:
  "lease_kept P J \<Longrightarrow> reconcile_all P L namespace i rs completed (d, n) = (x, d', n') \<Longrightarrow> J d
    \<Longrightarrow> J d' \<and> (\<forall>v. x = Inr v \<longrightarrow> v = JObj [(''reconciled'', JArr completed)])"
proof (induction rs arbitrary: d n)
  case (Cons r rs)
  obtain y d1 n1 where one: "reconcile_run P L namespace i (rn_run_id r) (d, n) = (y, d1, n1)" by (metis prod_cases3)
  note first = live_reconcile_run [OF Cons.prems(1) one Cons.prems(3)]
  show ?case using Cons.prems(2) one first Cons.IH [OF Cons.prems(1)] by (auto split: sum.splits if_splits)
next
  case Nil
  then have "x = Inr (JObj [(''reconciled'', JArr completed)])" "d' = d" by simp_all
  then show ?case using Nil by simp
qed

lemma reconcile_cli_live:
  assumes "lease_kept P J" "reconcile_cli P L namespace started i args (d, n) = (x, d', n')" "J d"
  shows "J d' \<and> (\<forall>v. x = Inr v \<longrightarrow> v = JObj [(''reconciled'', JArr [])])"
proof -
  obtain y d1 n1 where f: "fetch P (\<lambda>now d. Inr (take k (abandoned_rows started now d))) (d, n) = (y k, d1, n1)" for k
    by (auto simp: fetch_def Let_def)
  then have "d1 = px_others P n d" by (simp add: fetch_def Let_def)
  then have "J d1" using live_others [OF assms(1,3)] by simp
  then show ?thesis using assms f live_reconcile_all [OF assms(1)]
    by (auto simp: reconcile_cli_def split: option.splits if_splits sum.splits)
qed

section \<open>Histories of the service\<close>

text \<open>Any sequence of requests of clients and commands of operators, with other workers in between.\<close>

inductive served :: "px \<Rightarrow> lib \<Rightarrow> 'w deps \<Rightarrow> store \<Rightarrow> store \<Rightarrow> bool" for P L X where
  idle: "served P L X d d"
| interfered: "served P L X d d' \<Longrightarrow> served P L X d (px_others P n d')"
| created: "served P L X d d' \<Longrightarrow> create P L F q (d', n) = (r, d'', n') \<Longrightarrow> served P L X d d''"
| messaged: "served P L X d d' \<Longrightarrow> message_route P L free i q (d', n) = (r, d'', n') \<Longrightarrow> served P L X d d''"
| cancelled_run: "served P L X d d' \<Longrightarrow> cancel_session P L i q (d', n) = (r, d'', n') \<Longrightarrow> served P L X d d''"
| ran: "served P L X d (sv_store v) \<Longrightarrow> run_route P L X free i q v = (r, v') \<Longrightarrow> served P L X d (sv_store v')"
| reconciled: "served P L X d d' \<Longrightarrow> reconcile_cli P L namespace started i args (d', n) = (r, d'', n') \<Longrightarrow> served P L X d d''"
| administered: "served P L X d d' \<Longrightarrow> retention_cli P A L args (k, d', n) = (r, k', d'', n') \<Longrightarrow> served P L X d d''"
| streamed: "served P L X d (sv_store v) \<Longrightarrow> lifecycle P L X free i q resume v = (r, v') \<Longrightarrow> served P L X d (sv_store v')"

lemma served_keeps_history: "served P L X d d' \<Longrightarrow> respectful P \<Longrightarrow> history_kept d d'"
proof (induction rule: served.induct)
  case (interfered d d' n)
  then show ?case using history_kept_trans unfolding respectful_def by blast
next
  case (created d d' F q n r d'' n')
  then show ?case using history.create_keeps [where ?d0.0 = d] by blast
next
  case (messaged d d' free i q n r d'' n')
  then show ?case using history.message_route_keeps [where ?d0.0 = d] by blast
next
  case (cancelled_run d d' i q n r d'' n')
  then show ?case using history.cancel_session_keeps [where ?d0.0 = d] by blast
next
  case (reconciled d d' namespace started i args n r d'' n')
  then show ?case using history.reconcile_cli_keeps [where ?d0.0 = d] by blast
next
  case (administered d d' A args k n r k' d'' n')
  then show ?case using history.retention_cli_keeps [where ?d0.0 = d] by blast
next
  case (ran d v free i q r v')
  then show ?case using history.run_route_keeps [where ?d0.0 = d] by blast
next
  case (streamed d v free i q resume r v')
  then show ?case using history.lifecycle_keeps [where ?d0.0 = d] by blast
qed (rule history_kept_refl)

end
