(* ===== verification/Lifecycle_Samples.thy ===== *)
theory Lifecycle_Samples
  imports Loading_Samples Run_Cancellation Operator_Proofs
begin

text \<open>A service whose tables hold a run that a client has cancelled.\<close>

definition sample_deps :: "sample_world deps" where
  "sample_deps = \<lparr>dp_env = sample_env, dp_client = (\<lambda>_. Ok ()), dp_open = (\<lambda>_. True)\<rparr>"

definition sample_run_row :: run_row where
  "sample_run_row = \<lparr>rn_run_id = ''r1'', rn_owner = ''a'', rn_fence = 1, rn_status = ''running'', rn_started_at = ''now'', rn_ended_at = None,
     rn_termination_reason = None, rn_last_decision_step = 0, rn_metadata = JObj [], rn_command_id = None, rn_cancel_requested = False\<rparr>"

definition sample_service :: "store \<Rightarrow> sample_world service" where
  "sample_service d = \<lparr>sv_world = (0, [], \<lambda>_. None), sv_store = d, sv_calls = 0, sv_revision = 0, sv_sent = [], sv_panic = None\<rparr>"

definition sample_cancelled :: store where
  "sample_cancelled = cancel_runs (Some ''r1'') (sample_store\<lparr>st_runs := [sample_run_row]\<rparr>)"

definition sample_running :: session where
  "sample_running = sample_session\<lparr>s_run_id := Some ''r1'', s_run_status := ''running''\<rparr>"

lemma sample_cancelled_flagged: "flagged ''r1'' sample_cancelled"
  by (simp add: flagged_def find_run_def sample_cancelled_def cancel_runs_def request_cancel_def sample_run_row_def)

lemma sample_respectful: "respectful sample_px" "respectful sample_load_px"
  by (simp_all add: respectful_def sample_px_def sample_load_px_def history_kept_refl)

text \<open>A client runs a stored session, another one asks to cancel it.\<close>

definition sample_ran :: "sample_world service" where
  "sample_ran = snd (run_route sample_load_px sample_id_lib sample_deps True ''s1'' (JObj []) (sample_service (sample_filled [1])))"

definition sample_after :: store where
  "sample_after = fst (snd (cancel_session sample_load_px sample_id_lib ''s1'' (JObj [(''run_id'', JStr ''r1'')]) (sv_store sample_ran, 9)))"

lemma sample_served: "served sample_load_px sample_id_lib sample_deps (sample_filled [1]) sample_after"
proof -
  have "served sample_load_px sample_id_lib sample_deps (sample_filled [1]) (sv_store (sample_service (sample_filled [1])))"
    by (simp add: sample_service_def served.idle)
  from served.ran [OF this surjective_pairing, of True "''s1''" "JObj []"]
  have "served sample_load_px sample_id_lib sample_deps (sample_filled [1]) (sv_store sample_ran)" by (simp add: sample_ran_def)
  from served.cancelled_run [OF this]
  show ?thesis unfolding sample_after_def by (metis prod.collapse)
qed

end
