(* ===== verification/Event_Stream.thy ===== *)
theory Event_Stream
  imports Lifecycle Pages
begin

text \<open>
  Reconnecting to the stored events of a run (\<open>stream\<close> of \<^verbatim>\<open>events.rs\<close>).  The handler answers with a
  stream; its task polls the table of events behind a cursor and sends what it finds.  A poll is two
  statements, between which other workers commit.
\<close>

section \<open>The task\<close>

definition of_run :: "string \<Rightarrow> event_row \<Rightarrow> bool" where
  "of_run rid r \<longleftrightarrow> as_str (idx (eo_event r) ''run_id'') = Some rid"

definition run_events :: "string \<Rightarrow> int \<Rightarrow> store \<Rightarrow> event_row list" where
  "run_events rid after d = sort_key eo_event_id (filter (\<lambda>r. of_run rid r \<and> after < eo_event_id r) (st_events d))"

definition numbered_event :: "event_row \<Rightarrow> json" where
  "numbered_event r = set_idx (eo_event r) ''event_id'' (json_int (eo_event_id r))"

fun deliver :: "'w deps \<Rightarrow> event_row list \<Rightarrow> int \<times> 'w service \<Rightarrow> bool \<times> int \<times> 'w service" where
  "deliver X [] (after, v) = (True, after, v)"
| "deliver X (r # rs) (after, v) =
     (case send X (numbered_event r) v of
        (False, v') \<Rightarrow> (False, eo_event_id r, v')
      | (True, v') \<Rightarrow> deliver X rs (eo_event_id r, v'))"

text \<open>One round of the loop; \<open>True\<close> when it goes on.\<close>

definition poll :: "px \<Rightarrow> 'w deps \<Rightarrow> string \<Rightarrow> int \<times> 'w service \<Rightarrow> bool \<times> int \<times> 'w service" where
  "poll P X rid av =
     (case av of (after, v) \<Rightarrow>
        (case on_tables (fetch P (\<lambda>now d. Inr (take 1000 (run_events rid after d)))) v of
           (Inl e, v1) \<Rightarrow> (False, after, v1)
         | (Inr rows, v1) \<Rightarrow>
             (case deliver X rows (after, v1) of
                (False, av2) \<Rightarrow> (False, av2)
              | (True, after', v2) \<Rightarrow>
                  if length rows = 1000 then (True, after', v2)
                  else (case on_tables (fetch P (\<lambda>now d. Inr (map_option rn_status (find_run rid d)))) v2 of
                          (Inr (Some status), v3) \<Rightarrow> (status = ''running'', after', v3)
                        | (_, v3) \<Rightarrow> (False, after', v3)))))"

text \<open>The loop may go on as long as the run; here are its first rounds.\<close>

fun polls :: "px \<Rightarrow> 'w deps \<Rightarrow> string \<Rightarrow> nat \<Rightarrow> int \<times> 'w service \<Rightarrow> bool \<times> int \<times> 'w service" where
  "polls P X rid 0 av = (True, av)"
| "polls P X rid (Suc k) av = (case poll P X rid av of (False, av') \<Rightarrow> (False, av') | (True, av') \<Rightarrow> polls P X rid k av')"

text \<open>The handler: the reply, and the run and the cursor that the task starts with.\<close>

definition stream_request :: "px \<Rightarrow> string \<Rightarrow> query \<Rightarrow> 'w service \<Rightarrow> (reply \<times> (string \<times> int) option) \<times> 'w service" where
  "stream_request P i q v =
     (if px_parse_uuid P i = None then ((detail 422 ''Session ID must be UUID'', None), v)
      else (case Option.bind (map_of q ''run_id'') (px_parse_uuid P) of
              None \<Rightarrow> ((detail 422 ''run_id must be UUID'', None), v)
            | Some rid \<Rightarrow>
                (case opt_filter (\<lambda>x. 0 \<le> x) (parse_param q ''after_event_id'' 0) of
                   None \<Rightarrow> ((detail 422 ''Invalid event cursor'', None), v)
                 | Some after \<Rightarrow>
                     (case on_tables (fetch P (\<lambda>now d. Inr (find_run rid d \<noteq> None))) v of
                        (Inr True, v') \<Rightarrow> ((\<lparr>rp_status = 200, rp_body = Raw_Body, rp_stream = True, rp_headers = []\<rparr>, Some (rid, after)), v')
                      | (_, v') \<Rightarrow> ((detail 404 ''Run not found'', None), v')))))"

section \<open>What is sent\<close>

text \<open>Other workers only append events, with growing identifiers.\<close>

definition events_grow :: "store \<Rightarrow> store \<Rightarrow> bool" where
  "events_grow d d' \<longleftrightarrow> prefix (st_events d) (st_events d')"

definition events_sorted :: "store \<Rightarrow> bool" where
  "events_sorted d \<longleftrightarrow> sorted_wrt (<) (map eo_event_id (st_events d))"

definition appending :: "px \<Rightarrow> bool" where
  "appending P \<longleftrightarrow> (\<forall>n d. events_grow d (px_others P n d) \<and> (events_sorted d \<longrightarrow> events_sorted (px_others P n d)))"

lemma run_events_sorted:
  assumes "events_sorted d"
  shows "run_events rid after d = filter (\<lambda>r. of_run rid r \<and> after < eo_event_id r) (st_events d)"
    and "sorted_wrt (<) (map eo_event_id (run_events rid after d))"
proof -
  let ?rs = "filter (\<lambda>r. of_run rid r \<and> after < eo_event_id r) (st_events d)"
  have s: "sorted_wrt (<) (map eo_event_id ?rs)" using assms by (simp add: events_sorted_def sorted_wrt_map sorted_wrt_filter)
  then have "sorted (map eo_event_id ?rs)" by (rule strict_sorted_imp_sorted)
  then show eq: "run_events rid after d = ?rs" unfolding run_events_def by (rule sort_key_id_if_sorted)
  show "sorted_wrt (<) (map eo_event_id (run_events rid after d))" using s by (simp add: eq)
qed

lemma run_events_grow:
  assumes "events_grow d d'" "events_sorted d" "events_sorted d'"
  shows "prefix (run_events rid after d) (run_events rid after d')"
  using assms by (auto simp: run_events_sorted events_grow_def prefix_def)

text \<open>Behind the last of the first events of a run come the others.\<close>

lemma behind_prefix:
  assumes "events_sorted d" "prefix shown (run_events rid after d)"
  shows "run_events rid (next_after eo_event_id after shown) d = drop (length shown) (run_events rid after d)"
proof (cases "shown = []")
  case True
  then show ?thesis by (simp add: next_after_def)
next
  case False
  let ?all = "run_events rid after d" and ?last = "eo_event_id (last shown)"
  have all: "?all = shown @ drop (length shown) ?all" using assms(2) by (auto simp: prefix_def)
  have s: "sorted_wrt (<) (map eo_event_id shown @ map eo_event_id (drop (length shown) ?all))"
    using run_events_sorted(2) [OF assms(1), of rid after] by (subst (asm) all) simp
  then have "eo_event_id r \<le> ?last" if "r \<in> set shown" for r
    using strict_sorted_last [of "map eo_event_id shown"] that False by (auto simp: sorted_wrt_append last_map)
  then have low: "filter (\<lambda>r. ?last < eo_event_id r) shown = []" by (auto simp: filter_empty_conv not_less)
  have high: "filter (\<lambda>r. ?last < eo_event_id r) (drop (length shown) ?all) = drop (length shown) ?all"
    using s last_in_set [OF False] by (auto simp: filter_id_conv sorted_wrt_append)
  have "last shown \<in> set ?all" using last_in_set [OF False] set_mono_prefix [OF assms(2)] by blast
  then have "after < ?last" using run_events_sorted(1) [OF assms(1)] by simp
  then have "run_events rid ?last d = filter (\<lambda>r. ?last < eo_event_id r) ?all"
    by (auto simp: run_events_sorted [OF assms(1)] filter_filter intro!: filter_cong)
  also have "\<dots> = drop (length shown) ?all" by (subst all) (simp only: filter_append low high append_Nil)
  finally show ?thesis using False by (simp add: next_after_def)
qed

lemma deliver_sends:
  "deliver X rs (after, v) = (going, after', v') \<Longrightarrow>
   \<exists>shown. prefix shown rs \<and> sv_store v' = sv_store v \<and> sv_sent v' = sv_sent v @ map numbered_event shown
     \<and> (going \<longrightarrow> shown = rs \<and> after' = next_after eo_event_id after rs)"
proof (induction rs arbitrary: after v)
  case (Cons r rs)
  obtain opened v1 where s: "send X (numbered_event r) v = (opened, v1)" by fastforce
  show ?case
  proof (cases opened)
    case True
    then have v1: "sv_store v1 = sv_store v" "sv_sent v1 = sv_sent v @ [numbered_event r]"
      using s by (auto simp: send_def split: if_splits)
    from True s Cons.prems have "deliver X rs (eo_event_id r, v1) = (going, after', v')" by simp
    from Cons.IH [OF this] obtain shown where shown: "prefix shown rs" "sv_store v' = sv_store v1"
      "sv_sent v' = sv_sent v1 @ map numbered_event shown" "going \<longrightarrow> shown = rs \<and> after' = next_after eo_event_id (eo_event_id r) rs" by blast
    then show ?thesis using v1 by (intro exI [of _ "r # shown"]) (auto simp: next_after_def)
  next
    case False
    then have "\<not> going" "v' = v1" using s Cons.prems by auto
    moreover have "sv_store v1 = sv_store v" "sv_sent v1 = sv_sent v" using s False by (auto simp: send_def split: if_splits)
    ultimately show ?thesis by (intro exI [of _ "[]"]) simp
  qed
qed (auto simp: next_after_def)

text \<open>
  What the client has got: the first events of the run behind the first cursor, in order, up to
  the present cursor.
\<close>

definition caught_up :: "string \<Rightarrow> int \<Rightarrow> json list \<Rightarrow> event_row list \<Rightarrow> 'w service \<Rightarrow> bool" where
  "caught_up rid after0 sent0 shown v \<longleftrightarrow>
     events_sorted (sv_store v) \<and> prefix shown (run_events rid after0 (sv_store v)) \<and> sv_sent v = sent0 @ map numbered_event shown"

lemma caught_up_later:
  assumes "appending P" "caught_up rid after0 sent0 shown v"
    "sv_store v' = px_others P n (sv_store v)" "sv_sent v' = sv_sent v"
  shows "caught_up rid after0 sent0 shown v'"
proof -
  have "events_grow (sv_store v) (sv_store v')" "events_sorted (sv_store v')"
    using assms(1-3) by (auto simp: appending_def caught_up_def)
  then show ?thesis using assms(2,4) run_events_grow prefix_order.trans unfolding caught_up_def by metis
qed

text \<open>
  A poll sends further events.  One that goes on has sent all it found; one that ends the loop
  without a failure has sent every event there was before its last statement.
\<close>

lemma poll_sends:
  assumes "appending P" "caught_up rid after0 sent0 shown v" "after = next_after eo_event_id after0 shown"
    and rid: "poll P X rid (after, v) = (going, after', v')"
  shows "\<exists>shown'. caught_up rid after0 sent0 shown' v' \<and> (going \<longrightarrow> after' = next_after eo_event_id after0 shown')
    \<and> (\<not> going \<longrightarrow> (\<forall>n. px_fault P n = None) \<longrightarrow> (\<forall>n. dp_open X n) \<longrightarrow>
         (\<exists>d n. sv_store v' = px_others P n d \<and> shown' = run_events rid after0 d \<and> events_sorted d
            \<and> map_option rn_status (find_run rid (sv_store v')) \<noteq> Some ''running''))"
proof -
  define v1 where "v1 = v\<lparr>sv_store := px_others P (sv_calls v) (sv_store v), sv_calls := Suc (sv_calls v)\<rparr>"
  have up1: "caught_up rid after0 sent0 shown v1"
    by (rule caught_up_later [OF assms(1,2), of _ "sv_calls v"]) (simp_all add: v1_def)
  have left: "run_events rid after (sv_store v1) = drop (length shown) (run_events rid after0 (sv_store v1))"
    using behind_prefix [of "sv_store v1" shown rid after0] up1 assms(3) by (simp add: caught_up_def)
  define rows where "rows = take 1000 (run_events rid after (sv_store v1))"
  show ?thesis
  proof (cases "px_fault P (sv_calls v)")
    case (Some e)
    then have "\<not> going" "v' = v1" using rid by (auto simp: poll_def on_tables_def fetch_def Let_def v1_def)
    then show ?thesis using Some up1 by (intro exI [of _ shown]) auto
  next
    case None
    obtain sending after2 v2 where d: "deliver X rows (after, v1) = (sending, after2, v2)" by (metis prod_cases3)
    from deliver_sends [OF d] obtain more where more: "prefix more rows" "sv_store v2 = sv_store v1"
      "sv_sent v2 = sv_sent v1 @ map numbered_event more" "sending \<longrightarrow> more = rows \<and> after2 = next_after eo_event_id after rows" by blast
    have found: "prefix rows (drop (length shown) (run_events rid after0 (sv_store v1)))"
      by (simp add: rows_def left take_is_prefix)
    have all: "run_events rid after0 (sv_store v1) = shown @ drop (length shown) (run_events rid after0 (sv_store v1))"
      using up1 by (auto simp: caught_up_def prefix_def)
    have "prefix (shown @ more) (run_events rid after0 (sv_store v1))"
      by (subst all) (use more(1) found prefix_order.trans in \<open>auto simp: same_prefix_prefix\<close>)
    then have up2: "caught_up rid after0 sent0 (shown @ more) v2" using up1 more(2,3) by (simp add: caught_up_def)
    have cursor: "next_after eo_event_id after rows = next_after eo_event_id after0 (shown @ rows)"
      using assms(3) by (simp add: next_after_def)
    have rest: "poll P X rid (after, v) = (case (sending, after2, v2) of
        (False, av2) \<Rightarrow> (False, av2)
      | (True, after', v2) \<Rightarrow>
          if length rows = 1000 then (True, after', v2)
          else (case on_tables (fetch P (\<lambda>now d. Inr (map_option rn_status (find_run rid d)))) v2 of
                  (Inr (Some status), v3) \<Rightarrow> (status = ''running'', after', v3)
                | (_, v3) \<Rightarrow> (False, after', v3)))"
      using None d by (cases sending) (simp_all add: poll_def on_tables_def fetch_def Let_def v1_def rows_def)
    show ?thesis
    proof (cases sending)
      case False
      have "\<exists>n. \<not> dp_open X n" using d False
        by (induction X rows "(after, v1)" arbitrary: after v1 rule: deliver.induct) (auto simp: send_def split: if_splits)
      then show ?thesis using rid rest False up2 by auto
    next
      case True
      show ?thesis
      proof (cases "length rows = 1000")
        case full: True
        then show ?thesis using rid rest \<open>sending\<close> up2 more(4) cursor by auto
      next
        case False
        then have all_sent: "shown @ rows = run_events rid after0 (sv_store v1)"
          by (subst all) (auto simp: rows_def left)
        define v3 where "v3 = v2\<lparr>sv_store := px_others P (sv_calls v2) (sv_store v2), sv_calls := Suc (sv_calls v2)\<rparr>"
        have up3: "caught_up rid after0 sent0 (shown @ rows) v3"
          by (rule caught_up_later [OF assms(1) up2 [unfolded conjunct1 [OF mp [OF more(4) \<open>sending\<close>]]], of _ "sv_calls v2"]) (simp_all add: v3_def)
        have "v' = v3 \<and> after' = after2 \<and> (\<not> going \<longrightarrow> px_fault P (sv_calls v2) = None
            \<longrightarrow> map_option rn_status (find_run rid (sv_store v3)) \<noteq> Some ''running'')"
          using rid rest True False
          by (auto simp: on_tables_def fetch_def Let_def v3_def split: option.splits)
        moreover have "sv_store v3 = px_others P (sv_calls v2) (sv_store v1)" "events_sorted (sv_store v1)"
          using more(2) up1 by (simp_all add: v3_def caught_up_def)
        ultimately show ?thesis using up3 all_sent more(4) True cursor by (intro exI [of _ "shown @ rows"]) auto
      qed
    qed
  qed
qed

lemma polls_send:
  assumes "appending P" "caught_up rid after0 sent0 shown v" "after = next_after eo_event_id after0 shown"
    and rid: "polls P X rid k (after, v) = (going, after', v')"
  shows "\<exists>shown'. caught_up rid after0 sent0 shown' v'
    \<and> (\<not> going \<longrightarrow> (\<forall>n. px_fault P n = None) \<longrightarrow> (\<forall>n. dp_open X n) \<longrightarrow>
         (\<exists>d n. sv_store v' = px_others P n d \<and> shown' = run_events rid after0 d \<and> events_sorted d
            \<and> map_option rn_status (find_run rid (sv_store v')) \<noteq> Some ''running''))"
  using assms
proof (induction k arbitrary: after v shown)
  case (Suc k)
  obtain more after1 v1 where p: "poll P X rid (after, v) = (more, after1, v1)" by (metis prod_cases3)
  from poll_sends [OF Suc.prems(1-3) p] obtain shown' where shown': "caught_up rid after0 sent0 shown' v1"
    "more \<Longrightarrow> after1 = next_after eo_event_id after0 shown'" by blast
  show ?case
  proof (cases more)
    case True
    then have "polls P X rid k (after1, v1) = (going, after', v')" using Suc.prems(4) p by simp
    from Suc.IH [OF Suc.prems(1) shown'(1) shown'(2) [OF True] this] show ?thesis .
  next
    case False
    then show ?thesis using poll_sends [OF Suc.prems(1-3) p] Suc.prems(4) p by auto
  qed
qed auto

section \<open>The stream ends\<close>

text \<open>A run that has ended, and that other workers leave so.\<close>

definition ended :: "string \<Rightarrow> store \<Rightarrow> bool" where
  "ended rid d \<longleftrightarrow> map_option rn_status (find_run rid d) \<noteq> Some ''running''"

definition run_settled :: "px \<Rightarrow> string \<Rightarrow> bool" where
  "run_settled P rid \<longleftrightarrow>
     (\<forall>n d. (ended rid d \<longrightarrow> ended rid (px_others P n d)) \<and> filter (of_run rid) (st_events (px_others P n d)) = filter (of_run rid) (st_events d))"

lemma settled_events: "run_settled P rid \<Longrightarrow> run_events rid after (px_others P n d) = run_events rid after d"
proof -
  assume "run_settled P rid"
  then have e: "filter (of_run rid) (st_events (px_others P n d)) = filter (of_run rid) (st_events d)" by (simp add: run_settled_def)
  have eq: "run_events rid after x = sort_key eo_event_id (filter (\<lambda>r. after < eo_event_id r) (filter (of_run rid) (st_events x)))" for x
    by (simp add: run_events_def conj_commute)
  show ?thesis by (simp only: eq e)
qed

lemma poll_progress:
  assumes "appending P" "run_settled P rid" "events_sorted (sv_store v)" "ended rid (sv_store v)"
    and going: "poll P X rid (after, v) = (True, after', v')"
  shows "events_sorted (sv_store v') \<and> ended rid (sv_store v')
    \<and> length (run_events rid after (sv_store v)) = 1000 + length (run_events rid after' (sv_store v'))"
proof -
  let ?d1 = "px_others P (sv_calls v) (sv_store v)" and ?v1 = "v\<lparr>sv_store := px_others P (sv_calls v) (sv_store v), sv_calls := Suc (sv_calls v)\<rparr>"
  have d1: "events_sorted ?d1" "ended rid ?d1" "run_events rid after ?d1 = run_events rid after (sv_store v)"
    using assms(1-4) settled_events by (auto simp: appending_def run_settled_def)
  let ?rows = "take 1000 (run_events rid after ?d1)"
  have ok: "px_fault P (sv_calls v) = None"
    using going by (cases "px_fault P (sv_calls v)") (auto simp: poll_def on_tables_def fetch_def Let_def)
  obtain sending after2 v2 where d: "deliver X ?rows (after, ?v1) = (sending, after2, v2)" by (metis prod_cases3)
  have sending: sending
    using going ok d by (cases sending) (auto simp: poll_def on_tables_def fetch_def Let_def)
  from deliver_sends [OF d] sending have v2: "sv_store v2 = ?d1" "after2 = next_after eo_event_id after ?rows" by auto
  have "ended rid (px_others P (sv_calls v2) ?d1)" using d1(2) assms(2) by (simp add: run_settled_def)
  then have full: "length ?rows = 1000"
    using going ok d sending v2(1)
    by (auto simp: poll_def on_tables_def fetch_def Let_def ended_def split: option.splits if_splits sum.splits)
  then have "after' = after2" "v' = v2"
    using going ok d sending by (auto simp: poll_def on_tables_def fetch_def Let_def)
  then show ?thesis
    using d1 v2 full behind_prefix [OF d1(1) take_is_prefix, of rid after 1000] by (auto simp: min_def split: if_splits)
qed

lemma polls_end:
  assumes "appending P" "run_settled P rid" "events_sorted (sv_store v)" "ended rid (sv_store v)"
    and "length (run_events rid after (sv_store v)) \<le> 1000 * k"
  shows "\<not> fst (polls P X rid (Suc k) (after, v))"
  using assms(3-5)
proof (induction k arbitrary: after v)
  case 0
  show ?case
  proof (cases "poll P X rid (after, v)")
    case (fields going after' v')
    then show ?thesis using poll_progress [OF assms(1,2) 0(1,2), of X after after' v'] 0(3) by (cases going) auto
  qed
next
  case (Suc k)
  show ?case
  proof (cases "poll P X rid (after, v)")
    case (fields going after' v')
    show ?thesis
    proof (cases going)
      case True
      then have "poll P X rid (after, v) = (True, after', v')" using fields by simp
      note next_poll = poll_progress [OF assms(1,2) Suc.prems(1,2) this]
      then have "length (run_events rid after' (sv_store v')) \<le> 1000 * k" using Suc.prems(3) by simp
      then show ?thesis using Suc.IH [of v' after'] next_poll fields True by simp
    qed (simp add: fields)
  qed
qed

end
