(* ===== verification/Stream_Samples.thy ===== *)
theory Stream_Samples
  imports Lifecycle_Samples Event_Stream
begin

text \<open>A run that ends while a client follows its events.\<close>

definition sample_event :: "int \<Rightarrow> string \<Rightarrow> event_row" where
  "sample_event i kind = \<lparr>eo_event_id = i, eo_event = JObj [(''type'', JStr kind), (''run_id'', JStr ''r1'')], eo_revision = i,
     eo_commit_id = ''u'', eo_command_id = ''u'', eo_created_at = ''now''\<rparr>"

definition sample_answered :: store where
  "sample_answered = sample_store\<lparr>st_runs := [sample_run_row\<lparr>rn_status := ''complete''\<rparr>],
     st_events := [sample_event 1 ''status'', sample_event 2 ''final_result'']\<rparr>"

text \<open>The worker commits the end of the run before the second statement of the reader.\<close>

definition sample_finish :: "store \<Rightarrow> store" where
  "sample_finish d = (if st_events d = st_events sample_answered then d\<lparr>st_events := st_events d @ [sample_event 3 ''run_finished'']\<rparr> else d)"

definition sample_racing_px :: px where
  "sample_racing_px = sample_px\<lparr>px_others := \<lambda>n d. if n = 3 then sample_finish d else d\<rparr>"

lemma sample_appending: "appending sample_racing_px" "appending sample_px"
  by (auto simp: appending_def sample_racing_px_def sample_px_def sample_finish_def events_grow_def events_sorted_def
      sample_answered_def sample_event_def)

lemma sample_settled: "run_settled sample_px ''r1''"
  by (simp add: run_settled_def sample_px_def)

definition sample_polled :: "bool \<times> int \<times> sample_world service" where
  "sample_polled = polls sample_racing_px sample_deps ''r1'' (Suc 0) (0, sample_service sample_answered)"

lemma sample_sorted: "events_sorted sample_answered"
  by (simp add: events_sorted_def sample_answered_def sample_event_def)

lemma sample_events_of: "run_events ''r1'' 0 sample_answered = [sample_event 1 ''status'', sample_event 2 ''final_result'']"
  by (simp add: run_events_sorted [OF sample_sorted])
    (simp add: sample_answered_def sample_event_def of_run_def idx_def)

lemma sample_polled_ends:
  "\<not> fst sample_polled" "sv_sent (snd (snd sample_polled)) = map numbered_event [sample_event 1 ''status'', sample_event 2 ''final_result'']"
  "run_events ''r1'' 0 (sv_store (snd (snd sample_polled)))
     = [sample_event 1 ''status'', sample_event 2 ''final_result'', sample_event 3 ''run_finished'']"
proof -
  let ?v = "sample_service sample_answered"
  have px: "px_fault sample_racing_px n = None" "px_others sample_racing_px n d = (if n = 3 then sample_finish d else d)" for n d
    by (simp_all add: sample_racing_px_def sample_px_def)
  have rows: "take 1000 (run_events ''r1'' 0 sample_answered) = [sample_event 1 ''status'', sample_event 2 ''final_result'']"
    by (simp add: sample_events_of)
  have status: "map_option rn_status (find_run ''r1'' (sample_finish sample_answered)) = Some ''complete''"
    by (simp add: sample_finish_def sample_answered_def find_run_def sample_run_row_def)
  define v' where "v' = ?v\<lparr>sv_store := sample_finish sample_answered, sv_calls := 4,
      sv_sent := map numbered_event [sample_event 1 ''status'', sample_event 2 ''final_result'']\<rparr>"
  define v2 where "v2 = ?v\<lparr>sv_calls := 3, sv_sent := map numbered_event [sample_event 1 ''status'', sample_event 2 ''final_result'']\<rparr>"
  have query: "on_tables (fetch sample_racing_px (\<lambda>now d. Inr (take 1000 (run_events ''r1'' 0 d)))) ?v
      = (Inr [sample_event 1 ''status'', sample_event 2 ''final_result''], ?v\<lparr>sv_calls := Suc 0\<rparr>)"
    by (simp add: on_tables_def fetch_def Let_def px sample_service_def rows)
  have sends: "deliver sample_deps [sample_event 1 ''status'', sample_event 2 ''final_result''] (0, ?v\<lparr>sv_calls := Suc 0\<rparr>) = (True, 2, v2)"
    by (simp add: send_def sample_deps_def v2_def sample_service_def sample_event_def)
  have read: "on_tables (fetch sample_racing_px (\<lambda>now d. Inr (map_option rn_status (find_run ''r1'' d)))) v2 = (Inr (Some ''complete''), v')"
    using status by (simp add: on_tables_def fetch_def Let_def px v2_def v'_def sample_service_def)
  have end_of: "sample_polled = (False, 2, v')"
    by (simp add: sample_polled_def poll_def query sends read del: deliver.simps)
  have "events_sorted (sample_finish sample_answered)"
    by (simp add: events_sorted_def sample_finish_def sample_answered_def sample_event_def)
  then have "run_events ''r1'' 0 (sample_finish sample_answered)
      = [sample_event 1 ''status'', sample_event 2 ''final_result'', sample_event 3 ''run_finished'']"
    by (simp add: run_events_sorted) (simp add: sample_finish_def sample_answered_def sample_event_def of_run_def idx_def)
  then show "\<not> fst sample_polled" "sv_sent (snd (snd sample_polled)) = map numbered_event [sample_event 1 ''status'', sample_event 2 ''final_result'']"
    "run_events ''r1'' 0 (sv_store (snd (snd sample_polled)))
     = [sample_event 1 ''status'', sample_event 2 ''final_result'', sample_event 3 ''run_finished'']"
    by (simp_all add: end_of v'_def)
qed

end
