(* ===== verification/Pruning.thy ===== *)
theory Pruning
  imports Save_Proofs
begin

text \<open>
  What retention removes.  A commit prunes telemetry only when the digests of the covered rows are
  those that the manifest of the archive names; so a save loses no event and no diagnostic record
  but those that belong to the rows the archive was made of.
\<close>

section \<open>Rows of an archive\<close>

text \<open>The row is among rows with the digest that the manifest names for the table.\<close>

definition digested :: "lib \<Rightarrow> json \<Rightarrow> string \<Rightarrow> json \<Rightarrow> bool" where
  "digested L item table row \<longleftrightarrow>
     (\<exists>rows. row \<in> set rows \<and> json_eq (idx (idx item ''table_sha256'') table) (JStr (table_hash L table rows)))"

definition event_archived :: "lib \<Rightarrow> json option \<Rightarrow> event_row \<Rightarrow> bool" where
  "event_archived L item r \<longleftrightarrow> (\<exists>x sid. item = Some x \<and> digested L x ''agent_session_events'' (event_json sid r))"

definition diagnostic_archived :: "lib \<Rightarrow> json option \<Rightarrow> diag_record \<Rightarrow> bool" where
  "diagnostic_archived L item r \<longleftrightarrow> (\<exists>x sid. item = Some x \<and> digested L x ''agent_session_diagnostics'' (diag_json sid r))"

text \<open>No event and no diagnostic record is lost but those of which \<open>E\<close> and \<open>G\<close> hold.\<close>

definition lost_only :: "(event_row \<Rightarrow> bool) \<Rightarrow> (diag_record \<Rightarrow> bool) \<Rightarrow> store \<Rightarrow> store \<Rightarrow> bool" where
  "lost_only E G d d' \<longleftrightarrow>
     (\<forall>r\<in>set (st_events d). r \<notin> set (st_events d') \<longrightarrow> E r) \<and> (\<forall>r\<in>set (st_diagnostics d). r \<notin> set (st_diagnostics d') \<longrightarrow> G r)"

lemma lost_only_refl: "lost_only E G d d"
  by (simp add: lost_only_def)

lemma lost_only_trans: "lost_only E G a b \<Longrightarrow> lost_only E G b c \<Longrightarrow> lost_only E G a c"
  unfolding lost_only_def by blast

lemma lost_only_mono:
  "lost_only E G d d' \<Longrightarrow> (\<And>r. r \<in> set (st_events d) \<Longrightarrow> E r \<Longrightarrow> E' r) \<Longrightarrow> (\<And>r. r \<in> set (st_diagnostics d) \<Longrightarrow> G r \<Longrightarrow> G' r)
    \<Longrightarrow> lost_only E' G' d d'"
  unfolding lost_only_def by blast

definition telemetry :: "lib \<Rightarrow> session \<times> store \<Rightarrow> session \<times> store \<Rightarrow> bool" where
  "telemetry L a b \<longleftrightarrow>
     s_retention_pending (fst b) = s_retention_pending (fst a)
     \<and> lost_only (event_archived L (s_retention_pending (fst a))) (diagnostic_archived L (s_retention_pending (fst a))) (snd a) (snd b)"

lemma telemetry_trans: "telemetry L a b \<Longrightarrow> telemetry L b c \<Longrightarrow> telemetry L a c"
  unfolding telemetry_def using lost_only_trans by metis

lemma telemetry_refl: "telemetry L a a"
  by (simp add: telemetry_def lost_only_refl)

section \<open>Retention\<close>

text \<open>The rows up to the watermarks of the archive.\<close>

definition event_covered :: "json \<Rightarrow> event_row \<Rightarrow> bool" where
  "event_covered item r \<longleftrightarrow> is_some_and (as_i64 (idx (idx item ''watermarks'') ''events'')) (\<lambda>w. eo_event_id r \<le> w)"

definition diagnostic_covered :: "json \<Rightarrow> diag_record \<Rightarrow> bool" where
  "diagnostic_covered item r \<longleftrightarrow>
     d_ordinal r \<le> unwrap_or 0 (as_i64 (idx (idx (idx item ''watermarks'') ''diagnostics'') (d_family r)))"

definition pruned_covered :: "json \<Rightarrow> session \<times> store \<Rightarrow> session \<times> store \<Rightarrow> bool" where
  "pruned_covered item a b \<longleftrightarrow> fst b = fst a \<and> lost_only (event_covered item) (diagnostic_covered item) (snd a) (snd b)"

interpretation pruning: kept_relation "pruned_covered item" for item
  by unfold_locales (auto simp: pruned_covered_def lost_only_refl intro: lost_only_trans)

lemma keeps_prune_archived: "tkeeps (pruned_covered item) (prune_archived P item)"
proof -
  have "tkeeps (pruned_covered item) (prune_step P item family)" for family
    unfolding prune_step_def
    by (auto intro!: pruning.keeps_basic pruning.keeps_tupdate
        simp: pruned_covered_def lost_only_def prune_family_def diagnostic_covered_def split: option.split)
  moreover have "pruned_covered item (s, d) (s, prune_events w k d)" if "as_i64 (idx (idx item ''watermarks'') ''events'') = Some w" for s d w k
    using that by (auto simp: pruned_covered_def lost_only_def prune_events_def event_covered_def)
  then have "tkeeps (pruned_covered item) (tupdate P (case (as_i64 (idx (idx item ''watermarks'') ''events''), as_i64 (idx item ''keep_events'')) of
      (Some w, Some k) \<Rightarrow> prune_events w k | _ \<Rightarrow> id))"
    by (intro pruning.keeps_tupdate) (auto simp: pruning.R_refl split: option.split)
  ultimately show ?thesis
    unfolding prune_archived_def by (intro pruning.keeps_tbind pruning.keeps_tfor)
qed

text \<open>The checks change nothing.\<close>

interpretation unchanged: kept_relation "\<lambda>a b. b = a"
  by unfold_locales auto

lemma check_archive_unchanged: "tkeeps (\<lambda>a b. b = a) (check_archive P L item table rows)"
  unfolding check_archive_def by (intro unchanged.keeps_basic)

lemma check_archive_Inr:
  "check_archive P L item table rows (s, d, n) = (Inr u, s', d', n') \<Longrightarrow>
   json_eq (idx (idx item ''table_sha256'') table) (JStr (table_hash L table (rows d)))"
  by (auto simp: check_archive_def tbind_Inr tx_Inr statement_Inr)

lemma covered_rows:
  "set (covered_events item d) = {r \<in> set (st_events d). event_covered item r}"
  "set (covered_diagnostics item d) = {r \<in> set (st_diagnostics d). diagnostic_covered item r}"
  by (auto simp: covered_events_def covered_diagnostics_def event_covered_def diagnostic_covered_def)

lemma retention_pruned:
  assumes "s_retention_pending s = Some item"
    and events: "json_eq (idx (idx item ''table_sha256'') ''agent_session_events'')
      (JStr (table_hash L ''agent_session_events'' (map (event_json sid) (covered_events item d))))"
    and diagnostics: "json_eq (idx (idx item ''table_sha256'') ''agent_session_diagnostics'')
      (JStr (table_hash L ''agent_session_diagnostics'' (map (diag_json sid) (covered_diagnostics item d))))"
    and run: "tbind (tupdate P (insert_archive item)) (\<lambda>_. prune_archived P item) (s, d, n) = (r, s', d', n')"
  shows "telemetry L (s, d) (s', d')"
proof -
  have "tkeeps (pruned_covered item) (tupdate P (insert_archive item))"
    by (rule pruning.keeps_tupdate) (simp add: pruned_covered_def lost_only_def insert_archive_def)
  from tkeepsD [OF pruning.keeps_tbind [OF this keeps_prune_archived] run]
  have pruned: "s' = s" "lost_only (event_covered item) (diagnostic_covered item) d d'" by (simp_all add: pruned_covered_def)
  have "event_archived L (Some item) r" if "r \<in> set (st_events d)" "event_covered item r" for r
    using events that covered_rows(1) [of item d]
    by (auto simp: event_archived_def digested_def intro!: exI [of _ sid] exI [of _ "map (event_json sid) (covered_events item d)"])
  moreover have "diagnostic_archived L (Some item) r" if "r \<in> set (st_diagnostics d)" "diagnostic_covered item r" for r
    using diagnostics that covered_rows(2) [of item d]
    by (auto simp: diagnostic_archived_def digested_def intro!: exI [of _ sid] exI [of _ "map (diag_json sid) (covered_diagnostics item d)"])
  ultimately have "lost_only (event_archived L (Some item)) (diagnostic_archived L (Some item)) d d'"
    by (rule lost_only_mono [OF pruned(2)])
  then show ?thesis using pruned(1) assms(1) by (simp add: telemetry_def)
qed

text \<open>An operation that changes nothing, followed by one that is only run when it succeeds.\<close>

lemma tbind_checked:
  assumes run: "tbind m f (s, d, n) = (r, s', d', n')" and same: "tkeeps (\<lambda>a b. b = a) m"
    and rest: "\<And>x n1. m (s, d, n) = (Inr x, s, d, n1) \<Longrightarrow> f x (s, d, n1) = (r, s', d', n') \<Longrightarrow> telemetry L (s, d) (s', d')"
  shows "telemetry L (s, d) (s', d')"
  using run
proof (cases rule: tbind_cases)
  case (fails e)
  from tkeepsD [OF same fails(1)] show ?thesis by (simp add: telemetry_refl)
next
  case (runs x st1)
  obtain s1 d1 n1 where st1: "st1 = (s1, d1, n1)" by (metis prod_cases3)
  from tkeepsD [OF same runs(1) [unfolded st1]] have "s1 = s" "d1 = d" by simp_all
  then show ?thesis using rest [of x n1] runs st1 by simp
qed

lemma keeps_retention: "tkeeps (telemetry L) (retention_write P L)"
proof (rule tkeepsI)
  fix s d n r s' d' n'
  assume run: "retention_write P L (s, d, n) = (r, s', d', n')"
  show "telemetry L (s, d) (s', d')"
  proof (cases "s_retention_pending s")
    case None
    then show ?thesis using run by (auto simp: retention_write_def tbind_def tgets_def tret_def telemetry_refl)
  next
    case (Some item)
    then have "retention_item P L s item (s, d, n) = (r, s', d', n')"
      using run by (simp add: retention_write_def tbind_def tgets_def)
    moreover have locked: "tkeeps (\<lambda>a b. b = a) (tupdate P id)" by (rule unchanged.keeps_tupdate) simp
    ultimately show ?thesis
      unfolding retention_item_def
      by (elim tbind_checked [OF _ unchanged.keeps_tuuid] tbind_checked [OF _ unchanged.keeps_tcheck] tbind_checked [OF _ unchanged.keeps_tselect]
          tbind_checked [OF _ locked] tbind_checked [OF _ check_archive_unchanged])
        (auto intro: retention_pruned [OF Some check_archive_Inr check_archive_Inr])
  qed
qed

section \<open>Saves\<close>

interpretation telemetry: fresh_effects "telemetry L" L for L
proof unfold_locales
  show "telemetry L (s, d) (s, snd (insert_diagnostic x d))" for s d x
    by (auto simp: telemetry_def lost_only_def insert_diagnostic_def)
qed (auto simp: telemetry_refl keeps_retention intro: telemetry_trans, auto simp: telemetry_def lost_only_def write_defs)

lemma transaction_telemetry:
  assumes "transaction P L c e sid i fingerprint (s, d, n) = (Inr Written, s', d', n')"
  shows "lost_only (event_archived L (s_retention_pending s)) (diagnostic_archived L (s_retention_pending s)) d d'"
proof -
  obtain command command_id n1 where "fresh_commit P L c e command command_id sid i fingerprint (s, d, n1) = (Inr Written, s', d', n')"
    by (rule transaction_fresh [OF assms])
  from tkeepsD [OF telemetry.keeps_fresh_commit this] show ?thesis by (simp add: telemetry_def)
qed

lemma staged_core_retention: "staged_core s' = staged_core s \<Longrightarrow> s_retention_pending s' = s_retention_pending s"
proof -
  have "s_retention_pending (staged_core s) = s_retention_pending s" for s by (simp add: staged_core_def core_def)
  then show "staged_core s' = staged_core s \<Longrightarrow> s_retention_pending s' = s_retention_pending s" by metis
qed

lemma save_inner_telemetry:
  assumes others: "\<And>n d. lost_only (event_archived L it) (diagnostic_archived L it) d (px_others P n d)"
    and "s_retention_pending s = it" and run: "save_inner P L c e (s, d, n) = (r, s', d', n')"
  shows "lost_only (event_archived L it) (diagnostic_archived L it) d d'"
proof -
  let ?D = "lost_only (event_archived L it) (diagnostic_archived L it)"
  obtain p s1 d1 n1 where p: "prepare_commit P L c e (s, d, n) = (p, s1, d1, n1)" by (metis prod_cases4)
  have d1: "d1 = d" by (rule prepare_commit_tables [OF p])
  have pending: "s_retention_pending s1 = it" using staged_core_retention [OF prepare_commit_core [OF p]] assms(2) by simp
  show ?thesis
  proof (cases p)
    case (Inl er)
    then show ?thesis using run p d1 by (auto simp: save_inner_def tbind_def lost_only_refl)
  next
    case (Inr y)
    obtain sid i fingerprint where y: "y = (sid, i, fingerprint)" by (metis prod_cases3)
    let ?d0 = "px_others P n1 d"
    have t: "run_transaction P (transaction P L c e sid i fingerprint) (s1, d, n1) = (r, s', d', n')"
      using run p Inr y d1 by (simp add: save_inner_def tbind_def)
    obtain v s2 d2 n2 where v: "transaction P L c e sid i fingerprint (s1, ?d0, Suc n1) = (v, s2, d2, n2)" by (metis prod_cases4)
    have "?D ?d0 d'"
    proof (cases "v = Inr Written")
      case True
      from transaction_telemetry [OF v [unfolded True]] show ?thesis
        using t v True pending
        by (auto simp: run_transaction_def commit_written_def Let_def lost_only_refl split: option.splits prod.splits if_splits)
    next
      case False
      then have "d' = ?d0"
        using t v by (auto simp: run_transaction_def commit_known_def Let_def split: option.splits sum.splits verdict.splits prod.splits)
      then show ?thesis by (simp add: lost_only_refl)
    qed
    with others show ?thesis by (rule lost_only_trans)
  qed
qed

lemma stage_save_retention:
  assumes "stage_save P e (s, n) = Inr (staged, n')"
  shows "s_retention_pending staged = s_retention_pending s"
proof -
  obtain s1 s2 n2 where st: "stage_diagnostics s = Ok s1" "stage_transcript P (s1, n) = (s2, n2)" "stage_commit P e (s2, n2) = (staged, n')"
    using assms by (cases "stage_diagnostics s") (auto simp: stage_save_def, metis surj_pair)
  have "s_retention_pending s1 = s_retention_pending s" using stage_diagnostics_view [OF st(1)] by (simp add: view_def)
  moreover have "s_retention_pending s2 = s_retention_pending s1" by (rule staged_core_retention [OF stage_transcript_core [OF st(2)]])
  moreover have "s_retention_pending staged = s_retention_pending s2" using st(3) unfolding stage_commit_def
    by (auto simp: archive_record_def Let_def dest!: stage_summaries_core staged_core_retention split: option.splits if_splits prod.splits)
  ultimately show ?thesis by simp
qed

lemma save_telemetry:
  assumes others: "\<And>n d. lost_only (event_archived L (s_retention_pending s)) (diagnostic_archived L (s_retention_pending s)) d (px_others P n d)"
    and run: "save P L c e (s, d, n) = (r, s', d', n')"
  shows "lost_only (event_archived L (s_retention_pending s)) (diagnostic_archived L (s_retention_pending s)) d d'"
proof (cases "stage_save P e (s, n)")
  case (Inl er)
  then show ?thesis using run by (simp add: save_def lost_only_refl)
next
  case (Inr st)
  let ?D = "lost_only (event_archived L (s_retention_pending s)) (diagnostic_archived L (s_retention_pending s))"
  obtain staged n1 where st: "st = (staged, n1)" by fastforce
  note pending = stage_save_retention [OF Inr [unfolded st]]
  obtain r1 s1 d1 n2 where t: "try_commit P L c e staged 2 (d, n1) = (r1, s1, d1, n2)" by (metis prod_cases4)
  have "?D d d1"
  proof (rule try_commit_steps [where I = "?D d", OF _ t lost_only_refl])
    show "?D d d2'" if "save_inner P L c e (staged, d1', m1) = (r2, s2, d2', m2)" "?D d d1'" for d1' m1 r2 s2 d2' m2
      using save_inner_telemetry [OF others pending that(1)] that(2) by (rule lost_only_trans [rotated])
  qed
  then show ?thesis using run Inr st t by (auto simp: save_def lost_only_refl split: if_splits sum.splits)
qed

end
