(* ===== verification/Canonical_Text.thy ===== *)
theory Canonical_Text
  imports Profiles
begin

text \<open>
  Canonical texts are printable: a writer of strings and doubles that escapes control characters
  makes every canonical text a single line.
\<close>


definition control :: "char \<Rightarrow> bool" where
  "control c \<longleftrightarrow> (of_char c :: nat) < 32"

definition escapes :: "lib \<Rightarrow> bool" where
  "escapes L \<longleftrightarrow> (\<forall>c. control c \<longrightarrow> (\<forall>v. c \<notin> set (json_text L v)) \<and> (\<forall>f. c \<notin> set (f64_text L f)))"

definition printable :: "string \<Rightarrow> bool" where "printable t \<longleftrightarrow> (\<forall>c\<in>set t. \<not> control c)"

lemma printable_append [simp]: "printable (s @ t) \<longleftrightarrow> printable s \<and> printable t"
  by (auto simp: printable_def)

lemma printable_Cons [simp]: "printable (c # t) \<longleftrightarrow> \<not> control c \<and> printable t" "printable []"
  by (auto simp: printable_def)

lemma printable_subset: "set t \<subseteq> set s \<Longrightarrow> printable s \<Longrightarrow> printable t"
  by (auto simp: printable_def)

lemma printable_show_nat: "printable (show_nat n)"
  using show_nat_digits [of n] by (force simp: printable_def control_def is_digit_def)

lemma printable_join: "printable s \<Longrightarrow> list_all printable xs \<Longrightarrow> printable (join s xs)"
  by (induction s xs rule: join.induct) auto

lemma set_drop_leading: "drop_leading ds p = (ds', p') \<Longrightarrow> set ds' \<subseteq> set ds"
proof (induction ds p rule: drop_leading.induct)
  case (1 ds p)
  show ?case using 1(2) 1(1) by (subst (asm) drop_leading.simps) (auto split: if_splits dest!: list.set_sel(2))
qed

lemma set_drop_trailing: "set (drop_trailing ds) \<subseteq> set ds"
proof (induction ds rule: drop_trailing.induct)
  case (1 ds)
  show ?case using 1 by (subst drop_trailing.simps) (auto dest!: in_set_butlastD)
qed

lemma digits_printable:
  assumes "printable raw" "digits_and_point raw = (ds, p)"
  shows "printable ds"
proof -
  let ?m = "takeWhile (\<lambda>c. \<not> is_exp c) (dropWhile (\<lambda>c. c = CHR ''-'') raw)"
  obtain ds0 k where l: "drop_leading (filter (\<lambda>c. c \<noteq> CHR ''.'') ?m) k = (ds0, p)" "ds = drop_trailing ds0"
    using assms(2) by (auto simp: digits_and_point_def Let_def split: prod.splits)
  have "set ds \<subseteq> set raw"
    using set_drop_trailing [of ds0] set_drop_leading [OF l(1)] l(2) by (auto dest!: set_takeWhileD set_dropWhileD)
  then show ?thesis using assms(1) by (rule printable_subset)
qed

lemma printable_python_number: "escapes L \<Longrightarrow> printable (python_number L n)"
proof (cases n)
  case (Float f)
  assume L: "escapes L"
  obtain ds p where d: "digits_and_point (f64_text L f) = (ds, p)" by fastforce
  have "printable ds" by (rule digits_printable [OF _ d]) (use L in \<open>auto simp: escapes_def printable_def\<close>)
  then have parts: "printable (positional ''.0'' ds p)" "printable (mantissa_text ds)" "printable (raw_sign raw)" for raw
    by (auto simp: positional_def mantissa_text_def raw_sign_def control_def printable_def dest: in_set_takeD in_set_dropD)
  show ?thesis using parts by (simp add: Float d Let_def control_def pad2_def printable_show_nat)
qed (simp_all add: show_int_def printable_show_nat control_def)

lemma printable_json_text: "escapes L \<Longrightarrow> printable (json_text L v)"
  by (auto simp: escapes_def printable_def)

lemma printable_encoded:
  assumes "escapes L"
  shows "printable (python_encoded L v)" "list_all printable (encoded_items L xs)" "list_all (\<lambda>kv. printable (snd kv)) (encoded_fields L kvs)"
  using assms
proof (induction L v and L xs and L kvs rule: python_encoded_encoded_items_encoded_fields.induct)
  case (3 L kvs)
  then have "list_all printable (map snd (sort_key fst (encoded_fields L kvs)))" by (simp add: list_all_iff)
  then show ?case by (simp add: printable_join control_def)
qed (auto simp: printable_python_number printable_join printable_json_text control_def)

lemma printable_canonical: "escapes L \<Longrightarrow> printable (canonical_json L v)"
  by (simp add: canonical_json_encoded printable_encoded)

end
