(* ===== verification/Archive_Proofs.thy ===== *)
theory Archive_Proofs
  imports Archives Pruning Integrity Canonical_Text
begin

text \<open>
  What an archive guarantees: a file that is verified has the rows its manifest stands for, and
  pruning loses nothing that is not in the file.
\<close>

section \<open>Values with unique keys\<close>

fun unique_keys :: "json \<Rightarrow> bool" where
  "unique_keys (JArr xs) = list_all unique_keys xs"
| "unique_keys (JObj kvs) = (distinct (map fst kvs) \<and> list_all (\<lambda>kv. unique_keys (snd kv)) kvs)"
| "unique_keys v = True"

lemma list_all_obj_insert: "list_all p kvs \<Longrightarrow> p (k, v) \<Longrightarrow> list_all p (obj_insert k v kvs)"
  by (induction kvs) auto

lemma strict_visit_unique:
  "strict_visit r = Ok v \<Longrightarrow> unique_keys v"
  "strict_seq rs = Ok vs \<Longrightarrow> list_all unique_keys vs"
  "strict_map kvs out = Ok m \<Longrightarrow> unique_keys (JObj out) \<Longrightarrow> unique_keys (JObj m)"
proof (induction r and rs and kvs out arbitrary: v and vs and m rule: strict_visit_strict_seq_strict_map.induct)
  case (12 k r kvs out)
  from 12(3) obtain v where v: "strict_visit r = Ok v" "strict_map kvs (obj_insert k v out) = Ok m"
    by (auto split: if_splits sum.splits)
  have "unique_keys v" using 12(1) v 12(3) by (auto split: if_splits)
  then have "unique_keys (JObj (obj_insert k v out))"
    using 12(4) by (simp add: distinct_obj_insert list_all_obj_insert)
  then show ?case using 12(2) v 12(3) by (auto split: if_splits)
qed (auto split: if_splits sum.splits)

lemma parse_unique: "parse_strict_json L text = Ok v \<Longrightarrow> unique_keys v"
  by (auto simp: parse_strict_json_def result_simps strict_visit_unique)

lemma get_unique: "unique_keys v \<Longrightarrow> get v k = Some w \<Longrightarrow> unique_keys w"
  by (cases v) (auto dest!: map_of_SomeD simp: list_all_iff)

section \<open>The rows in a file\<close>

text \<open>The lines of a file that hold rows of a table.\<close>

definition row_of_line :: "ax \<Rightarrow> lib \<Rightarrow> string \<Rightarrow> string \<Rightarrow> json option" where
  "row_of_line A L table raw =
     (case rbind (ax_line A raw) (parse_strict_json L) of
        Inl _ \<Rightarrow> None
      | Inr v \<Rightarrow> if get v ''manifest'' = None \<and> as_str (idx v ''table'') = Some table then Some v else None)"

definition file_rows :: "ax \<Rightarrow> lib \<Rightarrow> string \<Rightarrow> string list \<Rightarrow> json list" where
  "file_rows A L table raws = List.map_filter (row_of_line A L table) raws"

definition table_text :: "lib \<Rightarrow> json list \<Rightarrow> string" where
  "table_text L vs = concat (map (archive_line L) vs)"

lemma table_hash_text: "table_hash L table rows = sha256_hex L (table_text L (map (row_line table) rows))"
  by (simp add: table_hash_def table_text_def row_line_def comp_def)

lemma scan_row_tables:
  assumes "scan_row L header v t sc = Ok sc'"
  shows "sc_tables sc' table = sc_tables sc table @ (if t = table then archive_line L v else []) \<and> sc_manifest sc' = sc_manifest sc"
  using assms by (auto simp: scan_row_def Let_def result_simps)

lemma scan_line_tables:
  assumes "scan_line A L header raw sc = Ok sc'"
  shows "sc_tables sc' table = sc_tables sc table @ table_text L (file_rows A L table [raw])
    \<and> (sc_manifest sc' = sc_manifest sc \<or> (\<exists>m. sc_manifest sc' = Some m \<and> unique_keys m))"
proof -
  obtain plain v where v: "ax_line A raw = Ok plain" "parse_strict_json L plain = Ok v" "sc_manifest sc = None"
    using assms by (auto simp: scan_line_def result_simps split: if_splits)
  show ?thesis
  proof (cases "get v ''manifest''")
    case None
    then obtain t where t: "as_str (idx v ''table'') = Some t" "scan_row L header v t sc = Ok sc'"
      using assms v by (auto simp: scan_line_def result_simps ok_or_def split: option.splits)
    then show ?thesis using scan_row_tables [OF t(2)] None v
      by (auto simp: file_rows_def row_of_line_def List.map_filter_simps table_text_def)
  next
    case (Some m)
    then have "sc' = sc\<lparr>sc_manifest := Some m\<rparr>" using assms v by (simp add: scan_line_def)
    then show ?thesis using Some v get_unique [OF parse_unique [OF v(2)] Some]
      by (simp add: file_rows_def row_of_line_def List.map_filter_simps table_text_def)
  qed
qed

lemma scan_lines_tables:
  "scan_lines A L header raws sc = Ok sc' \<Longrightarrow> (\<And>m. sc_manifest sc = Some m \<Longrightarrow> unique_keys m) \<Longrightarrow>
   sc_tables sc' table = sc_tables sc table @ table_text L (file_rows A L table raws) \<and> (\<forall>m. sc_manifest sc' = Some m \<longrightarrow> unique_keys m)"
proof (induction raws arbitrary: sc)
  case (Cons raw raws)
  then obtain sc1 where sc1: "scan_line A L header raw sc = Ok sc1" "scan_lines A L header raws sc1 = Ok sc'" by (auto simp: result_simps)
  note one = scan_line_tables [OF sc1(1)]
  then have "unique_keys m" if "sc_manifest sc1 = Some m" for m using that Cons.prems(2) by force
  from Cons.IH [OF sc1(2) this] one [of table] show ?case
    by (auto simp: file_rows_def List.map_filter_def table_text_def)
qed (simp add: file_rows_def List.map_filter_def table_text_def)

lemma foldl_set_idx:
  assumes "distinct (map fst kvs)"
  shows "get (foldl (\<lambda>r kv. set_idx r (fst kv) (snd kv)) (JObj h) kvs) k = (case map_of kvs k of None \<Rightarrow> map_of h k | Some v \<Rightarrow> Some v)"
  using assms
proof (induction kvs arbitrary: h)
  case (Cons kv kvs)
  have "map_of kvs (fst kv) = None" using Cons.prems by (simp add: map_of_eq_None_iff)
  then show ?case using Cons by (cases kv) (auto simp: map_of_obj_insert split: option.split)
qed simp

text \<open>What a verified archive says about the rows of a table.\<close>

lemma verify_tables:
  assumes "verify P A L k path = Ok item" "table \<in> set archive_tables"
  obtains content where "k path = Some content"
    "idx (idx item ''table_sha256'') table = JStr (sha256_hex L (table_text L (file_rows A L table (tl (lines content)))))"
proof -
  obtain content first raws header sc m fields p where stored: "k path = Some content" "lines content = first # raws"
    and checked: "check_header P header = Ok ()"
    and sc: "scan_lines A L header raws (scan_start L header) = Ok sc" "sc_manifest sc = Some m" "manifest_matches L sc m"
    and fields: "as_object m = Some fields"
    and item: "item = set_idx (foldl (\<lambda>r kv. set_idx r (fst kv) (snd kv)) header fields) ''archive_path'' (JStr p)"
  proof -
    obtain content where content: "k path = Some content" using assms(1) by (auto simp: verify_def result_simps)
    then obtain first raws where "lines content = first # raws"
      using assms(1) by (cases "lines content") (auto simp: verify_def result_simps)
    then show ?thesis using that assms(1) content by (auto simp: verify_def result_simps)
  qed
  obtain h where h: "header = JObj h"
    using checked by (cases header) (auto simp: check_header_def result_simps)
  have m: "m = JObj fields" using fields by (cases m) auto
  note scanned = scan_lines_tables [OF sc(1), of table]
  have start: "sc_manifest (scan_start L header) = None" "sc_tables (scan_start L header) table = []" by (simp_all add: scan_start_def)
  then have "distinct (map fst fields)" using scanned sc(2) m by auto
  from foldl_set_idx [OF this, of h] have f: "get (foldl (\<lambda>r kv. set_idx r (fst kv) (snd kv)) header fields) k'
      = (case map_of fields k' of None \<Rightarrow> map_of h k' | Some v \<Rightarrow> Some v)" for k' by (simp add: h)
  have obj: "\<exists>r. foldl (\<lambda>r kv. set_idx r (fst kv) (snd kv)) (JObj h) kvs = JObj r" for h and kvs :: "(string \<times> json) list"
    by (induction kvs arbitrary: h) auto
  obtain r where r: "foldl (\<lambda>r kv. set_idx r (fst kv) (snd kv)) header fields = JObj r" using obj [of h fields] h by auto
  have hashes: "json_eq (idx m ''table_sha256'') (JObj (map (\<lambda>t. (t, JStr (sha256_hex L (sc_tables sc t)))) archive_tables))"
    using sc(3) by (simp add: manifest_matches_def)
  then obtain hs where hs: "map_of fields ''table_sha256'' = Some (JObj hs)" "length hs = length archive_tables"
    "obj_eq hs (map (\<lambda>t. (t, JStr (sha256_hex L (sc_tables sc t)))) archive_tables)"
    unfolding m by (cases "map_of fields ''table_sha256''"; cases "idx (JObj fields) ''table_sha256''") (auto simp: idx_def)
  have "idx item ''table_sha256'' = JObj hs"
    using f [of "''table_sha256''"] hs(1) r by (simp add: item idx_def map_of_obj_insert)
  moreover have "map_of hs table = Some (JStr (sha256_hex L (sc_tables sc table)))"
  proof -
    have uniq: "distinct (map fst hs)"
      using scanned sc(2) m start hs(1) get_unique [of m "''table_sha256''" "JObj hs"] by auto
    have entry: "map_of (map (\<lambda>t. (t, JStr (sha256_hex L (sc_tables sc t)))) archive_tables) t
        = (if t \<in> set archive_tables then Some (JStr (sha256_hex L (sc_tables sc t))) else None)" for t
      by (simp add: map_of_map_restrict restrict_map_def)
    have each: "obj_eq as bs \<Longrightarrow> (kk, v) \<in> set as \<Longrightarrow> \<exists>w. map_of bs kk = Some w \<and> json_eq v w" for as bs kk v
      by (induction as) (auto split: option.splits)
    have dom: "fst ` set hs \<subseteq> set archive_tables"
      using each [OF hs(3)] entry by (force split: if_splits)
    have "card (fst ` set hs) = length hs" using uniq by (simp add: distinct_card flip: set_map)
    moreover have "card (set archive_tables) = length archive_tables" by (simp add: archive_tables_def)
    ultimately have "fst ` set hs = set archive_tables" using dom hs(2) by (intro card_subset_eq) simp_all
    then obtain v where v: "(table, v) \<in> set hs" using assms(2) by force
    from each [OF hs(3) v] entry assms(2) have "json_eq v (JStr (sha256_hex L (sc_tables sc table)))" by auto
    then have "v = JStr (sha256_hex L (sc_tables sc table))" by (cases v) auto
    then show ?thesis using v uniq by simp
  qed
  moreover have "sc_tables sc table = table_text L (file_rows A L table (tl (lines content)))"
    using scanned start stored(2) by simp
  ultimately show ?thesis using that stored(1) by (simp add: idx_def)
qed

section \<open>Pruning\<close>

text \<open>The writer escapes line ends, and a digest has no second preimage.\<close>

definition one_line :: "lib \<Rightarrow> bool" where
  "one_line L \<longleftrightarrow> (\<forall>v. CHR 0x0A \<notin> set (canonical_json L v))"

lemma escapes_one_line: "escapes L \<Longrightarrow> one_line L"
  using printable_canonical [of L] by (force simp: one_line_def printable_def control_def)

definition sole_preimage :: "lib \<Rightarrow> string \<Rightarrow> bool" where
  "sole_preimage L x \<longleftrightarrow> (\<forall>y. sha256_hex L y = sha256_hex L x \<longrightarrow> y = x)"

lemma takeWhile_line: "CHR 0x0A \<notin> set t \<Longrightarrow> takeWhile (\<lambda>c. c \<noteq> CHR 0x0A) (t @ newline @ u) = t"
  by (induction t) (auto simp: newline_def)

lemma line_inject:
  assumes "CHR 0x0A \<notin> set t" "CHR 0x0A \<notin> set t'" "t @ newline @ u = t' @ newline @ u'"
  shows "t = t' \<and> u = u'"
  using takeWhile_line [OF assms(1), of u] takeWhile_line [OF assms(2), of u'] assms(3) by auto

lemma table_text_inject:
  assumes "one_line L"
  shows "table_text L vs = table_text L ws \<Longrightarrow> map (canonical_json L) vs = map (canonical_json L) ws"
proof (induction vs arbitrary: ws)
  case Nil
  then show ?case by (cases ws) (auto simp: table_text_def archive_line_def newline_def)
next
  case (Cons v vs)
  obtain w ws' where ws: "ws = w # ws'" using Cons.prems by (cases ws) (auto simp: table_text_def archive_line_def newline_def)
  have no: "CHR 0x0A \<notin> set (canonical_json L x)" for x using assms by (simp add: one_line_def)
  have "canonical_json L v @ newline @ table_text L vs = canonical_json L w @ newline @ table_text L ws'"
    using Cons.prems ws by (simp add: table_text_def archive_line_def)
  from line_inject [OF no no this] show ?case using Cons.IH [of ws'] ws by simp
qed

text \<open>The line of a row is in the file.\<close>

definition in_file :: "ax \<Rightarrow> lib \<Rightarrow> string \<Rightarrow> string \<Rightarrow> json \<Rightarrow> bool" where
  "in_file A L content table row \<longleftrightarrow>
     (\<exists>v\<in>set (file_rows A L table (tl (lines content))). canonical_json L v = canonical_json L (row_line table row))"

definition file_text :: "ax \<Rightarrow> lib \<Rightarrow> string \<Rightarrow> string \<Rightarrow> string" where
  "file_text A L content table = table_text L (file_rows A L table (tl (lines content)))"

lemma digested_in_file:
  assumes "one_line L" "sole_preimage L (file_text A L content table)"
    and "idx (idx item ''table_sha256'') table = JStr (sha256_hex L (file_text A L content table))" "digested L item table row"
  shows "in_file A L content table row"
proof -
  obtain rows where rows: "row \<in> set rows" "table_hash L table rows = sha256_hex L (file_text A L content table)"
    using assms(3,4) by (auto simp: digested_def)
  then have "table_text L (map (row_line table) rows) = file_text A L content table"
    using assms(2) by (simp add: sole_preimage_def table_hash_text)
  then have "map (canonical_json L) (map (row_line table) rows) = map (canonical_json L) (file_rows A L table (tl (lines content)))"
    unfolding file_text_def by (rule table_text_inject [OF assms(1)])
  moreover have "canonical_json L (row_line table row) \<in> set (map (canonical_json L) (map (row_line table) rows))" using rows(1) by simp
  ultimately have "canonical_json L (row_line table row) \<in> set (map (canonical_json L) (file_rows A L table (tl (lines content))))" by simp
  then show ?thesis by (auto simp: in_file_def)
qed

definition event_in_file :: "ax \<Rightarrow> lib \<Rightarrow> string \<Rightarrow> event_row \<Rightarrow> bool" where
  "event_in_file A L content r \<longleftrightarrow> (\<exists>sid. in_file A L content ''agent_session_events'' (event_json sid r))"

definition diagnostic_in_file :: "ax \<Rightarrow> lib \<Rightarrow> string \<Rightarrow> diag_record \<Rightarrow> bool" where
  "diagnostic_in_file A L content r \<longleftrightarrow> (\<exists>sid. in_file A L content ''agent_session_diagnostics'' (diag_json sid r))"

text \<open>Operations that leave the files alone and lose no telemetry but that of a kind.\<close>

definition loses :: "(event_row \<Rightarrow> bool) \<Rightarrow> (diag_record \<Rightarrow> bool) \<Rightarrow> disk \<Rightarrow> 'a op \<Rightarrow> bool" where
  "loses E G k m \<longleftrightarrow> (\<forall>d n r k' d' n'. m (k, d, n) = (r, k', d', n') \<longrightarrow> k' = k \<and> lost_only E G d d')"

lemma loses_op_bind: "loses E G k m \<Longrightarrow> (\<And>x. loses E G k (f x)) \<Longrightarrow> loses E G k (op_bind m f)"
  unfolding loses_def
proof (intro allI impI)
  fix d n r k' d' n'
  assume m: "\<forall>d n r k' d' n'. m (k, d, n) = (r, k', d', n') \<longrightarrow> k' = k \<and> lost_only E G d d'"
    and f: "\<And>x. \<forall>d n r k' d' n'. f x (k, d, n) = (r, k', d', n') \<longrightarrow> k' = k \<and> lost_only E G d d'"
    and run: "op_bind m f (k, d, n) = (r, k', d', n')"
  obtain r1 k1 d1 n1 where one: "m (k, d, n) = (r1, k1, d1, n1)" by (metis prod_cases4)
  then have k1: "k1 = k" "lost_only E G d d1" using m by blast+
  show "k' = k \<and> lost_only E G d d'"
  proof (cases r1)
    case (Inl e)
    then show ?thesis using run one k1 by (simp add: op_bind_def)
  next
    case (Inr x)
    then have "f x (k, d1, n1) = (r, k', d', n')" using run one k1 by (simp add: op_bind_def)
    then show ?thesis using f [of x] k1(2) lost_only_trans by blast
  qed
qed

lemma loses_pure: "loses E G k (olift r)" "loses E G k (ofail e)" "loses E G k (draw P)" "loses E G k (\<lambda>st. (h (fst st), st))"
  by (auto simp: loses_def olift_def ofail_def draw_def lost_only_refl)

lemma loses_known: "h k = Inr x \<Longrightarrow> loses E G k (f x) \<Longrightarrow> loses E G k (op_bind (\<lambda>st. (h (fst st), st)) f)"
  by (simp add: loses_def op_bind_def)

lemma loses_on_db: "(\<And>d n r d' n'. f (d, n) = (r, d', n') \<Longrightarrow> lost_only E G d d') \<Longrightarrow> loses E G k (on_db f)"
  by (fastforce simp: loses_def on_db_def split: prod.splits)

definition spares :: "(event_row \<Rightarrow> bool) \<Rightarrow> (diag_record \<Rightarrow> bool) \<Rightarrow> px \<Rightarrow> bool" where
  "spares E G P \<longleftrightarrow> (\<forall>n d. lost_only E G d (px_others P n d))"

lemma lost_same:
  "lost_only E G d d0 \<Longrightarrow> st_events d' = st_events d0 \<Longrightarrow> st_diagnostics d' = st_diagnostics d0 \<Longrightarrow> lost_only E G d d'"
  by (simp add: lost_only_def)

lemma lost_fetch: "spares E G P \<Longrightarrow> fetch P f (d, n) = (r, d', n') \<Longrightarrow> lost_only E G d d'"
  by (auto simp: spares_def fetch_def Let_def)

lemma lost_autocommit:
  assumes "spares E G P" "autocommit P f (d, n) = (r, d', n')"
    and same: "\<And>now d x d'. f now d = Inr (x, d') \<Longrightarrow> st_events d' = st_events d \<and> st_diagnostics d' = st_diagnostics d"
  shows "lost_only E G d d'"
proof -
  let ?d0 = "px_others P n d"
  have d0: "lost_only E G d ?d0" using assms(1) by (simp add: spares_def)
  have "d' = ?d0 \<or> (\<exists>x. f (px_clock P n) ?d0 = Inr (x, d'))"
    using assms(2) by (auto simp: autocommit_def Let_def split: option.splits sum.splits prod.splits if_splits)
  then show ?thesis using d0 same lost_same [OF d0] by metis
qed

lemma set_lease_telemetry: "st_events (set_lease l d) = st_events d \<and> st_diagnostics (set_lease l d) = st_diagnostics d"
  by (simp add: set_lease_def split: option.split)

lemma lost_claim: "spares E G P \<Longrightarrow> claim_lease P (d, n) = (r, d', n') \<Longrightarrow> lost_only E G d d'"
  unfolding claim_lease_def prod.case
  by (erule lost_autocommit) (auto simp: set_lease_telemetry split: prod.splits sum.splits)

lemma lost_drop: "spares E G P \<Longrightarrow> drop_lease P owner fence (d, n) = (d', n') \<Longrightarrow> lost_only E G d d'"
proof -
  assume ok: "spares E G P" and drop: "drop_lease P owner fence (d, n) = (d', n')"
  let ?f = "\<lambda>(now::int) d0. Inr ((), set_lease (release_execution_lease owner fence (map_option sr_lease (st_session d0))) d0) :: sql_error + unit \<times> store"
  obtain r where r: "autocommit P ?f (d, n) = (r, d', n')" using drop by (cases "autocommit P ?f (d, n)") (auto simp: drop_lease_def)
  show ?thesis by (rule lost_autocommit [OF ok r]) (auto simp: set_lease_telemetry)
qed

text \<open>The commit of a pruning, then the pruning.\<close>

lemma lost_prune_commit:
  assumes "spares E G P" "s_retention_pending s = Some item"
    and "\<And>r. event_archived L (Some item) r \<Longrightarrow> E r" "\<And>r. diagnostic_archived L (Some item) r \<Longrightarrow> G r"
    and others: "\<And>n d. lost_only (event_archived L (Some item)) (diagnostic_archived L (Some item)) d (px_others P n d)"
  shows "loses E G k (prune_commit P L i c item claim s)"
  unfolding prune_commit_def
proof (rule loses_on_db)
  fix d n r d' n'
  assume run: "(case (d, n) of (d, n) \<Rightarrow> case save P L c (archived_event item) (s, d, n) of
        (Inl (Panicked m), _, dn) \<Rightarrow> (Inl (Panicked m), dn)
      | (r, s', dn) \<Rightarrow>
          (case r of
             Inl e \<Rightarrow> Inl e
           | Inr _ \<Rightarrow> Inr (JObj [(''session_id'', JStr i), (''revision'', json_int (s_revision s')),
                               (''archive_id'', json_opt (s_last_archive_id s'))]),
           drop_lease P (fst claim) (snd claim) dn)) = (r, d', n')"
  obtain r1 s1 d1 n1 where sv: "save P L c (archived_event item) (s, d, n) = (r1, s1, d1, n1)" by (metis prod_cases4)
  have "lost_only (event_archived L (Some item)) (diagnostic_archived L (Some item)) d d1"
    using save_telemetry [OF _ sv] others assms(2) by simp
  then have d1: "lost_only E G d d1" by (rule lost_only_mono) (simp_all add: assms(3,4))
  obtain d2 n2 where drop: "drop_lease P (fst claim) (snd claim) (d1, n1) = (d2, n2)" by fastforce
  have "d' = d1 \<or> d' = d2" using run sv drop by (auto split: sum.splits sql_error.splits)
  then show "lost_only E G d d'" using d1 lost_only_trans [OF d1 lost_drop [OF assms(1) drop]] by blast
qed

definition retains :: "px \<Rightarrow> bool" where
  "retains P \<longleftrightarrow> spares (\<lambda>_. False) (\<lambda>_. False) P"

lemma retains_spares: "retains P \<Longrightarrow> spares E G P"
  unfolding retains_def spares_def by (blast intro: lost_only_mono)

lemma idx_other_key: "k' \<noteq> k \<Longrightarrow> idx (set_idx v k w) k' = idx v k'"
  by (cases v) (simp_all add: idx_def map_of_obj_insert)

lemma prune_admit_loses:
  assumes "retains P"
    and "\<And>item r. idx item ''table_sha256'' = idx manifest ''table_sha256'' \<Longrightarrow> event_archived L (Some item) r \<Longrightarrow> E r"
    and "\<And>item r. idx item ''table_sha256'' = idx manifest ''table_sha256'' \<Longrightarrow> diagnostic_archived L (Some item) r \<Longrightarrow> G r"
  shows "loses E G k (prune_admit P A L i manifest kd ke sc)"
proof -
  note spared = retains_spares [OF assms(1)]
  have insert: "loses E G k (on_db (autocommit P (\<lambda>now. insert_prune (row now))))" for row
  proof (rule loses_on_db)
    fix d n r d' n'
    assume a: "autocommit P (\<lambda>now. insert_prune (row now)) (d, n) = (r, d', n')"
    show "lost_only E G d d'" by (rule lost_autocommit [OF spared a]) (auto simp: insert_prune_def split: sum.splits)
  qed
  have claim: "loses E G k (on_db (claim_lease P))"
    by (rule loses_on_db) (rule lost_claim [OF spared])
  have commit: "loses E G k (prune_commit P L i c item claim (pruned_session command owner namespace claim item s))"
    if "idx item ''table_sha256'' = idx manifest ''table_sha256''" for c item claim command owner namespace s
  proof (rule lost_prune_commit [OF spared])
    show "s_retention_pending (pruned_session command owner namespace claim item s) = Some item" by (simp add: pruned_session_def)
    show "lost_only (event_archived L (Some item)) (diagnostic_archived L (Some item)) d (px_others P n d)" for n d
      using spared [of "event_archived L (Some item)" "diagnostic_archived L (Some item)"] by (simp add: spares_def)
  qed (use assms(2,3) that in blast)+
  show ?thesis
    unfolding prune_admit_def Let_def
    by (intro loses_op_bind loses_pure insert claim commit) (simp add: idx_other_key)
qed

lemma prune_telemetry_loses:
  assumes "retains P" "one_line L" "k path = Some content"
    and "sole_preimage L (file_text A L content ''agent_session_events'')" "sole_preimage L (file_text A L content ''agent_session_diagnostics'')"
    and run: "prune_telemetry P A L args i path sc (k, d, n) = (r, k', d', n')"
  shows "k' = k \<and> lost_only (event_in_file A L content) (diagnostic_in_file A L content) d d'"
proof (cases "verify P A L k path")
  case (Inl e)
  then show ?thesis using run by (simp add: prune_telemetry_def op_bind_def lost_only_refl)
next
  case (Inr manifest)
  let ?E = "event_in_file A L content" and ?G = "diagnostic_in_file A L content"
  have hashed: "idx (idx manifest ''table_sha256'') table = JStr (sha256_hex L (file_text A L content table))"
    if table: "table \<in> set archive_tables" for table
  proof -
    obtain content' where "k path = Some content'"
      "idx (idx manifest ''table_sha256'') table = JStr (sha256_hex L (table_text L (file_rows A L table (tl (lines content')))))"
      by (rule verify_tables [OF Inr table])
    then show ?thesis using assms(3) by (simp add: file_text_def)
  qed
  have tables: "''agent_session_events'' \<in> set archive_tables" "''agent_session_diagnostics'' \<in> set archive_tables"
    by (simp_all add: archive_tables_def)
  have events: "?E x" if same: "idx item ''table_sha256'' = idx manifest ''table_sha256''" and gone: "event_archived L (Some item) x" for item x
  proof -
    obtain sid where "digested L item ''agent_session_events'' (event_json sid x)" using gone by (auto simp: event_archived_def)
    with same hashed [OF tables(1)] show ?thesis unfolding event_in_file_def by (intro exI [of _ sid] digested_in_file [OF assms(2,4)]) simp_all
  qed
  have diagnostics: "?G x" if same: "idx item ''table_sha256'' = idx manifest ''table_sha256''" and gone: "diagnostic_archived L (Some item) x" for item x
  proof -
    obtain sid where "digested L item ''agent_session_diagnostics'' (diag_json sid x)" using gone by (auto simp: diagnostic_archived_def)
    with same hashed [OF tables(2)] show ?thesis unfolding diagnostic_in_file_def by (intro exI [of _ sid] digested_in_file [OF assms(2,5)]) simp_all
  qed
  have receipts: "loses ?E ?G k (on_db (fetch P (\<lambda>now d. Inr (st_archives d))))"
    by (rule loses_on_db) (rule lost_fetch [OF retains_spares [OF assms(1)]])
  let ?rest = "\<lambda>kd ke. op_bind (on_db (fetch P (\<lambda>now d. Inr (st_archives d))))
      (\<lambda>receipts. op_bind (\<lambda>st. (check_receipts P A L (fst st) receipts, st)) (\<lambda>_. prune_admit P A L i manifest kd ke sc))"
  have rest: "loses ?E ?G k (?rest kd ke)" for kd ke
    by (intro loses_op_bind receipts loses_pure prune_admit_loses assms(1) events diagnostics) assumption+
  have "loses ?E ?G k (prune_telemetry P A L args i path sc)"
    unfolding prune_telemetry_def
    by (rule loses_known [of _ _ manifest]) (auto simp: Inr intro!: rest loses_pure split: option.split)
  then show ?thesis using run unfolding loses_def by blast
qed

end
