(* ===== verification/Operator_Samples.thy ===== *)
theory Operator_Samples
  imports Stream_Samples Operator_Proofs Archive_Proofs
begin

text \<open>Operators at work beside a live worker, and an archive with one event.\<close>

section \<open>A live run\<close>

definition sample_held_row :: session_row where
  "sample_held_row = sample_session_row\<lparr>sr_lease := \<lparr>le_owner = Some ''a'', le_fence = 1, le_expires_at = Some 100\<rparr>\<rparr>"

definition sample_busy :: "store \<Rightarrow> bool" where
  "sample_busy d \<longleftrightarrow> st_session d = Some sample_held_row \<and> st_runs d = [sample_run_row]"

lemma sample_lease_kept: "lease_kept sample_px sample_busy"
  by (simp add: lease_kept_def sample_busy_def sample_px_def sample_held_row_def lease_available_def expired_def)

definition sample_busy_store :: store where
  "sample_busy_store = sample_store\<lparr>st_session := Some sample_held_row, st_runs := [sample_run_row]\<rparr>"

section \<open>An archive\<close>

definition sample_quoted :: lib where
  "sample_quoted = sample_lib\<lparr>sha256_hex := id, json_text := \<lambda>v. case v of JStr s \<Rightarrow> CHR 0x22 # filter (\<lambda>c. \<not> control c) s @ [CHR 0x22] | _ \<Rightarrow> ''null''\<rparr>"

definition sample_header :: json where "sample_header = archive_header ''u'' ''s1'' 1"

definition sample_event_line :: json where
  "sample_event_line = row_line ''agent_session_events'' (JObj [(''event_id'', json_int 1), (''session_id'', JStr ''s1'')])"

definition sample_texts :: "string \<Rightarrow> string" where
  "sample_texts t = (if t = ''agent_session_events'' then archive_line sample_quoted sample_event_line else [])"

definition sample_manifest :: json where
  "sample_manifest = JObj
     [(''counts'', JObj (map (\<lambda>t. (t, json_int (if t = ''agent_session_events'' then 1 else 0))) archive_tables)),
      (''table_sha256'', JObj (map (\<lambda>t. (t, JStr (sample_texts t))) archive_tables)),
      (''watermarks'', JObj [(''events'', json_int 1), (''diagnostics'', JObj [])]),
      (''sha256'', JStr (archive_line sample_quoted sample_header @ archive_line sample_quoted sample_event_line))]"

text \<open>A reader of these three lines.\<close>

fun raw_of :: "json \<Rightarrow> raw" where
  "raw_of (JStr s) = RStr s"
| "raw_of (JNum (PosInt n)) = RI64 (int n)"
| "raw_of (JObj kvs) = RMap (map (\<lambda>kv. (fst kv, raw_of (snd kv))) kvs)"
| "raw_of _ = RUnit"

definition sample_reader :: lib where
  "sample_reader = sample_quoted\<lparr>read_json := \<lambda>t.
     if t = ''h'' then Ok (raw_of sample_header) else if t = ''e'' then Ok (raw_of sample_event_line)
     else if t = ''m'' then Ok (RMap [(''manifest'', raw_of sample_manifest)]) else Err ''syntax''\<rparr>"

definition sample_ax :: ax where
  "sample_ax = \<lparr>ax_rows = (\<lambda>_ _. []), ax_line = Ok, ax_path = Ok, ax_open = (\<lambda>_. None), ax_write = (\<lambda>_. None), ax_body = Ok, ax_namespace = Ok ''ns''\<rparr>"

definition sample_file :: string where "sample_file = ''h'' @ newline @ ''e'' @ newline @ ''m'' @ newline"

definition sample_disk :: disk where "sample_disk = [''a'' \<mapsto> sample_file]"

lemma sample_escapes: "escapes sample_reader"
  by (auto simp: escapes_def sample_reader_def sample_quoted_def sample_lib_def control_def split: json.splits)

lemma sample_sole: "sole_preimage sample_reader t"
  by (simp add: sole_preimage_def sample_reader_def sample_quoted_def)

lemma sample_retains: "retains sample_px"
  by (simp add: retains_def spares_def sample_px_def lost_only_refl)

lemma sample_verifies: "\<exists>item. verify sample_px sample_ax sample_reader sample_disk ''a'' = Ok item"
proof -
  have lines: "lines sample_file = [''h'', ''e'', ''m'']"
    by (simp add: sample_file_def newline_def lines_def strip_cr_def)
  have parsed: "parse_strict_json sample_reader ''h'' = Ok sample_header" "parse_strict_json sample_reader ''e'' = Ok sample_event_line"
    "parse_strict_json sample_reader ''m'' = Ok (JObj [(''manifest'', sample_manifest)])"
    by (simp_all add: parse_strict_json_def sample_reader_def sample_header_def archive_header_def json_int_def sample_event_line_def row_line_def
        sample_manifest_def archive_tables_def)
  have header: "check_header sample_px sample_header = Ok ()"
    by (simp add: check_header_def sample_header_def archive_header_def idx_def json_int_def sample_px_def i64_max_def)
  have same: "archive_line sample_reader v = archive_line sample_quoted v" for v
  proof -
    have "f64_text sample_reader = f64_text sample_quoted" "json_text sample_reader = json_text sample_quoted" by (simp_all add: sample_reader_def)
    moreover from this have "python_number sample_reader n = python_number sample_quoted n" for n by (cases n) (simp_all add: Let_def)
    ultimately have "python_encoded sample_reader v = python_encoded sample_quoted v"
      "encoded_items sample_reader xs = encoded_items sample_quoted xs" "encoded_fields sample_reader kvs = encoded_fields sample_quoted kvs" for v xs kvs
      by (induction sample_quoted v and sample_quoted xs and sample_quoted kvs rule: python_encoded_encoded_items_encoded_fields.induct) simp_all
    then show ?thesis by (simp add: archive_line_def canonical_json_encoded)
  qed
  define sc where "sc = (scan_start sample_reader sample_header)\<lparr>sc_text := archive_line sample_quoted sample_header @ archive_line sample_quoted sample_event_line,
     sc_tables := (\<lambda>_. [])(''agent_session_events'' := archive_line sample_quoted sample_event_line),
     sc_counts := (\<lambda>_. 0)(''agent_session_events'' := 1), sc_marks := JObj [(''events'', json_int 1), (''diagnostics'', JObj [])]\<rparr>"
  have row: "scan_row sample_reader sample_header sample_event_line ''agent_session_events'' (scan_start sample_reader sample_header) = Ok sc"
    by (simp add: scan_row_def sample_event_line_def row_line_def idx_def archive_tables_def sample_header_def archive_header_def mark_event_def
        json_int_def same scan_start_def sc_def Let_def i64_max_def)
  have scanned: "scan_lines sample_ax sample_reader sample_header [''e'', ''m''] (scan_start sample_reader sample_header)
      = Ok (sc\<lparr>sc_manifest := Some sample_manifest\<rparr>)"
    using row by (simp add: scan_line_def parsed sample_ax_def scan_start_def sc_def sample_event_line_def row_line_def idx_def)
  have "manifest_matches sample_reader (sc\<lparr>sc_manifest := Some sample_manifest\<rparr>) sample_manifest"
    by (simp add: manifest_matches_def sample_manifest_def idx_def sc_def sample_reader_def sample_quoted_def archive_tables_def sample_texts_def json_int_def)
  moreover have "ax_line sample_ax = Ok" "ax_path sample_ax = Ok" "sample_disk ''a'' = Some sample_file"
    by (simp_all add: sample_ax_def sample_disk_def)
  moreover obtain kvs where "as_object sample_manifest = Some kvs" by (simp add: sample_manifest_def)
  ultimately show ?thesis using scanned
    by (simp add: verify_def lines parsed header)
qed

end
