(* ===== verification/Text_Words.thy ===== *)
theory Text_Words
  imports Encoding
begin

text \<open>
  Words of a text (\<open>str::split_whitespace\<close>), the width and precision of \<open>format!\<close>, and the
  maximum of a list by a key (\<open>Iterator::max_by\<close>).
\<close>

section \<open>Words\<close>

function split_at_white :: "string \<Rightarrow> string list" where
  "split_at_white s =
     (case find (\<lambda>p. p \<noteq> [] \<and> prefix p s) white_space of
        Some p \<Rightarrow> [] # split_at_white (drop (length p) s)
      | None \<Rightarrow> (case s of [] \<Rightarrow> [[]]
                | c # t \<Rightarrow> (case split_at_white t of [] \<Rightarrow> [[c]] | w # ws \<Rightarrow> (c # w) # ws)))"
  by pat_completeness auto
termination
proof (relation "measure length", goal_cases)
  case (3 s p)
  then have "p \<noteq> []" "prefix p s" by (auto simp: find_Some_iff)
  then show ?case by (auto simp: prefix_def)
qed simp_all

declare split_at_white.simps [simp del]

definition split_whitespace :: "string \<Rightarrow> string list" where
  "split_whitespace s = filter (\<lambda>w. w \<noteq> []) (split_at_white s)"

lemma split_whitespace_nonempty: "w \<in> set (split_whitespace s) \<Longrightarrow> w \<noteq> []"
  by (simp add: split_whitespace_def)

section \<open>Formatting\<close>

definition pad_left :: "nat \<Rightarrow> string \<Rightarrow> string" where
  "pad_left n s = replicate (n - length s) (CHR '' '') @ s"

text \<open>Two decimals of an exact value; a tie goes to the even digit.\<close>

definition round_half_even :: "rat \<Rightarrow> nat" where
  "round_half_even x =
     (let q = \<lfloor>x\<rfloor>; r = x - of_int q in nat (if r > 1 / 2 \<or> r = 1 / 2 \<and> odd q then q + 1 else q))"

definition fixed2 :: "f64 \<Rightarrow> string" where
  "fixed2 f =
     (let n = round_half_even (100 * f64_mag f)
      in (if f64_neg f then ''-'' else []) @ show_nat (n div 100) @ ''.'' @ pad2 (n mod 100))"

section \<open>Maximum by a key\<close>

text \<open>Of several maxima the last one counts.\<close>

fun max_by :: "('a \<Rightarrow> 'k::linorder) \<Rightarrow> 'a list \<Rightarrow> 'a option" where
  "max_by f [] = None"
| "max_by f (x # xs) = Some (fold (\<lambda>y m. if f m \<le> f y then y else m) xs x)"

lemma max_fold:
  "fold (\<lambda>y m. if f m \<le> f y then y else m) xs x = z \<Longrightarrow> z \<in> set (x # xs) \<and> (\<forall>y\<in>set (x # xs). (f y :: 'k::linorder) \<le> f z)"
  by (induction xs arbitrary: x) (fastforce split: if_splits)+

lemma max_by_Some: "max_by f xs = Some z \<Longrightarrow> z \<in> set xs \<and> (\<forall>y\<in>set xs. f y \<le> f z)"
  using max_fold [of f _ _ z] by (cases xs) (simp, fastforce)

lemma max_by_None [simp]: "max_by f xs = None \<longleftrightarrow> xs = []"
  by (cases xs) auto

text \<open>With distinct keys the maximum does not depend on the order of the list.\<close>

lemma max_by_eq:
  assumes "inj_on f (set xs)" "z \<in> set xs" "\<forall>y\<in>set xs. f y \<le> f z"
  shows "max_by f xs = Some z"
proof -
  obtain m where m: "max_by f xs = Some m" using assms(2) by (cases "max_by f xs") auto
  then have "m \<in> set xs" "f z \<le> f m" using assms(2) max_by_Some [OF m] by auto
  then have "f m = f z" using assms(3) by (simp add: order_antisym)
  then show ?thesis using m assms(1,2) \<open>m \<in> set xs\<close> by (simp add: inj_on_eq_iff)
qed

end
