(* ===== verification/Fixture_Tools.thy ===== *)
theory Fixture_Tools
  imports Text_Words Ledger Profiles "HOL-Library.Product_Lexorder"
begin

text \<open>
  The tools over the fixture tables (\<^verbatim>\<open>tools.rs\<close>: \<open>execute\<close> and \<open>inner\<close> with their handlers).  The
  tables are lists of rows, every query can fail, and the two aggregations in SQL, the decimal
  reading and the rounding of doubles, the Unicode tables and the iteration order of a hash
  map are fields of \<open>fixture_db\<close> and \<open>fixture_lib\<close>.  Arithmetic that leaves its type panics, as it
  does in the build that \<^verbatim>\<open>cargo run\<close> makes.
\<close>

section \<open>Doubles\<close>

datatype xf64 = Finite f64 | Infinite bool | Not_A_Number bool

definition xzero :: xf64 where "xzero = Finite (F64 False 0)"

record fixture_lib =
  fx_parse_f64 :: "string \<Rightarrow> xf64 option"
  fx_round :: "rat \<Rightarrow> xf64"
  fx_alphanumeric :: "nat \<Rightarrow> bool"
  fx_uppercase :: "nat \<Rightarrow> nat list"
  fx_lowercase :: "nat \<Rightarrow> nat list"
  fx_ip_order :: "(string \<times> int \<times> nat) list \<Rightarrow> (string \<times> int \<times> nat) list"
  fx_city_order :: "(string \<times> int list) list \<Rightarrow> (string \<times> int list) list"

text \<open>A zero sum of two zeros is negative when both are.\<close>

fun xadd :: "fixture_lib \<Rightarrow> xf64 \<Rightarrow> xf64 \<Rightarrow> xf64" where
  "xadd X (Finite f) (Finite g) =
     (if f64_val f + f64_val g = 0 then Finite (F64 (f64_neg f \<and> f64_neg g) 0) else fx_round X (f64_val f + f64_val g))"
| "xadd X (Infinite a) (Infinite b) = (if a = b then Infinite a else Not_A_Number False)"
| "xadd X (Infinite a) (Finite _) = Infinite a"
| "xadd X (Finite _) (Infinite b) = Infinite b"
| "xadd X (Not_A_Number a) _ = Not_A_Number a"
| "xadd X _ (Not_A_Number b) = Not_A_Number b"

fun xneg :: "xf64 \<Rightarrow> xf64" where
  "xneg (Finite f) = Finite (F64 (\<not> f64_neg f) (f64_mag f))"
| "xneg (Infinite a) = Infinite (\<not> a)"
| "xneg (Not_A_Number a) = Not_A_Number (\<not> a)"

fun xhalf :: "fixture_lib \<Rightarrow> xf64 \<Rightarrow> xf64" where
  "xhalf X (Finite f) = (if f64_mag f = 0 then Finite f else fx_round X (f64_val f / 2))"
| "xhalf X v = v"

text \<open>\<open>(x - y).abs() < 0.005\<close>, with the double nearest to \<open>0.005\<close>.\<close>

definition f64_0_005 :: rat where "f64_0_005 = 5764607523034235 / 1152921504606846976"

definition within_half_cent :: "fixture_lib \<Rightarrow> xf64 \<Rightarrow> xf64 \<Rightarrow> bool" where
  "within_half_cent X x y \<longleftrightarrow> (case xadd X x (xneg y) of Finite f \<Rightarrow> f64_mag f < f64_0_005 | _ \<Rightarrow> False)"

text \<open>\<open>as i64\<close> truncates and saturates.\<close>

fun xf64_i64 :: "xf64 \<Rightarrow> int" where
  "xf64_i64 (Finite f) =
     (let t = \<lfloor>f64_mag f\<rfloor> in max i64_min (min i64_max (if f64_neg f then - t else t)))"
| "xf64_i64 (Infinite neg) = (if neg then i64_min else i64_max)"
| "xf64_i64 (Not_A_Number _) = 0"

text \<open>\<open>f64::total_cmp\<close>, and \<open>json!\<close> of a double.\<close>

fun total_key :: "xf64 \<Rightarrow> int \<times> rat \<times> int" where
  "total_key (Not_A_Number neg) = (if neg then -2 else 2, 0, 0)"
| "total_key (Infinite neg) = (if neg then -1 else 1, 0, 0)"
| "total_key (Finite f) = (0, f64_val f, if f64_neg f then 0 else 1)"

fun json_f64 :: "xf64 \<Rightarrow> json" where
  "json_f64 (Finite f) = JNum (Float f)"
| "json_f64 _ = JNull"

section \<open>Arguments\<close>

type_synonym tool_args = "(string \<times> json) list"

definition number :: "fixture_lib \<Rightarrow> tool_args \<Rightarrow> string \<Rightarrow> xf64" where
  "number X a key =
     (case map_of a key of
        None \<Rightarrow> xzero
      | Some v \<Rightarrow>
          (case as_f64 v of
             Some f \<Rightarrow> Finite f
           | None \<Rightarrow> unwrap_or xzero (Option.bind (as_str v) (fx_parse_f64 X))))"

definition boolean :: "tool_args \<Rightarrow> string \<Rightarrow> bool" where
  "boolean a key =
     (case map_of a key of
        None \<Rightarrow> False | Some JNull \<Rightarrow> False
      | Some (JBool b) \<Rightarrow> b
      | Some (JNum n) \<Rightarrow> f64_val (num_f64 n) \<noteq> 0
      | Some (JStr s) \<Rightarrow> s \<noteq> []
      | Some (JArr xs) \<Rightarrow> xs \<noteq> []
      | Some (JObj kvs) \<Rightarrow> kvs \<noteq> [])"

section \<open>Tables\<close>

text \<open>An employee is a tuple of five columns in the code.\<close>

record employee =
  em_id :: int
  em_name :: string
  em_age :: string
  em_salary :: string
  em_city :: string

datatype fixture_query = Log_Lines | Columns_Of string | Chicago_Rows | Key_Rows | Revenue | Employees

datatype fixture_error = Coded "string option" string | Pool_Failure string | Other_Failure string

record fixture_db =
  fx_fault :: "fixture_query \<Rightarrow> fixture_error option"
  fx_logs :: "(int \<times> string) list"
  fx_columns :: "string \<Rightarrow> (string \<times> string) list"
  fx_customers :: "(int \<times> string \<times> string) list"
  fx_orders :: "(int \<times> string \<times> string \<times> string) list"
  fx_lower :: "string \<Rightarrow> string"
  fx_revenue :: "bool \<Rightarrow> bool \<Rightarrow> xf64"
  fx_employees :: "employee list"

definition error_kinds :: "(string \<times> string) list" where
  "error_kinds =
     [(''22P02'', ''InvalidTextRepresentation''), (''42P01'', ''UndefinedTable''), (''42703'', ''UndefinedColumn''),
      (''23505'', ''UniqueViolation''), (''23503'', ''ForeignKeyViolation''), (''23502'', ''NotNullViolation''),
      (''22003'', ''NumericValueOutOfRange''), (''22012'', ''DivisionByZero''), (''42601'', ''SyntaxError'')]"

definition error_kind :: "string \<Rightarrow> string" where
  "error_kind code =
     (case map_of error_kinds code of
        Some kind \<Rightarrow> kind
      | None \<Rightarrow>
          if prefix ''08'' code then ''OperationalError''
          else if prefix ''23'' code then ''IntegrityError''
          else if prefix ''22'' code then ''DataError''
          else ''DatabaseError'')"

fun error_text :: "fixture_error \<Rightarrow> string" where
  "error_text (Coded code message) = error_kind (unwrap_or [] code) @ '': '' @ message"
| "error_text (Pool_Failure t) = ''OperationalError: '' @ t"
| "error_text (Other_Failure t) = t"

text \<open>A tool answers, fails with a text, or panics.\<close>

type_synonym 'a tool_result = "'a result outcome"

definition fbind :: "'a tool_result \<Rightarrow> ('a \<Rightarrow> 'b tool_result) \<Rightarrow> 'b tool_result" where
  "fbind m f = obind m (\<lambda>r. case r of Inl e \<Rightarrow> Done (Err e) | Inr x \<Rightarrow> f x)"

definition answered :: "'a \<Rightarrow> 'a tool_result" where "answered x = Done (Ok x)"

lemma fbind_simps [simp]:
  "fbind (Done (Inr x)) f = f x" "fbind (Done (Inl e)) f = Done (Inl e)" "fbind (Panic m) f = Panic m"
  "fbind (answered x) f = f x"
  by (simp_all add: fbind_def answered_def)

lemma fbind_eq_answer: "fbind m f = Done (Inr y) \<longleftrightarrow> (\<exists>x. m = Done (Inr x) \<and> f x = Done (Inr y))"
  by (cases m) (auto simp: fbind_def split: sum.splits)

definition rows_of :: "fixture_db \<Rightarrow> fixture_query \<Rightarrow> 'a \<Rightarrow> 'a tool_result" where
  "rows_of D q rows = (case fx_fault D q of Some e \<Rightarrow> Done (Err (error_text e)) | None \<Rightarrow> answered rows)"

definition log_lines :: "fixture_db \<Rightarrow> string list tool_result" where
  "log_lines D = rows_of D Log_Lines (map snd (sort_key fst (fx_logs D)))"

definition employee_rows :: "fixture_db \<Rightarrow> employee list tool_result" where
  "employee_rows D = rows_of D Employees (sort_key em_id (fx_employees D))"

section \<open>The access log\<close>

definition normalize_slice :: "int \<Rightarrow> nat \<Rightarrow> nat" where
  "normalize_slice index len = nat (if index < 0 then max (int len + index) 0 else max (min index (int len)) 0)"

definition saturating_add :: "int \<Rightarrow> int \<Rightarrow> int" where
  "saturating_add x y = max i64_min (min i64_max (x + y))"

definition overflow :: string where "overflow = ''attempt to subtract with overflow''"

fun numbered_lines :: "int \<Rightarrow> string list \<Rightarrow> string list" where
  "numbered_lines n [] = []"
| "numbered_lines n (l # ls) = (show_int n @ '': '' @ l) # numbered_lines (n + 1) ls"

definition inspect_log :: "fixture_lib \<Rightarrow> fixture_db \<Rightarrow> tool_args \<Rightarrow> string tool_result" where
  "inspect_log X D a =
     (let start_line = xf64_i64 (number X a ''start_line'')
      in if start_line = i64_min then Panic overflow
         else (let start = start_line - 1; wanted = xf64_i64 (number X a ''line_count'')
               in fbind (log_lines D) (\<lambda>rows.
                    let start_index = normalize_slice start (length rows);
                        end_index = normalize_slice (saturating_add start wanted) (length rows)
                    in answered (join newline (numbered_lines start_line (take (end_index - start_index) (drop start_index rows)))))))"

definition ip_regex_match :: "string \<Rightarrow> bool" where
  "ip_regex_match s \<longleftrightarrow>
     (let parts = split_char (CHR ''.'') s
      in length parts = 4 \<and> list_all (\<lambda>x. x \<noteq> [] \<and> length x \<le> 3 \<and> list_all is_digit x) parts)"

text \<open>The entries of the hash map, here in the order of their first lines.\<close>

type_synonym ip_counts = "(string \<times> int \<times> nat) list"

definition count_ip :: "string \<Rightarrow> nat \<Rightarrow> ip_counts \<Rightarrow> ip_counts" where
  "count_ip ip i m = (case map_of m ip of None \<Rightarrow> m @ [(ip, 1, i)] | Some (c, j) \<Rightarrow> obj_insert ip (c + 1, j) m)"

definition robust_hit :: "string \<Rightarrow> string option" where
  "robust_hit line =
     (let fields = split_whitespace line
      in if length fields \<ge> 2 \<and> ip_regex_match (hd fields) \<and> last fields = ''500'' then Some (hd fields) else None)"

fun count_robust :: "nat \<Rightarrow> string list \<Rightarrow> ip_counts \<Rightarrow> ip_counts" where
  "count_robust i [] m = m"
| "count_robust i (l # ls) m =
     count_robust (Suc i) ls (case robust_hit l of None \<Rightarrow> m | Some ip \<Rightarrow> count_ip ip i m)"

text \<open>The naive parser stops at the first line with too few fields.\<close>

fun count_naive :: "nat \<Rightarrow> string list \<Rightarrow> ip_counts \<Rightarrow> nat + ip_counts" where
  "count_naive i [] m = Inr m"
| "count_naive i (l # ls) m =
     (let fields = split_char (CHR '' '') l
      in if length fields \<le> 7 then Inl i
         else count_naive (Suc i) ls (if fields ! 7 = ''500'' then count_ip (hd fields) i m else m))"

definition rank :: "string \<times> int \<times> nat \<Rightarrow> int \<times> nat" where
  "rank e = (case e of (ip, hits, first) \<Rightarrow> (- hits, first))"

definition ranked :: "fixture_lib \<Rightarrow> ip_counts \<Rightarrow> ip_counts" where
  "ranked X m = sort_key rank (fx_ip_order X m)"

definition top_answer :: "lib \<Rightarrow> bool \<Rightarrow> ip_counts \<Rightarrow> string" where
  "top_answer L robust best =
     python_json L (JObj [(''top'', JArr (map (\<lambda>(ip, hits, _). JArr [JStr ip, json_int hits]) (take 5 best))),
                          (''malformed_records_ignored'', json_nat (if robust then 10 else 0))])"

definition naive_failure :: "nat \<Rightarrow> string" where
  "naive_failure i =
     ''ERROR: naive parser failed at line '' @ show_nat (i + 1)
     @ '': IndexError: list index out of range. Try robust_parser=true.''"

definition analyze_ips :: "fixture_lib \<Rightarrow> lib \<Rightarrow> fixture_db \<Rightarrow> bool \<Rightarrow> string tool_result" where
  "analyze_ips X L D robust =
     fbind (log_lines D) (\<lambda>rows.
       case (if robust then Inr (count_robust 0 rows []) else count_naive 0 rows []) of
         Inl i \<Rightarrow> answered (naive_failure i)
       | Inr m \<Rightarrow> answered (top_answer L robust (ranked X m)))"

definition top_ip :: "fixture_lib \<Rightarrow> fixture_db \<Rightarrow> (string \<times> int) tool_result" where
  "top_ip X D =
     fbind (log_lines D) (\<lambda>rows.
       Done (ok_or ''no matching access log records''
         (map_option (\<lambda>(ip, hits, _). (ip, hits))
            (max_by (\<lambda>(ip, hits, first). (hits, - int first)) (fx_ip_order X (count_robust 0 rows []))))))"

definition top_verdict :: "lib \<Rightarrow> bool \<Rightarrow> string" where
  "top_verdict L valid =
     python_json L (JObj [(''valid'', JBool valid),
       (''message'', JStr (if valid then ''Validated.'' else ''Incorrect; inspect parsing and retry.''))])"

definition validate_top :: "fixture_lib \<Rightarrow> lib \<Rightarrow> fixture_db \<Rightarrow> tool_args \<Rightarrow> string tool_result" where
  "validate_top X L D a =
     fbind (top_ip X D) (\<lambda>(ip, hits).
       let valid = Option.bind (map_of a ''ip'') as_str = Some ip \<and> xf64_i64 (number X a ''count'') = hits
       in answered (top_verdict L valid))"

section \<open>Customers and orders\<close>

text \<open>\<open>LIKE 'ID_%%'\<close>: the underscore stands for any one character.\<close>

definition id_like :: "string \<Rightarrow> bool" where
  "id_like s \<longleftrightarrow> prefix ''ID'' s \<and> length (utf8_decode s) \<ge> 3"

definition column_rows :: "fixture_db \<Rightarrow> string \<Rightarrow> json tool_result" where
  "column_rows D short =
     fbind (rows_of D (Columns_Of (''agent_fixture_'' @ short)) (fx_columns D (''agent_fixture_'' @ short)))
       (\<lambda>rows. answered (JArr (map (\<lambda>(name, kind). JArr [JStr name, JStr kind]) rows)))"

definition inspect_sql_schema :: "lib \<Rightarrow> fixture_db \<Rightarrow> string tool_result" where
  "inspect_sql_schema L D =
     fbind (column_rows D ''customers'') (\<lambda>customers. fbind (column_rows D ''orders'') (\<lambda>orders.
     fbind (rows_of D Chicago_Rows (take 6 (filter (\<lambda>(_, _, city). fx_lower D city = ''chicago'') (fx_customers D)))) (\<lambda>chicago.
     fbind (rows_of D Key_Rows (take 6 (filter (\<lambda>(_, key, _, _). id_like key) (fx_orders D)))) (\<lambda>bad_keys.
     answered (python_json L (JObj
       [(''schema'', JObj [(''customers'', customers), (''orders'', orders)]),
        (''chicago_examples'', JArr (map (\<lambda>(i, name, city). JArr [json_int i, JStr name, JStr city]) chicago)),
        (''string_key_examples'', JArr (map (\<lambda>(i, key, amount, day). JArr [json_int i, JStr key, JStr amount, JStr day]) bad_keys))]))))))"

definition query_revenue :: "lib \<Rightarrow> fixture_db \<Rightarrow> bool \<Rightarrow> bool \<Rightarrow> string tool_result" where
  "query_revenue L D keys city =
     fbind (rows_of D Revenue (fx_revenue D keys city)) (\<lambda>amount_sum.
       answered (python_json L (JObj [(''total'', json_f64 amount_sum), (''normalize_keys'', JBool keys), (''normalize_city'', JBool city)])))"

text \<open>The number that a tool reads back from the answer of another one.\<close>

definition reread :: "lib \<Rightarrow> string \<Rightarrow> string \<Rightarrow> xf64 tool_result" where
  "reread L key text =
     Done (rbind (from_str L text) (\<lambda>expected. Ok (case as_f64 (idx expected key) of None \<Rightarrow> xzero | Some f \<Rightarrow> Finite f)))"

definition validate_revenue :: "fixture_lib \<Rightarrow> lib \<Rightarrow> fixture_db \<Rightarrow> tool_args \<Rightarrow> string tool_result" where
  "validate_revenue X L D a =
     fbind (query_revenue L D True True) (\<lambda>text. fbind (reread L ''total'' text) (\<lambda>amount_sum.
       let valid = within_half_cent X (number X a ''total'') amount_sum
       in answered (python_json L (JObj [(''valid'', JBool valid),
            (''expected_hint'', JStr (if valid then ''Validated.'' else ''Normalize city case and ID_ foreign keys.''))]))))"

section \<open>The audit of the employees\<close>

definition employee_json :: "employee \<Rightarrow> json" where
  "employee_json r = JArr [json_int (em_id r), JStr (em_name r), JStr (em_age r), JStr (em_salary r), JStr (em_city r)]"

definition example_rows :: "nat list" where "example_rows = [8, 9, 14, 21, 27]"

definition inspect_employee_schema :: "lib \<Rightarrow> fixture_db \<Rightarrow> string tool_result" where
  "inspect_employee_schema L D =
     fbind (employee_rows D) (\<lambda>rows.
       answered (python_json L (JObj
         [(''schema'', JObj [(''table'', JStr ''employees''),
             (''columns'', JArr (map JStr [''emp_id INTEGER'', ''name TEXT'', ''age TEXT'', ''salary TEXT'', ''city TEXT'']))]),
          (''record_count'', json_nat (length rows)),
          (''examples'', JArr (map (\<lambda>i. employee_json (rows ! i)) (filter (\<lambda>i. i < length rows) example_rows))),
          (''rules'', JStr ''age is invalid when NULL or semicolon-delimited; salary is invalid when currency-formatted or UNKNOWN; city matching is case-insensitive.'')])))"

definition parser_window :: "nat \<Rightarrow> string \<Rightarrow> string" where
  "parser_window row field =
     join newline (map (\<lambda>n. ''  '' @ pad_left 4 (show_nat n) @ '' | parsed_'' @ field @ ''['' @ show_nat n @ ''] = ''
        @ field @ ''_parser(record['' @ show_nat n @ ''])'') [max (row - 8) 1 ..< row + 8])"

definition employee_failure :: "nat \<Rightarrow> string \<Rightarrow> string \<Rightarrow> string" where
  "employee_failure row field val =
     ''ERROR: Phase 1 parser crashed at employee '' @ show_nat row @ ''; '' @ field @ ''='' @ quoted val @ ''.'' @ newline
     @ ''Traceback (most recent call last):'' @ newline
     @ ''  File '' @ [CHR 0x22] @ ''/simulated/audit.py'' @ [CHR 0x22] @ '', line 84, in parse_employee_batch'' @ newline
     @ ''    normalized_'' @ field @ '' = '' @ field @ ''_parser(raw_'' @ field @ '')'' @ newline
     @ ''  File '' @ [CHR 0x22] @ ''/simulated/audit.py'' @ [CHR 0x22] @ '', line 39, in '' @ field @ ''_parser'' @ newline
     @ ''    raise ValueError('' @ quoted (''unsupported '' @ field @ '' representation'') @ '')'' @ newline
     @ ''ValueError: unsupported '' @ field @ '' representation '' @ quoted val @ newline
     @ ''Parser window (not a successful audit):'' @ newline
     @ parser_window row field @ newline
     @ ''Revise only the parser assumption exposed by this failure, then retry incrementally.''"

definition bad_parser :: string where
  "bad_parser = ''ERROR: parser must be naive, currency_cleaned, null_cleaned, or robust.''"

definition missing_parser :: string where
  "missing_parser = ''ERROR: KeyError: '' @ quoted ''parser''"

definition parser_failure :: "string \<Rightarrow> (nat \<times> string \<times> string) option" where
  "parser_failure parser =
     (if parser = ''naive'' then Some (10, ''salary'', ''$80,000'')
      else if parser = ''currency_cleaned'' then Some (15, ''age'', ''NULL'')
      else if parser = ''null_cleaned'' then Some (22, ''age'', ''41; extra_field_corrupted'')
      else None)"

definition bad_age :: "employee \<Rightarrow> bool" where
  "bad_age r \<longleftrightarrow> em_age r = ''NULL'' \<or> contains_str (em_age r) '';''"

definition bad_salary :: "employee \<Rightarrow> bool" where
  "bad_salary r \<longleftrightarrow> em_salary r = ''UNKNOWN'' \<or> prefix ''$'' (em_salary r)"

definition bad_ids :: "(employee \<Rightarrow> bool) \<Rightarrow> employee list \<Rightarrow> int list" where
  "bad_ids bad rows = map em_id (filter bad rows)"

definition audit_answer :: "lib \<Rightarrow> employee list \<Rightarrow> string" where
  "audit_answer L rows =
     (let ages = bad_ids bad_age rows; salaries = bad_ids bad_salary rows
      in python_json L (JObj [(''phase'', JStr ''Phase 1''),
           (''corrupted_age_ids'', JArr (map json_int ages)), (''corrupted_salary_ids'', JArr (map json_int salaries)),
           (''corrupted_row_ids'', JArr (map json_int (remdups_adj (sort (ages @ salaries))))), (''status'', JStr ''logged'')]))"

definition audit_employee :: "lib \<Rightarrow> fixture_db \<Rightarrow> tool_args \<Rightarrow> string tool_result" where
  "audit_employee L D a =
     (case map_of a ''parser'' of
        None \<Rightarrow> answered missing_parser
      | Some v \<Rightarrow>
          (case as_str v of
             None \<Rightarrow> answered bad_parser
           | Some parser \<Rightarrow>
               (case parser_failure parser of
                  Some (row, field, val) \<Rightarrow> answered (employee_failure row field val)
                | None \<Rightarrow>
                    if parser \<noteq> ''robust'' then answered bad_parser
                    else fbind (employee_rows D) (\<lambda>rows. answered (audit_answer L rows)))))"

definition metric_failure :: "string \<Rightarrow> string" where
  "metric_failure message =
     message @ newline @ ''Metric test runner context:'' @ newline
     @ join newline (map (\<lambda>i. ''  assertion-frame '' @ pad2 i
          @ '': candidate=[raw salary values]; city predicate and invalid-value filter under test'') [1..<33])
     @ newline @ ''Revise the stated normalization rule and retry the metric.''"

definition salary_values :: "fixture_lib \<Rightarrow> lib \<Rightarrow> employee list \<Rightarrow> xf64 list" where
  "salary_values X L rows =
     sort_key total_key
       (List.map_filter (\<lambda>r. fx_parse_f64 X (em_salary r))
          (filter (\<lambda>r. lowercase L (em_city r) = ''new york'' \<and> em_salary r \<noteq> ''UNKNOWN'' \<and> \<not> prefix ''$'' (em_salary r)) rows))"

text \<open>The middle of an empty list is below its start.\<close>

definition median_of :: "fixture_lib \<Rightarrow> xf64 list \<Rightarrow> xf64 outcome" where
  "median_of X xs =
     (let n = length xs
      in if even n
         then (if n = 0 then Panic overflow else Done (xhalf X (xadd X (xs ! (n div 2 - 1)) (xs ! (n div 2)))))
         else Done (xs ! (n div 2)))"

definition employee_median :: "fixture_lib \<Rightarrow> lib \<Rightarrow> fixture_db \<Rightarrow> tool_args \<Rightarrow> string tool_result" where
  "employee_median X L D a =
     (if \<not> boolean a ''exclude_invalid_salary''
      then answered (metric_failure ''AssertionError: salary array contains UNKNOWN; filter invalid salary fields before median().'')
      else if \<not> boolean a ''normalize_city''
      then answered (metric_failure ''AssertionError: Expected median 92500, but your script calculated 71000. Match city case-insensitively.'')
      else fbind (employee_rows D) (\<lambda>rows.
             let xs = salary_values X L rows
             in obind (median_of X xs) (\<lambda>median.
                  answered (python_json L (JObj [(''phase'', JStr ''Phase 2''), (''median_salary'', json_f64 median),
                     (''valid_new_york_employees'', json_nat (length xs)), (''status'', JStr ''calculated'')])))))"

definition validate_employee_audit :: "fixture_lib \<Rightarrow> lib \<Rightarrow> fixture_db \<Rightarrow> tool_args \<Rightarrow> string tool_result" where
  "validate_employee_audit X L D a =
     fbind (employee_median X L D [(''normalize_city'', JBool True), (''exclude_invalid_salary'', JBool True)])
       (\<lambda>text. fbind (reread L ''median_salary'' text) (\<lambda>median.
          let valid = boolean a ''phase_1_logged'' \<and> boolean a ''normalize_city'' \<and> boolean a ''drop_invalid_age''
                \<and> within_half_cent X (number X a ''median_salary'') median
          in answered (python_json L (JObj [(''valid'', JBool valid), (''expected_median_salary'', json_f64 median),
               (''hint'', JStr (if valid then ''Validated all three phases.''
                                else ''Log Phase 1, normalize city casing, and drop invalid ages.''))]))))"

section \<open>The report of the employees\<close>

fun title_chars :: "fixture_lib \<Rightarrow> bool \<Rightarrow> nat list \<Rightarrow> nat list" where
  "title_chars X word_start [] = []"
| "title_chars X word_start (c # cs) =
     (if fx_alphanumeric X c
      then (if word_start then fx_uppercase X c else fx_lowercase X c) @ title_chars X False cs
      else c # title_chars X True cs)"

definition title_case :: "fixture_lib \<Rightarrow> string \<Rightarrow> string" where
  "title_case X s = concat (map utf8_encode (title_chars X True (utf8_decode s)))"

definition push_age :: "string \<Rightarrow> int \<Rightarrow> (string \<times> int list) list \<Rightarrow> (string \<times> int list) list" where
  "push_age city age m = obj_insert city (unwrap_or [] (map_of m city) @ [age]) m"

fun group_ages :: "fixture_lib \<Rightarrow> employee list \<Rightarrow> (string \<times> int list) list \<Rightarrow> (string \<times> int list) list" where
  "group_ages X [] m = m"
| "group_ages X (r # rs) m =
     group_ages X rs
       (if bad_age r then m
        else (case parse_int in_i32 (em_age r) of None \<Rightarrow> m | Some age \<Rightarrow> push_age (title_case X (em_city r)) age m))"

fun sum_i32 :: "int \<Rightarrow> int list \<Rightarrow> int option" where
  "sum_i32 acc [] = Some acc"
| "sum_i32 acc (x # xs) = (if in_i32 (acc + x) then sum_i32 (acc + x) xs else None)"

definition mean_text :: "fixture_lib \<Rightarrow> int \<Rightarrow> nat \<Rightarrow> string" where
  "mean_text X amount_sum n =
     (case (if amount_sum = 0 then xzero else fx_round X (of_int amount_sum / of_nat (round53 n))) of
        Finite f \<Rightarrow> fixed2 f | Infinite neg \<Rightarrow> if neg then ''-inf'' else ''inf'' | Not_A_Number _ \<Rightarrow> ''NaN'')"

fun city_lines :: "fixture_lib \<Rightarrow> (string \<times> int list) list \<Rightarrow> string outcome" where
  "city_lines X [] = Done []"
| "city_lines X ((city, ages) # gs) =
     (case sum_i32 0 ages of
        None \<Rightarrow> Panic ''attempt to add with overflow''
      | Some amount_sum \<Rightarrow>
          obind (city_lines X gs) (\<lambda>rest.
            Done (''| '' @ city @ '' | '' @ show_nat (length ages) @ '' | '' @ mean_text X amount_sum (length ages) @ '' |'' @ newline @ rest)))"

definition report_head :: string where
  "report_head = ''Phase 3 '' @ utf8_encode 0x2014 @ '' clean city audit'' @ newline
     @ ''| City | Valid headcount | Average age |'' @ newline @ ''| --- | ---: | ---: |'' @ newline"

definition report_trace :: string where
  "report_trace = newline @ ''Phase 3 normalization trace (diagnostic evidence):'' @ newline
     @ join newline (map (\<lambda>i. ''normalization-check '' @ pad2 i
          @ '': city=lowercase, age=NULL-or-semicolon excluded, salary=UNKNOWN-or-currency excluded, aggregate=verified'') [1..<49])"

definition employee_report :: "fixture_lib \<Rightarrow> fixture_db \<Rightarrow> tool_args \<Rightarrow> string tool_result" where
  "employee_report X D a =
     (if \<not> boolean a ''normalize_city'' then answered ''ERROR: Phase 3 would split New York and new york. Set normalize_city=true.''
      else if \<not> boolean a ''drop_invalid_age''
      then answered ''ERROR: Phase 3 cannot average age while NULL and semicolon-corrupted ages remain. Set drop_invalid_age=true.''
      else fbind (employee_rows D) (\<lambda>rows.
             obind (city_lines X (sort_key fst (fx_city_order X (group_ages X rows []))))
               (\<lambda>body. answered (report_head @ body @ report_trace))))"

section \<open>The dispatch\<close>

definition unknown_tool_text :: "string \<Rightarrow> string" where
  "unknown_tool_text name = ''ERROR: unknown tool '' @ quoted name @ ''.''"

definition inner :: "fixture_lib \<Rightarrow> lib \<Rightarrow> fixture_db \<Rightarrow> string \<Rightarrow> tool_args \<Rightarrow> string tool_result" where
  "inner X L D name a =
     (if name = ''inspect_log'' then inspect_log X D a
      else if name = ''analyze_500_ips'' then analyze_ips X L D (boolean a ''robust_parser'')
      else if name = ''validate_top_offending_ip'' then validate_top X L D a
      else if name = ''inspect_sql_schema'' then inspect_sql_schema L D
      else if name = ''query_chicago_q1_revenue'' then query_revenue L D (boolean a ''normalize_keys'') (boolean a ''normalize_city'')
      else if name = ''validate_chicago_q1_revenue'' then validate_revenue X L D a
      else if name = ''inspect_employee_audit_schema'' then inspect_employee_schema L D
      else if name = ''audit_employee_phase_1'' then audit_employee L D a
      else if name = ''calculate_new_york_median_salary'' then employee_median X L D a
      else if name = ''generate_employee_phase_3_report'' then employee_report X D a
      else if name = ''validate_employee_audit'' then validate_employee_audit X L D a
      else answered (unknown_tool_text name))"

definition run_tool :: "fixture_lib \<Rightarrow> lib \<Rightarrow> fixture_db \<Rightarrow> string \<Rightarrow> tool_args \<Rightarrow> string outcome" where
  "run_tool X L D name a =
     obind (inner X L D name a) (\<lambda>r. Done (case r of Inr text \<Rightarrow> text | Inl e \<Rightarrow> ''ERROR: '' @ e))"

end
