(* ===== verification/Fixture_Proofs.thy ===== *)
theory Fixture_Proofs
  imports Fixture_Tools Actions
begin

text \<open>
  What the fixture tools answer: the ranking of the addresses against a count of the log, windows
  of the log, the median, the audit and the report, and the ways a tool can panic.
\<close>

section \<open>Hash maps\<close>

text \<open>A hash map yields its entries in some order.\<close>

definition hash_order :: "fixture_lib \<Rightarrow> bool" where
  "hash_order X \<longleftrightarrow> (\<forall>m. mset (fx_ip_order X m) = mset m) \<and> (\<forall>m. mset (fx_city_order X m) = mset m)"

lemma sort_key_order_free:
  assumes "mset xs = mset ys" "inj_on f (set xs)"
  shows "sort_key f xs = sort_key f ys"
  by (rule sort_key_inj_key_eq) (simp_all add: assms)

lemma obj_insert_names: "map fst (obj_insert k v m) = (if k \<in> fst ` set m then map fst m else map fst m @ [k])"
  by (induction m) (auto, force)

lemma obj_insert_distinct: "distinct (map fst m) \<Longrightarrow> distinct (map fst (obj_insert k v m))"
  by (auto simp: obj_insert_names)

section \<open>The addresses of the log\<close>

definition from_ip :: "string \<Rightarrow> string \<Rightarrow> bool" where "from_ip ip l \<longleftrightarrow> robust_hit l = Some ip"

definition ip_hits :: "string \<Rightarrow> string list \<Rightarrow> nat" where "ip_hits ip rows = length (filter (from_ip ip) rows)"

definition ip_first :: "string \<Rightarrow> string list \<Rightarrow> nat" where "ip_first ip rows = length (takeWhile (\<lambda>l. \<not> from_ip ip l) rows)"

lemma length_takeWhile_hit: "x \<in> set xs \<Longrightarrow> p x \<Longrightarrow> length (takeWhile (\<lambda>x. \<not> p x) xs) < length xs"
  by (induction xs) auto

lemma ip_hits_snoc: "ip_hits ip (rows @ [l]) = ip_hits ip rows + (if from_ip ip l then 1 else 0)"
  by (simp add: ip_hits_def)

lemma ip_hits_pos: "0 < ip_hits ip rows \<longleftrightarrow> (\<exists>l\<in>set rows. from_ip ip l)"
  by (auto simp: ip_hits_def filter_empty_conv)

lemma ip_first_snoc:
  "ip_first ip (rows @ [l]) = (if 0 < ip_hits ip rows then ip_first ip rows
     else if from_ip ip l then length rows else Suc (length rows))"
  by (auto simp: ip_first_def ip_hits_pos takeWhile_append)

lemma ip_first_hit:
  assumes "0 < ip_hits ip rows"
  shows "ip_first ip rows < length rows \<and> robust_hit (rows ! ip_first ip rows) = Some ip"
proof -
  have lt: "ip_first ip rows < length rows"
    using assms length_takeWhile_hit [of _ rows "from_ip ip"] unfolding ip_hits_pos ip_first_def by blast
  then show ?thesis using nth_length_takeWhile [of "\<lambda>l. \<not> from_ip ip l" rows] by (simp add: ip_first_def from_ip_def)
qed

lemma count_robust_snoc:
  "count_robust i (ls @ [l]) m =
     (case robust_hit l of None \<Rightarrow> count_robust i ls m | Some ip \<Rightarrow> count_ip ip (i + length ls) (count_robust i ls m))"
  by (induction ls arbitrary: i m) (auto split: option.splits)

lemma map_of_count_ip:
  "map_of (count_ip ip i m) = (map_of m)(ip \<mapsto> (case map_of m ip of None \<Rightarrow> (1, i) | Some (n, j) \<Rightarrow> (n + 1, j)))"
  by (auto simp: count_ip_def map_of_obj_insert fun_eq_iff map_add_def split: option.splits)

lemma count_ip_distinct: "distinct (map fst m) \<Longrightarrow> distinct (map fst (count_ip ip i m))"
  by (auto simp: count_ip_def obj_insert_distinct map_of_eq_None_iff split: option.splits)

lemma count_robust_distinct: "distinct (map fst (count_robust i rows []))"
  by (induction rows rule: rev_induct) (auto simp: count_robust_snoc count_ip_distinct split: option.splits)

text \<open>The map holds the number of lines of every address and the position of its first one.\<close>

lemma count_robust_counts:
  "map_of (count_robust 0 rows []) ip =
     (if 0 < ip_hits ip rows then Some (int (ip_hits ip rows), ip_first ip rows) else None)"
proof (induction rows arbitrary: ip rule: rev_induct)
  case Nil
  then show ?case by (simp add: ip_hits_def)
next
  case (snoc l rows)
  show ?case
  proof (cases "robust_hit l")
    case None
    then have "\<not> from_ip ip l" by (simp add: from_ip_def)
    then show ?thesis using None snoc.IH by (simp add: count_robust_snoc ip_hits_snoc ip_first_snoc)
  next
    case (Some ip')
    then have "from_ip x l \<longleftrightarrow> x = ip'" for x by (auto simp: from_ip_def)
    then show ?thesis using Some by (simp add: count_robust_snoc map_of_count_ip snoc.IH ip_hits_snoc ip_first_snoc)
  qed
qed

lemma count_robust_entry:
  "(ip, n, i) \<in> set (count_robust 0 rows []) \<longleftrightarrow> 0 < ip_hits ip rows \<and> n = int (ip_hits ip rows) \<and> i = ip_first ip rows"
  using map_of_eq_Some_iff [OF count_robust_distinct, of 0 rows ip "(n, i)"] by (auto simp: count_robust_counts split: if_splits)

lemma rank_inj: "inj_on rank (set (count_robust 0 rows []))"
proof (rule inj_onI)
  fix e e' assume m: "e \<in> set (count_robust 0 rows [])" "e' \<in> set (count_robust 0 rows [])" and same: "rank e = rank e'"
  obtain ip n i ip' n' i' where e: "e = (ip, n, i)" "e' = (ip', n', i')" using prod_cases3 by metis
  then have "0 < ip_hits ip rows" "i = ip_first ip rows" "0 < ip_hits ip' rows" "i' = ip_first ip' rows"
    using m by (simp_all add: count_robust_entry)
  moreover have "n = n'" "i = i'" using same e by (simp_all add: rank_def)
  ultimately have "Some ip = Some ip'" using ip_first_hit [of ip rows] ip_first_hit [of ip' rows] by simp
  then show "e = e'" using e \<open>n = n'\<close> \<open>i = i'\<close> by simp
qed

text \<open>The ranking, from most to fewest hits, and ties by the first line.\<close>

definition log_rows :: "fixture_db \<Rightarrow> string list" where "log_rows D = map snd (sort_key fst (fx_logs D))"

definition best_ips :: "fixture_db \<Rightarrow> ip_counts" where "best_ips D = sort_key rank (count_robust 0 (log_rows D) [])"

lemma ranked_best: "hash_order X \<Longrightarrow> ranked X (count_robust 0 (log_rows D) []) = best_ips D"
  unfolding ranked_def best_ips_def
proof (rule sort_key_order_free)
  let ?m = "count_robust 0 (log_rows D) []"
  assume "hash_order X"
  then show m: "mset (fx_ip_order X ?m) = mset ?m" by (simp add: hash_order_def)
  show "inj_on rank (set (fx_ip_order X ?m))" unfolding mset_eq_setD [OF m] by (rule rank_inj)
qed

lemma best_ips_entry:
  "(ip, n, i) \<in> set (best_ips D) \<longleftrightarrow>
     0 < ip_hits ip (log_rows D) \<and> n = int (ip_hits ip (log_rows D)) \<and> i = ip_first ip (log_rows D)"
  by (simp add: best_ips_def count_robust_entry)

lemma best_ips_hd:
  assumes "best_ips D = e # rest" "e' \<in> set (best_ips D)"
  shows "rank e \<le> rank e'"
proof -
  have "sorted (map rank (best_ips D))" by (simp add: best_ips_def)
  then show ?thesis using assms by auto
qed

lemma top_ip_best:
  assumes "hash_order X" "fx_fault D Log_Lines = None"
  shows "top_ip X D = Done (case best_ips D of [] \<Rightarrow> Err ''no matching access log records'' | (ip, n, i) # _ \<Rightarrow> Ok (ip, n))"
proof -
  let ?m = "count_robust 0 (log_rows D) []" and ?f = "\<lambda>(ip :: string, n :: int, i :: nat). (n, - int i)"
  have rows: "log_lines D = answered (log_rows D)" using assms(2) by (simp add: log_lines_def rows_of_def log_rows_def)
  have set: "set (fx_ip_order X ?m) = set ?m" "set (best_ips D) = set ?m"
    using assms(1) by (auto simp: hash_order_def best_ips_def dest: mset_eq_setD)
  show ?thesis
  proof (cases "best_ips D")
    case Nil
    then have "fx_ip_order X ?m = []" using set by simp
    then show ?thesis using Nil by (simp add: top_ip_def rows)
  next
    case (Cons e rest)
    obtain ip n i where e: "e = (ip, n, i)" by (cases e)
    have key: "?f x \<le> ?f y \<longleftrightarrow> rank y \<le> rank x" for x y by (cases x; cases y) (auto simp: rank_def)
    have "max_by ?f (fx_ip_order X ?m) = Some e"
    proof (rule max_by_eq)
      show "inj_on ?f (set (fx_ip_order X ?m))"
        unfolding set by (intro inj_onI inj_onD [OF rank_inj]) (auto simp: rank_def)
      show "e \<in> set (fx_ip_order X ?m)" using Cons set by auto
      show "\<forall>y\<in>set (fx_ip_order X ?m). ?f y \<le> ?f e" using best_ips_hd [OF Cons] set key by blast
    qed
    then show ?thesis using Cons e by (simp add: top_ip_def rows)
  qed
qed


section \<open>Windows of the log\<close>

lemma length_numbered [simp]: "length (numbered_lines n ls) = length ls"
  by (induction ls arbitrary: n) auto

lemma numbered_line: "i < length ls \<Longrightarrow> numbered_lines n ls ! i = show_int (n + int i) @ '': '' @ ls ! i"
  by (induction ls arbitrary: n i) (auto simp: nth_Cons algebra_simps split: nat.splits)

lemma inspect_window:
  assumes "fx_fault D Log_Lines = None" "length (log_rows D) \<le> nat i64_max"
    and "xf64_i64 (number X a ''start_line'') = int s" "0 < s" "xf64_i64 (number X a ''line_count'') = int n"
  shows "inspect_log X D a = answered (join newline (numbered_lines (int s) (take n (drop (s - 1) (log_rows D)))))"
proof -
  let ?len = "length (log_rows D)"
  have from_bound: "normalize_slice (int s - 1) ?len = min (s - 1) ?len" using assms(4) by (auto simp: normalize_slice_def nat_diff_distrib')
  have upto: "normalize_slice (saturating_add (int s - 1) (int n)) ?len = min (s - 1 + n) ?len"
    using assms(2,4) by (auto simp: normalize_slice_def saturating_add_def i64_max_def i64_min_def)
  have "take (min (s - 1 + n) ?len - min (s - 1) ?len) (drop (min (s - 1) ?len) (log_rows D)) = take n (drop (s - 1) (log_rows D))"
    by (auto simp: min_def)
  then show ?thesis
    using assms(1,3,4,5) by (simp add: inspect_log_def Let_def i64_min_def log_lines_def rows_of_def from_bound upto log_rows_def [symmetric])
qed

section \<open>Panics\<close>

lemma rows_of_no_panic [simp]: "rows_of D q rows \<noteq> Panic m" "log_lines D \<noteq> Panic m" "employee_rows D \<noteq> Panic m"
  by (simp_all add: log_lines_def employee_rows_def rows_of_def answered_def split: option.splits)

lemma fbind_panic: "fbind m f = Panic p \<longleftrightarrow> m = Panic p \<or> (\<exists>x. m = Done (Inr x) \<and> f x = Panic p)"
  by (cases m) (auto simp: fbind_def split: sum.splits)

lemma answer_no_panic [simp]: "answered x \<noteq> Panic m" by (simp add: answered_def)

lemma reread_no_panic [simp]: "reread L key text \<noteq> Panic m" by (simp add: reread_def)

lemma median_panics: "median_of X xs = Panic m \<longleftrightarrow> xs = [] \<and> m = overflow"
  by (auto simp: median_of_def Let_def)

definition no_valid_salary :: "fixture_lib \<Rightarrow> lib \<Rightarrow> fixture_db \<Rightarrow> bool" where
  "no_valid_salary X L D \<longleftrightarrow> fx_fault D Employees = None \<and> salary_values X L (sort_key em_id (fx_employees D)) = []"

lemma employee_median_panics:
  "employee_median X L D a = Panic m \<longleftrightarrow>
     boolean a ''exclude_invalid_salary'' \<and> boolean a ''normalize_city'' \<and> no_valid_salary X L D \<and> m = overflow"
proof -
  let ?xs = "salary_values X L (sort_key em_id (fx_employees D))"
  have "obind (median_of X ?xs) (\<lambda>m. answered (g m)) = Panic m \<longleftrightarrow> ?xs = [] \<and> m = overflow" for g :: "xf64 \<Rightarrow> string"
    using median_panics [of X ?xs m] by (cases "median_of X ?xs") auto
  then show ?thesis
    by (auto simp: employee_median_def fbind_panic employee_rows_def rows_of_def answered_def Let_def no_valid_salary_def split: option.splits)
qed


section \<open>The report\<close>

definition valid_age :: "employee \<Rightarrow> int option" where
  "valid_age r = (if bad_age r then None else parse_int in_i32 (em_age r))"

definition ages_of :: "fixture_lib \<Rightarrow> string \<Rightarrow> employee list \<Rightarrow> int list" where
  "ages_of X city rows = List.map_filter valid_age (filter (\<lambda>r. title_case X (em_city r) = city) rows)"

definition report_groups :: "fixture_lib \<Rightarrow> employee list \<Rightarrow> (string \<times> int list) list" where
  "report_groups X rows =
     map (\<lambda>city. (city, ages_of X city rows))
       (sorted_list_of_set ((\<lambda>r. title_case X (em_city r)) ` {r \<in> set rows. valid_age r \<noteq> None}))"

lemma group_ages_snoc:
  "group_ages X (rs @ [r]) m =
     (case valid_age r of None \<Rightarrow> group_ages X rs m | Some age \<Rightarrow> push_age (title_case X (em_city r)) age (group_ages X rs m))"
  by (induction rs arbitrary: m) (auto simp: valid_age_def split: option.splits)

lemma map_filter_append [simp]: "List.map_filter f (xs @ ys) = List.map_filter f xs @ List.map_filter f ys"
  by (simp add: List.map_filter_def)

lemma ages_of_snoc:
  "ages_of X city (rows @ [r]) =
     ages_of X city rows @ (if title_case X (em_city r) = city then (case valid_age r of None \<Rightarrow> [] | Some age \<Rightarrow> [age]) else [])"
  by (auto simp: ages_of_def List.map_filter_def split: option.splits)

lemma group_ages_groups:
  "map_of (group_ages X rows []) city = (if ages_of X city rows = [] then None else Some (ages_of X city rows))"
proof (induction rows arbitrary: city rule: rev_induct)
  case Nil
  then show ?case by (simp add: ages_of_def List.map_filter_def)
next
  case (snoc r rows)
  then show ?case
    by (auto simp: group_ages_snoc ages_of_snoc push_age_def map_of_obj_insert split: option.splits)
qed

lemma group_ages_distinct: "distinct (map fst (group_ages X rows []))"
  by (induction rows rule: rev_induct) (auto simp: group_ages_snoc push_age_def obj_insert_distinct split: option.splits)

lemma ages_of_Nil: "ages_of X city rows = [] \<longleftrightarrow> city \<notin> (\<lambda>r. title_case X (em_city r)) ` {r \<in> set rows. valid_age r \<noteq> None}"
  by (induction rows rule: rev_induct) (auto simp: ages_of_snoc ages_of_def List.map_filter_def split: option.splits)

text \<open>Sorting a finite map by its keys.\<close>

lemma sort_map_by_key:
  fixes m :: "('k::linorder \<times> 'v) list"
  assumes "distinct (map fst m)"
  shows "sort_key fst m = map (\<lambda>k. (k, the (map_of m k))) (sorted_list_of_set (fst ` set m))"
proof -
  let ?s = "sort_key fst m"
  have "map fst ?s = sorted_list_of_set (fst ` set m)"
    by (rule sorted_distinct_set_unique) (use assms in \<open>simp_all add: distinct_map\<close>)
  moreover have "map (\<lambda>k. (k, the (map_of m k))) (map fst ?s) = ?s"
    unfolding map_map by (rule map_idI) (use assms in \<open>auto simp: map_of_is_SomeI\<close>)
  ultimately show ?thesis by simp
qed

lemma sorted_groups:
  assumes "hash_order X"
  shows "sort_key fst (fx_city_order X (group_ages X rows [])) = report_groups X rows"
proof -
  let ?m = "group_ages X rows []"
  have m: "mset (fx_city_order X ?m) = mset ?m" using assms by (simp add: hash_order_def)
  have "inj_on fst (set (fx_city_order X ?m))"
    unfolding mset_eq_setD [OF m] using group_ages_distinct by (simp add: distinct_map)
  then have "sort_key fst (fx_city_order X ?m) = sort_key fst ?m" using m by (rule sort_key_order_free [rotated])
  also have "\<dots> = map (\<lambda>k. (k, the (map_of ?m k))) (sorted_list_of_set (fst ` set ?m))"
    by (rule sort_map_by_key) (rule group_ages_distinct)
  also have "fst ` set ?m = (\<lambda>r. title_case X (em_city r)) ` {r \<in> set rows. valid_age r \<noteq> None}"
    using group_ages_groups [of X rows] by (auto simp: dom_map_of_conv_image_fst [symmetric] dom_def ages_of_Nil split: if_splits)
  finally show ?thesis
    by (auto simp: report_groups_def group_ages_groups ages_of_Nil)
qed

lemma city_lines_panic: "(\<exists>m. city_lines X gs = Panic m) \<longleftrightarrow> (\<exists>(city, ages) \<in> set gs. sum_i32 0 ages = None)"
proof (induction gs rule: city_lines.induct)
  case (2 X city ages gs)
  then show ?case by (cases "sum_i32 0 ages"; cases "city_lines X gs") auto
qed simp

section \<open>Every panic\<close>

definition age_overflow :: "fixture_lib \<Rightarrow> fixture_db \<Rightarrow> bool" where
  "age_overflow X D \<longleftrightarrow> fx_fault D Employees = None
     \<and> (\<exists>(city, ages) \<in> set (report_groups X (sort_key em_id (fx_employees D))). sum_i32 0 ages = None)"

definition tool_panics :: "fixture_lib \<Rightarrow> lib \<Rightarrow> fixture_db \<Rightarrow> string \<Rightarrow> tool_args \<Rightarrow> bool" where
  "tool_panics X L D name a \<longleftrightarrow>
     name = ''inspect_log'' \<and> xf64_i64 (number X a ''start_line'') = i64_min
     \<or> name = ''calculate_new_york_median_salary'' \<and> boolean a ''exclude_invalid_salary'' \<and> boolean a ''normalize_city''
         \<and> no_valid_salary X L D
     \<or> name = ''validate_employee_audit'' \<and> no_valid_salary X L D
     \<or> name = ''generate_employee_phase_3_report'' \<and> boolean a ''normalize_city'' \<and> boolean a ''drop_invalid_age''
         \<and> age_overflow X D"

lemma employee_report_panics:
  assumes "hash_order X"
  shows "(\<exists>m. employee_report X D a = Panic m) \<longleftrightarrow> boolean a ''normalize_city'' \<and> boolean a ''drop_invalid_age'' \<and> age_overflow X D"
proof -
  let ?gs = "report_groups X (sort_key em_id (fx_employees D))"
  have "(\<exists>m. obind (city_lines X ?gs) (\<lambda>body. answered (g body)) = Panic m) \<longleftrightarrow> (\<exists>(city, ages) \<in> set ?gs. sum_i32 0 ages = None)"
    for g :: "string \<Rightarrow> string"
    using city_lines_panic [of X ?gs] by (cases "city_lines X ?gs") auto
  then show ?thesis
    by (auto simp: employee_report_def fbind_panic employee_rows_def rows_of_def answered_def sorted_groups [OF assms] age_overflow_def
        split: option.splits)
qed

lemma inspect_log_panics: "(\<exists>m. inspect_log X D a = Panic m) \<longleftrightarrow> xf64_i64 (number X a ''start_line'') = i64_min"
  by (auto simp: inspect_log_def Let_def fbind_panic)

lemma other_tools_no_panic [simp]:
  "analyze_ips X L D robust \<noteq> Panic m" "validate_top X L D a \<noteq> Panic m" "inspect_sql_schema L D \<noteq> Panic m"
  "query_revenue L D keys city \<noteq> Panic m" "validate_revenue X L D a \<noteq> Panic m" "inspect_employee_schema L D \<noteq> Panic m"
  "audit_employee L D a \<noteq> Panic m"
  by (auto simp: analyze_ips_def validate_top_def top_ip_def inspect_sql_schema_def column_rows_def query_revenue_def
      validate_revenue_def inspect_employee_schema_def audit_employee_def fbind_panic Let_def split: option.splits sum.splits prod.splits)

lemma validate_audit_panics: "(\<exists>m. validate_employee_audit X L D a = Panic m) \<longleftrightarrow> no_valid_salary X L D"
  by (auto simp: validate_employee_audit_def fbind_panic employee_median_panics Let_def boolean_def)

lemma run_tool_panic: "(\<exists>m. run_tool X L D name a = Panic m) \<longleftrightarrow> (\<exists>m. inner X L D name a = Panic m)"
  by (cases "inner X L D name a") (simp_all add: run_tool_def)

lemma inner_panics:
  assumes "hash_order X"
  shows "(\<exists>m. inner X L D name a = Panic m) \<longleftrightarrow> tool_panics X L D name a"
  using inspect_log_panics [of X D a] validate_audit_panics [of X L D a] employee_report_panics [OF assms, of D a]
  by (auto simp: inner_def tool_panics_def employee_median_panics)

section \<open>The audit\<close>

lemma sorted_remdups_distinct: "sorted xs \<Longrightarrow> distinct (remdups_adj (xs :: 'a::linorder list))"
  by (induction xs rule: remdups_adj.induct) (auto dest: antisym)

lemma audit_ids:
  "remdups_adj (sort (bad_ids bad_age rows @ bad_ids bad_salary rows))
     = sorted_list_of_set (em_id ` {r \<in> set rows. bad_age r \<or> bad_salary r})"
proof (rule sorted_distinct_set_unique)
  show "distinct (remdups_adj (sort (bad_ids bad_age rows @ bad_ids bad_salary rows)))"
    by (rule sorted_remdups_distinct) simp
qed (auto simp: bad_ids_def)

text \<open>A report of a failure is recognised by its first word; an answer in JSON is not one.\<close>

lemma object_no_error: "\<not> is_error_output (python_json L (JObj kvs))"
  by (simp add: is_error_output_def)

lemma failure_is_error [simp]: "is_error_output (''ERROR: '' @ t)" "is_error_output (''AssertionError: '' @ t)"
  by (simp_all add: is_error_output_def)

lemma audit_failures:
  "is_error_output missing_parser" "is_error_output bad_parser" "is_error_output (employee_failure row field val)"
  by (simp_all add: is_error_output_def missing_parser_def bad_parser_def employee_failure_def)

theorem audit_needs_robust_parser:
  assumes "fx_fault D Employees = None"
  shows "\<exists>text. run_tool X L D ''audit_employee_phase_1'' a = Done text
      \<and> (is_error_output text \<longleftrightarrow> map_of a ''parser'' \<noteq> Some (JStr ''robust''))"
proof -
  have rows: "employee_rows D = answered (sort_key em_id (fx_employees D))" using assms by (simp add: employee_rows_def rows_of_def)
  have ok: "\<not> is_error_output (audit_answer L (sort_key em_id (fx_employees D)))"
    unfolding audit_answer_def Let_def by (rule object_no_error)
  have robust: "parser_failure ''robust'' = None" by (simp add: parser_failure_def)
  show ?thesis
  proof (cases "map_of a ''parser''")
    case (Some v)
    then show ?thesis
      by (cases "as_str v"; cases v)
        (auto simp: run_tool_def inner_def audit_employee_def rows ok robust audit_failures answered_def split: option.splits)
  qed (simp add: run_tool_def inner_def audit_employee_def audit_failures answered_def)
qed


section \<open>The median\<close>

text \<open>Of an odd number of salaries at most half lie on either side of the median.\<close>

lemma sorted_below: "sorted (map f xs) \<Longrightarrow> k < length xs \<Longrightarrow> length (filter (\<lambda>x. f x < f (xs ! k)) xs) \<le> (k :: nat)"
proof -
  assume s: "sorted (map f xs)" and k: "k < length xs"
  have "f (xs ! k) \<le> f x" if "x \<in> set (drop k xs)" for x
    using that s k by (auto simp: in_set_conv_nth sorted_iff_nth_mono)
  then have "filter (\<lambda>x. f x < f (xs ! k)) (drop k xs) = []" by (auto simp: filter_empty_conv not_less)
  then have "filter (\<lambda>x. f x < f (xs ! k)) (take k xs @ drop k xs) = filter (\<lambda>x. f x < f (xs ! k)) (take k xs)"
    by (simp del: append_take_drop_id)
  then show ?thesis using length_filter_le [of "\<lambda>x. f x < f (xs ! k)" "take k xs"] k by simp
qed

lemma sorted_above: "sorted (map f xs) \<Longrightarrow> k < length xs \<Longrightarrow> length (filter (\<lambda>x. f (xs ! k) < f x) xs) < length xs - k"
proof -
  assume s: "sorted (map f xs)" and k: "k < length xs"
  have "f x \<le> f (xs ! k)" if "x \<in> set (take (Suc k) xs)" for x
    using that s k by (auto simp: in_set_conv_nth sorted_iff_nth_mono)
  then have "filter (\<lambda>x. f (xs ! k) < f x) (take (Suc k) xs) = []" by (auto simp: filter_empty_conv not_less)
  then have "filter (\<lambda>x. f (xs ! k) < f x) (take (Suc k) xs @ drop (Suc k) xs) = filter (\<lambda>x. f (xs ! k) < f x) (drop (Suc k) xs)"
    by (simp del: append_take_drop_id)
  then show ?thesis using length_filter_le [of "\<lambda>x. f (xs ! k) < f x" "drop (Suc k) xs"] k by simp
qed

theorem median_splits:
  assumes "odd (length (salary_values X L rows))"
  shows "\<exists>m. median_of X (salary_values X L rows) = Done m
    \<and> 2 * length (filter (\<lambda>x. total_key x < total_key m) (salary_values X L rows)) < length (salary_values X L rows)
    \<and> 2 * length (filter (\<lambda>x. total_key m < total_key x) (salary_values X L rows)) < length (salary_values X L rows)"
proof -
  let ?xs = "salary_values X L rows"
  have s: "sorted (map total_key ?xs)" by (simp add: salary_values_def)
  obtain k where n: "length ?xs = 2 * k + 1" using assms by (rule oddE)
  then have "k < length ?xs" by simp
  with sorted_below [OF s this] sorted_above [OF s this] n show ?thesis
    by (intro exI [of _ "?xs ! k"]) (simp add: median_of_def)
qed


section \<open>The ranking and its validator\<close>

lemma analyze_best:
  assumes "hash_order X" "fx_fault D Log_Lines = None"
  shows "analyze_ips X L D True = answered (top_answer L True (best_ips D))"
  using ranked_best [OF assms(1), of D] assms(2)
  by (simp add: analyze_ips_def log_lines_def rows_of_def log_rows_def [symmetric])

lemma validate_best:
  assumes "hash_order X" "fx_fault D Log_Lines = None" "best_ips D = (ip, n, i) # rest"
  shows "validate_top X L D a =
     answered (top_verdict L (Option.bind (map_of a ''ip'') as_str = Some ip \<and> xf64_i64 (number X a ''count'') = n))"
  using assms(3) by (simp add: validate_top_def top_ip_best [OF assms(1,2)] Let_def)

lemma best_is_best:
  assumes "best_ips D = (ip, n, i) # rest"
  shows "n = int (ip_hits ip (log_rows D))"
    and "ip_hits ip' (log_rows D) < ip_hits ip (log_rows D)
      \<or> ip_hits ip' (log_rows D) = ip_hits ip (log_rows D) \<and> ip_first ip (log_rows D) \<le> ip_first ip' (log_rows D)"
proof -
  have e: "0 < ip_hits ip (log_rows D)" "n = int (ip_hits ip (log_rows D))" "i = ip_first ip (log_rows D)"
    using best_ips_entry [of ip n i D] assms by simp_all
  then show "n = int (ip_hits ip (log_rows D))" by simp
  show "ip_hits ip' (log_rows D) < ip_hits ip (log_rows D)
      \<or> ip_hits ip' (log_rows D) = ip_hits ip (log_rows D) \<and> ip_first ip (log_rows D) \<le> ip_first ip' (log_rows D)"
  proof (cases "ip_hits ip' (log_rows D) = 0")
    case False
    then have "(ip', int (ip_hits ip' (log_rows D)), ip_first ip' (log_rows D)) \<in> set (best_ips D)" by (simp add: best_ips_entry)
    from best_ips_hd [OF assms this] show ?thesis using e by (auto simp: rank_def less_eq_prod_def)
  qed (use e in simp)
qed

end
