(* ===== verification/Fixture_Samples.thy ===== *)
theory Fixture_Samples
  imports Fixture_Proofs Samples
begin

text \<open>A log of five lines from two addresses, and employees of whom none lives in New York.\<close>

definition sample_fixture_lib :: fixture_lib where
  "sample_fixture_lib = \<lparr>fx_parse_f64 = (\<lambda>_. None), fx_round = (\<lambda>x. Finite (F64 (x < 0) \<bar>x\<bar>)), fx_alphanumeric = (\<lambda>c. c \<noteq> 0x20),
     fx_uppercase = (\<lambda>c. [c]), fx_lowercase = (\<lambda>c. [c]), fx_ip_order = rev, fx_city_order = rev\<rparr>"

definition sample_fixture_db :: fixture_db where
  "sample_fixture_db = \<lparr>fx_fault = (\<lambda>_. None),
     fx_logs = [(2, ''9.9.9.9 b 500''), (1, ''1.1.1.1 a 200''), (3, ''1.1.1.1 c 500''), (4, ''9.9.9.9 d 500''), (5, ''broken 500'')],
     fx_columns = (\<lambda>_. []), fx_customers = [], fx_orders = [], fx_lower = (\<lambda>s. s), fx_revenue = (\<lambda>_ _. xzero),
     fx_employees = [\<lparr>em_id = 1, em_name = ''n'', em_age = ''40'', em_salary = ''UNKNOWN'', em_city = ''new york''\<rparr>]\<rparr>"

lemma sample_hash_order: "hash_order sample_fixture_lib"
  by (simp add: hash_order_def sample_fixture_lib_def)

lemma sample_best_ips: "best_ips sample_fixture_db = [(''9.9.9.9'', 2, 1), (''1.1.1.1'', 1, 2)]"
  by code_simp

lemma sample_no_valid_salary: "no_valid_salary sample_fixture_lib sample_lib sample_fixture_db"
  by (simp add: no_valid_salary_def salary_values_def sample_fixture_lib_def sample_fixture_db_def List.map_filter_def)

end
