(* ===== verification/Response_Stream.thy ===== *)
theory Response_Stream
  imports Lifecycle
begin

text \<open>
  The body of a streamed response (\<^verbatim>\<open>sse.rs\<close>) and the watcher of a dropped connection (\<open>lifecycle\<close> of
  \<^verbatim>\<open>main.rs\<close>).  The task of the run sends events into a queue of 32; the server polls the body, whose
  end closes the watch, while dropping the body before its end notifies the watcher, which asks the
  run to stop.
\<close>

section \<open>The channel\<close>

datatype watch = Waiting | Notified | Closed

record sse_event =
  se_data :: string
  se_id :: "string option"

text \<open>\<open>cs_watched\<close> is whether the body still holds the sender of the notification.\<close>

record channel_state =
  cs_queue :: "json list"
  cs_senders :: bool
  cs_alive :: bool
  cs_watched :: bool
  cs_watch :: watch

definition queue_size :: nat where "queue_size = 32"

definition event_channel :: channel_state where
  "event_channel = \<lparr>cs_queue = [], cs_senders = True, cs_alive = True, cs_watched = True, cs_watch = Waiting\<rparr>"

definition sse_of :: "lib \<Rightarrow> json \<Rightarrow> sse_event" where
  "sse_of L e = \<lparr>se_data = python_json L e, se_id = map_option show_int (as_i64 (idx e ''event_id''))\<rparr>"

datatype 'a polled = Pending | Ready 'a

definition release_watch :: "watch \<Rightarrow> channel_state \<Rightarrow> channel_state" where
  "release_watch w c = (if cs_watched c then c\<lparr>cs_watched := False, cs_watch := w\<rparr> else c)"

definition poll_next :: "lib \<Rightarrow> channel_state \<Rightarrow> sse_event option polled \<times> channel_state" where
  "poll_next L c =
     (case cs_queue c of
        e # q \<Rightarrow> (Ready (Some (sse_of L e)), c\<lparr>cs_queue := q\<rparr>)
      | [] \<Rightarrow> if cs_senders c then (Pending, c) else (Ready None, release_watch Closed c))"

definition drop_stream :: "channel_state \<Rightarrow> channel_state" where
  "drop_stream c = release_watch Notified (c\<lparr>cs_alive := False\<rparr>)"

section \<open>Histories\<close>

text \<open>What the tasks do, in the order in which they do it.\<close>

datatype channel_event =
  Sent json | Senders_Gone | Polled "sse_event option polled" | Dropped

inductive channel_step :: "lib \<Rightarrow> channel_state \<Rightarrow> channel_event \<Rightarrow> channel_state \<Rightarrow> bool" for L where
  sent: "cs_senders c \<Longrightarrow> cs_alive c \<Longrightarrow> length (cs_queue c) < queue_size \<Longrightarrow>
     channel_step L c (Sent e) (c\<lparr>cs_queue := cs_queue c @ [e]\<rparr>)"
| senders_gone: "channel_step L c Senders_Gone (c\<lparr>cs_senders := False\<rparr>)"
| polled: "cs_alive c \<Longrightarrow> poll_next L c = (r, c') \<Longrightarrow> channel_step L c (Polled r) c'"
| dropped: "cs_alive c \<Longrightarrow> channel_step L c Dropped (drop_stream c)"

inductive_cases channel_stepE: "channel_step L c ev c'"

inductive channel_run :: "lib \<Rightarrow> channel_event list \<Rightarrow> channel_state \<Rightarrow> bool" for L where
  start: "channel_run L [] event_channel"
| step: "channel_run L h c \<Longrightarrow> channel_step L c ev c' \<Longrightarrow> channel_run L (h @ [ev]) c'"

definition sent_events :: "channel_event list \<Rightarrow> json list" where
  "sent_events h = List.map_filter (\<lambda>ev. case ev of Sent e \<Rightarrow> Some e | _ \<Rightarrow> None) h"

definition delivered :: "channel_event list \<Rightarrow> sse_event list" where
  "delivered h = List.map_filter (\<lambda>ev. case ev of Polled (Ready (Some e)) \<Rightarrow> Some e | _ \<Rightarrow> None) h"

definition end_seen :: "channel_event list \<Rightarrow> bool" where "end_seen h \<longleftrightarrow> Polled (Ready None) \<in> set h"

lemma history_simps [simp]:
  "sent_events [] = []" "delivered [] = []" "\<not> end_seen []"
  "sent_events (h @ [ev]) = sent_events h @ (case ev of Sent e \<Rightarrow> [e] | _ \<Rightarrow> [])"
  "delivered (h @ [ev]) = delivered h @ (case ev of Polled (Ready (Some e)) \<Rightarrow> [e] | _ \<Rightarrow> [])"
  "end_seen (h @ [ev]) \<longleftrightarrow> end_seen h \<or> ev = Polled (Ready None)"
  by (auto simp: sent_events_def delivered_def end_seen_def List.map_filter_def split: channel_event.splits polled.splits option.splits)

text \<open>What is delivered and what waits is what was sent; the queue never grows beyond its size.\<close>

lemma channel_fifo:
  assumes "channel_run L h c"
  shows "map (sse_of L) (sent_events h) = delivered h @ map (sse_of L) (cs_queue c)" "length (cs_queue c) \<le> queue_size"
  using assms
proof (induction rule: channel_run.induct)
  case start
  {
    case 1
    then show ?case by (simp add: event_channel_def)
  next
    case 2
    then show ?case by (simp add: event_channel_def)
  }
next
  case (step h c ev c')
  {
    case 1
    then show ?case using step
      by (auto elim!: channel_stepE simp: poll_next_def release_watch_def drop_stream_def split: list.splits if_splits)
  next
    case 2
    then show ?case using step
      by (auto elim!: channel_stepE simp: poll_next_def release_watch_def drop_stream_def split: list.splits if_splits)
  }
qed

text \<open>The watcher is notified exactly when the body was dropped before its end was read.\<close>

fun dropped_early :: "bool \<Rightarrow> channel_event list \<Rightarrow> bool" where
  "dropped_early ended [] = False"
| "dropped_early ended (ev # h) =
     (ev = Dropped \<and> \<not> ended \<or> dropped_early (ended \<or> ev = Polled (Ready None)) h)"

lemma dropped_early_snoc [simp]:
  "dropped_early ended (h @ [ev]) \<longleftrightarrow> dropped_early ended h \<or> ev = Dropped \<and> \<not> ended \<and> \<not> end_seen h"
  by (induction h arbitrary: ended) (auto simp: end_seen_def)

definition watch_inv :: "channel_event list \<Rightarrow> channel_state \<Rightarrow> bool" where
  "watch_inv h c \<longleftrightarrow>
     (case cs_watch c of
        Waiting \<Rightarrow> cs_watched c \<and> cs_alive c \<and> \<not> end_seen h \<and> \<not> dropped_early False h
      | Notified \<Rightarrow> \<not> cs_watched c \<and> \<not> cs_alive c \<and> \<not> end_seen h \<and> dropped_early False h
      | Closed \<Rightarrow> \<not> cs_watched c \<and> end_seen h \<and> \<not> dropped_early False h \<and> cs_queue c = [] \<and> \<not> cs_senders c)"

lemma channel_watch: "channel_run L h c \<Longrightarrow> watch_inv h c"
proof (induction rule: channel_run.induct)
  case start
  then show ?case by (simp add: watch_inv_def event_channel_def)
next
  case (step h c ev c')
  from step.hyps(2) show ?case
  proof cases
    case (sent e)
    then show ?thesis using step.IH by (auto simp: watch_inv_def split: watch.splits)
  next
    case senders_gone
    then show ?thesis using step.IH by (auto simp: watch_inv_def split: watch.splits)
  next
    case (polled r)
    then have next_state: "poll_next L c = (r, c')" and ev: "ev = Polled r" and alive: "cs_alive c" by simp_all
    show ?thesis
    proof (cases "cs_queue c")
      case Nil
      then show ?thesis using step.IH next_state ev alive
        by (cases "cs_senders c"; cases "cs_watch c") (auto simp: watch_inv_def poll_next_def release_watch_def)
    next
      case (Cons e q)
      then have "c' = c\<lparr>cs_queue := q\<rparr>" "r = Ready (Some (sse_of L e))" using next_state by (simp_all add: poll_next_def)
      then show ?thesis using step.IH ev Cons by (cases "cs_watch c") (simp_all add: watch_inv_def)
    qed
  next
    case dropped
    then show ?thesis using step.IH by (auto simp: watch_inv_def drop_stream_def release_watch_def split: watch.splits)
  qed
qed

section \<open>The watcher\<close>

text \<open>The update finds the running run by the lease of its worker.\<close>

definition watch_run :: "string \<Rightarrow> int \<Rightarrow> run_row \<Rightarrow> bool" where
  "watch_run owner fence r \<longleftrightarrow> rn_owner r = owner \<and> rn_fence r = fence"

definition disconnect_update :: "string \<Rightarrow> int \<Rightarrow> watch \<Rightarrow> store \<Rightarrow> store" where
  "disconnect_update owner fence w d = (if w = Notified then request_cancel (watch_run owner fence) d else d)"

lemma read_to_the_end:
  assumes "channel_run L h c" "end_seen h"
  shows "delivered h = map (sse_of L) (sent_events h)" "disconnect_update owner fence (cs_watch c) d = d"
  using channel_watch [OF assms(1)] channel_fifo(1) [OF assms(1)] assms(2)
  by (auto simp: disconnect_update_def watch_inv_def split: watch.splits)

lemma dropped_asks_to_stop:
  assumes "channel_run L h c" "dropped_early False h" "r \<in> set (st_runs (disconnect_update owner fence (cs_watch c) d))"
    and "rn_status r = ''running''" "rn_owner r = owner" "rn_fence r = fence"
  shows "rn_cancel_requested r"
proof -
  have "cs_watch c = Notified" using channel_watch [OF assms(1)] assms(2) by (cases "cs_watch c") (simp_all add: watch_inv_def)
  then have "r \<in> (\<lambda>r. if watch_run owner fence r \<and> rn_status r = ''running'' then r\<lparr>rn_cancel_requested := True\<rparr> else r) ` set (st_runs d)"
    using assms(3) by (simp add: disconnect_update_def request_cancel_def)
  then obtain r0 where r: "r = (if watch_run owner fence r0 \<and> rn_status r0 = ''running'' then r0\<lparr>rn_cancel_requested := True\<rparr> else r0)"
    by (rule imageE)
  show ?thesis
  proof (cases "watch_run owner fence r0 \<and> rn_status r0 = ''running''")
    case True
    then show ?thesis using r by simp
  next
    case False
    then have "r = r0" using r by (simp only: if_False)
    then show ?thesis using False assms(4-6) by (simp add: watch_run_def)
  qed
qed

end
