(* ===== verification/Response_Samples.thy ===== *)
theory Response_Samples
  imports Response_Stream Save_Samples
begin

text \<open>A response of one event that is read to its end.\<close>

definition sample_response_history :: "channel_event list" where
  "sample_response_history = [Sent JNull, Senders_Gone, Polled (Ready (Some (sse_of sample_lib JNull))), Polled (Ready None)]"

lemma sample_response_run:
  "\<exists>c. channel_run sample_lib sample_response_history c \<and> end_seen sample_response_history
    \<and> sent_events sample_response_history = [JNull]"
proof -
  let ?c1 = "event_channel\<lparr>cs_queue := [JNull]\<rparr>" and ?L = sample_lib
  have "channel_step ?L event_channel (Sent JNull) (event_channel\<lparr>cs_queue := cs_queue event_channel @ [JNull]\<rparr>)"
    by (rule channel_step.sent) (simp_all add: event_channel_def queue_size_def)
  then have "channel_step ?L event_channel (Sent JNull) ?c1" by (simp add: event_channel_def)
  then have r1: "channel_run ?L ([] @ [Sent JNull]) ?c1" by (rule channel_run.step [OF channel_run.start])
  have r2: "channel_run ?L (([] @ [Sent JNull]) @ [Senders_Gone]) (?c1\<lparr>cs_senders := False\<rparr>)"
    by (rule channel_run.step [OF r1 channel_step.senders_gone])
  let ?c3 = "event_channel\<lparr>cs_senders := False\<rparr>"
  have p3: "poll_next ?L (?c1\<lparr>cs_senders := False\<rparr>) = (Ready (Some (sse_of ?L JNull)), ?c3)"
    by (simp add: poll_next_def event_channel_def)
  have r3: "channel_run ?L ((([] @ [Sent JNull]) @ [Senders_Gone]) @ [Polled (Ready (Some (sse_of ?L JNull)))]) ?c3"
    by (rule channel_run.step [OF r2 channel_step.polled [OF _ p3]]) (simp add: event_channel_def)
  have p4: "poll_next ?L ?c3 = (Ready None, release_watch Closed ?c3)" by (simp add: poll_next_def event_channel_def)
  have "channel_run ?L (((([] @ [Sent JNull]) @ [Senders_Gone]) @ [Polled (Ready (Some (sse_of ?L JNull)))]) @ [Polled (Ready None)]) (release_watch Closed ?c3)"
    by (rule channel_run.step [OF r3 channel_step.polled [OF _ p4]]) (simp add: event_channel_def)
  then show ?thesis
    by (intro exI [of _ "release_watch Closed ?c3"]) (simp add: sample_response_history_def end_seen_def sent_events_def List.map_filter_def)
qed

end
