(* ===== verification/Provider_Log.thy ===== *)
theory Provider_Log
  imports Text_Words Ledger
begin

text \<open>
  The record of a failed model request for the operator's log (\<^verbatim>\<open>provider_log.rs\<close>).  \<open>redact p t\<close>
  stands for \<open>Regex::replace_all\<close> of the pattern \<open>p\<close> in \<open>t\<close> by \<^verbatim>\<open>[REDACTED]\<close>.
\<close>

definition dq :: string where "dq = [CHR 0x22]"
definition sq :: string where "sq = [CHR 0x27]"
definition bs :: string where "bs = [CHR 0x5C]"
definition bt :: string where "bt = [CHR 0x60]"

definition within_quotes :: "string \<Rightarrow> string" where
  "within_quotes q = q @ ''[^'' @ q @ bs @ ''r'' @ bs @ ''n]{0,2000}'' @ q"

definition redactions :: "string list" where
  "redactions =
     [within_quotes dq, within_quotes sq, within_quotes bt,
      ''(?i)'' @ bs @ ''b(messages?|prompt|request|body|content)'' @ bs @ ''b.*$'',
      ''(?i)'' @ bs @ ''b(authorization|api[_-]?key|access[_-]?token|refresh[_-]?token|password|secret)'' @ bs @ ''b''
        @ bs @ ''s*[:=]'' @ bs @ ''s*[^'' @ bs @ ''s,;]+'',
      ''(?i)'' @ bs @ ''bbearer'' @ bs @ ''s+[A-Za-z0-9._~+/-]+=*'',
      ''(?i)'' @ bs @ ''b(sk|pk|rk|xox[baprs])-[-A-Za-z0-9_]{8,}'' @ bs @ ''b'',
      ''(?i)https?://[^'' @ bs @ ''s'' @ bs @ ''])}>]+'']"

text \<open>\<open>char::is_control\<close>: the general category \<open>Cc\<close>.\<close>

definition is_control :: "nat \<Rightarrow> bool" where "is_control c \<longleftrightarrow> c < 0x20 \<or> 0x7F \<le> c \<and> c < 0xA0"

definition redacted_message :: "(string \<Rightarrow> string \<Rightarrow> string) \<Rightarrow> string \<Rightarrow> nat list" where
  "redacted_message redact input =
     take 500 (filter (\<lambda>c. \<not> is_control c)
       (utf8_decode (foldl (\<lambda>t p. redact p t) (join '' '' (split_whitespace input)) redactions)))"

definition log_message :: "(string \<Rightarrow> string \<Rightarrow> string) \<Rightarrow> string \<Rightarrow> string" where
  "log_message redact input = concat (map utf8_encode (redacted_message redact input))"

definition identifier_char :: "char \<Rightarrow> bool" where
  "identifier_char c \<longleftrightarrow> 65 \<le> byte c \<and> byte c \<le> 90 \<or> 97 \<le> byte c \<and> byte c \<le> 122 \<or> is_digit c \<or> c \<in> set ''_.[]/:-''"

text \<open>\<^verbatim>\<open>^[A-Za-z0-9_.\[\]/:-]{1,160}$\<close>\<close>

definition log_identifier :: "string \<Rightarrow> bool" where
  "log_identifier v \<longleftrightarrow> 1 \<le> length v \<and> length v \<le> 160 \<and> list_all identifier_char v"

definition identifier_fields :: "json \<Rightarrow> (string \<times> json) list" where
  "identifier_fields error =
     map (\<lambda>key. (key, idx error key))
       (filter (\<lambda>key. is_some_and (as_str (idx error key)) log_identifier) [''type'', ''code'', ''param''])"

definition provider_fields :: "(string \<Rightarrow> string \<Rightarrow> string) \<Rightarrow> json \<Rightarrow> (string \<times> json) list" where
  "provider_fields redact body =
     (let error = idx body ''error''
      in identifier_fields error
         @ (case (case as_str (idx error ''message'') of Some t \<Rightarrow> Some t | None \<Rightarrow> as_str error) of
              None \<Rightarrow> [] | Some t \<Rightarrow> [(''message'', JStr (log_message redact t))]))"

definition provider_record :: "(string \<Rightarrow> string \<Rightarrow> string) \<Rightarrow> nat \<Rightarrow> json \<Rightarrow> json" where
  "provider_record redact status body =
     JObj [(''event'', JStr ''model_provider_failure''), (''http_status'', json_nat status), (''provider_error'', JObj (provider_fields redact body))]"

text \<open>
  What a provider says reaches the log as short identifiers and as a redacted message of at most
  500 characters without control characters.
\<close>

theorem provider_record_bounded:
  assumes "(key, v) \<in> set (provider_fields redact body)"
  shows "(key \<in> {''type'', ''code'', ''param''} \<and> (\<exists>t. v = JStr t \<and> log_identifier t))
    \<or> (key = ''message'' \<and> (\<exists>t cs. v = JStr (log_message redact t) \<and> log_message redact t = concat (map utf8_encode cs)
         \<and> length cs \<le> 500 \<and> list_all (\<lambda>c. \<not> is_control c) cs))"
proof -
  have message: "\<exists>cs. log_message redact t = concat (map utf8_encode cs) \<and> length cs \<le> 500 \<and> list_all (\<lambda>c. \<not> is_control c) cs" for t
    by (intro exI [of _ "redacted_message redact t"]) (auto simp: log_message_def redacted_message_def list_all_iff dest: in_set_takeD)
  have "(key, v) \<in> set (identifier_fields (idx body ''error'')) \<or> key = ''message'' \<and> (\<exists>t. v = JStr (log_message redact t))"
    using assms unfolding provider_fields_def Let_def set_append by (auto simp del: set_append split: option.splits)
  then show ?thesis
  proof
    assume f: "(key, v) \<in> set (identifier_fields (idx body ''error''))"
    then have "is_some_and (as_str v) log_identifier" by (auto simp: identifier_fields_def simp del: filter.simps)
    then have "\<exists>t. v = JStr t \<and> log_identifier t" by (cases v) (auto simp: is_some_and_def)
    moreover have "key \<in> {''type'', ''code'', ''param''}" using f by (auto simp: identifier_fields_def simp del: filter.simps)
    ultimately show ?thesis by blast
  next
    assume "key = ''message'' \<and> (\<exists>t. v = JStr (log_message redact t))"
    then show ?thesis using message by blast
  qed
qed

end
