(* ===== verification/Spec2Isabelle.thy ===== *)
theory Spec2Isabelle
  imports Operator_Samples Fixture_Samples Response_Samples Startup Provider_Log
begin

text \<open>
  Verification of the state-driven agent: a service, written in Rust (\<^verbatim>\<open>src/agent-rust/src\<close>), that
  runs language-model agents over durable sessions in PostgreSQL.

  \<^bold>\<open>The program and its model.\<close> A client posts commands; each is admitted once under its
  idempotency key and executed by a worker that holds a fenced lease on the command and on the
  session.  A run asks the model for decisions, settles the tool calls they contain, follows the
  workflow of the profile, compacts the context when it is due and ends with an answer that passes
  the completion rules.  Every step is a checkpoint: the session and its outboxes are committed in
  one transaction.

  \<^item> \<open>Prelude\<close>, \<open>Rust_Strings\<close>, \<open>Decimal\<close>, \<open>Json\<close>, \<open>Encoding\<close>: results and the \<open>?\<close> operator, checked
    and wrapping integers, byte strings, decimal comparison, \<open>serde_json\<close> values with ordered
    objects, and the canonical texts that are hashed (\<^verbatim>\<open>tools.rs\<close>, \<^verbatim>\<open>identity.rs\<close>, parts of
    \<^verbatim>\<open>engine.rs\<close> and \<^verbatim>\<open>context.rs\<close>).
  \<^item> \<open>Types\<close>, \<open>Session_State\<close>: the structs of \<^verbatim>\<open>engine.rs\<close> as records, with serde defaults, and the methods of
    \<open>Session\<close>.
  \<^item> \<open>History\<close>, \<open>Ledger\<close>: the wire form and grouping of messages, and the validation of summaries
    (\<^verbatim>\<open>context.rs\<close>).
  \<^item> \<open>Diagnostics\<close>: the journal of diagnostics (\<^verbatim>\<open>diagnostics.rs\<close>).
  \<^item> \<open>Workflow\<close>, \<open>Schema\<close>, \<open>Config_Check\<close>, \<open>Completion\<close>: phases and evidence, argument schemas, validation of
    profiles, artifacts and answer checks (\<^verbatim>\<open>engine.rs\<close>, \<^verbatim>\<open>tools.rs\<close>, \<^verbatim>\<open>main.rs\<close>).
  \<^item> \<open>Effects\<close>, \<open>Decision\<close>, \<open>Single_Call\<close>, \<open>Actions\<close>, \<open>Progress\<close>, \<open>Compaction\<close>, \<open>Engine\<close>: the engine as
    functions from a session and a world to a result, a session and a world: checkpoints, model
    exchange, recoverable tool calls (\<^verbatim>\<open>actions.rs\<close>), supervision, compaction, \<open>settle_pending\<close> and
    \<open>run\<close> (\<^verbatim>\<open>engine.rs\<close>).
  \<^item> \<open>Leases\<close>, \<open>Commands\<close>, \<open>Timestamp\<close>: session leases, admission of commands with every statement on their
    table (\<^verbatim>\<open>commands.rs\<close>), and timestamps (\<^verbatim>\<open>main.rs\<close>).
  \<^item> \<open>Profiles\<close>: loading, completing and hashing of profiles (\<open>cfg\<close>, \<open>complete_config_value\<close>,
    \<open>resolved_config_hash\<close>, \<open>collect_configs\<close> of \<^verbatim>\<open>main.rs\<close>).
  \<^item> \<open>Storage\<close>, \<open>Commit\<close>: the tables of a session as a record of rows, the integrity anchors
    (\<^verbatim>\<open>integrity.rs\<close>), and \<open>save\<close> with \<open>save_inner\<close> and all writers, \<open>retention::write\<close> among them.
  \<^item> \<open>Loading\<close>, \<open>Pages\<close>: \<open>load\<close> with all its checks, the routes that create a session and append a message, and the
    routes that read a session and page through its tables (\<^verbatim>\<open>main.rs\<close>).
  \<^item> \<open>Lifecycle\<close>: the routes that run, stream, resume and cancel a session (\<^verbatim>\<open>main.rs\<close>, \<open>decorate\<close> of \<^verbatim>\<open>events.rs\<close>).
    \<open>service_env\<close> is the engine's environment with commits as checkpoints, so that a request runs from its body to
    its reply over the tables.  \<open>Event_Stream\<close>: reconnecting to the events of a run (\<open>stream\<close> of \<^verbatim>\<open>events.rs\<close>).
    \<open>Response_Stream\<close>: the body of a streamed response and the watcher of its connection (\<^verbatim>\<open>sse.rs\<close>).
  \<^item> \<open>Startup\<close>, \<open>Provider_Log\<close>: the start of the process, its locks and small routes (\<^verbatim>\<open>main.rs\<close>), and the log record of a
    failed model request (\<^verbatim>\<open>provider_log.rs\<close>).
  \<^item> \<open>Text_Words\<close>, \<open>Fixture_Tools\<close>, \<open>Fixture_Proofs\<close>: the tools over the fixture tables (\<^verbatim>\<open>tools.rs\<close>) and what they answer.
  \<^item> \<open>Reconcile\<close>, \<open>Archives\<close>: recovery of abandoned runs with the listings of a session (\<^verbatim>\<open>reconcile.rs\<close>, \<^verbatim>\<open>main.rs\<close>); verification, export and
    pruning of archives (\<^verbatim>\<open>retention.rs\<close>).
  \<^item> \<open>World_Invariants\<close>, \<open>Lifecycle_Proofs\<close>, \<open>Run_Cancellation\<close>, \<open>Operator_Proofs\<close>, \<open>Pruning\<close>, \<open>Archive_Proofs\<close>: what whole requests and
    commands of operators do to the tables; \<open>Canonical_Text\<close>: canonical texts are single lines.

  Errors are values of a sum type; a panic is \<open>Panic\<close> or \<open>Panicked\<close>.  Code outside the repository is a
  parameter: the record \<open>lib\<close> (JSON reader and writer, SHA-256, regular expressions, text of
  doubles), \<open>env\<close> for the engine (identifiers, clock, HTTP, tools, checkpoint callback, statements of
  the recipient), \<open>deps\<close> for a running service, \<open>ax\<close> for archive files, \<open>fixture_lib\<close> and \<open>fixture_db\<close> for the tools, \<open>host\<close> for admission, \<open>files\<close> for profiles and \<open>px\<close> for commits (identifiers, clock,
  the outcome of each statement and \<open>COMMIT\<close>, what other workers commit in between, and serde
  decoders).  Each operation applies them where the code does; a statement may fail at any point.

  \<^bold>\<open>Loops.\<close> The loops of \<open>run\<close> and \<open>settle_pending\<close> are iterated with a bound that the allowance of steps and
  the number of pending calls give; the locale \<open>bounded_loop\<close> shows that a larger bound changes
  nothing.  Compaction runs at most the configured number of passes and attempts.  Drawing an unused
  call identifier gets one more draw than there are used identifiers, which suffices when the draws
  are distinct.  The repetition of a commit is bounded by the source (two repetitions).  The walk
  over profile directories has the depth of the tree as its bound.  The polling of an event stream is given
  by its first rounds; it is shown that they end once the run has ended.  Everything else recurses on its
  data.

  \<^bold>\<open>Interfaces.\<close> \<open>recent_cache\<close> (bounded caches), \<open>bounded_loop\<close>, \<open>bookkeeping\<close>, \<open>settle_invariant\<close> and
  \<open>run_invariant\<close> (what the engine keeps), \<open>fenced\<close> (rows claimed with increasing fences),
  \<open>kept_relation\<close> up to \<open>save_effects\<close> (what statements, writers, commits and saves do to the tables) and
  \<open>commit_invariant\<close>, \<open>world_invariant\<close> (what the engine keeps of the service around it), \<open>table_invariant\<close> (what requests keep of
  the tables), and \<open>cursor_pages\<close> (tables read page by page) are locales; each is interpreted on the definitions of the model, and the
  theorems below are instances.

  \<^bold>\<open>What is shown.\<close> Runs: completion only with a verified answer, workflow evidence and artifacts
  that come from executed calls, bounded steps, one answer per call.  Actions: no second
  execution of a settled or unsafe action, intent before effect, permanent receipts.
  Persistence: commits take effect exactly once under failures and repetition and only with full
  authority, the transcript grows without gaps, settled actions are final, failed saves are
  proposed again unchanged, anchors survive the document store, nothing is loaded that they do not
  cover, and cursors lead through the whole transcript.  Requests: no history of requests and commands of operators
  loses transcript or settled actions, a cancelled run stops at its next checkpoint, a reconnected client gets
  the events of a run in order, and a response that is read to its end never counts as a dropped one.  Operators: pruned telemetry is in the archive, live runs are left alone.  Compaction: requests fit, recent
  history and goal are kept.  Histories, decisions, schemas, profiles, decimals, ledgers and journals:
  exact characterisations, round trips and invariants.  Commands and leases: finished commands
  are replayed and final, stale workers are rejected.  Tools: the ranking of the log is that of a plain count, and every
  panic of a tool is listed.

  \<^bold>\<open>Not modelled.\<close> The framing of server-sent events by the HTTP server, the static documents, pools and the listener
  are input and output; of the fixture tables the revenue query is a result, as are the reading and rounding of
  doubles.  The heartbeat of a lease and the watcher of a dropped connection run beside a request: they are among
  the other workers of the tables, and what the watcher does is stated for it alone.  Times of the database
  other than leases are opaque texts.  The tables are those of one session; recovery is modelled for the runs of one session.
\<close>

section \<open>Runs\<close>

text \<open>
  C1: a run leaves a session complete only with a final answer that is not blank, reached
  at the end of the workflow, and in agreement with every configured completion rule: no
  forbidden pattern, the exact text, the pattern and the JSON schema where they are configured,
  and each configured deliverable equal to a value captured from an executed call.
\<close>

theorem run_completes_verified:
  assumes run: "run E L cfg requested (s, w) = (r, s', w')" and live: "s_status s \<noteq> ''complete''"
  shows "s_status s' = ''complete'' \<longrightarrow>
    (\<exists>x. s_final_answer s' = Some x \<and> trim x \<noteq> [] \<and> complete_wf cfg s' \<and> schema_errors L cfg x = []
      \<and> (\<forall>p\<in>set (forbidden_patterns cfg). regex_search L (''(?i)(?:'' @ p @ '')'') x \<noteq> Ok True)
      \<and> (\<forall>e. get_str (c_completion cfg) ''exact'' = Some e \<longrightarrow> x = e)
      \<and> (\<forall>p. get_str (c_completion cfg) ''pattern'' = Some p \<longrightarrow> regex_search L (final_pattern p) x = Ok True)
      \<and> (\<forall>i<length (result_checks cfg). \<exists>v. artifact_value s' i = Some v \<and> check_answer L (result_checks cfg ! i) x v))"
proof
  assume "s_status s' = ''complete''"
  moreover have "verified L cfg s'"
    by (rule completion.run_preserves [OF verified_not_complete [OF live] live run])
  ultimately obtain x where x: "s_final_answer s' = Some x" "completion_errors L cfg s' x = []"
    by (auto simp: verified_def)
  show "\<exists>x. s_final_answer s' = Some x \<and> trim x \<noteq> [] \<and> complete_wf cfg s' \<and> schema_errors L cfg x = []
      \<and> (\<forall>p\<in>set (forbidden_patterns cfg). regex_search L (''(?i)(?:'' @ p @ '')'') x \<noteq> Ok True)
      \<and> (\<forall>e. get_str (c_completion cfg) ''exact'' = Some e \<longrightarrow> x = e)
      \<and> (\<forall>p. get_str (c_completion cfg) ''pattern'' = Some p \<longrightarrow> regex_search L (final_pattern p) x = Ok True)
      \<and> (\<forall>i<length (result_checks cfg). \<exists>v. artifact_value s' i = Some v \<and> check_answer L (result_checks cfg ! i) x v)"
    using x completion_errors_Nil [OF x(2)] by blast
qed

theorem run_completes_verified_witness:
  "\<exists>r s' w'. run sample_env sample_lib sample_config None sample_start = (r, s', w')
     \<and> (s_status s' = ''complete'' \<longrightarrow> (\<exists>x. s_final_answer s' = Some x \<and> trim x \<noteq> [] \<and> complete_wf sample_config s'))"
proof -
  obtain r s' w' where run: "run sample_env sample_lib sample_config None (sample_session, 0, [], \<lambda>_. None) = (r, s', w')"
    by (metis prod_cases3)
  from run_completes_verified [OF this] sample_fields(1) run show ?thesis
    unfolding sample_start_def by (intro exI [of _ r] exI [of _ s'] exI [of _ w']) auto
qed





text \<open>
  C4: a run that returns without an error has ended: the session is no longer active, the run
  is not left running, and its end time and its reason are set.
\<close>

theorem run_returns_closed:
  "case run E L cfg requested (s, w) of
     (Inr _, s', _) \<Rightarrow> run_over s'
   | (Inl _, _, _) \<Rightarrow> True"
proof (cases "run E L cfg requested (s, w)")
  case (fields r s' w')
  then show ?thesis using tripleD(1) [OF run_ends [of "\<lambda>_. True"]] by (cases r) auto
qed

text \<open>
  C5: the decision loop ends by itself: giving it any number of iterations beyond the steps
  that are left of the allowance changes nothing, since every iteration uses up a step or is the last.
\<close>

theorem run_loop_terminates:
  "run_loop E L cfg limit (steps_left limit s + k) (s, w) = run_loop E L cfg limit (steps_left limit s) (s, w)"
  unfolding run_loop_def by (rule running.bound_irrelevant) auto

text \<open>
  C6: a run never takes back steps and takes no more than its allowance, which a
  validated profile makes positive.
\<close>

theorem run_steps_bounded_by_allowance:
  "(case run E L cfg requested (s, w) of
      (_, s', _) \<Rightarrow> s_step_count s \<le> s_step_count s'
        \<and> s_step_count s' \<le> s_step_count s + max 0 (run_allowance cfg requested))
   \<and> (validate_config L cfg = Ok () \<longrightarrow> 0 < run_allowance cfg requested)"
proof
  obtain r s' w' where run: "run E L cfg requested (s, w) = (r, s', w')" by (metis prod_cases3)
  show "case run E L cfg requested (s, w) of (_, s', _) \<Rightarrow> s_step_count s \<le> s_step_count s'
        \<and> s_step_count s' \<le> s_step_count s + max 0 (run_allowance cfg requested)"
    using run_steps_bounded [OF run] run by simp
  show "validate_config L cfg = Ok () \<longrightarrow> 0 < run_allowance cfg requested"
    using validate_config_Ok(3) run_allowance_positive by blast
qed

theorem run_steps_bounded_by_allowance_witness:
  "validate_config sample_lib sample_config = Ok () \<and> 0 < run_allowance sample_config None"
proof -
  have "validate_config sample_lib sample_config = Ok ()" by code_simp
  then show ?thesis
    using run_steps_bounded_by_allowance [where E = sample_env and L = sample_lib and cfg = sample_config and requested = None] by blast
qed

text \<open>
  C7: settling the scheduled calls leaves none pending and appends to the model's view of
  the history exactly one tool message per call, in the order of the calls and with their ids and
  names, whether a call was executed, refused or not allowed.
\<close>

theorem settle_pending_answers_all:
  assumes "settle_pending E L cfg (s, w) = (Ok (), s', w')"
  shows "s_pending_tool_calls s' = [] \<and> (\<exists>outs. length outs = length (s_pending_tool_calls s)
    \<and> wire_history s' = wire_history s
        @ map (\<lambda>(call, out). wire_message (tool_result_message (pending_id call) (pending_name call) out))
            (zip (s_pending_tool_calls s) outs))"
proof -
  obtain rs where rs: "s_pending_tool_calls s' = []" "list_all2 answers (s_pending_tool_calls s) rs"
    "wire_history s' = wire_history s @ rs" using settle_pending_answers [OF assms] by blast
  have "\<exists>outs. length outs = length calls
      \<and> rs = map (\<lambda>(call, out). wire_message (tool_result_message (pending_id call) (pending_name call) out)) (zip calls outs)"
    if "list_all2 answers calls rs" for calls rs
    using that
  proof (induction rule: list_all2_induct)
    case (Cons c cs r rs)
    then obtain out outs where "r = wire_message (tool_result_message (pending_id c) (pending_name c) out)"
      "length outs = length cs"
      "rs = map (\<lambda>(call, out). wire_message (tool_result_message (pending_id call) (pending_name call) out)) (zip cs outs)"
      by (auto simp: answers_def)
    then show ?case by (intro exI [of _ "out # outs"]) simp
  qed simp
  from this [OF rs(2)] rs show ?thesis by auto
qed

theorem settle_pending_answers_all_witness:
  "\<exists>s' w' out. settle_pending sample_env sample_lib sample_config (sample_waiting, 0, [], \<lambda>_. None) = (Ok (), s', w')
     \<and> s_pending_tool_calls s' = []
     \<and> wire_history s' = wire_history sample_waiting @ [wire_message (tool_result_message ''c1'' ''look'' out)]"
proof -
  have "fst (settle_pending sample_env sample_lib sample_config (sample_waiting, 0, [], \<lambda>_. None)) = Ok ()" by code_simp
  then obtain s' w' where run: "settle_pending sample_env sample_lib sample_config (sample_waiting, 0, [], \<lambda>_. None) = (Ok (), s', w')"
    by (metis prod.collapse)
  obtain outs where outs: "length outs = length (s_pending_tool_calls sample_waiting)" "s_pending_tool_calls s' = []"
    "wire_history s' = wire_history sample_waiting
        @ map (\<lambda>(call, out). wire_message (tool_result_message (pending_id call) (pending_name call) out))
            (zip (s_pending_tool_calls sample_waiting) outs)"
    using settle_pending_answers_all [OF run] by blast
  have one: "s_pending_tool_calls sample_waiting = [sample_call]" by (simp add: sample_waiting_def)
  have names: "pending_id sample_call = ''c1''" "pending_name sample_call = ''look''" by code_simp+
  obtain out where "outs = [out]" using outs(1) one by (cases outs) auto
  then have "wire_history s' = wire_history sample_waiting @ [wire_message (tool_result_message ''c1'' ''look'' out)]"
    using outs(3) one names by simp
  then show ?thesis using run outs(2) by blast
qed

text \<open>
  Settling ends by itself, after as many iterations as calls were pending.
\<close>

theorem settling_terminates:
  "settle_calls E L cfg ph (length (s_pending_tool_calls s) + k) (s, w)
   = settle_calls E L cfg ph (length (s_pending_tool_calls s)) (s, w)"
  unfolding settle_calls_def by (rule settling.bound_irrelevant) auto

section \<open>Actions\<close>

text \<open>
  C8: once a dispatch has returned a result, dispatching the same call again in the session
  it left returns the same result and changes neither the session nor the world: the tool is
  not run a second time.
\<close>

theorem dispatch_replays_result:
  assumes "dispatch E L cfg call t args (s, w) = (Ok r, s', w')"
  shows "dispatch E' L cfg' call t args (s', w'') = (Ok r, s', w'')"
  by (rule settled_replay [OF dispatch_settles [OF assms]])

theorem dispatch_replays_result_witness:
  "\<exists>s' w'. dispatch sample_env sample_lib sample_config ''c1'' ''look'' (JObj []) sample_start = (Ok ''found'', s', w')
     \<and> dispatch sample_env sample_lib sample_config ''c1'' ''look'' (JObj []) (s', w') = (Ok ''found'', s', w')"
proof -
  have "fst (dispatch sample_env sample_lib sample_config ''c1'' ''look'' (JObj []) sample_start) = Ok ''found''" by code_simp
  then obtain s' w' where run: "dispatch sample_env sample_lib sample_config ''c1'' ''look'' (JObj []) (sample_session, 0, [], \<lambda>_. None)
      = (Ok ''found'', s', w')" unfolding sample_start_def by (metis prod.collapse)
  have "dispatch sample_env sample_lib sample_config ''c1'' ''look'' (JObj []) (s', w') = (Ok ''found'', s', w')"
    by (rule dispatch_replays_result [OF run])
  then show ?thesis using run unfolding sample_start_def by blast
qed

text \<open>
  C9: when the journal shows an execution of the call that must not be attempted again (it was
  started and its recovery policy does not allow a repetition, or its attempts are used up, or it
  is declared idempotent without a recipient), then a dispatch runs no tool and commits no
  receipt: it keeps every property of the world that clock, identifiers, checkpoints and database
  statements keep.
\<close>

theorem dispatch_refuses_unsafe:
  assumes "silent E P" "journalled call e s" "forbidden_attempt t e" "P w"
    and "dispatch E L cfg call t args (s, w) = (r, s', w')"
  shows "P w'"
  by (rule dispatch_forbidden [OF assms])

theorem dispatch_refuses_unsafe_witness:
  "\<exists>r s' n q t. dispatch sample_env sample_lib sample_config ''c1'' ''look'' (JObj [])
       (sample_session\<lparr>s_executions := [sample_execution]\<rparr>, 0, [], \<lambda>_. None) = (r, s', n, q, t) \<and> q = []"
proof -
  let ?s = "sample_session\<lparr>s_executions := [sample_execution]\<rparr>"
  obtain r s' n q t where run: "dispatch sample_env sample_lib sample_config ''c1'' ''look'' (JObj []) (?s, 0, [], \<lambda>_. None)
      = (r, s', n, q, t)" by (metis prod_cases3)
  have j: "journalled ''c1'' sample_execution ?s" by (simp add: journalled_def sample_execution_def idx_def)
  have f: "forbidden_attempt ''look'' sample_execution" by code_simp
  from dispatch_refuses_unsafe [OF sample_env_laws(1) j f _ run] run show ?thesis by simp
qed



text \<open>
  C11: a recipient's receipt is permanent: no dispatch ever removes or replaces one, and a
  recipient call whose receipt exists returns the recorded result without changing the table.
\<close>

theorem receipts_are_kept:
  assumes "receipts_env E" "env_receipts E w (ns, key) = Some (fp, result)"
  shows "(case dispatch E L cfg call t args (s, w) of (_, _, w') \<Rightarrow> env_receipts E w' (ns, key) = Some (fp, result))
    \<and> (\<forall>out s' w'. payload_key L write_tool receipts_target args = Ok fp \<longrightarrow>
         recipient E L ns key args (s, w) = (Ok out, s', w') \<longrightarrow>
         canonical L result = Ok out \<and> env_receipts E w' = env_receipts E w)"
proof
  obtain r s' w' where run: "dispatch E L cfg call t args (s, w) = (r, s', w')" by (metis prod_cases3)
  show "case dispatch E L cfg call t args (s, w) of (_, _, w') \<Rightarrow> env_receipts E w' (ns, key) = Some (fp, result)"
    using dispatch_keeps_receipts [OF assms(1), of "(ns, key)" "(fp, result)" L cfg call t args] run assms(2)
    unfolding keeps_def by fastforce
qed (use recipient_repeat [OF assms(1) _ assms(2)] in blast)

theorem receipts_are_kept_witness:
  "case dispatch sample_env sample_lib sample_config ''c1'' ''look'' (JObj [])
      (sample_session, 0, [], \<lambda>_. Some (''fp'', JStr ''ok'')) of
     (_, _, w') \<Rightarrow> env_receipts sample_env w' (''n'', ''k'') = Some (''fp'', JStr ''ok'')"
proof -
  have "env_receipts sample_env (0, [], \<lambda>_. Some (''fp'', JStr ''ok'')) (''n'', ''k'') = Some (''fp'', JStr ''ok'')"
    by (simp add: sample_env_def)
  from receipts_are_kept [OF sample_env_laws(2) this, THEN conjunct1] show ?thesis .
qed

section \<open>Persistence\<close>

text \<open>
  C12: a commit takes effect exactly once.  A save makes up to three attempts, any of which may fail
  before, during or after its COMMIT while other workers write in between.  Whatever happens, at most
  one receipt for the identifier of the commit exists afterwards, and exactly one when the save
  returns without an error.
\<close>

theorem save_exactly_once:
  assumes "save P L c e (s, d, n) = (r, s', d', n')"
    and "stage_save P e (s, n) = Inr (staged, n1)" "s_pending_commit_id staged = Some x" "px_parse_uuid P x = Some i"
    and "others_ok P i" "linked d" "length (receipts_of i d) \<le> 1"
  shows "linked d' \<and> length (receipts_of i d') \<le> 1 \<and> (r = Inr () \<longrightarrow> length (receipts_of i d') = 1)"
proof -
  obtain r1 s1 d1 n2 where t: "try_commit P L c e staged 2 (d, n1) = (r1, s1, d1, n2)" by (metis prod_cases4)
  from try_commit_once [OF t assms(5,6,3,4)]
  have "linked d1 \<and> length (receipts_of i d1) \<le> 1 \<and> (r1 = Inr () \<longrightarrow> length (receipts_of i d1) = 1)"
    using assms(7) by (cases "receipts_of i d"; cases "receipts_of i d1") auto
  then show ?thesis using assms(1,2,6,7) t by (auto simp: save_def split: if_splits sum.splits)
qed

theorem save_exactly_once_witness:
  "fst sample_saved = Inr () \<and> length (receipts_of ''uuu'' (fst (snd (snd sample_saved)))) = 1"
proof -
  have ok: "others_ok sample_px ''uuu''" "linked sample_store" "length (receipts_of ''uuu'' sample_store) \<le> 1"
    by (simp_all add: others_ok_def sample_px_def linked_def receipts_of_def sample_store_def)
  have x: "s_pending_commit_id sample_staged = Some ''uuu''" "px_parse_uuid sample_px ''uuu'' = Some ''uuu''"
    by (simp_all add: sample_staged_def sample_px_def)
  have "save sample_px sample_sha_lib JNull sample_created (sample_new, sample_store, 0)
    = (fst sample_saved, fst (snd sample_saved), fst (snd (snd sample_saved)), snd (snd (snd sample_saved)))"
    by (simp add: sample_saved_def)
  from save_exactly_once [OF this sample_stage x ok] show ?thesis by (simp add: sample_saved_Inr)
qed

text \<open>
  C13: an attempt to commit leaves the tables as the other workers made them, or it writes with
  full authority: the command of the session is held by this worker, no receipt of the commit exists,
  the session is the unchanged successor of the stored revision with the same goal and profile, the
  worker holds the lease of the session with its fence, and the stored revision grows by one.
\<close>

theorem commit_requires_authority:
  assumes "save_inner P L c e (s, d, n) = (r, s', d', n')" "\<And>n d. linked d \<Longrightarrow> linked (px_others P n d)" "linked d"
  shows "d' = d \<or> (\<exists>m. d' = px_others P m d
    \<or> (\<exists>x i f s2. s_pending_commit_id s = Some x \<and> px_parse_uuid P x = Some i \<and> written P c i f s (px_others P m d) s2 d'))"
  by (rule save_inner_written [OF assms])

theorem commit_requires_authority_witness:
  "\<exists>i f s2 d'. written sample_px JNull i f sample_staged sample_store s2 d'"
proof -
  let ?x = "save_inner sample_px sample_sha_lib JNull sample_created (sample_staged, sample_store, 3)"
  have run: "save_inner sample_px sample_sha_lib JNull sample_created (sample_staged, sample_store, 3)
    = (Inr (), fst (snd ?x), fst (snd (snd ?x)), snd (snd (snd ?x)))" using sample_save_inner [of 3] by (metis prod.collapse)
  have ok: "others_ok sample_px ''uuu''" "linked sample_store" "receipts_of ''uuu'' sample_store = []"
    by (simp_all add: others_ok_def sample_px_def linked_def receipts_of_def sample_store_def)
  have x: "s_pending_commit_id sample_staged = Some ''uuu''" "px_parse_uuid sample_px ''uuu'' = Some ''uuu''"
    by (simp_all add: sample_staged_def sample_px_def)
  have same: "px_others sample_px m d = d" for m d by (simp add: sample_px_def)
  have "fst (snd (snd ?x)) \<noteq> sample_store" using save_inner_once [OF run ok(1,2) x] ok(3) by auto
  then show ?thesis using commit_requires_authority [OF run _ ok(2)] unfolding same by blast
qed

text \<open>
  The archived transcript only grows, at its end, and its rows stay numbered one, two,
  three and so on: no save renumbers, replaces or removes an archived row or a receipt, or leaves a
  gap, provided the other workers do not.
\<close>

theorem transcript_grows_without_gaps:
  assumes "save P L c e (s, d, n) = (r, s', d', n')" "numbered d"
    and "\<And>n d. numbered d \<Longrightarrow> numbered (px_others P n d)" "\<And>n d. append_only d (px_others P n d)"
  shows "numbered d' \<and> append_only d d'"
  using numbering.keeps_save [OF assms(3,2,1)] archive.keeps_save [OF assms(4,1)] by simp

theorem transcript_grows_without_gaps_witness:
  "fst sample_saved = Inr () \<and> numbered (fst (snd (snd sample_saved))) \<and> append_only sample_store (fst (snd (snd sample_saved)))"
proof -
  have run: "save sample_px sample_sha_lib JNull sample_created (sample_new, sample_store, 0)
    = (fst sample_saved, fst (snd sample_saved), fst (snd (snd sample_saved)), snd (snd (snd sample_saved)))"
    by (simp add: sample_saved_def)
  have n: "numbered sample_store" by (simp add: numbered_def sample_store_def)
  from transcript_grows_without_gaps [OF run n] sample_saved_Inr show ?thesis by (simp add: sample_px_def append_only_def)
qed

text \<open>
  The identity of a stored action never changes, and once it has succeeded or failed with a result its
  status and result are final: every stored execution is kept by every save with all its frozen
  fields, whatever the session proposes.
\<close>

theorem settled_actions_final:
  assumes "save P L c e (s, d, n) = (r, s', d', n')" "executions_ok d" "x \<in> set (st_executions d)"
    and "\<And>n d. actions_kept d (px_others P n d)"
  shows "executions_ok d' \<and> (\<exists>x'\<in>set (st_executions d'). execution_kept x x')"
proof -
  have "actions_kept d d'" by (rule actions.keeps_save [OF assms(4,1)])
  then obtain kept new where k: "executions_ok d'" "st_executions d' = kept @ new" "list_all2 execution_kept (st_executions d) kept"
    using assms(2) unfolding actions_kept_def by blast
  from k(3) assms(3) obtain x' where "x' \<in> set kept" "execution_kept x x'" by (metis in_set_conv_nth list_all2_conv_all_nth)
  then show ?thesis using k by auto
qed

theorem settled_actions_final_witness:
  "\<exists>x'\<in>set (st_executions (fst (snd (snd (save sample_px sample_sha_lib JNull sample_created
     (sample_new, sample_store\<lparr>st_executions := [sample_action]\<rparr>, 0)))))). idx x' ''result'' = JStr ''done''"
proof -
  let ?d = "sample_store\<lparr>st_executions := [sample_action]\<rparr>"
  let ?x = "save sample_px sample_sha_lib JNull sample_created (sample_new, ?d, 0)"
  have run: "?x = (fst ?x, fst (snd ?x), fst (snd (snd ?x)), snd (snd (snd ?x)))" by simp
  have ok: "executions_ok ?d" "sample_action \<in> set (st_executions ?d)" by (simp_all add: executions_ok_def sample_action_def is_object_def)
  from settled_actions_final [OF run ok] show ?thesis
    by (auto simp: sample_px_def actions_kept_refl execution_kept_def settled_execution_def sample_action_def idx_def is_string_def)
qed

text \<open>
  C14: a save that fails leaves the session as it was staged, with the same identifier of the
  commit, revision, messages and outboxes; saving it again, for any event, stages nothing further and
  so proposes the same commit.
\<close>

theorem failed_save_reproposed:
  assumes "save P L c e (s, d, n) = (Inl er, s', d', n')" "stage_save P e (s, n) = Inr (staged, n1)"
  shows "(\<exists>f. s' = staged\<lparr>s_pending_commit_fingerprint := f\<rparr>) \<and> stage_save P e2 (s', k) = Inr (s', k)"
  by (rule save_failed [OF assms])

theorem failed_save_reproposed_witness:
  "(\<exists>er. fst sample_failed = Inl er) \<and> s_pending_commit_id (fst (snd sample_failed)) = Some ''uuu''"
proof -
  obtain er where er: "fst sample_failed = Inl er" using sample_failed_Inl ..
  have run: "save sample_faulty sample_sha_lib JNull sample_created (sample_new, sample_store, 0)
    = (Inl er, fst (snd sample_failed), fst (snd (snd sample_failed)), snd (snd (snd sample_failed)))"
    using er by (metis prod.collapse sample_failed_def)
  have "stage_save sample_faulty sample_created (sample_new, 0) = Inr (sample_staged, 3)" by (simp add: sample_faulty_stage sample_stage)
  from failed_save_reproposed [OF run this, of JNull 0] er show ?thesis by (auto simp: sample_staged_def)
qed

text \<open>
  C15: a stored session passes its integrity checks when it is read back, in whatever order the
  document store returns the members of its objects; the anchor of the active context verifies too.
\<close>

theorem snapshot_anchors_survive:
  assumes "reordered (snapshot L s) v"
  shows "validate_snapshot L v = Ok () \<and> validate_context L v s = Ok ()"
  by (rule snapshot_anchors [OF assms])

theorem snapshot_anchors_survive_witness: "validate_snapshot sample_lib sample_reordered = Ok ()"
  using snapshot_anchors_survive [OF sample_reordered_snapshot] by simp

section \<open>Requests\<close>

text \<open>
  C16: no request destroys history.  Whatever requests clients make in any order (creating a
  session, appending a message, running, streaming, resuming, cancelling), and whatever operators do in between
  (recovering abandoned runs, exporting, pruning), with statements and commits that fail at any point, the stored transcript only grows at its end and stays numbered
  without gaps, every stored action keeps its identity, and a settled action keeps its outcome, as
  long as the other workers keep to that themselves.
\<close>

theorem requests_keep_history:
  assumes "served P L X d d'" "respectful P"
  shows "append_only d d' \<and> actions_kept d d' \<and> (numbered d \<longrightarrow> numbered d')"
  using served_keeps_history [OF assms] by (simp add: history_kept_def)

theorem requests_keep_history_witness:
  "append_only (sample_filled [1]) sample_after \<and> actions_kept (sample_filled [1]) sample_after"
  using requests_keep_history [OF sample_served sample_respectful(2)] by blast



text \<open>
  C18: a client that reconnects to the events of a run gets them in order, each once, from its
  cursor on and without gaps, however often the stream polls and whatever fails, while other workers
  append events.  A stream that ends by itself, without a failure, has sent every event of the run that was
  stored before its last statement, and the run has ended.
\<close>

theorem stream_delivers_in_order:
  assumes "appending P" "events_sorted (sv_store v)" "polls P X rid k (after, v) = (going, after', v')"
  shows "\<exists>shown. prefix shown (run_events rid after (sv_store v')) \<and> sv_sent v' = sv_sent v @ map numbered_event shown
    \<and> sorted_wrt (<) (map eo_event_id shown)
    \<and> (\<not> going \<longrightarrow> (\<forall>n. px_fault P n = None) \<longrightarrow> (\<forall>n. dp_open X n) \<longrightarrow>
         (\<exists>d n. sv_store v' = px_others P n d \<and> shown = run_events rid after d \<and> ended rid (sv_store v')))"
proof -
  have "caught_up rid after (sv_sent v) [] v" using assms(2) by (simp add: caught_up_def)
  from polls_send [OF assms(1) this _ assms(3)] obtain shown where shown: "caught_up rid after (sv_sent v) shown v'"
    "\<not> going \<longrightarrow> (\<forall>n. px_fault P n = None) \<longrightarrow> (\<forall>n. dp_open X n) \<longrightarrow>
       (\<exists>d n. sv_store v' = px_others P n d \<and> shown = run_events rid after d \<and> events_sorted d \<and> ended rid (sv_store v'))"
    unfolding ended_def next_after_def by force
  then have "sorted_wrt (<) (map eo_event_id shown)"
    using run_events_sorted(2) [of "sv_store v'" rid after] by (auto simp: caught_up_def prefix_def sorted_wrt_append)
  then show ?thesis using shown by (auto simp: caught_up_def)
qed

theorem stream_delivers_in_order_witness:
  "\<exists>shown. prefix shown (run_events ''r1'' 0 (sv_store (snd (snd sample_polled))))
    \<and> sv_sent (snd (snd sample_polled)) = map numbered_event shown \<and> length shown = 2"
proof -
  have start: "events_sorted (sv_store (sample_service sample_answered))" "sv_sent (sample_service sample_answered) = []"
    by (simp_all add: sample_service_def sample_sorted)
  obtain going after' v' where run: "polls sample_racing_px sample_deps ''r1'' (Suc 0) (0, sample_service sample_answered) = (going, after', v')"
    by (metis prod_cases3)
  from stream_delivers_in_order [OF sample_appending(1) start(1) this] start(2) obtain shown where
    "prefix shown (run_events ''r1'' 0 (sv_store v'))" "sv_sent v' = map numbered_event shown" by auto
  moreover have "length (sv_sent v') = 2" using sample_polled_ends(2) run by (simp add: sample_polled_def)
  ultimately show ?thesis using run by (auto simp: sample_polled_def)
qed

text \<open>
  C19: the stream of a run that has ended comes to its end: when no more events of the run are stored and
  its status stays, it polls at most once more than there are full thousands of events behind its cursor.
\<close>

theorem stream_ends:
  assumes "appending P" "run_settled P rid" "events_sorted (sv_store v)" "ended rid (sv_store v)"
    "length (run_events rid after (sv_store v)) \<le> 1000 * k"
  shows "\<not> fst (polls P X rid (Suc k) (after, v))"
  by (rule polls_end [OF assms])

theorem stream_ends_witness: "\<not> fst (polls sample_px sample_deps ''r1'' 2 (0, sample_service sample_answered))"
proof -
  have "ended ''r1'' sample_answered" by (simp add: ended_def find_run_def sample_answered_def sample_run_row_def)
  then show ?thesis
    using stream_ends [OF sample_appending(2) sample_settled, of "sample_service sample_answered" 0 1 sample_deps]
    by (simp add: sample_service_def sample_sorted sample_events_of numeral_2_eq_2)
qed

text \<open>
  The end of a run is stored in two commits: its last checkpoint ends the run in its table, and then the event
  \<open>run_finished\<close> is stored.  A reader between the two takes the run for ended and never gets that event.
\<close>

theorem stream_may_miss_the_end:
  "\<not> fst sample_polled \<and> length (sv_sent (snd (snd sample_polled))) = 2
    \<and> length (run_events ''r1'' 0 (sv_store (snd (snd sample_polled)))) = 3"
  by (simp add: sample_polled_ends)

section \<open>Operators\<close>

text \<open>
  C20: whatever the task of a run, the server and the client do with a streamed response, a
  client that reads it to its end has got every event that was sent, in order, and the watcher of
  the connection leaves the run alone; a client that goes away before the end has the run of the
  worker asked to stop.
\<close>

theorem response_end_is_no_disconnect:
  assumes "channel_run L h c"
  shows "(end_seen h \<longrightarrow> delivered h = map (sse_of L) (sent_events h) \<and> disconnect_update owner fence (cs_watch c) d = d)
    \<and> (dropped_early False h \<longrightarrow>
        (\<forall>r\<in>set (st_runs (disconnect_update owner fence (cs_watch c) d)).
           rn_status r = ''running'' \<and> rn_owner r = owner \<and> rn_fence r = fence \<longrightarrow> rn_cancel_requested r))"
  using read_to_the_end [OF assms] dropped_asks_to_stop [OF assms] by blast

theorem response_end_is_no_disconnect_witness:
  "\<exists>h c. channel_run sample_lib h c \<and> end_seen h \<and> sent_events h = [JNull]
    \<and> delivered h = [sse_of sample_lib JNull] \<and> disconnect_update ''a'' 1 (cs_watch c) sample_store = sample_store"
proof -
  obtain c where c: "channel_run sample_lib sample_response_history c" "end_seen sample_response_history"
    "sent_events sample_response_history = [JNull]" using sample_response_run by blast
  from response_end_is_no_disconnect [OF c(1), of "''a''" 1 sample_store] c show ?thesis by auto
qed

text \<open>
  C21: pruning loses nothing.  Every event and every diagnostic record that is gone after a
  pruning, whatever its outcome, has its line in the archive file, and the files are as before.  The writer
  of strings and doubles escapes control characters, the digests of the two tables in the file have
  no second preimage, and the other workers prune nothing meanwhile.
\<close>

theorem pruned_telemetry_archived:
  assumes "retains P" "escapes L" "k path = Some content"
    "sole_preimage L (file_text A L content ''agent_session_events'')" "sole_preimage L (file_text A L content ''agent_session_diagnostics'')"
    "prune_telemetry P A L args i path sc (k, d, n) = (r, k', d', n')"
  shows "k' = k
    \<and> (\<forall>x\<in>set (st_events d) - set (st_events d').
         \<exists>sid. in_file A L content ''agent_session_events'' (event_json sid x))
    \<and> (\<forall>x\<in>set (st_diagnostics d) - set (st_diagnostics d').
         \<exists>sid. in_file A L content ''agent_session_diagnostics'' (diag_json sid x))"
  using prune_telemetry_loses [OF assms(1) escapes_one_line [OF assms(2)] assms(3-6)]
  by (auto simp: lost_only_def event_in_file_def diagnostic_in_file_def)

theorem pruned_telemetry_archived_witness:
  "(\<exists>item. verify sample_px sample_ax sample_reader sample_disk ''a'' = Ok item)
    \<and> fst (snd (prune_telemetry sample_px sample_ax sample_reader [] ''s1'' ''a'' (sample_session, JNull) (sample_disk, sample_answered, 0))) = sample_disk"
proof -
  obtain r k' d' n' where run: "prune_telemetry sample_px sample_ax sample_reader [] ''s1'' ''a'' (sample_session, JNull)
      (sample_disk, sample_answered, 0) = (r, k', d', n')" by (metis prod_cases4)
  have "sample_disk ''a'' = Some sample_file" by (simp add: sample_disk_def)
  from pruned_telemetry_archived [OF sample_retains sample_escapes this sample_sole sample_sole run] run
  show ?thesis using sample_verifies by simp
qed

text \<open>
  C22: recovery leaves live runs alone.  As long as the lease of the session is held whenever the tables are
  read, whatever else holds of its tables and is kept by the other workers still holds afterwards, the table of commands apart,
  and no run is reported as recovered.
\<close>

theorem live_runs_not_reconciled:
  assumes "lease_kept P J" "reconcile_cli P L namespace started i args (d, n) = (r, d', n')" "J d"
  shows "J d' \<and> (\<forall>v. r = Inr v \<longrightarrow> v = JObj [(''reconciled'', JArr [])])"
  by (rule reconcile_cli_live [OF assms])

theorem live_runs_not_reconciled_witness:
  "sample_busy (fst (snd (reconcile_cli sample_px sample_lib (Ok ''ns'') (\<lambda>_. 0) ''s1'' [] (sample_busy_store, 0))))"
proof -
  obtain r d' n' where run: "reconcile_cli sample_px sample_lib (Ok ''ns'') (\<lambda>_. 0) ''s1'' [] (sample_busy_store, 0) = (r, d', n')"
    by (metis prod_cases3)
  have "sample_busy sample_busy_store" by (simp add: sample_busy_def sample_busy_store_def)
  from live_runs_not_reconciled [OF sample_lease_kept run this] run show ?thesis by simp
qed

section \<open>Profiles\<close>



text \<open>
  C24: a client that follows \<open>next_after_sequence\<close> reads every entry of the transcript behind its
  cursor up to \<open>through\<close>, each once and in order, whatever the page size, although other workers
  append to the transcript between its requests.
\<close>

theorem transcript_read_completely:
  assumes "\<forall>d\<in>set ds. numbered d \<and> append_only d0 d" "nat through \<le> length (st_transcript d0)" "nat through \<le> length ds"
    and "0 \<le> after" "after \<le> i64_max" "through \<le> i64_max" "0 < k"
  shows "read_pages (\<lambda>d after. reply_page ''next_after_sequence'' (transcript_reply s after through k d)) ds after
    = map transcript_json (drop (nat after) (take (nat through) (st_transcript d0)))"
proof -
  obtain j where "k = Suc j" using assms(7) by (cases k) auto
  moreover have "(\<lambda>d after. reply_page ''next_after_sequence'' (transcript_reply s after through k d)) = transcript_page s through k"
    by (simp add: transcript_page_def fun_eq_iff)
  ultimately show ?thesis using read_growing_transcript [OF assms(1-6)] by simp
qed

theorem transcript_read_completely_witness:
  "read_pages (\<lambda>d after. reply_page ''next_after_sequence'' (transcript_reply sample_session after 2 1 d))
     [sample_filled [1, 2], sample_filled [1, 2, 3]] 0 = [transcript_json (sample_rows 1), transcript_json (sample_rows 2)]"
proof -
  have "numbered (sample_filled [1, 2]) \<and> append_only (sample_filled [1, 2]) (sample_filled [1, 2])"
    "numbered (sample_filled [1, 2, 3]) \<and> append_only (sample_filled [1, 2]) (sample_filled [1, 2, 3])"
    by (simp_all add: numbered_def append_only_def sample_filled_def sample_rows_def upt_rec)
  then have "\<forall>d\<in>set [sample_filled [1, 2], sample_filled [1, 2, 3]]. numbered d \<and> append_only (sample_filled [1, 2]) d" by simp
  moreover have "map transcript_json (drop (nat 0) (take (nat 2) (st_transcript (sample_filled [1, 2])))) = [transcript_json (sample_rows 1), transcript_json (sample_rows 2)]"
    by (simp add: sample_filled_def)
  ultimately show ?thesis
    using transcript_read_completely [of "[sample_filled [1, 2], sample_filled [1, 2, 3]]" "sample_filled [1, 2]" 2 0 1 sample_session]
    by (simp add: sample_filled_def i64_max_def)
qed

text \<open>
  A profile that is loaded was read from a YAML file within the configured root, by a reference
  without parent traversal, and is validated; its hash is that of the text read, and its stored form is
  complete: completing it again changes nothing.
\<close>

theorem loaded_profile_contained:
  assumes "cfg_load L F r = Done (Ok (c, v, sha))"
  shows "\<exists>dir p b obj. fs_root F = Ok dir \<and> prefix dir p \<and> fs_is_file F p \<and> yaml_file p \<and> ''..'' \<notin> set (split_char (CHR ''/'') r)
    \<and> fs_read F p = Ok b \<and> sha = sha256_hex L b \<and> validate_config L c = Ok ()
    \<and> v = JObj obj \<and> complete_config_value obj = Done obj"
  using cfg_load_Ok [OF assms] profile_path_Ok complete_config_value_idem by metis

theorem loaded_profile_contained_witness:
  "validate_config sample_lib (sample_config\<lparr>c_execution := JObj []\<rparr>) = Ok () \<and> (\<exists>p. prefix [''config''] p \<and> fs_read sample_profile_files p = Ok ''text'')"
proof -
  obtain v where "cfg_load sample_lib sample_profile_files ''a.yaml'' = Done (Ok (sample_config\<lparr>c_execution := JObj []\<rparr>, v, ''text''))"
    using sample_profile_loaded ..
  from loaded_profile_contained [OF this] show ?thesis by (auto simp: sample_profile_files_def sample_files_def sample_lib_def)
qed

section \<open>Compaction\<close>



text \<open>
  C26: whether it succeeds or fails, compaction removes only a prefix of the messages after
  the first one, cut between complete interactions, keeps the configured number of recent
  messages, and replaces what it removed by a ledger stating the session's own goal; goal,
  workflow, artifacts, executions, pending calls, steps and status stay as they were.
\<close>

theorem compact_keeps_recent_history:
  "case compact_session E L cfg (s, w) of (_, s', _) \<Rightarrow> compacted_from cfg s s'"
proof -
  obtain r s' w' where run: "compact_session E L cfg (s, w) = (r, s', w')" by (metis prod_cases3)
  from compact_history [OF this] run show ?thesis by simp
qed

text \<open>
  While the request fits and neither the threshold nor the interval is due, compaction
  only records the budget: no model request, no change of the history.
\<close>

theorem compact_does_nothing_when_idle:
  assumes "request_budget_of L cfg s = Ok b" "b_fits b" "\<not> compaction_due cfg s (b_estimated_input_tokens b)"
  shows "compact_session E L cfg (s, w) = (Ok False, s\<lparr>s_request_budget := Some b\<rparr>, w)"
  by (rule compact_idle [OF assms])

theorem compact_does_nothing_when_idle_witness:
  "\<exists>b. request_budget_of sample_lib sample_config sample_session = Ok b
     \<and> compact_session sample_env sample_lib sample_config sample_start
         = (Ok False, sample_session\<lparr>s_request_budget := Some b\<rparr>, snd sample_start)"
proof -
  have b: "case request_budget_of sample_lib sample_config sample_session of
      Inr b \<Rightarrow> b_fits b \<and> \<not> compaction_due sample_config sample_session (b_estimated_input_tokens b) | Inl _ \<Rightarrow> False"
    by code_simp
  then obtain b where "request_budget_of sample_lib sample_config sample_session = Ok b" "b_fits b"
    "\<not> compaction_due sample_config sample_session (b_estimated_input_tokens b)" by (auto split: sum.splits)
  from compact_does_nothing_when_idle [OF this, of sample_env "(0, [], \<lambda>_. None)"] this(1) show ?thesis
    unfolding sample_start_def by simp
qed



section \<open>Histories\<close>


text \<open>
  Splitting a history for compaction never separates a call from its result, keeps
  at least the requested number of messages whenever it removes any, and keeps no more groups
  than that needs.
\<close>

theorem split_history_whole_groups:
  assumes "split_history L ms minimum = Ok (old, kept)"
  shows "flatten old @ flatten kept = ms \<and> correlated (flatten old) \<and> correlated (flatten kept)
    \<and> (old \<noteq> [] \<longrightarrow> minimum \<le> length (flatten kept))
    \<and> (kept \<noteq> [] \<longrightarrow> length (flatten (tl kept)) < minimum)"
  using split_history_sound [OF assms] by simp

theorem split_history_whole_groups_witness:
  "\<exists>old kept. split_history sample_lib sample_history 1 = Ok (old, kept)
     \<and> flatten old @ flatten kept = sample_history \<and> length (flatten kept) = 1"
proof -
  have run: "split_history sample_lib sample_history 1 =
     Ok ([\<lparr>g_messages = [sample_batch, tool_result_message ''c1'' ''t'' ''out''], g_indexes = [0, 1]\<rparr>],
         [\<lparr>g_messages = [msg ''user'' (Some ''go'')], g_indexes = [2]\<rparr>])"
    by code_simp
  from split_history_whole_groups [OF this] show ?thesis using run by simp
qed

section \<open>Requests and decisions\<close>

text \<open>
  C29: the calls of a parsed decision carry nonempty identifiers that are pairwise distinct and
  occur nowhere in the retained history, and a call without an error names a configured tool
  with arguments that conform to its schema.
\<close>

theorem tool_calls_fresh_and_valid:
  assumes "parse_decision E L cfg v diags (s, w) = (Ok d, s', w')" "get d ''type'' = Some (JStr ''tools'')"
  shows "s' = s \<and> (\<exists>calls ids. get d ''calls'' = Some (JArr calls) \<and> calls \<noteq> [] \<and> list_all (calls_ok L cfg) calls
     \<and> map (\<lambda>c. get_str c ''id'') calls = map Some ids \<and> distinct ids
     \<and> set ids \<inter> set (historical_call_ids s) = {} \<and> [] \<notin> set ids)"
  by (rule parse_decision_tools [OF assms])

theorem tool_calls_fresh_and_valid_witness:
  "\<exists>d calls ids. fst (parse_decision sample_env sample_lib sample_config sample_response [] sample_start) = Ok d
     \<and> get d ''calls'' = Some (JArr calls) \<and> calls \<noteq> [] \<and> map (\<lambda>c. get_str c ''id'') calls = map Some ids \<and> distinct ids"
proof -
  have "case fst (parse_decision sample_env sample_lib sample_config sample_response [] sample_start) of
      Inr d \<Rightarrow> get d ''type'' = Some (JStr ''tools'') | Inl _ \<Rightarrow> False" by code_simp
  then obtain d s' w' where run: "parse_decision sample_env sample_lib sample_config sample_response [] (sample_session, 0, [], \<lambda>_. None)
      = (Ok d, s', w')" and tools: "get d ''type'' = Some (JStr ''tools'')"
    unfolding sample_start_def by (auto split: sum.splits) (metis prod.collapse)
  from tool_calls_fresh_and_valid [OF this] run show ?thesis unfolding sample_start_def by auto
qed

text \<open>
  Drawing an identifier ends: among one more draw than there are used identifiers, if the
  draws are distinct, one is unused, and it is returned.
\<close>

theorem fresh_call_id_found:
  assumes "distinct (draws E (Suc (length used)) w)"
  shows "\<exists>i s' w'. fresh_call_id E used (s, w) = (Ok i, s', w') \<and> i \<notin> set used"
proof -
  obtain i w' where i: "draw_call_id E used (Suc (length used)) w = (Some i, w')"
    using draw_call_id_returns [OF assms] by (metis prod.collapse)
  then have "fresh_call_id E used (s, w) = (Ok i, s, w')"
    by (simp add: fresh_call_id_def ebind_def eng_simps del: draw_call_id.simps)
  then show ?thesis using draw_call_id_fresh [OF i] by blast
qed

theorem fresh_call_id_found_witness:
  "\<exists>i s' w'. fresh_call_id sample_env [''call_0''] sample_start = (Ok i, s', w') \<and> i \<notin> set [''call_0'']"
proof -
  have "distinct (draws sample_env (Suc (length [''call_0''])) (0, [], \<lambda>_. None))" by code_simp
  from fresh_call_id_found [OF this] show ?thesis unfolding sample_start_def by blast
qed

text \<open>
  The single-call projection turns any history with whole interactions into one where
  each assistant message makes at most one call and its result follows at once; it keeps all
  calls in their order and all results.
\<close>

theorem single_call_projection:
  assumes "correlated ms"
  shows "\<exists>out. single_call_wire (map wire_message ms) = Ok out \<and> sequential out
     \<and> all_calls out = all_calls (map wire_message ms) \<and> all_results out = all_results (map wire_message ms)"
proof -
  obtain out where out: "single_call_wire (map wire_message ms) = Ok out" using single_call_wire_complete [OF assms] by blast
  have "list_all (\<lambda>m. distinct (map fst (members m))) (map wire_message ms)"
    using wire_message_distinct by (simp add: list_all_iff)
  from single_call_wire_Ok [OF out this] out show ?thesis by blast
qed

theorem single_call_projection_witness:
  "\<exists>out. single_call_wire (map wire_message sample_history) = Ok out \<and> sequential out"
proof -
  have "case interaction_groups sample_lib sample_history of Inr _ \<Rightarrow> True | Inl _ \<Rightarrow> False" by code_simp
  then have "correlated sample_history"
    using interaction_groups_accepts [of sample_lib sample_history] by (auto split: sum.splits)
  from single_call_projection [OF this] show ?thesis by blast
qed

text \<open>
  A request offers every configured tool while work remains, and no tool, with tool choice
  \<open>none\<close>, once tools are disabled or the workflow is complete.
\<close>

theorem request_offers_tools:
  assumes "complete_request_payload L cfg s = Ok p"
  shows "if tools_disabled cfg \<or> terminal_workflow cfg s
     then get p ''tool_choice'' = Some (JStr ''none'') \<and> get p ''tools'' = None
     else get p ''tool_choice'' = Some (JStr ''auto'') \<and> get p ''tools'' = Some (JArr (map tool_declaration (c_tools cfg)))"
  using decision_payload_final_only [of cfg "map wire_message (payload L cfg s)" s p]
    decision_payload_tools [of cfg "map wire_message (payload L cfg s)" s p] assms
  by (auto simp: complete_request_payload_def)

theorem request_offers_tools_witness:
  "\<exists>p. complete_request_payload sample_lib sample_config sample_session = Ok p \<and> get p ''tool_choice'' = Some (JStr ''auto'')"
proof -
  have "case complete_request_payload sample_lib sample_config sample_session of Inr _ \<Rightarrow> True | Inl _ \<Rightarrow> False" by code_simp
  then obtain p where p: "complete_request_payload sample_lib sample_config sample_session = Ok p" by (auto split: sum.splits)
  have "\<not> tools_disabled sample_config" "\<not> terminal_workflow sample_config sample_session" by code_simp+
  with request_offers_tools [OF p] p show ?thesis by auto
qed

text \<open>
  A model exchange makes one request, or two when the first route is not found, and
  returns one diagnostic record for each of them, also when it fails.
\<close>

theorem model_exchange_bounded:
  "case post_chat E L cfg req w of (r, w') \<Rightarrow> length (chat_diags r) \<in> {1, 2} \<and> length (chat_diags r) \<le> length (completion_urls cfg)"
proof -
  obtain r w' where run: "post_chat E L cfg req w = (r, w')" by fastforce
  have "completion_urls cfg \<noteq> []" using completion_urls_length [of cfg] by auto
  from post_urls_diags [OF this run [unfolded post_chat_def Let_def]] completion_urls_length [of cfg] run
  show ?thesis by auto
qed

section \<open>Validation\<close>

text \<open>
  C30: the validator accepts a value exactly when it conforms to the schema, read as a
  declarative definition of the supported keywords.
\<close>

theorem validate_arguments_iff_conforms:
  "validate_value L schema v path = Ok () \<longleftrightarrow> conforms L schema v"
  by (rule validate_value_conforms(1))



text \<open>
  C32: under a validated profile a run never leaves the session in an unknown phase: after it the
  active phase, if any, is one of the configured ones.
\<close>

theorem run_stays_in_configured_phase:
  assumes "validate_config L cfg = Ok ()" "c_workflow cfg = Some wc" "driven E L cfg s" "s_status s \<noteq> ''complete''"
    and run: "run E L cfg requested (s, w) = (r, s', w')"
  shows "active_configured cfg wc s'"
proof -
  obtain hist where "wf_reach L cfg s' hist"
    using workflow_log.run_preserves [OF assms(3,4) run] by (auto simp: driven_def)
  then show ?thesis by (rule wf_reach_active_configured [OF _ validate_config_Ok(2) [OF assms(1,2)] assms(2)])
qed

theorem run_stays_in_configured_phase_witness:
  "\<exists>r s' w'. run sample_env sample_lib sample_config None sample_start = (r, s', w')
     \<and> active_configured sample_config sample_workflow s'"
proof -
  obtain r s' w' where run: "run sample_env sample_lib sample_config None (sample_session, 0, [], \<lambda>_. None) = (r, s', w')"
    by (metis prod_cases3)
  have v: "validate_config sample_lib sample_config = Ok ()" by code_simp
  have "c_workflow sample_config = Some sample_workflow" by (simp add: sample_config_def)
  from run_stays_in_configured_phase [OF v this sample_driven _ run] sample_fields(1)
  have "active_configured sample_config sample_workflow s'" by simp
  then show ?thesis using run unfolding sample_start_def by blast
qed

text \<open>
  A call that is not refused has no decoding error, is allowed in its phase, and every
  argument bound to a captured result is bound to a value that exists and equals the argument.
\<close>

theorem accepted_action_respects_bindings:
  assumes "action_rejection L cfg s ph name args invalid = None"
  shows "invalid = None \<and> \<not> tools_disabled cfg
    \<and> (case ph of Some i \<Rightarrow> allowed_in_phase cfg i name | None \<Rightarrow> c_workflow cfg = None)
    \<and> (\<forall>b\<in>set (bindings cfg). get_str b ''tool'' = Some name \<longrightarrow>
         (\<exists>v. bound_value cfg s b = Some v
            \<and> (\<forall>actual. map_of args (unwrap_or [] (get_str b ''argument'')) = Some actual \<longrightarrow> typed_equal L actual v)))"
  using action_rejection_None [OF assms] binding_error_None [of L cfg s name args] by blast

theorem accepted_action_respects_bindings_witness:
  "action_rejection sample_lib sample_config sample_session (Some ''p'') ''look'' [] None = None
     \<and> allowed_in_phase sample_config ''p'' ''look''"
proof -
  have "action_rejection sample_lib sample_config sample_session (Some ''p'') ''look'' [] None = None" by code_simp
  from accepted_action_respects_bindings [OF this] this show ?thesis by simp
qed

section \<open>Data formats\<close>

text \<open>
  C33: two spellings of decimal numbers compare equal exactly when both are accepted and denote
  the same rational number, whatever their signs of zero, padding zeros and exponents.
\<close>

theorem decimal_equal_iff:
  "decimal_equal a b \<longleftrightarrow>
     (\<exists>x y p q. canonical_dec a = Some x \<and> canonical_dec b = Some y \<and> dec_parts a = Some p \<and> dec_parts b = Some q
        \<and> parts_val p = parts_val q)"
proof
  assume "decimal_equal a b"
  then obtain x where "canonical_dec a = Some x" "canonical_dec b = Some x"
    by (auto simp: decimal_equal_def split: option.splits)
  then show "\<exists>x y p q. canonical_dec a = Some x \<and> canonical_dec b = Some y \<and> dec_parts a = Some p
      \<and> dec_parts b = Some q \<and> parts_val p = parts_val q"
    by (metis canonical_dec_Some)
next
  assume "\<exists>x y p q. canonical_dec a = Some x \<and> canonical_dec b = Some y \<and> dec_parts a = Some p
      \<and> dec_parts b = Some q \<and> parts_val p = parts_val q"
  then obtain x y where "canonical_dec a = Some x" "canonical_dec b = Some y" "dec_normal x" "dec_normal y"
    "dec_val x = dec_val y"
    by (metis canonical_dec_Some option.inject)
  then show "decimal_equal a b" using dec_val_unique by (simp add: decimal_equal_def)
qed

text \<open>
  Text placed in a rendered ledger is read back unchanged, and its markup cannot open or
  close a section.
\<close>

theorem ledger_text_roundtrip:
  "xml_unescape (xml_escape t) = Ok t \<and> CHR ''<'' \<notin> set (xml_escape t) \<and> CHR ''>'' \<notin> set (xml_escape t)"
  using xml_unescape_escape xml_escape_no_markup by blast



section \<open>Journals\<close>

text \<open>
  C35: appending a diagnostic keeps the counters, the cache of the most recent records, the rows
  waiting to be stored and the completeness flag in agreement with the whole history of each
  family, and it succeeds unless the family is unknown, an event is not a string or the counter
  is exhausted.
\<close>

theorem diagnostics_journal:
  assumes "journal_inv h b s"
  shows "(\<forall>s'. append_diagnostic s f p = Ok s' \<longrightarrow> journal_inv (h(f := h f @ [p])) b s')
    \<and> (f \<in> set families \<longrightarrow> (f = fam_events \<longrightarrow> is_string p) \<longrightarrow> int (length (h f)) < i64_max
         \<longrightarrow> (\<exists>s'. append_diagnostic s f p = Ok s'))"
  using append_diagnostic_inv [OF assms] append_diagnostic_succeeds [OF assms] by blast

theorem diagnostics_journal_witness:
  "\<exists>s'. append_diagnostic sample_session fam_decisions JNull = Ok s'
     \<and> journal_inv ((\<lambda>_. [])(fam_decisions := [JNull])) (\<lambda>_. 0) s'"
proof -
  have inv: "journal_inv (\<lambda>_. []) (\<lambda>_. 0) sample_session"
    by (rule journal_inv_empty) (auto simp: sample_session_def session_default_def family_cache_def)
  have "fam_decisions \<in> set families" "fam_decisions \<noteq> fam_events" by code_simp+
  then show ?thesis using diagnostics_journal [OF inv, of fam_decisions JNull] by (auto simp: i64_max_def)
qed

text \<open>
  C36: loading the stored diagnostics into a saved session restores the journal: the same counters
  and recent records, with nothing left to store.
\<close>

theorem diagnostics_restored:
  assumes "journal_inv h b s0" "s_diagnostic_counts s = s_diagnostic_counts s0" "s_diagnostic_counts s \<noteq> []"
    and "\<And>f. f \<in> set families \<Longrightarrow> unwrap_or 0 (map_of counts f) = int (length (h f))"
    and "\<And>f. f \<in> set families \<Longrightarrow>
        filter (\<lambda>r. d_family r = f) records = journal_rows f (length (h f) - recent_cap) (h f)"
  shows "\<exists>s'. hydrate s records counts = Ok s' \<and> journal_inv h (\<lambda>f. length (h f)) s'"
  by (rule hydrate_inv [OF assms])

theorem diagnostics_restored_witness:
  "\<exists>s0 s'. append_diagnostic sample_session fam_decisions JNull = Ok s0
     \<and> hydrate s0 (journal_rows fam_decisions 0 [JNull]) [(fam_decisions, 1)] = Ok s'
     \<and> journal_inv ((\<lambda>_. [])(fam_decisions := [JNull])) (\<lambda>f. length (((\<lambda>_. [])(fam_decisions := [JNull])) f)) s'"
proof -
  let ?h = "(\<lambda>_. [])(fam_decisions := [JNull])"
  have inv: "journal_inv (\<lambda>_. []) (\<lambda>_. 0) sample_session"
    by (rule journal_inv_empty) (auto simp: sample_session_def session_default_def family_cache_def)
  have "case append_diagnostic sample_session fam_decisions JNull of Inr s0 \<Rightarrow> s_diagnostic_counts s0 \<noteq> [] | Inl _ \<Rightarrow> False"
    by code_simp
  then obtain s0 where s0: "append_diagnostic sample_session fam_decisions JNull = Ok s0" "s_diagnostic_counts s0 \<noteq> []"
    by (auto split: sum.splits)
  have j: "journal_inv ?h (\<lambda>_. 0) s0" using append_diagnostic_inv [OF inv s0(1)] by simp
  have "\<exists>s'. hydrate s0 (journal_rows fam_decisions 0 [JNull]) [(fam_decisions, 1)] = Ok s' \<and> journal_inv ?h (\<lambda>f. length (?h f)) s'"
    by (rule diagnostics_restored [OF j refl s0(2)]) (auto simp: journal_rows_def recent_cap_def)
  then show ?thesis using s0(1) by blast
qed

text \<open>
  Messages and archive records are numbered consecutively from the base of the outbox, in
  the order in which they were added.
\<close>

theorem transcript_contiguous:
  assumes "staged_from base s"
  shows "staged_from base (append_message u now m s) \<and> staged_from base (archive_record u now kind body s)"
  using staged_from_append_message [OF assms] staged_from_archive_record [OF assms] by blast

theorem transcript_contiguous_witness:
  "staged_from 1 (append_message ''u'' ''now'' (msg ''user'' None) sample_session)"
proof -
  have "staged_from 1 sample_session" by (simp add: staged_from_def sample_session_def session_default_def)
  from transcript_contiguous [OF this] show ?thesis by blast
qed

text \<open>
  The keys under which evidence is recorded identify phase, scope and position.
\<close>

theorem evidence_keys_distinct:
  assumes "evidence_key p c i = evidence_key p' c' i'" "scope_ok c" "scope_ok c'"
  shows "p = p' \<and> c = c' \<and> i = i'"
  by (rule evidence_key_inject [OF assms])

theorem evidence_keys_distinct_witness:
  "evidence_key ''p'' (transition_scope 1) 0 \<noteq> evidence_key ''p'' (transition_scope 0) 1"
  using evidence_keys_distinct [of "''p''" "transition_scope 1" 0 "''p''" "transition_scope 0" 1] by auto

section \<open>Commands and leases\<close>

text \<open>
  C37: whatever order a hash map yields its entries in, the robust analysis of the access log ranks the
  addresses; the address it puts first has the most lines with status 500, and among equals the
  earliest one, and the validator accepts exactly this address with this count.
\<close>

theorem top_offender_found:
  assumes "hash_order X" "fx_fault D Log_Lines = None" "boolean a ''robust_parser''" "best_ips D = (ip, n, i) # rest"
  shows "run_tool X L D ''analyze_500_ips'' a = Done (top_answer L True ((ip, n, i) # rest))
    \<and> run_tool X L D ''validate_top_offending_ip'' b
        = Done (top_verdict L (Option.bind (map_of b ''ip'') as_str = Some ip \<and> xf64_i64 (number X b ''count'') = n))
    \<and> n = int (ip_hits ip (log_rows D))
    \<and> (ip_hits ip' (log_rows D) < ip_hits ip (log_rows D)
       \<or> ip_hits ip' (log_rows D) = ip_hits ip (log_rows D) \<and> ip_first ip (log_rows D) \<le> ip_first ip' (log_rows D))"
  using best_is_best [OF assms(4)] assms(3,4)
  by (simp add: run_tool_def inner_def analyze_best [OF assms(1,2)] validate_best [OF assms(1,2,4)] answered_def)

theorem top_offender_found_witness:
  "run_tool sample_fixture_lib sample_lib sample_fixture_db ''analyze_500_ips'' [(''robust_parser'', JBool True)]
    = Done (top_answer sample_lib True [(''9.9.9.9'', 2, 1), (''1.1.1.1'', 1, 2)])"
  using top_offender_found [OF sample_hash_order _ _ sample_best_ips, of "[(''robust_parser'', JBool True)]" sample_lib]
  by (simp add: sample_fixture_db_def boolean_def)

text \<open>
  C38: a tool answers with a text, its errors among them, in every case but four: a first line at the least
  integer, a median of no salary (asked for directly or by the validator of the audit), and ages
  whose sum leaves its type.
\<close>

theorem tool_failures_become_context:
  assumes "hash_order X"
  shows "(\<exists>text. run_tool X L D name a = Done text) \<longleftrightarrow> \<not> tool_panics X L D name a"
  using inner_panics [OF assms, of L D name a] run_tool_panic [of X L D name a]
  by (cases "run_tool X L D name a") auto

theorem tool_failures_become_context_witness:
  "\<not> (\<exists>text. run_tool sample_fixture_lib sample_lib sample_fixture_db ''validate_employee_audit'' [] = Done text)"
  using tool_failures_become_context [OF sample_hash_order, of sample_lib sample_fixture_db "''validate_employee_audit''" "[]"]
    sample_no_valid_salary by (simp add: tool_panics_def)

text \<open>
  C39: a request that repeats the key of a finished command is never executed again: however
  other workers interleave and wherever a statement fails, no route is reached, the recorded row stays as
  it is, and an answer is the recorded one, or the refusal when the route or the normalized
  body differ from those of the command.
\<close>

theorem finished_command_replayed:
  assumes host: "database L H" "quiet H P" and table: "table_ok (h_commands H w)" "row \<in> set (h_commands H w)" "P w"
    and row: "cm_response row = Some (status, answer)" "h_namespace H = Some (cm_namespace row)"
    and key: "rq_keys q = [Some (cm_key row)]" "valid_key (cm_key row) 1" "rq_small q"
    and route: "canonical_route (h_parse_uuid H) (rq_path q) = Some (route, sid)"
    and body: "rq_text q = Ok t" "parse_strict_json L t = Ok v" "normalize L (h_parse_uuid H) route v = Ok body"
    and sha: "request_sha256 L route body = Ok sha"
    and run: "admit L H q w = (r, w')"
  shows "P w' \<and> row \<in> set (h_commands H w') \<and>
    (\<forall>reply. r = Ok reply \<longrightarrow>
       reply = (if cm_sha256 row = sha \<and> cm_route row = route then replay_reply row status answer else reused_reply))"
proof -
  have "admit L H q = admit_body L H (cm_key row) route sid body"
    using key route body by (simp add: admit_def)
  with run have run': "admit_body L H (cm_key row) route sid body w = (r, w')" by simp
  have w: "recorded H P row w" using table by (simp add: recorded_def)
  have "recorded H P row w' \<and> (\<forall>reply. r = Ok reply \<longrightarrow>
       reply = (if cm_sha256 row = sha \<and> cm_route row = route then replay_reply row status answer else reused_reply))"
    using admit_body_replays [OF host row sha, of sid, unfolded answers_with_def, rule_format, OF w run'] by blast
  then show ?thesis unfolding recorded_def by blast
qed

theorem finished_command_replayed_witness:
  "\<exists>r rows n. admit sample_lib sample_host sample_request ([sample_row], 0) = (r, rows, n) \<and> n = 0 \<and> sample_row \<in> set rows
     \<and> (\<forall>reply. r = Ok reply \<longrightarrow> reply = replay_reply sample_row 200 (JStr ''answer''))"
proof -
  obtain r rows n where run: "admit sample_lib sample_host sample_request ([sample_row], 0) = (r, rows, n)" by (metis prod_cases3)
  have "snd (rows, n) = 0 \<and> sample_row \<in> set (h_commands sample_host (rows, n)) \<and>
    (\<forall>reply. r = Ok reply \<longrightarrow>
       reply = (if cm_sha256 sample_row = sample_sha \<and> cm_route sample_row = sample_route
                then replay_reply sample_row 200 (JStr ''answer'') else reused_reply))"
    by (rule finished_command_replayed [OF sample_host_laws, where w = "([sample_row], 0)" and q = sample_request
          and t = "''{}''" and v = "JObj []" and body = sample_body and sid = "Some ''s''"])
       (use run sample_row_fields sample_request_read sample_body_normal in \<open>simp_all add: sample_host_def sample_request_def\<close>)
  then show ?thesis using run sample_row_fields by (auto simp: sample_host_def)
qed

text \<open>
  C40: whatever statements the workers issue and in whatever order, identifiers and keys in the
  table of commands stay unique, and a row with a recorded response is never changed or removed.
\<close>

theorem finished_commands_final:
  assumes "table_ok rows" "table_steps L rows rows'"
  shows "table_ok rows' \<and> (\<forall>r\<in>set rows. cm_response r \<noteq> None \<longrightarrow> r \<in> set rows')"
proof -
  have "table_ok rows'" using assms(2,1) by (induction rule: rtranclp_induct) (auto dest: table_step_ok)
  then show ?thesis using table_steps_row [OF assms(2,1)] by blast
qed

theorem finished_commands_final_witness:
  "\<exists>rows'. table_step sample_lib [sample_row, sample_started ''a'' 1 50] rows'
     \<and> table_ok rows' \<and> sample_row \<in> set rows'"
proof -
  let ?rows = "[sample_row, sample_started ''a'' 1 50]"
  have step: "table_step sample_lib ?rows (renew_command 0 ''2'' ''a'' 1 ?rows)" by (rule table_step.renewed)
  have ok: "table_ok ?rows" by (simp add: table_ok_def row_ok_def sample_started_def sample_row_def new_row_def)
  from finished_commands_final [OF ok r_into_rtranclp [of "table_step sample_lib", OF step]] sample_row_fields(1) step
  show ?thesis by fastforce
qed

text \<open>
  Once another worker holds a command under another fence, the worker that held it before
  never passes the guard of a commit again, whatever the workers do to the table.
\<close>

theorem stale_command_rejected:
  assumes "table_ok rows" "guard now c rows = Ok ()" "table_steps L rows rows1"
    and "guard now1 c1 rows1 = Ok ()" "command_ident c = Some (i, owner, fence)"
    and "command_ident c1 = Some (i, owner1, fence1)" "fence1 \<noteq> fence" "table_steps L rows1 rows2"
  shows "guard now2 c rows2 = Err guard_lost"
  by (rule guard_stale [OF assms])

theorem stale_command_rejected_witness:
  "guard 7 (sample_token ''a'' 1) [sample_started ''b'' 2 (100 + lease_span)] = Err guard_lost"
proof (rule stale_command_rejected [OF _ sample_takeover(2) r_into_rtranclp [of "table_step sample_lib", OF sample_claim_step] sample_takeover(3)])
  show "table_ok [sample_started ''a'' 1 50]" by (simp add: table_ok_def row_ok_def sample_started_def new_row_def)
  show "command_ident (sample_token ''a'' 1) = Some (''2'', ''a'', 1)" "command_ident (sample_token ''b'' 2) = Some (''2'', ''b'', 2)"
    by code_simp+
qed simp_all

text \<open>
  After any interleaving of claims, renewals and releases of a session in which it was claimed
  again, the former owner holds it no more: its renewal fails and changes nothing. The claims have
  distinct, increasing fences.
\<close>

theorem stale_lease_rejected:
  assumes "lease_held now owner fence l" "evolves acquire_row lease_update l claims l'" "claims \<noteq> []"
  shows "renew_execution_lease now' owner fence (Some l') = (Err lease_lost, Some l')
    \<and> sorted_wrt (<) (fence # map snd claims)"
proof -
  have "fence = le_fence l" using assms(1) by (simp add: lease_held_def)
  then show ?thesis
    using session_lease.stale_claim [OF assms] session_lease.fences_grow [OF assms(2)]
    by (simp add: renew_execution_lease_def)
qed

theorem stale_lease_rejected_witness:
  "\<exists>l'. acquire_row 20 ''b'' sample_lease = Some (2, l') \<and> renew_execution_lease 5 ''a'' 1 (Some l') = (Err lease_lost, Some l')"
proof -
  obtain l' where l': "acquire_row 20 ''b'' sample_lease = Some (2, l')"
    by (simp add: acquire_row_Some sample_lease_def lease_available_def expired_def i64_max_def)
  have held: "lease_held 0 ''a'' 1 sample_lease" by (simp add: lease_held_def sample_lease_def unexpired_def)
  have "evolves acquire_row lease_update sample_lease ([] @ [(''b'', 2)]) l'"
    by (rule evolves.claimed, rule evolves.start, rule l')
  from stale_lease_rejected [OF held this, of 5] l' show ?thesis by auto
qed

text \<open>
  The normalized body of a command is a fixed point: admitting it again gives the same body,
  hence the same identity of the request.
\<close>

theorem normalize_idempotent:
  assumes "uuid_canonical parse_uuid" "normalize L parse_uuid route body = Ok body'"
  shows "normalize L parse_uuid route body' = Ok body'"
  by (rule normalize_idem [OF assms])

theorem normalize_idempotent_witness: "normalize sample_lib Some sample_route sample_body = Ok sample_body"
  by (rule normalize_idempotent [OF _ sample_body_normal]) (simp add: uuid_canonical_def)

section \<open>Timestamps\<close>

text \<open>
  The date of a timestamp is the calendar date: a valid day of a valid month, exactly the
  given number of days after the first of January 1970 in the Gregorian calendar.
\<close>

theorem timestamp_is_calendar_date:
  assumes "0 \<le> days"
  shows "case civil_date days of (y, m, d) \<Rightarrow> valid_date (y, m, d) \<and> date_days y m d - date_days 1970 1 1 = days"
proof (cases "civil_date days")
  case (fields y m d)
  from civil_date_correct [OF assms this] fields show ?thesis by simp
qed

theorem timestamp_is_calendar_date_witness:
  "civil_date 19782 = (2024, 2, 29) \<and> date_days 2024 2 29 - date_days 1970 1 1 = 19782"
proof -
  have "civil_date 19782 = (2024, 2, 29)" by code_simp
  then show ?thesis using timestamp_is_calendar_date [of 19782] by simp
qed

text \<open>
  A server listens only over a schema that has been checked and with a namespace, and has changed nothing until
  then; variables that exist, the main model apart, survive the \<^verbatim>\<open>.env\<close> file; every route that takes a
  \<open>POST\<close> is known to the admission of commands; two tasks of a process never hold one session.
\<close>

theorem server_checks_schema:
  assumes "main P A L H dotenv env args (k, d, n) = (Inr (Done (Serving port)), st')"
  shows "ho_schema H (px_others P n d) = None \<and> st' = (k, px_others P n d, n + 4)"
  using server_starts_checked [OF assms] by blast

end
